(* ===== verification/GoPrelude.thy ===== *)
theory GoPrelude
  imports Main "HOL-Library.Word"
begin

text \<open>
  What every component of the model shares: the machine integers of the Go code at their
  width, instants and durations, the string functions of the standard library the code
  calls, the collections of simplification rules, and generic lemmas on words and lists.

  Strings are byte sequences (\<open>char list\<close>). Case mapping and white space are those of
  the ASCII range; bytes from 128 up are left alone.
\<close>

section \<open>Collections of rules\<close>

named_theorems gostr_simps "evaluation of the string functions"
named_theorems gov_defs "definitions of the governor's guards"
named_theorems store_simps "what a store operation does to each table"

section \<open>Machine integers\<close>

type_synonym int64 = "64 word"
type_synonym int32 = "32 word"

text \<open>Addition of signed values is exact where the sum is in range, and wraps elsewhere.\<close>

lemma sint_add_exact64:
  fixes a b :: int64
  assumes "- (2 ^ 63) \<le> sint a + sint b" "sint a + sint b < 2 ^ 63"
  shows "sint (a + b) = sint a + sint b"
  using assms by (simp add: sint_word_ariths signed_take_bit_int_eq_self)

lemma sint_add_exact32:
  fixes a b :: int32
  assumes "- (2 ^ 31) \<le> sint a + sint b" "sint a + sint b < 2 ^ 31"
  shows "sint (a + b) = sint a + sint b"
  using assms by (simp add: sint_word_ariths signed_take_bit_int_eq_self)

lemma sint_range32: "- (2 ^ 31) \<le> sint (a :: int32)" "sint (a :: int32) < 2 ^ 31"
  using sint_ge [of a] sint_lt [of a] by simp_all

lemma sint_range64: "- (2 ^ 63) \<le> sint (a :: int64)" "sint (a :: int64) < 2 ^ 63"
  using sint_ge [of a] sint_lt [of a] by simp_all

lemma sint_succ32:
  fixes a :: int32
  assumes "sint a < 2 ^ 31 - 1"
  shows "sint (a + 1) = sint a + 1"
  using sint_add_exact32 [of a 1] assms sint_range32 [of a] by simp

section \<open>Instants and durations\<close>

text \<open>
  An instant is a number of nanoseconds; a \<open>time.Duration\<close> is an int64 of nanoseconds.
  \<open>Time.Sub\<close> saturates at the ends of the int64 range.
\<close>

type_synonym time = int

text \<open>The zero \<open>time.Time\<close> is 0001-01-01T00:00:00Z.\<close>

definition zero_time :: time where
  "zero_time = - 62135596800 * 1000000000"

definition maxDuration :: int where "maxDuration = 2 ^ 63 - 1"
definition minDuration :: int where "minDuration = - (2 ^ 63)"

definition time_sub :: "time \<Rightarrow> time \<Rightarrow> int" where
  "time_sub t u = max minDuration (min maxDuration (t - u))"

text \<open>\<open>time.Duration(s) * time.Second\<close>: an int64 product.\<close>

definition seconds_duration :: "int32 \<Rightarrow> int64" where
  "seconds_duration s = scast s * 1000000000"

lemma sint_seconds_duration: "sint (seconds_duration s) = sint s * 1000000000"
proof -
  have c: "sint (scast s :: int64) = sint s"
    by (rule sint_up_scast) (simp add: is_up)
  have "sint (seconds_duration s) = signed_take_bit 63 (sint s * 1000000000)"
    by (simp add: seconds_duration_def sint_word_ariths c)
  also have "\<dots> = sint s * 1000000000"
    using sint_range32 [of s] by (intro signed_take_bit_int_eq_self) simp_all
  finally show ?thesis .
qed

lemma time_sub_ge_iff:
  assumes "minDuration < d" "d \<le> maxDuration"
  shows "d \<le> time_sub t u \<longleftrightarrow> d \<le> t - u"
  using assms by (auto simp: time_sub_def)

section \<open>Package strings\<close>

definition lower_char :: "char \<Rightarrow> char" where
  "lower_char c = (let n = of_char c :: nat in if 65 \<le> n \<and> n \<le> 90 then char_of (n + 32) else c)"

definition ToLower :: "string \<Rightarrow> string" where
  "ToLower s = map lower_char s"

definition HasPrefix :: "string \<Rightarrow> string \<Rightarrow> bool" where
  "HasPrefix s p \<longleftrightarrow> take (length p) s = p"

definition HasSuffix :: "string \<Rightarrow> string \<Rightarrow> bool" where
  "HasSuffix s p \<longleftrightarrow> length p \<le> length s \<and> drop (length s - length p) s = p"

definition TrimPrefix :: "string \<Rightarrow> string \<Rightarrow> string" where
  "TrimPrefix s p = (if HasPrefix s p then drop (length p) s else s)"

definition TrimSuffix :: "string \<Rightarrow> string \<Rightarrow> string" where
  "TrimSuffix s p = (if HasSuffix s p then take (length s - length p) s else s)"

definition is_space :: "char \<Rightarrow> bool" where
  "is_space c = (let n = of_char c :: nat in n = 32 \<or> 9 \<le> n \<and> n \<le> 13)"

definition TrimLeftSpace :: "string \<Rightarrow> string" where
  "TrimLeftSpace s = dropWhile is_space s"

definition TrimSpace :: "string \<Rightarrow> string" where
  "TrimSpace s = rev (dropWhile is_space (rev (dropWhile is_space s)))"

text \<open>\<open>strings.Cut\<close> at the first occurrence of a separator; None when it does not occur.\<close>

fun Cut :: "string \<Rightarrow> string \<Rightarrow> (string \<times> string) option" where
  "Cut [] sep = (if sep = [] then Some ([], []) else None)"
| "Cut (c # s) sep =
     (if HasPrefix (c # s) sep then Some ([], drop (length sep) (c # s))
      else map_option (\<lambda>(b, a). (c # b, a)) (Cut s sep))"

definition Contains :: "string \<Rightarrow> string \<Rightarrow> bool" where
  "Contains s sub \<longleftrightarrow> Cut s sub \<noteq> None"

text \<open>\<open>strings.Split\<close> by a one-byte separator.\<close>

fun Split1 :: "char \<Rightarrow> string \<Rightarrow> string list" where
  "Split1 sep [] = [[]]"
| "Split1 sep (c # s) = (if c = sep then [] # Split1 sep s
     else (case Split1 sep s of [] \<Rightarrow> [[c]] | w # ws \<Rightarrow> (c # w) # ws))"

fun Join :: "string \<Rightarrow> string list \<Rightarrow> string" where
  "Join sep [] = []"
| "Join sep [w] = w"
| "Join sep (w # ws) = w @ sep @ Join sep ws"

lemma lower_char_idem [simp]: "lower_char (lower_char c) = lower_char c"
  by (auto simp: lower_char_def Let_def)

lemma ToLower_idem [simp]: "ToLower (ToLower s) = ToLower s"
  by (simp add: ToLower_def o_def)

lemma length_ToLower [simp]: "length (ToLower s) = length s"
  by (simp add: ToLower_def)

lemma HasPrefix_empty [simp]: "HasPrefix s []"
  by (simp add: HasPrefix_def)

lemma HasPrefix_Nil [simp]: "HasPrefix [] p \<longleftrightarrow> p = []"
  by (auto simp: HasPrefix_def)

lemma HasPrefix_iff: "HasPrefix s p \<longleftrightarrow> (\<exists>t. s = p @ t)"
  by (metis HasPrefix_def append_eq_conv_conj append_take_drop_id)

lemma HasPrefix_append [simp]: "HasPrefix (p @ t) p"
  by (simp add: HasPrefix_def)

lemma HasPrefix_same_length:
  "HasPrefix s p \<Longrightarrow> HasPrefix s q \<Longrightarrow> length p = length q \<Longrightarrow> p = q"
  by (metis HasPrefix_def)

lemma HasPrefix_length: "HasPrefix s p \<Longrightarrow> length p \<le> length s"
  by (auto simp: HasPrefix_iff)

lemma HasSuffix_iff: "HasSuffix s p \<longleftrightarrow> (\<exists>t. s = t @ p)"
  by (metis HasSuffix_def append_eq_append_conv_if append_take_drop_id diff_le_self
      length_append append_eq_conv_conj le_add2 add_diff_cancel_right')

lemma Cut_Some: "Cut s sep = Some (b, a) \<Longrightarrow> s = b @ sep @ a"
  by (induction s arbitrary: b) (auto simp: HasPrefix_iff split: if_splits)

lemma Join_Split1: "Join [sep] (Split1 sep s) = s"
proof (induction s)
  case (Cons c s)
  have ne: "Split1 sep t \<noteq> []" for t by (cases t) (auto split: list.splits)
  from Cons ne [of s] show ?case
    by (cases "Split1 sep s"; cases "tl (Split1 sep s)") auto
qed simp

end
