(* ===== verification/Float64.thy ===== *)
theory Float64
  imports Complex_Main GoPrelude
begin

text \<open>
  Go's \<open>float64\<close>: IEEE 754 binary64 with rounding to nearest, ties to even. A finite
  value is the rational number it denotes, so the two zeros are one value (they compare
  equal, and no code modelled here divides by a zero or prints a sign). Every operation
  computes the exact rational result and rounds it once; no operation is fused.

  The lemmas show that rounding is monotone and leaves a representable value alone, which
  is what makes a ledger of non-negative costs monotone although each addition rounds.
\<close>

section \<open>Rounding to an integer, ties to even\<close>

definition rne :: "rat \<Rightarrow> int" where
  "rne x = (let f = \<lfloor>x\<rfloor>; d = x - of_int f in
     if d < 1 / 2 then f else if 1 / 2 < d then f + 1 else if even f then f else f + 1)"

lemma rne_of_int [simp]: "rne (of_int n) = n"
  by (simp add: rne_def)

lemma rne_cases: "rne x = \<lfloor>x\<rfloor> \<or> rne x = \<lfloor>x\<rfloor> + 1"
  by (simp add: rne_def Let_def)

lemma rne_mono:
  assumes "x \<le> y"
  shows "rne x \<le> rne y"
proof (cases "\<lfloor>x\<rfloor> = \<lfloor>y\<rfloor>")
  case True
  then show ?thesis using assms by (auto simp: rne_def Let_def)
next
  case False
  with floor_mono [OF assms] have "\<lfloor>x\<rfloor> + 1 \<le> \<lfloor>y\<rfloor>" by linarith
  then show ?thesis using rne_cases [of x] rne_cases [of y] by linarith
qed

section \<open>The exponent of a positive rational\<close>

lemma pow2_le_of_nat: "2 ^ k \<le> n \<Longrightarrow> (2 :: rat) ^ k \<le> of_nat n"
  using of_nat_mono [of "2 ^ k" n, where 'a = rat] by simp

lemma of_nat_le_pow2: "n + 1 \<le> 2 ^ k \<Longrightarrow> (of_nat n :: rat) + 1 \<le> 2 ^ k"
  using of_nat_mono [of "n + 1" "2 ^ k", where 'a = rat] by (simp add: add.commute)

fun ilog2 :: "nat \<Rightarrow> nat" where
  "ilog2 n = (if n \<le> 1 then 0 else Suc (ilog2 (n div 2)))"

declare ilog2.simps [simp del]

lemma ilog2_bounds: "0 < n \<Longrightarrow> 2 ^ ilog2 n \<le> n \<and> n < 2 ^ Suc (ilog2 n)"
proof (induction n rule: ilog2.induct)
  case (1 n)
  show ?case
  proof (cases "n \<le> 1")
    case True
    with 1 show ?thesis by (simp add: ilog2.simps [of n])
  next
    case False
    with 1 have "2 ^ ilog2 (n div 2) \<le> n div 2 \<and> n div 2 < 2 ^ Suc (ilog2 (n div 2))"
      by simp
    then have "2 * 2 ^ ilog2 (n div 2) \<le> n" "n < 2 * (2 * 2 ^ ilog2 (n div 2))"
      by auto
    with False show ?thesis by (simp add: ilog2.simps [of n])
  qed
qed

text \<open>\<open>exp2 q\<close> is the binary exponent of \<open>q\<close>: the \<open>e\<close> with \<open>2 ^ e \<le> q < 2 ^ (e + 1)\<close>.\<close>

definition exp2 :: "rat \<Rightarrow> int" where
  "exp2 q = (if 1 \<le> q then int (ilog2 (nat \<lfloor>q\<rfloor>)) else - int (Suc (ilog2 (nat (\<lceil>1 / q\<rceil> - 1)))))"

lemma exp2_bounds_ge1:
  fixes q :: rat
  assumes "1 \<le> q"
  shows "2 ^ ilog2 (nat \<lfloor>q\<rfloor>) \<le> q \<and> q < 2 ^ Suc (ilog2 (nat \<lfloor>q\<rfloor>))"
proof -
  let ?n = "nat \<lfloor>q\<rfloor>"
  have n: "0 < ?n" "int ?n = \<lfloor>q\<rfloor>" using assms by (auto simp: le_floor_iff)
  have b: "2 ^ ilog2 ?n \<le> ?n" "?n < 2 ^ Suc (ilog2 ?n)" using ilog2_bounds [OF n(1)] by auto
  have "(2 :: rat) ^ ilog2 ?n \<le> of_nat ?n"
    using b(1) by (rule pow2_le_of_nat)
  also have "(of_nat ?n :: rat) = of_int \<lfloor>q\<rfloor>" using n(2) by (metis of_int_of_nat_eq)
  also have "\<dots> \<le> q" by simp
  finally have l: "2 ^ ilog2 ?n \<le> q" .
  have "?n + 1 \<le> 2 ^ Suc (ilog2 ?n)" using b(2) by simp
  then have "(of_nat ?n + 1 :: rat) \<le> 2 ^ Suc (ilog2 ?n)" by (rule of_nat_le_pow2)
  moreover have "q < of_nat ?n + 1"
    using n(2) by (metis floor_correct of_int_1 of_int_add of_int_of_nat_eq)
  ultimately show ?thesis using l by linarith
qed

lemma exp2_bounds:
  assumes "0 < q"
  shows "2 powi exp2 q \<le> q \<and> q < 2 powi (exp2 q + 1)"
proof (cases "1 \<le> q")
  case True
  with exp2_bounds_ge1 [OF True] show ?thesis
    by (simp add: exp2_def power_int_add)
next
  case False
  define m where "m = nat (\<lceil>1 / q\<rceil> - 1)"
  let ?k = "ilog2 m"
  from False assms have q1: "1 < 1 / q" by simp
  then have c: "1 < \<lceil>1 / q\<rceil>" by (simp only: less_ceiling_iff of_int_1)
  have m: "0 < m" "int m = \<lceil>1 / q\<rceil> - 1"
    unfolding m_def using c by linarith+
  have b: "2 ^ ?k \<le> m" "m + 1 \<le> 2 ^ Suc ?k" using ilog2_bounds [OF m(1)] by auto
  have "(2 :: rat) ^ ?k \<le> of_nat m"
    using b(1) by (rule pow2_le_of_nat)
  also have "(of_nat m :: rat) = of_int \<lceil>1 / q\<rceil> - 1"
    using m(2) by (metis of_int_1 of_int_diff of_int_of_nat_eq)
  also have "\<dots> < 1 / q" using ceiling_correct [of "1 / q"] by linarith
  finally have "2 ^ ?k < 1 / q" .
  then have u: "q < 1 / 2 ^ ?k" using assms by (simp add: field_simps)
  have "1 / q \<le> of_int \<lceil>1 / q\<rceil>" by simp
  also have "(of_int \<lceil>1 / q\<rceil> :: rat) = of_nat m + 1"
    using m(2) by (metis diff_add_cancel of_int_1 of_int_add of_int_of_nat_eq)
  also have "\<dots> \<le> 2 ^ Suc ?k"
    using b(2) by (rule of_nat_le_pow2)
  finally have "1 / 2 ^ Suc ?k \<le> q" using assms by (simp add: field_simps)
  moreover have "exp2 q = - int (Suc ?k)" using False by (simp add: exp2_def m_def)
  moreover have "(2 :: rat) powi (- int (Suc ?k)) = 1 / 2 ^ Suc ?k"
    by (simp only: power_int_minus power_int_of_nat inverse_eq_divide)
  moreover have "(2 :: rat) powi (- int (Suc ?k) + 1) = 1 / 2 ^ ?k"
  proof -
    have "- int (Suc ?k) + 1 = - int ?k" by simp
    then show ?thesis by (simp only: power_int_minus power_int_of_nat inverse_eq_divide)
  qed
  ultimately show ?thesis using u by simp
qed

section \<open>Rounding to binary64\<close>

datatype float64 = NaN | NegInf | PosInf | Fin rat

text \<open>
  The grid a positive rational is rounded to: multiples of \<open>2 ^ quantum q\<close>, where a normal
  number keeps 53 significant bits and a subnormal one is a multiple of \<open>2 ^ -1074\<close>.
\<close>

definition quantum :: "rat \<Rightarrow> int" where
  "quantum q = max (exp2 q - 52) (- 1074)"

definition round_pos :: "rat \<Rightarrow> rat" where
  "round_pos q = (let u = 2 powi quantum q in of_int (rne (q / u)) * u)"

definition round_rat :: "rat \<Rightarrow> rat" where
  "round_rat q = (if q = 0 then 0 else if 0 < q then round_pos q else - round_pos (- q))"

definition f64 :: "rat \<Rightarrow> float64" where
  "f64 q = (let r = round_rat q in
     if 2 ^ 1024 \<le> r then PosInf else if r \<le> - (2 ^ 1024) then NegInf else Fin r)"

lemma round_pos_nonneg: "0 < q \<Longrightarrow> 0 \<le> round_pos q"
  using rne_mono [of 0 "q / 2 powi quantum q"] rne_of_int [of 0]
  by (simp add: round_pos_def Let_def)

text \<open>A power of two at or above the quantum is on the grid.\<close>

lemma pow2_on_grid:
  assumes "quantum q \<le> e"
  shows "\<exists>n. (2 :: rat) powi e / 2 powi quantum q = of_int n"
proof -
  have "(2 :: rat) powi e / 2 powi quantum q = 2 powi (e - quantum q)"
    by (simp add: power_int_diff)
  also have "\<dots> = 2 ^ nat (e - quantum q)"
    using assms by (simp add: power_int_def)
  also have "\<dots> = of_int (2 ^ nat (e - quantum q))" by simp
  finally show ?thesis by blast
qed

lemma round_pos_le_grid:
  assumes "0 < q" "q \<le> 2 powi e" "quantum q \<le> e"
  shows "round_pos q \<le> 2 powi e"
proof -
  let ?u = "(2 :: rat) powi quantum q"
  obtain n where n: "2 powi e / ?u = of_int n" using pow2_on_grid [OF assms(3)] by blast
  have "q / ?u \<le> of_int n" using assms(2) by (simp add: n [symmetric] divide_right_mono)
  from rne_mono [OF this] have "(of_int (rne (q / ?u)) :: rat) \<le> of_int n" by simp
  then have "of_int (rne (q / ?u)) * ?u \<le> of_int n * ?u" by (simp add: mult_right_mono)
  then show ?thesis by (simp add: round_pos_def Let_def n [symmetric])
qed

lemma round_pos_ge_grid:
  assumes "0 < q" "2 powi e \<le> q" "quantum q \<le> e"
  shows "2 powi e \<le> round_pos q"
proof -
  let ?u = "(2 :: rat) powi quantum q"
  obtain n where n: "2 powi e / ?u = of_int n" using pow2_on_grid [OF assms(3)] by blast
  have "of_int n \<le> q / ?u" using assms(2) by (simp add: n [symmetric] divide_right_mono)
  from rne_mono [OF this] have "(of_int n :: rat) \<le> of_int (rne (q / ?u))" by simp
  then have "of_int n * ?u \<le> of_int (rne (q / ?u)) * ?u" by (simp add: mult_right_mono)
  then show ?thesis by (simp add: round_pos_def Let_def n [symmetric])
qed

lemma round_pos_same_quantum:
  assumes "quantum p = quantum q" "p \<le> q"
  shows "round_pos p \<le> round_pos q"
  using assms rne_mono [of "p / 2 powi quantum q" "q / 2 powi quantum q"]
  by (simp add: round_pos_def Let_def divide_right_mono mult_right_mono)

lemma exp2_mono:
  assumes "0 < p" "p \<le> q"
  shows "exp2 p \<le> exp2 q"
proof (rule ccontr)
  assume "\<not> exp2 p \<le> exp2 q"
  then have "(2 :: rat) powi (exp2 q + 1) \<le> 2 powi exp2 p" by (simp add: power_int_increasing)
  also have "\<dots> \<le> p" using exp2_bounds assms by simp
  also note assms(2)
  also have "q < 2 powi (exp2 q + 1)" using exp2_bounds [of q] assms by simp
  finally show False by simp
qed

lemma round_pos_mono:
  assumes "0 < p" "p \<le> q"
  shows "round_pos p \<le> round_pos q"
proof (cases "quantum p = quantum q")
  case True
  then show ?thesis using assms(2) by (rule round_pos_same_quantum)
next
  case False
  from assms have q: "0 < q" by simp
  from False exp2_mono [OF assms] have lt: "exp2 p < exp2 q" and qq: "quantum q = exp2 q - 52"
    and qp: "quantum p \<le> exp2 q"
    by (auto simp: quantum_def max_def split: if_splits)
  have "p \<le> 2 powi (exp2 p + 1)" using exp2_bounds [OF assms(1)] by simp
  also have "\<dots> \<le> 2 powi exp2 q" using lt by (simp add: power_int_increasing)
  finally have "round_pos p \<le> 2 powi exp2 q" by (rule round_pos_le_grid [OF assms(1) _ qp])
  also have "\<dots> \<le> round_pos q"
    using exp2_bounds [OF q] qq by (intro round_pos_ge_grid [OF q]) simp_all
  finally show ?thesis .
qed

lemma round_rat_mono:
  assumes "p \<le> q"
  shows "round_rat p \<le> round_rat q"
proof -
  consider "0 < p" | "p \<le> 0" "0 \<le> q" | "q < 0" by linarith
  then show ?thesis
  proof cases
    case 1
    with assms show ?thesis by (simp add: round_rat_def round_pos_mono)
  next
    case 2
    then have "round_rat p \<le> 0" "0 \<le> round_rat q"
      using round_pos_nonneg [of q] round_pos_nonneg [of "- p"] by (auto simp: round_rat_def)
    then show ?thesis by simp
  next
    case 3
    with assms show ?thesis by (simp add: round_rat_def round_pos_mono)
  qed
qed

lemma round_pos_on_grid:
  assumes "q / 2 powi quantum q = of_int n"
  shows "round_pos q = q"
proof -
  have "round_pos q = of_int n * 2 powi quantum q"
    by (simp only: round_pos_def Let_def assms rne_of_int)
  also have "\<dots> = q" by (simp add: assms [symmetric])
  finally show ?thesis .
qed

lemma round_pos_idem:
  assumes "0 < q" "0 < round_pos q"
  shows "round_pos (round_pos q) = round_pos q"
proof -
  let ?k = "quantum q" and ?r = "round_pos q"
  define n where "n = rne (q / 2 powi ?k)"
  have r: "?r = of_int n * 2 powi ?k" by (simp add: round_pos_def Let_def n_def)
  have "q \<le> 2 powi (exp2 q + 1)" using exp2_bounds [OF assms(1)] by simp
  also have "\<dots> \<le> 2 powi (?k + 53)" by (simp add: quantum_def power_int_increasing)
  finally have le: "?r \<le> 2 powi (?k + 53)" by (rule round_pos_le_grid [OF assms(1)]) simp
  show ?thesis
  proof (cases "quantum ?r \<le> ?k")
    case True
    obtain m where m: "(2 :: rat) powi ?k / 2 powi quantum ?r = of_int m"
      using pow2_on_grid [OF True] by blast
    have "?r / 2 powi quantum ?r = of_int (n * m)" by (simp add: r m [symmetric])
    then show ?thesis by (rule round_pos_on_grid)
  next
    case False
    then have e: "?k + 53 \<le> exp2 ?r" and k: "quantum ?r = exp2 ?r - 52"
      by (auto simp: quantum_def max_def split: if_splits)
    have "(2 :: rat) powi (?k + 53) \<le> 2 powi exp2 ?r" using e by (simp add: power_int_increasing)
    also have low: "\<dots> \<le> ?r" using exp2_bounds [OF assms(2)] by simp
    finally have "?r = 2 powi (?k + 53)" using le by simp
    with low e have top: "?r = 2 powi exp2 ?r"
      using le power_int_increasing [OF e, of "2 :: rat"] by simp
    obtain m where "(2 :: rat) powi exp2 ?r / 2 powi quantum ?r = of_int m"
      using pow2_on_grid [of ?r "exp2 ?r"] k by auto
    with top have "?r / 2 powi quantum ?r = of_int m" by simp
    then show ?thesis by (rule round_pos_on_grid)
  qed
qed

lemma round_rat_0 [simp]: "round_rat 0 = 0"
  by (simp add: round_rat_def)

lemma round_rat_nonneg: "0 \<le> q \<Longrightarrow> 0 \<le> round_rat q"
  using round_rat_mono [of 0 q] by simp

lemma round_rat_idem: "round_rat (round_rat q) = round_rat q"
proof -
  consider "q = 0" | "0 < q" | "q < 0" by linarith
  then show ?thesis
  proof cases
    case 1
    then show ?thesis by simp
  next
    case 2
    then show ?thesis
      using round_pos_nonneg [OF 2] round_pos_idem [OF 2]
      by (cases "round_pos q = 0") (auto simp: round_rat_def)
  next
    case 3
    then have "0 < - q" by simp
    from 3 show ?thesis
      using round_pos_nonneg [OF \<open>0 < - q\<close>] round_pos_idem [OF \<open>0 < - q\<close>]
      by (cases "round_pos (- q) = 0") (auto simp: round_rat_def)
  qed
qed

section \<open>Operations and comparisons\<close>

fun fadd :: "float64 \<Rightarrow> float64 \<Rightarrow> float64" where
  "fadd (Fin a) (Fin b) = f64 (a + b)"
| "fadd NaN _ = NaN"
| "fadd _ NaN = NaN"
| "fadd PosInf NegInf = NaN"
| "fadd NegInf PosInf = NaN"
| "fadd PosInf _ = PosInf"
| "fadd NegInf _ = NegInf"
| "fadd _ y = y"

fun fneg :: "float64 \<Rightarrow> float64" where
  "fneg NaN = NaN"
| "fneg NegInf = PosInf"
| "fneg PosInf = NegInf"
| "fneg (Fin a) = Fin (- a)"

definition fsub :: "float64 \<Rightarrow> float64 \<Rightarrow> float64" where
  "fsub x y = fadd x (fneg y)"

definition finf_times :: "bool \<Rightarrow> rat \<Rightarrow> float64" where
  "finf_times neg a = (if a = 0 then NaN else if (a < 0) = neg then PosInf else NegInf)"

fun fmul :: "float64 \<Rightarrow> float64 \<Rightarrow> float64" where
  "fmul (Fin a) (Fin b) = f64 (a * b)"
| "fmul NaN _ = NaN"
| "fmul _ NaN = NaN"
| "fmul PosInf (Fin b) = finf_times False b"
| "fmul NegInf (Fin b) = finf_times True b"
| "fmul (Fin a) PosInf = finf_times False a"
| "fmul (Fin a) NegInf = finf_times True a"
| "fmul PosInf PosInf = PosInf"
| "fmul NegInf NegInf = PosInf"
| "fmul _ _ = NegInf"

text \<open>Division by a constant other than zero, as in \<open>x / 1e6\<close>.\<close>

fun fdivc :: "float64 \<Rightarrow> rat \<Rightarrow> float64" where
  "fdivc (Fin a) c = f64 (a / c)"
| "fdivc x c = (if 0 < c then x else fneg x)"

definition f64_of_int64 :: "int64 \<Rightarrow> float64" where
  "f64_of_int64 n = f64 (of_int (sint n))"

text \<open>Comparisons are false when an operand is not a number.\<close>

fun flt :: "float64 \<Rightarrow> float64 \<Rightarrow> bool" where
  "flt NaN _ = False"
| "flt _ NaN = False"
| "flt (Fin a) (Fin b) = (a < b)"
| "flt PosInf _ = False"
| "flt _ NegInf = False"
| "flt _ _ = True"

fun fle :: "float64 \<Rightarrow> float64 \<Rightarrow> bool" where
  "fle NaN _ = False"
| "fle _ NaN = False"
| "fle (Fin a) (Fin b) = (a \<le> b)"
| "fle NegInf _ = True"
| "fle _ PosInf = True"
| "fle _ _ = False"

abbreviation fzero :: float64 where "fzero \<equiv> Fin 0"

text \<open>A value a \<open>float64\<close> variable can hold.\<close>

fun representable :: "float64 \<Rightarrow> bool" where
  "representable (Fin q) = (f64 q = Fin q)"
| "representable _ = True"

section \<open>Values that are exact\<close>

lemma exp2_less:
  assumes "0 < q" "q < 2 powi e"
  shows "exp2 q < e"
proof (rule ccontr)
  assume "\<not> exp2 q < e"
  then have "(2 :: rat) powi e \<le> 2 powi exp2 q" by (simp add: power_int_increasing)
  with assms exp2_bounds [OF assms(1)] show False by simp
qed

lemma round_pos_dyadic:
  assumes "0 < n" "n < 2 ^ 53" "k \<le> 1074"
  shows "round_pos (of_int n / 2 ^ k) = of_int n / 2 ^ k"
proof -
  let ?q = "of_int n / 2 ^ k :: rat"
  have pos: "0 < ?q" using assms(1) by simp
  have p53: "(2 :: rat) powi (53 - int k) = 2 ^ 53 / 2 ^ k" by (simp add: power_int_diff)
  have "(of_int n :: rat) < of_int (2 ^ 53)" using assms(2) by (simp only: of_int_less_iff)
  then have "?q < 2 powi (53 - int k)" by (simp add: p53 divide_strict_right_mono)
  with pos have "exp2 ?q < 53 - int k" by (rule exp2_less)
  then have "quantum ?q \<le> - int k" using assms(3) by (simp add: quantum_def)
  from pow2_on_grid [OF this] obtain m
    where m: "(2 :: rat) powi (- int k) / 2 powi quantum ?q = of_int m" by blast
  have "?q = of_int n * 2 powi (- int k)"
    by (simp add: power_int_minus divide_inverse)
  then have "?q / 2 powi quantum ?q = of_int n * (2 powi (- int k) / 2 powi quantum ?q)"
    by (metis times_divide_eq_right)
  then have "?q / 2 powi quantum ?q = of_int (n * m)" by (simp add: m)
  then show ?thesis by (rule round_pos_on_grid)
qed

lemma f64_dyadic:
  assumes "\<bar>n\<bar> < 2 ^ 53" "k \<le> 1074"
  shows "f64 (of_int n / 2 ^ k) = Fin (of_int n / 2 ^ k)"
proof -
  have r: "round_rat (of_int n / 2 ^ k) = of_int n / 2 ^ k"
  proof -
    consider "n = 0" | "0 < n" | "n < 0" by linarith
    then show ?thesis
    proof cases
      case 1
      then show ?thesis by (simp add: round_rat_def)
    next
      case 2
      then show ?thesis using assms round_pos_dyadic [of n k] by (simp add: round_rat_def)
    next
      case 3
      then have "(of_int n / 2 ^ k :: rat) < 0" by (simp add: divide_neg_pos)
      with 3 show ?thesis using assms round_pos_dyadic [of "- n" k] by (simp add: round_rat_def)
    qed
  qed
  have "\<bar>of_int n / 2 ^ k :: rat\<bar> \<le> \<bar>of_int n\<bar>"
    by (simp add: divide_le_eq mult_le_cancel_left1)
  also have "\<dots> = of_int \<bar>n\<bar>" by simp
  also have "\<dots> < of_int (2 ^ 53)" using assms(1) by (simp only: of_int_less_iff)
  also have "\<dots> < 2 ^ 1024" by simp
  finally have "\<bar>of_int n / 2 ^ k :: rat\<bar> < 2 ^ 1024" .
  then have "\<not> 2 ^ 1024 \<le> (of_int n / 2 ^ k :: rat)" "\<not> of_int n / 2 ^ k \<le> - (2 ^ 1024 :: rat)"
    unfolding abs_less_iff by linarith+
  then show ?thesis unfolding f64_def Let_def r by (simp only: if_False)
qed

lemma f64_int [simp]: "\<bar>n\<bar> < 2 ^ 53 \<Longrightarrow> f64 (of_int n) = Fin (of_int n)"
  using f64_dyadic [of n 0] by simp

lemma f64_numeral [simp]: "(numeral n :: int) < 2 ^ 53 \<Longrightarrow> f64 (numeral n) = Fin (numeral n)"
  using f64_int [of "numeral n"] by simp

lemma f64_one [simp]: "f64 1 = Fin 1"
  using f64_int [of 1] by simp

section \<open>Laws\<close>

lemma f64_0 [simp]: "f64 0 = Fin 0"
  by (simp add: f64_def)

lemma f64_mono: "p \<le> q \<Longrightarrow> fle (f64 p) (f64 q)"
  using round_rat_mono [of p q] by (auto simp: f64_def Let_def)

lemma f64_not_NaN [simp]: "f64 q \<noteq> NaN"
  by (simp add: f64_def Let_def)

lemma representable_f64 [simp]: "representable (f64 q)"
  by (auto simp: f64_def Let_def round_rat_idem)

lemma representable_fneg [simp]: "representable x \<Longrightarrow> representable (fneg x)"
  by (cases x) (auto simp: f64_def Let_def round_rat_def split: if_splits)

lemma representable_finf_times [simp]: "representable (finf_times s a)"
  by (simp add: finf_times_def)

lemma representable_fadd [simp]: "representable x \<Longrightarrow> representable y \<Longrightarrow> representable (fadd x y)"
  by (cases x; cases y) auto

lemma representable_fmul [simp]: "representable (fmul x y)"
  by (cases x; cases y) auto

lemma fle_refl [simp]: "x \<noteq> NaN \<Longrightarrow> fle x x"
  by (cases x) auto

lemma fle_trans: "fle x y \<Longrightarrow> fle y z \<Longrightarrow> fle x z"
  by (cases x; cases y; cases z) auto

lemma fle_not_NaN: "fle x y \<Longrightarrow> x \<noteq> NaN \<and> y \<noteq> NaN"
  by (cases x; cases y) auto

lemma flt_iff_not_fle: "x \<noteq> NaN \<Longrightarrow> y \<noteq> NaN \<Longrightarrow> flt x y \<longleftrightarrow> \<not> fle y x"
  by (cases x; cases y) auto

lemma flt_imp_fle: "flt x y \<Longrightarrow> fle x y"
  by (cases x; cases y) auto

lemma flt_fle_trans: "flt x y \<Longrightarrow> fle y z \<Longrightarrow> flt x z"
  by (cases x; cases y; cases z) auto

lemma fle_flt_trans: "fle x y \<Longrightarrow> flt y z \<Longrightarrow> flt x z"
  by (cases x; cases y; cases z) auto

text \<open>Adding a non-negative amount never lowers a total, whatever the rounding does.\<close>

lemma fadd_ge:
  assumes "representable x" "fle fzero x" "fle fzero y"
  shows "fle x (fadd x y)"
proof (cases "\<exists>a b. x = Fin a \<and> y = Fin b")
  case True
  then obtain a b where ab: "x = Fin a" "y = Fin b" by blast
  with assms have "fle (f64 a) (f64 (a + b))" by (intro f64_mono) simp
  with ab assms show ?thesis by simp
next
  case False
  with assms show ?thesis by (cases x; cases y) auto
qed

lemma fadd_nonneg: "representable x \<Longrightarrow> fle fzero x \<Longrightarrow> fle fzero y \<Longrightarrow> fle fzero (fadd x y)"
  using fadd_ge fle_trans by blast

lemma fmul_nonneg:
  assumes "fle fzero x" "fle fzero y" "x \<noteq> PosInf" "y \<noteq> PosInf"
  shows "fle fzero (fmul x y)"
proof (cases "\<exists>a b. x = Fin a \<and> y = Fin b")
  case True
  then obtain a b where ab: "x = Fin a" "y = Fin b" by blast
  with assms have "fle (f64 0) (f64 (a * b))" by (intro f64_mono) simp
  with ab show ?thesis by simp
next
  case False
  with assms show ?thesis by (cases x; cases y) auto
qed

lemma fadd_mono:
  assumes "fle fzero x" "fle fzero y" "fle x x'" "fle y y'"
  shows "fle (fadd x y) (fadd x' y')"
proof (cases "\<exists>a b c d. x = Fin a \<and> y = Fin b \<and> x' = Fin c \<and> y' = Fin d")
  case True
  with assms show ?thesis by (auto intro!: f64_mono add_mono)
next
  case False
  have pos: "f64 q \<noteq> NegInf" if "0 \<le> q" for q using f64_mono [OF that] by (cases "f64 q") auto
  have "fle (f64 q) PosInf" for q by (cases "f64 q") auto
  with False assms pos show ?thesis by (cases x; cases y; cases x'; cases y') auto
qed

lemma fmul_mono:
  assumes "fle (Fin a) (Fin b)" "0 \<le> c"
  shows "fle (fmul (Fin a) (Fin c)) (fmul (Fin b) (Fin c))"
  using assms by (auto intro: f64_mono mult_right_mono)

lemma fdivc_mono: "fle (Fin a) (Fin b) \<Longrightarrow> 0 < c \<Longrightarrow> fle (fdivc (Fin a) c) (fdivc (Fin b) c)"
  by (auto intro!: f64_mono divide_right_mono)

text \<open>A value well inside the range does not overflow.\<close>

lemma round_pos_small:
  assumes "0 < q" "q \<le> 2 ^ 200"
  shows "round_pos q \<le> 2 ^ 200"
proof -
  have p: "(2 :: rat) powi 200 = 2 ^ 200" by (simp add: power_int_def)
  have "(2 :: rat) powi 200 < 2 powi 201" by (rule power_int_strict_increasing) simp_all
  with assms(2) have "q < 2 powi 201" unfolding p by linarith
  with assms(1) have "exp2 q < 201" by (rule exp2_less)
  then have "quantum q \<le> 200" by (simp add: quantum_def)
  from round_pos_le_grid [OF assms(1) _ this] assms(2) show ?thesis unfolding p by simp
qed

lemma f64_small:
  assumes "\<bar>q\<bar> \<le> 2 ^ 200"
  shows "\<exists>r. f64 q = Fin r \<and> \<bar>r\<bar> \<le> 2 ^ 200"
proof -
  have r: "\<bar>round_rat q\<bar> \<le> 2 ^ 200"
  proof -
    consider "q = 0" | "0 < q" | "q < 0" by linarith
    then show ?thesis
    proof cases
      case 1
      then show ?thesis by simp
    next
      case 2
      then show ?thesis using assms round_pos_small [of q] round_pos_nonneg [of q]
        by (simp add: round_rat_def)
    next
      case 3
      then show ?thesis using assms round_pos_small [of "- q"] round_pos_nonneg [of "- q"]
        by (simp add: round_rat_def)
    qed
  qed
  have "(2 :: rat) ^ 200 < 2 ^ 1024" by (rule power_strict_increasing) simp_all
  with r have "\<not> 2 ^ 1024 \<le> round_rat q" "\<not> round_rat q \<le> - (2 ^ 1024)" by linarith+
  then have "f64 q = Fin (round_rat q)" unfolding f64_def Let_def by (simp only: if_False)
  with r show ?thesis by blast
qed

lemma f64_of_int64_finite: "\<exists>r. f64_of_int64 n = Fin r \<and> \<bar>r\<bar> \<le> 2 ^ 200"
proof -
  have "\<bar>sint n\<bar> \<le> 2 ^ 63" using sint_range64 [of n] by (simp add: abs_le_iff)
  also have "\<dots> \<le> 2 ^ 200" by (rule power_increasing) simp_all
  finally have "(of_int \<bar>sint n\<bar> :: rat) \<le> of_int (2 ^ 200)" by (simp only: of_int_le_iff)
  then have "\<bar>of_int (sint n) :: rat\<bar> \<le> 2 ^ 200" by simp
  from f64_small [OF this] show ?thesis by (simp add: f64_of_int64_def)
qed

lemma f64_of_int64_mono: "sint m \<le> sint n \<Longrightarrow> fle (f64_of_int64 m) (f64_of_int64 n)"
  unfolding f64_of_int64_def by (intro f64_mono of_int_le_iff [THEN iffD2])

end
