(* ===== verification/Machine.thy ===== *)
theory Machine
  imports GoPrelude
begin

text \<open>
  Components whose methods run under one mutex are sequential machines: a state, an event
  per method call, and an answer. Concurrent callers produce some sequence of events, so a
  statement about every sequence covers every interleaving. The locales are the contracts
  the components are shown to meet: an invariant every call keeps, a latch that never opens
  again once closed, and a measure that never falls.
\<close>

primrec run_events :: "('s \<Rightarrow> 'e \<Rightarrow> 's \<times> 'r) \<Rightarrow> 's \<Rightarrow> 'e list \<Rightarrow> 's \<times> 'r list" where
  "run_events step s [] = (s, [])"
| "run_events step s (e # es) =
     (let (s', r) = step s e; (s'', rs) = run_events step s' es in (s'', r # rs))"

abbreviation final_state :: "('s \<Rightarrow> 'e \<Rightarrow> 's \<times> 'r) \<Rightarrow> 's \<Rightarrow> 'e list \<Rightarrow> 's" where
  "final_state step s es \<equiv> fst (run_events step s es)"

abbreviation answers :: "('s \<Rightarrow> 'e \<Rightarrow> 's \<times> 'r) \<Rightarrow> 's \<Rightarrow> 'e list \<Rightarrow> 'r list" where
  "answers step s es \<equiv> snd (run_events step s es)"

lemma final_state_Cons [simp]:
  "final_state step s (e # es) = final_state step (fst (step s e)) es"
  by (simp add: case_prod_beta Let_def)

lemma answers_Cons [simp]:
  "answers step s (e # es) = snd (step s e) # answers step (fst (step s e)) es"
  by (simp add: case_prod_beta Let_def)

declare run_events.simps(2) [simp del]

lemma final_state_append [simp]:
  "final_state step s (es @ fs) = final_state step (final_state step s es) fs"
  by (induction es arbitrary: s) simp_all

lemma length_answers [simp]: "length (answers step s es) = length es"
  by (induction es arbitrary: s) simp_all

section \<open>An invariant every call keeps\<close>

locale invariant_machine =
  fixes step :: "'s \<Rightarrow> 'e \<Rightarrow> 's \<times> 'r"
    and inv :: "'s \<Rightarrow> bool"
    and ok :: "'e \<Rightarrow> bool"
  assumes step_inv: "inv s \<Longrightarrow> ok e \<Longrightarrow> inv (fst (step s e))"
begin

lemma run_inv: "inv s \<Longrightarrow> list_all ok es \<Longrightarrow> inv (final_state step s es)"
  by (induction es arbitrary: s) (simp_all add: step_inv)

end

section \<open>A latch: once closed it keeps its value for good\<close>

locale latch =
  fixes step :: "'s \<Rightarrow> 'e \<Rightarrow> 's \<times> 'r"
    and closed :: "'s \<Rightarrow> bool"
    and val :: "'s \<Rightarrow> 'v"
  assumes stays_closed: "closed s \<Longrightarrow> closed (fst (step s e))"
    and keeps_value: "closed s \<Longrightarrow> val (fst (step s e)) = val s"
begin

lemma run_closed: "closed s \<Longrightarrow> closed (final_state step s es)"
  by (induction es arbitrary: s) (simp_all add: stays_closed)

lemma run_value: "closed s \<Longrightarrow> val (final_state step s es) = val s"
  by (induction es arbitrary: s) (simp_all add: stays_closed keeps_value)

lemma closed_later:
  "closed (final_state step s es) \<Longrightarrow>
     val (final_state step s (es @ fs)) = val (final_state step s es)"
  by (simp add: run_value)

end

text \<open>A latch whose closed state answers every event with a refusal.\<close>

locale refusing_latch = latch +
  fixes refuses :: "'e \<Rightarrow> 'v \<Rightarrow> 'r \<Rightarrow> bool"
  assumes refusal: "closed s \<Longrightarrow> refuses e (val s) (snd (step s e))"
begin

lemma run_refuses:
  "closed s \<Longrightarrow> list_all2 (\<lambda>e. refuses e (val s)) es (answers step s es)"
proof (induction es arbitrary: s)
  case (Cons e es)
  from Cons.IH [of "fst (step s e)"] Cons.prems show ?case
    by (simp add: refusal stays_closed keeps_value)
qed simp

end

section \<open>A measure that never falls\<close>

locale ledger = invariant_machine +
  fixes le :: "'m \<Rightarrow> 'm \<Rightarrow> bool"
    and m :: "'s \<Rightarrow> 'm"
  assumes le_reflexive: "inv s \<Longrightarrow> le (m s) (m s)"
    and le_transitive: "le x y \<Longrightarrow> le y z \<Longrightarrow> le x z"
    and step_grows: "inv s \<Longrightarrow> ok e \<Longrightarrow> le (m s) (m (fst (step s e)))"
begin

lemma run_grows: "inv s \<Longrightarrow> list_all ok es \<Longrightarrow> le (m s) (m (final_state step s es))"
proof (induction es arbitrary: s)
  case Nil
  then show ?case by (simp add: le_reflexive)
next
  case (Cons e es)
  then have "le (m s) (m (fst (step s e)))" by (simp add: step_grows)
  moreover have "inv (fst (step s e))" using Cons.prems by (simp add: step_inv)
  ultimately show ?case using Cons by (auto intro: le_transitive)
qed

end

end
