(* ===== verification/Governor.thy ===== *)
theory Governor
  imports GoPrelude Float64 Machine
begin

text \<open>
  The per-run governor (\<open>internal/governor/governor.go\<close>): a budget, a running ledger of
  usage, a halt reason that is set once, and a context that the halt cancels. Every method
  runs under the run's mutex, so a method is one atomic step from state to state; the clock
  \<open>r.now()\<close> is the argument \<open>now\<close> of the call. A returned \<open>error\<close> is an option, None for nil.
\<close>

section \<open>Data\<close>

record budget =
  B_Tokens :: int64
  B_Dollars :: float64
  B_Loops :: int32
  B_Seconds :: int32

record usage =
  U_PromptTokens :: int64
  U_CompletionTokens :: int64
  U_Dollars :: float64
  U_Loops :: int32

definition zero_usage :: usage where
  "zero_usage = \<lparr>U_PromptTokens = 0, U_CompletionTokens = 0, U_Dollars = fzero, U_Loops = 0\<rparr>"

definition Tokens :: "usage \<Rightarrow> int64" where
  "Tokens u = U_PromptTokens u + U_CompletionTokens u"

type_synonym halt_reason = string

definition HaltNone :: halt_reason where "HaltNone = ''''"
definition HaltTokenBudget :: halt_reason where "HaltTokenBudget = ''token_budget_exceeded''"
definition HaltDollarBudget :: halt_reason where "HaltDollarBudget = ''dollar_budget_exceeded''"
definition HaltLoopBudget :: halt_reason where "HaltLoopBudget = ''loop_budget_exceeded''"
definition HaltTimeBudget :: halt_reason where "HaltTimeBudget = ''time_budget_exceeded''"
definition HaltCancelled :: halt_reason where "HaltCancelled = ''cancelled''"

lemmas halt_reason_defs = HaltNone_def HaltTokenBudget_def HaltDollarBudget_def
  HaltLoopBudget_def HaltTimeBudget_def HaltCancelled_def

lemma halt_reasons_distinct [simp]:
  "HaltTokenBudget \<noteq> HaltNone" "HaltDollarBudget \<noteq> HaltNone" "HaltLoopBudget \<noteq> HaltNone"
  "HaltTimeBudget \<noteq> HaltNone" "HaltCancelled \<noteq> HaltNone"
  "HaltNone \<noteq> HaltTokenBudget" "HaltNone \<noteq> HaltDollarBudget" "HaltNone \<noteq> HaltLoopBudget"
  "HaltNone \<noteq> HaltTimeBudget" "HaltNone \<noteq> HaltCancelled"
  "HaltTokenBudget \<noteq> HaltDollarBudget" "HaltTokenBudget \<noteq> HaltLoopBudget"
  "HaltTokenBudget \<noteq> HaltTimeBudget" "HaltTokenBudget \<noteq> HaltCancelled"
  "HaltDollarBudget \<noteq> HaltLoopBudget" "HaltDollarBudget \<noteq> HaltTimeBudget"
  "HaltDollarBudget \<noteq> HaltCancelled" "HaltLoopBudget \<noteq> HaltTimeBudget"
  "HaltLoopBudget \<noteq> HaltCancelled" "HaltTimeBudget \<noteq> HaltCancelled"
  by (simp_all add: halt_reason_defs)

datatype halt_error = HaltError (he_Reason: halt_reason) (he_Usage: usage)

text \<open>
  What the code uses of \<open>context.Context\<close>: a cancelled flag, and the deadline
  \<open>WithTimeout\<close> adds. A context is done once cancelled or once its deadline has come.
\<close>

record go_context =
  c_cancelled :: bool
  c_deadline :: "time option"

definition Background :: go_context where
  "Background = \<lparr>c_cancelled = False, c_deadline = None\<rparr>"

definition ctx_done :: "go_context \<Rightarrow> time \<Rightarrow> bool" where
  "ctx_done c t \<longleftrightarrow> c_cancelled c \<or> (case c_deadline c of None \<Rightarrow> False | Some d \<Rightarrow> d \<le> t)"

definition WithTimeout :: "go_context \<Rightarrow> time \<Rightarrow> int64 \<Rightarrow> go_context" where
  "WithTimeout parent now d = parent\<lparr>c_deadline :=
     (case c_deadline parent of None \<Rightarrow> Some (now + sint d) | Some p \<Rightarrow> Some (min p (now + sint d)))\<rparr>"

record gov =
  g_budget :: budget
  g_startedAt :: time
  g_ctx :: go_context
  g_usage :: usage
  g_halted :: halt_reason

section \<open>Construction\<close>

type_synonym gov_option = "gov \<Rightarrow> gov"

definition WithRestoredUsage :: "usage \<Rightarrow> gov_option" where
  "WithRestoredUsage u r = r\<lparr>g_usage := u\<rparr>"

definition WithRestoredHalt :: "halt_reason \<Rightarrow> gov_option" where
  "WithRestoredHalt reason r = (if reason \<noteq> HaltNone then r\<lparr>g_halted := reason\<rparr> else r)"

text \<open>\<open>r.cancel()\<close>, as \<open>Close\<close> calls it.\<close>

definition gov_Close :: "gov \<Rightarrow> gov" where
  "gov_Close r = r\<lparr>g_ctx := (g_ctx r)\<lparr>c_cancelled := True\<rparr>\<rparr>"

definition gov_New :: "go_context \<Rightarrow> budget \<Rightarrow> gov_option list \<Rightarrow> time \<Rightarrow> gov" where
  "gov_New parent b opts now =
     (let r = \<lparr>g_budget = b, g_startedAt = 0, g_ctx = parent, g_usage = zero_usage,
               g_halted = HaltNone\<rparr>;
          r = fold (\<lambda>opt r. opt r) opts r;
          r = r\<lparr>g_startedAt := now\<rparr>;
          r = (if 0 <s B_Seconds b
               then r\<lparr>g_ctx := WithTimeout parent now (seconds_duration (B_Seconds b))\<rparr>
               else r\<lparr>g_ctx := parent\<rparr>)
      in if g_halted r \<noteq> HaltNone then gov_Close r else r)"

section \<open>Guards\<close>

definition haltErrLocked :: "gov \<Rightarrow> halt_error" where
  "haltErrLocked r = HaltError (g_halted r) (g_usage r)"

definition haltLocked :: "halt_reason \<Rightarrow> gov \<Rightarrow> gov \<times> halt_error option" where
  "haltLocked reason r =
     (let r = (if g_halted r = HaltNone then gov_Close (r\<lparr>g_halted := reason\<rparr>) else r)
      in (r, Some (haltErrLocked r)))"

definition Elapsed :: "time \<Rightarrow> gov \<Rightarrow> int" where
  "Elapsed now r = time_sub now (g_startedAt r)"

definition expiredLocked :: "time \<Rightarrow> gov \<Rightarrow> bool" where
  "expiredLocked now r =
     (if B_Seconds (g_budget r) \<le>s 0 then False
      else sint (seconds_duration (B_Seconds (g_budget r))) \<le> time_sub now (g_startedAt r))"

definition checkLocked :: "time \<Rightarrow> gov \<Rightarrow> gov \<times> halt_error option" where
  "checkLocked now r =
     (if g_halted r \<noteq> HaltNone then (r, Some (haltErrLocked r))
      else if expiredLocked now r then haltLocked HaltTimeBudget r
      else if 0 <s B_Tokens (g_budget r) \<and> B_Tokens (g_budget r) \<le>s Tokens (g_usage r)
        then haltLocked HaltTokenBudget r
      else if flt fzero (B_Dollars (g_budget r)) \<and> fle (B_Dollars (g_budget r)) (U_Dollars (g_usage r))
        then haltLocked HaltDollarBudget r
      else (r, None))"

definition PreStep :: "time \<Rightarrow> gov \<Rightarrow> gov \<times> halt_error option" where
  "PreStep now r =
     (if g_halted r \<noteq> HaltNone then (r, Some (haltErrLocked r))
      else if expiredLocked now r then haltLocked HaltTimeBudget r
      else if 0 <s B_Loops (g_budget r) \<and> B_Loops (g_budget r) <s U_Loops (g_usage r) + 1
        then haltLocked HaltLoopBudget r
      else (r\<lparr>g_usage := (g_usage r)\<lparr>U_Loops := U_Loops (g_usage r) + 1\<rparr>\<rparr>, None))"

definition CanProceed :: "time \<Rightarrow> gov \<Rightarrow> gov \<times> halt_error option" where
  "CanProceed now r = checkLocked now r"

definition add_usage :: "int64 \<Rightarrow> int64 \<Rightarrow> float64 \<Rightarrow> usage \<Rightarrow> usage" where
  "add_usage prompt completion dollars u =
     u\<lparr>U_PromptTokens := U_PromptTokens u + prompt,
       U_CompletionTokens := U_CompletionTokens u + completion,
       U_Dollars := fadd (U_Dollars u) dollars\<rparr>"

definition RecordUsage ::
    "time \<Rightarrow> int64 \<Rightarrow> int64 \<Rightarrow> float64 \<Rightarrow> gov \<Rightarrow> gov \<times> halt_error option" where
  "RecordUsage now promptTokens completionTokens dollars r =
     checkLocked now (r\<lparr>g_usage := add_usage promptTokens completionTokens dollars (g_usage r)\<rparr>)"

definition gov_Cancel :: "gov \<Rightarrow> gov" where
  "gov_Cancel r = fst (haltLocked HaltCancelled r)"

definition gov_Status :: "gov \<Rightarrow> usage \<times> halt_reason" where
  "gov_Status r = (g_usage r, g_halted r)"

definition Halted :: "gov \<Rightarrow> bool" where
  "Halted r = (g_halted r \<noteq> HaltNone)"

section \<open>Calls as events\<close>

datatype gov_event =
    EPreStep time
  | ECanProceed time
  | ERecordUsage time int64 int64 float64
  | ECancel
  | EClose

fun gov_step :: "gov \<Rightarrow> gov_event \<Rightarrow> gov \<times> halt_error option" where
  "gov_step r (EPreStep now) = PreStep now r"
| "gov_step r (ECanProceed now) = CanProceed now r"
| "gov_step r (ERecordUsage now p c d) = RecordUsage now p c d r"
| "gov_step r ECancel = (gov_Cancel r, None)"
| "gov_step r EClose = (gov_Close r, None)"

lemmas [gov_defs] = PreStep_def CanProceed_def RecordUsage_def checkLocked_def haltLocked_def
  haltErrLocked_def gov_Cancel_def gov_Close_def Halted_def

section \<open>What each call does\<close>

lemma haltErrLocked_sel [simp]:
  "he_Reason (haltErrLocked r) = g_halted r" "he_Usage (haltErrLocked r) = g_usage r"
  by (simp_all add: haltErrLocked_def)

lemma gov_Close_sel [simp]:
  "g_budget (gov_Close r) = g_budget r" "g_startedAt (gov_Close r) = g_startedAt r"
  "g_usage (gov_Close r) = g_usage r" "g_halted (gov_Close r) = g_halted r"
  "c_cancelled (g_ctx (gov_Close r))" "c_deadline (g_ctx (gov_Close r)) = c_deadline (g_ctx r)"
  by (simp_all add: gov_Close_def)

lemma haltLocked_sel [simp]:
  "g_budget (fst (haltLocked h r)) = g_budget r"
  "g_startedAt (fst (haltLocked h r)) = g_startedAt r"
  "g_usage (fst (haltLocked h r)) = g_usage r"
  "g_halted (fst (haltLocked h r)) = (if g_halted r = HaltNone then h else g_halted r)"
  "snd (haltLocked h r) = Some (haltErrLocked (fst (haltLocked h r)))"
  by (simp_all add: haltLocked_def Let_def)

lemma checkLocked_cases:
  obtains (refused) "snd (checkLocked now r) = Some (haltErrLocked (fst (checkLocked now r)))"
      "g_halted (fst (checkLocked now r)) \<noteq> HaltNone"
    | (passed) "checkLocked now r = (r, None)" "g_halted r = HaltNone"
  by (cases "snd (checkLocked now r)") (auto simp: checkLocked_def split: if_splits)

lemma checkLocked_sel [simp]:
  "g_budget (fst (checkLocked now r)) = g_budget r"
  "g_startedAt (fst (checkLocked now r)) = g_startedAt r"
  "g_usage (fst (checkLocked now r)) = g_usage r"
  by (simp_all add: checkLocked_def)

lemma gov_step_fixed [simp]:
  "g_budget (fst (gov_step r e)) = g_budget r" "g_startedAt (fst (gov_step r e)) = g_startedAt r"
  by (cases e; simp add: PreStep_def CanProceed_def RecordUsage_def gov_Cancel_def)+

lemma gov_run_fixed [simp]:
  "g_budget (final_state gov_step r es) = g_budget r"
  "g_startedAt (final_state gov_step r es) = g_startedAt r"
  by (induction es arbitrary: r) simp_all

lemma gov_step_deadline [simp]:
  "c_deadline (g_ctx (fst (gov_step r e))) = c_deadline (g_ctx r)"
  by (cases e; simp add: PreStep_def CanProceed_def RecordUsage_def gov_Cancel_def checkLocked_def
      haltLocked_def Let_def)

lemma gov_run_deadline [simp]:
  "c_deadline (g_ctx (final_state gov_step r es)) = c_deadline (g_ctx r)"
  by (induction es arbitrary: r) simp_all

text \<open>A guard on a halted run changes nothing but the ledger and answers the halt error.\<close>

lemma PreStep_halted: "g_halted r \<noteq> HaltNone \<Longrightarrow> PreStep now r = (r, Some (haltErrLocked r))"
  by (simp add: PreStep_def)

lemma checkLocked_halted:
  "g_halted r \<noteq> HaltNone \<Longrightarrow> checkLocked now r = (r, Some (haltErrLocked r))"
  by (simp add: checkLocked_def)

lemma checkLocked_None_iff:
  "snd (checkLocked now r) = None \<longleftrightarrow>
     g_halted r = HaltNone \<and> \<not> expiredLocked now r \<and>
     \<not> (0 <s B_Tokens (g_budget r) \<and> B_Tokens (g_budget r) \<le>s Tokens (g_usage r)) \<and>
     \<not> (flt fzero (B_Dollars (g_budget r)) \<and> fle (B_Dollars (g_budget r)) (U_Dollars (g_usage r)))"
  by (simp add: checkLocked_def)

lemma checkLocked_unhalted:
  assumes "g_halted (fst (checkLocked now r)) = HaltNone"
  shows "checkLocked now r = (r, None)"
  using assms by (cases rule: checkLocked_cases [of now r]) auto

lemma PreStep_cases:
  obtains (refused) "snd (PreStep now r) = Some (haltErrLocked (fst (PreStep now r)))"
      "g_halted (fst (PreStep now r)) \<noteq> HaltNone" "g_usage (fst (PreStep now r)) = g_usage r"
    | (passed) "snd (PreStep now r) = None" "g_halted r = HaltNone"
      "fst (PreStep now r) = r\<lparr>g_usage := (g_usage r)\<lparr>U_Loops := U_Loops (g_usage r) + 1\<rparr>\<rparr>"
      "\<not> (0 <s B_Loops (g_budget r) \<and> B_Loops (g_budget r) <s U_Loops (g_usage r) + 1)"
      "\<not> expiredLocked now r"
  by (cases "snd (PreStep now r)") (auto simp: PreStep_def split: if_splits)

section \<open>The halt latch\<close>

fun halt_refuses :: "gov_event \<Rightarrow> halt_reason \<Rightarrow> halt_error option \<Rightarrow> bool" where
  "halt_refuses (EPreStep _) h r = (case r of None \<Rightarrow> False | Some e \<Rightarrow> he_Reason e = h)"
| "halt_refuses (ECanProceed _) h r = (case r of None \<Rightarrow> False | Some e \<Rightarrow> he_Reason e = h)"
| "halt_refuses (ERecordUsage _ _ _ _) h r = (case r of None \<Rightarrow> False | Some e \<Rightarrow> he_Reason e = h)"
| "halt_refuses ECancel _ r = (r = None)"
| "halt_refuses EClose _ r = (r = None)"

lemma gov_step_halted [simp]:
  "g_halted r \<noteq> HaltNone \<Longrightarrow> g_halted (fst (gov_step r e)) = g_halted r"
  by (cases e) (simp_all add: PreStep_halted CanProceed_def RecordUsage_def checkLocked_halted
      gov_Cancel_def)

interpretation halt: refusing_latch gov_step Halted
  "\<lambda>r. (g_halted r, U_Loops (g_usage r))" "\<lambda>e v. halt_refuses e (fst v)"
proof
  fix s e assume h: "Halted s"
  then show "Halted (fst (gov_step s e))" by (simp add: Halted_def)
  from h show "(g_halted (fst (gov_step s e)), U_Loops (g_usage (fst (gov_step s e)))) =
      (g_halted s, U_Loops (g_usage s))"
    by (cases e) (simp_all add: Halted_def PreStep_halted CanProceed_def RecordUsage_def
        checkLocked_halted gov_Cancel_def add_usage_def)
  from h show "halt_refuses e (fst (g_halted s, U_Loops (g_usage s))) (snd (gov_step s e))"
    by (cases e) (simp_all add: Halted_def PreStep_halted CanProceed_def RecordUsage_def
        checkLocked_halted)
qed

text \<open>The kill switch: a halted run's context is cancelled.\<close>

definition kill_fired :: "gov \<Rightarrow> bool" where
  "kill_fired r \<longleftrightarrow> (Halted r \<longrightarrow> c_cancelled (g_ctx r))"

lemma haltLocked_kill: "kill_fired r \<Longrightarrow> kill_fired (fst (haltLocked h r))"
  by (simp add: kill_fired_def haltLocked_def Halted_def Let_def)

lemma checkLocked_kill: "kill_fired r \<Longrightarrow> kill_fired (fst (checkLocked now r))"
  using haltLocked_kill by (simp add: checkLocked_def)

interpretation kill: invariant_machine gov_step kill_fired "\<lambda>_. True"
proof
  fix s e assume k: "kill_fired s"
  then have "kill_fired (s\<lparr>g_usage := u\<rparr>)" for u by (simp add: kill_fired_def Halted_def)
  with k show "kill_fired (fst (gov_step s e))"
    by (cases e) (auto simp: PreStep_def CanProceed_def RecordUsage_def gov_Cancel_def
        intro: haltLocked_kill checkLocked_kill, simp add: kill_fired_def Halted_def)
qed

section \<open>Construction\<close>

lemma gov_New_fresh:
  "g_budget (gov_New parent b [] now) = b" "g_startedAt (gov_New parent b [] now) = now"
  "g_usage (gov_New parent b [] now) = zero_usage" "g_halted (gov_New parent b [] now) = HaltNone"
  by (simp_all add: gov_New_def Let_def)

lemma gov_New_restored:
  fixes parent b u h now
  defines "r \<equiv> gov_New parent b [WithRestoredUsage u, WithRestoredHalt h] now"
  shows "g_budget r = b" "g_startedAt r = now" "g_usage r = u" "g_halted r = h" "kill_fired r"
  by (simp_all add: r_def gov_New_def WithRestoredUsage_def WithRestoredHalt_def Let_def
      kill_fired_def Halted_def)

section \<open>Time\<close>

lemma sless_sint: "(a :: 'a :: len word) <s b \<longleftrightarrow> sint a < sint b"
  by (rule word_sless_alt)

lemma expiredLocked_iff:
  "expiredLocked now r \<longleftrightarrow> 0 < sint (B_Seconds (g_budget r)) \<and>
     g_startedAt r + sint (B_Seconds (g_budget r)) * 1000000000 \<le> now"
proof (cases "0 < sint (B_Seconds (g_budget r))")
  case True
  let ?d = "sint (B_Seconds (g_budget r)) * 1000000000"
  have "minDuration < ?d" "?d \<le> maxDuration"
    using True sint_range32 [of "B_Seconds (g_budget r)"] by (simp_all add: minDuration_def maxDuration_def)
  from time_sub_ge_iff [OF this] True show ?thesis
    by (simp add: expiredLocked_def sint_seconds_duration word_sle_eq add.commute le_diff_eq)
next
  case False
  then show ?thesis by (simp add: expiredLocked_def word_sle_eq not_less)
qed

section \<open>The loop count\<close>

fun admitted :: "gov_event \<Rightarrow> halt_error option \<Rightarrow> bool" where
  "admitted (EPreStep _) None = True"
| "admitted _ _ = False"

definition admissions :: "gov \<Rightarrow> gov_event list \<Rightarrow> nat" where
  "admissions r es = length (filter (\<lambda>(e, a). admitted e a) (zip es (answers gov_step r es)))"

lemma admissions_simps [simp]:
  "admissions r [] = 0"
  "admissions r (e # es) =
     (if admitted e (snd (gov_step r e)) then 1 else 0) + admissions (fst (gov_step r e)) es"
  by (simp_all add: admissions_def)

definition loops_within :: "gov \<Rightarrow> bool" where
  "loops_within r \<longleftrightarrow> 0 \<le> sint (U_Loops (g_usage r)) \<and>
     sint (U_Loops (g_usage r)) \<le> sint (B_Loops (g_budget r)) \<and>
     0 < sint (B_Loops (g_budget r)) \<and> sint (B_Loops (g_budget r)) < 2 ^ 31 - 1"

lemma U_Loops_step_other:
  "\<not> admitted e (snd (gov_step r e)) \<Longrightarrow>
     U_Loops (g_usage (fst (gov_step r e))) = U_Loops (g_usage r)"
proof (cases e)
  case (EPreStep now)
  assume "\<not> admitted e (snd (gov_step r e))"
  with EPreStep show ?thesis by (cases rule: PreStep_cases [of now r]) auto
qed (simp_all add: CanProceed_def RecordUsage_def gov_Cancel_def add_usage_def)

lemma U_Loops_step_admitted:
  assumes "loops_within r" "admitted e (snd (gov_step r e))"
  shows "sint (U_Loops (g_usage (fst (gov_step r e)))) = sint (U_Loops (g_usage r)) + 1 \<and>
    sint (U_Loops (g_usage r)) + 1 \<le> sint (B_Loops (g_budget r))"
proof -
  from assms(2) obtain now where e: "e = EPreStep now" by (cases e) auto
  have "sint (U_Loops (g_usage r)) < 2 ^ 31 - 1" using assms(1) by (simp add: loops_within_def)
  from sint_succ32 [OF this]
  have s: "sint (U_Loops (g_usage r) + 1) = sint (U_Loops (g_usage r)) + 1" .
  from assms e show ?thesis
    by (cases rule: PreStep_cases [of now r])
       (auto simp: s sless_sint loops_within_def)
qed

lemma loops_within_step: "loops_within r \<Longrightarrow> loops_within (fst (gov_step r e))"
  using U_Loops_step_admitted [of r e] U_Loops_step_other [of e r]
  by (cases "admitted e (snd (gov_step r e))") (auto simp: loops_within_def)

lemma admissions_count:
  "loops_within r \<Longrightarrow>
     sint (U_Loops (g_usage (final_state gov_step r es))) = sint (U_Loops (g_usage r)) + int (admissions r es)"
proof (induction es arbitrary: r)
  case (Cons e es)
  from Cons.IH [OF loops_within_step [OF Cons.prems], of e] Cons.prems show ?case
    using U_Loops_step_admitted [of r e] U_Loops_step_other [of e r] by auto
qed simp

interpretation loops: invariant_machine gov_step loops_within "\<lambda>_. True"
  by standard (rule loops_within_step)

section \<open>The spend ceilings\<close>

definition under_ceiling :: "gov \<Rightarrow> bool" where
  "under_ceiling r \<longleftrightarrow> Halted r \<or>
     (\<not> (0 <s B_Tokens (g_budget r) \<and> B_Tokens (g_budget r) \<le>s Tokens (g_usage r)) \<and>
      \<not> (flt fzero (B_Dollars (g_budget r)) \<and> fle (B_Dollars (g_budget r)) (U_Dollars (g_usage r))))"

lemma checkLocked_ceiling: "under_ceiling (fst (checkLocked now r))"
proof (cases rule: checkLocked_cases [of now r])
  case refused
  then show ?thesis by (simp add: under_ceiling_def Halted_def)
next
  case passed
  with checkLocked_None_iff [of now r] show ?thesis by (simp add: under_ceiling_def)
qed

lemma haltLocked_ceiling: "h \<noteq> HaltNone \<Longrightarrow> under_ceiling (fst (haltLocked h r))"
  by (simp add: under_ceiling_def Halted_def)

lemma under_ceiling_step: "under_ceiling r \<Longrightarrow> under_ceiling (fst (gov_step r e))"
proof (cases e)
  case (EPreStep now)
  assume "under_ceiling r"
  with EPreStep show ?thesis
    by (cases rule: PreStep_cases [of now r]) (auto simp: under_ceiling_def Halted_def Tokens_def)
next
  case EClose
  assume "under_ceiling r"
  with EClose show ?thesis by (simp add: under_ceiling_def Halted_def)
qed (simp_all add: CanProceed_def RecordUsage_def gov_Cancel_def checkLocked_ceiling haltLocked_ceiling)

interpretation ceiling: invariant_machine gov_step under_ceiling "\<lambda>_. True"
  by standard (rule under_ceiling_step)

lemma gov_New_ceiling: "under_ceiling (gov_New parent b [] now)"
proof -
  have "\<not> (flt fzero d \<and> fle d fzero)" for d by (cases d) auto
  then show ?thesis
    by (simp add: under_ceiling_def gov_New_fresh zero_usage_def Tokens_def word_sle_eq sless_sint)
qed

section \<open>The dollar ledger\<close>

fun priced :: "gov_event \<Rightarrow> bool" where
  "priced (ERecordUsage _ _ _ d) = (representable d \<and> fle fzero d)"
| "priced _ = True"

definition dollars_sound :: "gov \<Rightarrow> bool" where
  "dollars_sound r \<longleftrightarrow> representable (U_Dollars (g_usage r)) \<and> fle fzero (U_Dollars (g_usage r))"

lemma U_Dollars_step:
  "U_Dollars (g_usage (fst (gov_step r e))) =
     (case e of ERecordUsage _ _ _ d \<Rightarrow> fadd (U_Dollars (g_usage r)) d | _ \<Rightarrow> U_Dollars (g_usage r))"
proof (cases e)
  case (EPreStep now)
  then show ?thesis by (cases rule: PreStep_cases [of now r]) auto
qed (simp_all add: CanProceed_def RecordUsage_def gov_Cancel_def add_usage_def)

interpretation dollars: ledger gov_step dollars_sound priced fle "\<lambda>r. U_Dollars (g_usage r)"
proof
  fix s e assume "dollars_sound s" "priced e"
  then show "dollars_sound (fst (gov_step s e))"
    unfolding dollars_sound_def U_Dollars_step by (cases e) (auto intro: fadd_nonneg)
next
  fix s assume "dollars_sound s"
  then show "fle (U_Dollars (g_usage s)) (U_Dollars (g_usage s))"
    by (auto simp: dollars_sound_def dest: fle_not_NaN intro: fle_refl)
next
  fix x y z assume "fle x y" "fle y z"
  then show "fle x z" by (rule fle_trans)
next
  fix s e assume i: "dollars_sound s" "priced e"
  then have "fle (U_Dollars (g_usage s)) (U_Dollars (g_usage s))"
    by (auto simp: dollars_sound_def dest: fle_not_NaN intro: fle_refl)
  with i show "fle (U_Dollars (g_usage s)) (U_Dollars (g_usage (fst (gov_step s e))))"
    unfolding dollars_sound_def U_Dollars_step by (cases e) (auto intro: fadd_ge)
qed

section \<open>A restored run simulates the run it restores\<close>

text \<open>
  The wall-clock budget restarts with the process, so the two runs answer alike when there
  is none or when the run is already over.
\<close>

definition gov_sim :: "gov \<Rightarrow> gov \<Rightarrow> bool" where
  "gov_sim r s \<longleftrightarrow> g_budget r = g_budget s \<and> gov_Status r = gov_Status s \<and>
     (Halted r \<or> B_Seconds (g_budget r) \<le>s 0)"

lemma gov_sim_haltLocked:
  "gov_sim r s \<Longrightarrow> h \<noteq> HaltNone \<Longrightarrow> gov_sim (fst (haltLocked h r)) (fst (haltLocked h s))"
  by (auto simp: gov_sim_def gov_Status_def Halted_def)

lemma gov_sim_expired: "gov_sim r s \<Longrightarrow> \<not> Halted r \<Longrightarrow> \<not> expiredLocked now r \<and> \<not> expiredLocked now s"
  by (auto simp: gov_sim_def expiredLocked_def)

lemma gov_sim_haltErr: "gov_sim r s \<Longrightarrow> haltErrLocked r = haltErrLocked s"
  by (simp add: gov_sim_def gov_Status_def haltErrLocked_def)

lemma gov_sim_Halted: "gov_sim r s \<Longrightarrow> Halted s = Halted r"
  by (simp add: gov_sim_def gov_Status_def Halted_def)

lemma gov_sim_checkLocked:
  assumes "gov_sim r s"
  shows "gov_sim (fst (checkLocked now r)) (fst (checkLocked now s)) \<and>
         snd (checkLocked now r) = snd (checkLocked now s)"
proof (cases "Halted r")
  case True
  with assms gov_sim_Halted [OF assms] show ?thesis
    by (simp add: checkLocked_def Halted_def gov_sim_haltErr)
next
  case False
  have b: "g_budget r = g_budget s" "g_usage r = g_usage s"
    using assms by (simp_all add: gov_sim_def gov_Status_def)
  have l: "snd (haltLocked h r) = snd (haltLocked h s)" if "h \<noteq> HaltNone" for h
    using gov_sim_haltErr [OF gov_sim_haltLocked [OF assms that]] by simp
  show ?thesis
    using False assms gov_sim_Halted [OF assms] gov_sim_expired [OF assms False, of now]
    by (simp add: checkLocked_def Halted_def b l gov_sim_haltLocked del: haltLocked_sel)
qed

lemma gov_sim_PreStep:
  assumes "gov_sim r s"
  shows "gov_sim (fst (PreStep now r)) (fst (PreStep now s)) \<and>
         snd (PreStep now r) = snd (PreStep now s)"
proof (cases "Halted r")
  case True
  with assms gov_sim_Halted [OF assms] show ?thesis
    by (simp add: PreStep_def Halted_def gov_sim_haltErr)
next
  case False
  have b: "g_budget r = g_budget s" "g_usage r = g_usage s"
    using assms by (simp_all add: gov_sim_def gov_Status_def)
  have l: "snd (haltLocked h r) = snd (haltLocked h s)" if "h \<noteq> HaltNone" for h
    using gov_sim_haltErr [OF gov_sim_haltLocked [OF assms that]] by simp
  have "gov_sim (r\<lparr>g_usage := u\<rparr>) (s\<lparr>g_usage := u\<rparr>)" for u
    using assms by (auto simp: gov_sim_def gov_Status_def Halted_def)
  then show ?thesis
    using False assms gov_sim_Halted [OF assms] gov_sim_expired [OF assms False, of now]
    by (simp add: PreStep_def Halted_def b l gov_sim_haltLocked del: haltLocked_sel)
qed

lemma gov_sim_step:
  assumes "gov_sim r s"
  shows "gov_sim (fst (gov_step r e)) (fst (gov_step s e)) \<and> snd (gov_step r e) = snd (gov_step s e)"
proof (cases e)
  case (ERecordUsage now p c d)
  have "gov_sim (r\<lparr>g_usage := add_usage p c d (g_usage r)\<rparr>) (s\<lparr>g_usage := add_usage p c d (g_usage s)\<rparr>)"
    using assms by (auto simp: gov_sim_def gov_Status_def Halted_def)
  from gov_sim_checkLocked [OF this] ERecordUsage show ?thesis by (simp add: RecordUsage_def)
next
  case EClose
  with assms show ?thesis by (auto simp: gov_sim_def gov_Status_def Halted_def)
qed (use assms gov_sim_PreStep gov_sim_checkLocked gov_sim_haltLocked in
      \<open>simp_all add: CanProceed_def gov_Cancel_def\<close>)

lemma gov_sim_run:
  "gov_sim r s \<Longrightarrow> gov_sim (final_state gov_step r es) (final_state gov_step s es) \<and>
     answers gov_step r es = answers gov_step s es"
proof (induction es arbitrary: r s)
  case (Cons e es)
  from gov_sim_step [OF Cons.prems, of e] Cons.IH show ?case by fastforce
qed simp

section \<open>Properties of the governor\<close>

abbreviation restored_gov :: "go_context \<Rightarrow> budget \<Rightarrow> usage \<Rightarrow> halt_reason \<Rightarrow> time \<Rightarrow> gov" where
  "restored_gov parent b u h now \<equiv> gov_New parent b [WithRestoredUsage u, WithRestoredHalt h] now"

definition token_cap :: "int64 \<Rightarrow> budget" where
  "token_cap n = \<lparr>B_Tokens = n, B_Dollars = fzero, B_Loops = 0, B_Seconds = 0\<rparr>"

definition loop_cap_of :: "int32 \<Rightarrow> budget" where
  "loop_cap_of n = \<lparr>B_Tokens = 0, B_Dollars = fzero, B_Loops = n, B_Seconds = 0\<rparr>"

text \<open>
  C1. A halt is final. Whatever calls led a run (new, or rebuilt from its stored usage and
  halt reason) to a halt, every later sequence of calls, in whatever order its callers
  interleave, leaves the first reason and the loop count in place, every guard among them
  answers the halt error with that reason, and the run's context stays done.
\<close>

theorem halt_is_final:
  assumes "Halted (final_state gov_step (restored_gov parent b u h now) es)"
  shows "let r = final_state gov_step (restored_gov parent b u h now) es;
             r' = final_state gov_step r fs
         in g_halted r' = g_halted r \<and> U_Loops (g_usage r') = U_Loops (g_usage r) \<and>
            list_all2 (\<lambda>e. halt_refuses e (g_halted r)) fs (answers gov_step r fs) \<and>
            ctx_done (g_ctx r') t"
proof -
  let ?r = "final_state gov_step (restored_gov parent b u h now) es"
  let ?r' = "final_state gov_step ?r fs"
  have "kill_fired ?r'"
    by (intro kill.run_inv gov_New_restored) (simp_all add: list.pred_True)
  with halt.run_closed [OF assms, of fs] have "c_cancelled (g_ctx ?r')"
    by (simp add: kill_fired_def)
  with halt.run_value [OF assms, of fs] halt.run_refuses [OF assms, of fs] show ?thesis
    by (simp add: Let_def ctx_done_def)
qed

lemma halt_is_final_witness:
  "let r = final_state gov_step (restored_gov Background (token_cap 10) zero_usage HaltNone 0)
             [EPreStep 1, ECanProceed 2, ERecordUsage 3 6 5 fzero];
       r' = final_state gov_step r [ECancel, ECanProceed 4]
   in g_halted r' = g_halted r \<and> U_Loops (g_usage r') = U_Loops (g_usage r) \<and>
      list_all2 (\<lambda>e. halt_refuses e (g_halted r)) [ECancel, ECanProceed 4]
        (answers gov_step r [ECancel, ECanProceed 4]) \<and>
      ctx_done (g_ctx r') 5"
  by (rule halt_is_final)
     (simp add: gov_defs Let_def gov_New_restored expiredLocked_def token_cap_def add_usage_def
       Tokens_def zero_usage_def sless_sint word_sle_eq)

text \<open>
  C2. The loop cap. With a positive loop budget below the largest int32, however callers
  interleave their calls and whether the run is new or resumed with loops already used, the
  loop count in the ledger is the count it started with plus the number of \<open>PreStep\<close> calls
  that returned nil, and it never passes the budget.
\<close>

theorem loop_cap:
  assumes "0 < sint (B_Loops b)" "sint (B_Loops b) < 2 ^ 31 - 1"
    and "0 \<le> sint (U_Loops u)" "sint (U_Loops u) \<le> sint (B_Loops b)"
  shows "sint (U_Loops u) + int (admissions (restored_gov parent b u h now) es) \<le> sint (B_Loops b) \<and>
    sint (U_Loops (g_usage (final_state gov_step (restored_gov parent b u h now) es))) =
      sint (U_Loops u) + int (admissions (restored_gov parent b u h now) es)"
proof -
  let ?r = "restored_gov parent b u h now"
  have w: "loops_within ?r" using assms by (simp add: loops_within_def gov_New_restored)
  have "loops_within (final_state gov_step ?r es)"
    by (intro loops.run_inv w) (simp add: list.pred_True)
  with admissions_count [OF w, of es] show ?thesis
    by (simp add: loops_within_def gov_New_restored)
qed

lemma loop_cap_witness:
  "sint (U_Loops zero_usage) + int (admissions (restored_gov Background (loop_cap_of 2) zero_usage HaltNone 0)
      [EPreStep 1, EPreStep 2, EPreStep 3]) \<le> sint (B_Loops (loop_cap_of 2)) \<and>
   sint (U_Loops (g_usage (final_state gov_step
        (restored_gov Background (loop_cap_of 2) zero_usage HaltNone 0) [EPreStep 1, EPreStep 2, EPreStep 3]))) =
      sint (U_Loops zero_usage) + int (admissions (restored_gov Background (loop_cap_of 2) zero_usage HaltNone 0)
        [EPreStep 1, EPreStep 2, EPreStep 3])"
  by (rule loop_cap) (simp_all add: loop_cap_of_def zero_usage_def)

lemma sint_add3_exact64:
  fixes t p c :: int64
  assumes "0 \<le> sint p" "0 \<le> sint c" "sint t + sint p + sint c < 2 ^ 63"
  shows "sint (t + (p + c)) = sint t + sint p + sint c"
proof -
  have lo: "- (2 ^ 63) \<le> sint t" using sint_ge [of t] by simp
  have tp: "sint (t + p) = sint t + sint p" using assms lo by (intro sint_add_exact64) simp_all
  have "sint (t + p + c) = sint (t + p) + sint c" using assms lo by (intro sint_add_exact64) (simp_all add: tp)
  then show ?thesis by (simp add: tp add.assoc)
qed

lemma fresh_dollars_sound:
  "list_all priced es \<Longrightarrow> dollars_sound (final_state gov_step (gov_New parent b [] t0) es)"
  by (rule dollars.run_inv) (simp_all add: dollars_sound_def gov_New_fresh zero_usage_def)


text \<open>A budget of dollars only, and one of tokens only.\<close>

definition dollar_cap :: budget where
  "dollar_cap = \<lparr>B_Tokens = 0, B_Dollars = Fin 5, B_Loops = 0, B_Seconds = 0\<rparr>"


text \<open>
  The guard before a call decides exactly by the ceilings. While the token total is an
  int64, \<open>CanProceed\<close> returns nil just when the run is not halted, its wall-clock budget (if
  set) has not elapsed, its prompt and completion tokens together are below the token
  budget (if set), and its dollars are not at or above the dollar budget (if set); otherwise
  it returns the halt error, whose reason is the old one, else time, else tokens, else dollars.
\<close>

theorem CanProceed_exact:
  fixes r :: gov and now :: time
  assumes "- (2 ^ 63) \<le> sint (U_PromptTokens (g_usage r)) + sint (U_CompletionTokens (g_usage r))"
    and "sint (U_PromptTokens (g_usage r)) + sint (U_CompletionTokens (g_usage r)) < 2 ^ 63"
  defines "late \<equiv> 0 < sint (B_Seconds (g_budget r)) \<and>
             g_startedAt r + sint (B_Seconds (g_budget r)) * 1000000000 \<le> now"
    and "tokens_spent \<equiv> 0 < sint (B_Tokens (g_budget r)) \<and> sint (B_Tokens (g_budget r)) \<le>
             sint (U_PromptTokens (g_usage r)) + sint (U_CompletionTokens (g_usage r))"
    and "dollars_spent \<equiv> flt fzero (B_Dollars (g_budget r)) \<and>
             fle (B_Dollars (g_budget r)) (U_Dollars (g_usage r))"
  shows "map_option he_Reason (snd (CanProceed now r)) =
    (if Halted r then Some (g_halted r) else if late then Some HaltTimeBudget
     else if tokens_spent then Some HaltTokenBudget
     else if dollars_spent then Some HaltDollarBudget else None) \<and>
    g_usage (fst (CanProceed now r)) = g_usage r"
proof -
  have "sint (Tokens (g_usage r)) = sint (U_PromptTokens (g_usage r)) + sint (U_CompletionTokens (g_usage r))"
    unfolding Tokens_def using assms(1,2) by (rule sint_add_exact64)
  then show ?thesis
    by (simp add: CanProceed_def checkLocked_def Halted_def expiredLocked_iff late_def
        tokens_spent_def dollars_spent_def sless_sint word_sle_eq)
qed

lemma CanProceed_exact_witness:
  "map_option he_Reason (snd (CanProceed 5 (gov_New Background (token_cap 10) [WithRestoredUsage
     \<lparr>U_PromptTokens = 4, U_CompletionTokens = 6, U_Dollars = fzero, U_Loops = 1\<rparr>] 0))) =
   Some HaltTokenBudget"
  using CanProceed_exact [of "gov_New Background (token_cap 10) [WithRestoredUsage
     \<lparr>U_PromptTokens = 4, U_CompletionTokens = 6, U_Dollars = fzero, U_Loops = 1\<rparr>] 0" 5]
  by (simp add: gov_New_def WithRestoredUsage_def Let_def token_cap_def Halted_def)

text \<open>
  The logical clock and the backstop agree. For a run started on the background context,
  after any calls, the guards' time check fires at exactly the instants at which the deadline
  of the run's context has passed, so a call in flight is interrupted when the next guard
  would refuse.
\<close>

theorem time_budget_is_deadline:
  "let r = final_state gov_step (restored_gov Background b u h t0) es
   in expiredLocked now r = (case c_deadline (g_ctx r) of None \<Rightarrow> False | Some d \<Rightarrow> d \<le> now) \<and>
      ctx_done (g_ctx r) now = (c_cancelled (g_ctx r) \<or> expiredLocked now r)"
proof -
  let ?r = "final_state gov_step (restored_gov Background b u h t0) es"
  have "c_deadline (g_ctx ?r) = (if 0 <s B_Seconds b then Some (t0 + sint (B_Seconds b) * 1000000000) else None)"
    by (auto simp: gov_New_def Let_def WithTimeout_def Background_def sint_seconds_duration
        WithRestoredUsage_def WithRestoredHalt_def)
  then have "expiredLocked now ?r = (case c_deadline (g_ctx ?r) of None \<Rightarrow> False | Some d \<Rightarrow> d \<le> now)"
    by (simp add: expiredLocked_iff gov_New_restored sless_sint)
  then show ?thesis by (simp add: Let_def ctx_done_def)
qed

text \<open>
  C28. Crash resume is invisible to the budgets. A run rebuilt from a snapshot of another
  run's usage and halt reason answers every later sequence of calls exactly as that run
  would have, and ends with the same usage and reason, when the budget has no wall-clock
  limit or the run had halted (the wall clock restarts with the process).
\<close>

theorem restored_run_simulates:
  assumes "B_Seconds (g_budget r) \<le>s 0 \<or> Halted r" "gov_Status r = (u, h)"
  shows "answers gov_step (restored_gov parent (g_budget r) u h now) es = answers gov_step r es \<and>
    gov_Status (final_state gov_step (restored_gov parent (g_budget r) u h now) es) =
      gov_Status (final_state gov_step r es)"
proof -
  have "gov_sim r (restored_gov parent (g_budget r) u h now)"
    using assms by (auto simp: gov_sim_def gov_Status_def gov_New_restored)
  from gov_sim_run [OF this, of es] show ?thesis by (simp add: gov_sim_def)
qed

lemma restored_run_simulates_witness:
  "answers gov_step (restored_gov Background (token_cap 10) zero_usage HaltNone 77)
     [EPreStep 80, ERecordUsage 81 9 9 fzero, ECanProceed 82] =
   answers gov_step (gov_New Background (token_cap 10) [] 3)
     [EPreStep 80, ERecordUsage 81 9 9 fzero, ECanProceed 82]"
  using restored_run_simulates [of "gov_New Background (token_cap 10) [] 3" zero_usage HaltNone
      Background 77 "[EPreStep 80, ERecordUsage 81 9 9 fzero, ECanProceed 82]"]
  by (simp add: gov_New_fresh gov_Status_def token_cap_def word_sle_eq)

text \<open>
  The dollar ledger never falls. As long as the recorded costs are non-negative values of
  a float64, the dollar total after any calls is at least what it was before them, although
  every addition rounds.
\<close>

theorem dollars_never_fall:
  assumes "representable (U_Dollars (g_usage r))" "fle fzero (U_Dollars (g_usage r))"
    and "list_all priced es"
  shows "fle (U_Dollars (g_usage r)) (U_Dollars (g_usage (final_state gov_step r es)))"
  using dollars.run_grows [of r es] assms by (simp add: dollars_sound_def)

lemma dollars_never_fall_witness:
  "fle (U_Dollars (g_usage (gov_New Background (token_cap 0) [] 0)))
     (U_Dollars (g_usage (final_state gov_step (gov_New Background (token_cap 0) [] 0)
        [ERecordUsage 1 0 0 (Fin 2), ERecordUsage 2 0 0 (Fin 3)])))"
  by (rule dollars_never_fall) (simp_all add: gov_New_fresh zero_usage_def)

text \<open>
  The largest loop budget is no budget. With \<open>Loops\<close> at the largest int32 the sum
  \<open>usage.Loops + 1\<close> in \<open>PreStep\<close> wraps instead of exceeding it, so no sequence of calls halts
  a run for its loop budget.
\<close>

theorem max_loop_budget_never_fires:
  assumes "B_Loops (g_budget r) = 2147483647" "g_halted r \<noteq> HaltLoopBudget"
  shows "g_halted (final_state gov_step r es) \<noteq> HaltLoopBudget"
  using assms
proof (induction es arbitrary: r)
  case (Cons e es)
  have m: "sint (2147483647 :: int32) = 2147483647" by simp
  have no: "\<not> (2147483647 :: int32) <s x" for x
    using sint_range32 [of x] unfolding sless_sint m by simp
  have "g_halted (fst (gov_step r e)) \<noteq> HaltLoopBudget"
  proof (cases "Halted r")
    case True
    with Cons.prems show ?thesis by (simp add: Halted_def)
  next
    case False
    with Cons.prems show ?thesis
      by (cases e) (simp_all add: PreStep_def CanProceed_def RecordUsage_def checkLocked_def
          gov_Cancel_def Halted_def no halt_reasons_distinct [symmetric])
  qed
  with Cons show ?case by simp
qed simp

lemma max_loop_budget_never_fires_witness:
  "g_halted (final_state gov_step (gov_New Background (loop_cap_of 2147483647) [WithRestoredUsage
     (zero_usage\<lparr>U_Loops := 2147483647\<rparr>)] 0) [EPreStep 1]) \<noteq> HaltLoopBudget"
  by (rule max_loop_budget_never_fires)
     (simp_all add: gov_New_def WithRestoredUsage_def Let_def loop_cap_of_def)

end
