(* ===== verification/Pricing.thy ===== *)
theory Pricing
  imports GoPrelude Float64 "HOL-Library.AList" "HOL-Library.Multiset"
begin

text \<open>
  Prices (\<open>internal/pricing/pricing.go\<close>). A Go map is the association list of its entries in
  the order in which \<open>range\<close> visits them, which the language leaves open; the lemmas show
  which results do not depend on it. The nil map of the zero \<open>Table\<close> is None.
\<close>

section \<open>Data\<close>

record rate =
  R_InputPerM :: float64
  R_OutputPerM :: float64

definition usd :: "rat \<Rightarrow> rat \<Rightarrow> rate" where
  "usd i out = \<lparr>R_InputPerM = f64 i, R_OutputPerM = f64 out\<rparr>"

definition defaultRates :: "(string \<times> rate) list" where
  "defaultRates =
    [(''claude-fable-5'', usd 10 50), (''claude-opus-4-8'', usd 5 25),
     (''claude-opus-4-7'', usd 5 25), (''claude-opus-4-6'', usd 5 25),
     (''claude-opus-4-5'', usd 5 25), (''claude-opus-4'', usd 15 75),
     (''claude-sonnet-4'', usd 3 15), (''claude-haiku-4'', usd 1 5),
     (''claude-3-5-haiku'', usd (4/5) 4), (''gpt-5.5'', usd 5 30),
     (''gpt-5.4-mini'', usd (3/4) (9/2)), (''gpt-5.4-nano'', usd (1/5) (5/4)),
     (''gpt-5.4'', usd (5/2) 15), (''gpt-4o-mini'', usd (3/20) (3/5)),
     (''gpt-4o'', usd (5/2) 10)]"

record price_table =
  T_rates :: "(string \<times> rate) list option"

section \<open>Building a table\<close>

definition put_lower :: "(string \<times> rate) list \<Rightarrow> (string \<times> rate) list \<Rightarrow> (string \<times> rate) list" where
  "put_lower kvs m = fold (\<lambda>(k, v) m. AList.update (ToLower k) v m) kvs m"

definition NewTable :: "(string \<times> rate) list \<Rightarrow> price_table" where
  "NewTable overrides = \<lparr>T_rates = Some (put_lower overrides (put_lower defaultRates []))\<rparr>"

definition lowerDefaults :: "(string \<times> rate) list" where
  "lowerDefaults = put_lower defaultRates []"

datatype load_error = ReadError string | ParseError string | NegativeRate string rate

text \<open>
  \<open>os.ReadFile\<close> and the strict JSON decoder are the arguments \<open>read\<close> and \<open>decode\<close>; the loop
  reports the first entry with a negative rate.
\<close>

definition negative_rate :: "rate \<Rightarrow> bool" where
  "negative_rate r \<longleftrightarrow> flt (R_InputPerM r) fzero \<or> flt (R_OutputPerM r) fzero"

definition LoadOverrides ::
    "(string \<Rightarrow> string + string) \<Rightarrow> (string \<Rightarrow> string + (string \<times> rate) list) \<Rightarrow> string \<Rightarrow>
     load_error + (string \<times> rate) list" where
  "LoadOverrides read decode path =
     (case read path of
        Inl e \<Rightarrow> Inl (ReadError e)
      | Inr data \<Rightarrow>
          (case decode data of
             Inl e \<Rightarrow> Inl (ParseError e)
           | Inr overrides \<Rightarrow>
               (case find (\<lambda>(model, r). negative_rate r) overrides of
                  Some (model, r) \<Rightarrow> Inl (NegativeRate model r)
                | None \<Rightarrow> Inr overrides)))"

section \<open>Looking a model up\<close>

definition better :: "string \<Rightarrow> string \<Rightarrow> string \<Rightarrow> string" where
  "better m best prefix =
     (if HasPrefix m prefix \<and> length best < length prefix then prefix else best)"

definition zero_rate :: rate where
  "zero_rate = \<lparr>R_InputPerM = fzero, R_OutputPerM = fzero\<rparr>"

definition Rate :: "price_table \<Rightarrow> string \<Rightarrow> rate \<times> bool" where
  "Rate t model =
     (let rates = (case T_rates t of None \<Rightarrow> lowerDefaults | Some m \<Rightarrow> m);
          m = ToLower model;
          best = fold (\<lambda>prefix best. better m best prefix) (map fst rates) ''''
      in if best = '''' then (zero_rate, False)
         else (case map_of rates best of None \<Rightarrow> (zero_rate, True) | Some r \<Rightarrow> (r, True)))"

definition Cost :: "price_table \<Rightarrow> string \<Rightarrow> int64 \<Rightarrow> int64 \<Rightarrow> float64 \<times> bool" where
  "Cost t model promptTokens completionTokens =
     (let (r, found) = Rate t model
      in if \<not> found then (fzero, False)
         else (fadd (fmul (fdivc (f64_of_int64 promptTokens) 1000000) (R_InputPerM r))
                    (fmul (fdivc (f64_of_int64 completionTokens) 1000000) (R_OutputPerM r)), True))"

section \<open>The longest prefix\<close>

definition longest_match :: "string \<Rightarrow> string set \<Rightarrow> string \<Rightarrow> bool" where
  "longest_match m ks best \<longleftrightarrow>
     (best = '''' \<or> best \<in> ks) \<and> HasPrefix m best \<and>
     (\<forall>k\<in>ks. HasPrefix m k \<longrightarrow> length k \<le> length best)"

lemma longest_match_unique: "longest_match m ks a \<Longrightarrow> longest_match m ks b \<Longrightarrow> a = b"
proof -
  assume a: "longest_match m ks a" and b: "longest_match m ks b"
  then have "length a = length b" by (auto simp: longest_match_def intro!: le_antisym)
  with a b show ?thesis by (auto simp: longest_match_def intro: HasPrefix_same_length)
qed

lemma better_longest:
  "longest_match m ks best \<Longrightarrow> longest_match m (insert k ks) (better m best k)"
  by (auto simp: longest_match_def better_def)

lemma fold_better: "longest_match m ks best \<Longrightarrow>
    longest_match m (ks \<union> set ps) (fold (\<lambda>p b. better m b p) ps best)"
proof (induction ps arbitrary: ks best)
  case (Cons p ps)
  from Cons.IH [OF better_longest [OF Cons.prems, of p]] show ?case by simp
qed simp

lemma fold_better_longest:
  "longest_match m (set ps) (fold (\<lambda>p b. better m b p) ps '''')"
  using fold_better [of m "{}" "''''" ps] by (simp add: longest_match_def)

lemma fold_better_perm:
  assumes "set ps = set qs"
  shows "fold (\<lambda>p b. better m b p) ps '''' = fold (\<lambda>p b. better m b p) qs ''''"
  using fold_better_longest [of m ps] fold_better_longest [of m qs] assms
  by (auto intro: longest_match_unique)

section \<open>Entries after an update loop\<close>

lemma put_lower_append: "put_lower (xs @ ys) m = put_lower ys (put_lower xs m)"
  by (simp add: put_lower_def)

lemma put_lower_distinct: "distinct (map fst m) \<Longrightarrow> distinct (map fst (put_lower kvs m))"
  by (induction kvs arbitrary: m) (auto simp: put_lower_def distinct_update)

lemma map_of_put_lower:
  "distinct (map (ToLower \<circ> fst) kvs) \<Longrightarrow>
     map_of (put_lower kvs m) = map_of m ++ map_of (map (\<lambda>(k, v). (ToLower k, v)) kvs)"
proof (induction kvs arbitrary: m)
  case (Cons kv kvs)
  obtain k v where kv: "kv = (k, v)" by force
  have fresh: "map_of (map (\<lambda>(k, v). (ToLower k, v)) kvs) (ToLower k) = None"
    using Cons.prems kv by (force simp: map_of_eq_None_iff)
  have "put_lower (kv # kvs) m = put_lower kvs (AList.update (ToLower k) v m)"
    by (simp add: put_lower_def kv)
  with Cons kv fresh show ?case
    by (auto simp: update_conv' fun_eq_iff map_add_def split: option.splits)
qed (simp add: put_lower_def)

lemma keys_lower: "(k, v) \<in> set (put_lower kvs m) \<Longrightarrow>
    (\<And>k v. (k, v) \<in> set m \<Longrightarrow> ToLower k = k) \<Longrightarrow> ToLower k = k"
proof (induction kvs arbitrary: m)
  case (Cons kv kvs)
  obtain k' v' where kv: "kv = (k', v')" by force
  have "ToLower a = a" if "(a, b) \<in> set (AList.update (ToLower k') v' m)" for a b
  proof -
    have "a \<in> fst ` set (AList.update (ToLower k') v' m)" using that by force
    then show ?thesis using Cons.prems(2) by (auto simp: dom_update)
  qed
  moreover have "(k, v) \<in> set (put_lower kvs (AList.update (ToLower k') v' m))"
    using Cons.prems(1) by (simp add: put_lower_def kv)
  ultimately show ?case by (rule Cons.IH [rotated])
qed (simp add: put_lower_def)

section \<open>What a cost is\<close>

definition sound_rate :: "rate \<Rightarrow> bool" where
  "sound_rate r \<longleftrightarrow> (\<exists>i out. R_InputPerM r = Fin i \<and> R_OutputPerM r = Fin out \<and> 0 \<le> i \<and> 0 \<le> out)"

definition sound_table :: "price_table \<Rightarrow> bool" where
  "sound_table t \<longleftrightarrow> (\<forall>(k, r) \<in> set (case T_rates t of None \<Rightarrow> lowerDefaults | Some m \<Rightarrow> m). sound_rate r)"

lemma sound_zero_rate: "sound_rate zero_rate"
  by (simp add: sound_rate_def zero_rate_def)

lemma sound_Rate: "sound_table t \<Longrightarrow> sound_rate (fst (Rate t m))"
  using sound_zero_rate
  by (auto simp: Rate_def Let_def sound_table_def split: option.splits dest!: map_of_SomeD)

lemma tokens_per_M:
  "\<exists>q. fdivc (f64_of_int64 n) 1000000 = Fin q \<and> (0 \<le> sint n \<longrightarrow> 0 \<le> q)"
proof -
  obtain a where a: "f64_of_int64 n = Fin a" "\<bar>a\<bar> \<le> 2 ^ 200" using f64_of_int64_finite by blast
  have "\<bar>a / 1000000\<bar> \<le> 2 ^ 200" using a(2) by (simp add: abs_le_iff)
  from f64_small [OF this] obtain q where q: "f64 (a / 1000000) = Fin q" by blast
  have "0 \<le> q" if "0 \<le> sint n"
  proof -
    have "fle (f64 0) (f64_of_int64 n)"
      using f64_of_int64_mono [of 0 n] that by (simp add: f64_of_int64_def)
    then have "0 \<le> a" by (simp add: a)
    then have "fle (f64 0) (f64 (a / 1000000))" by (intro f64_mono) simp
    then show ?thesis by (simp add: q)
  qed
  with a q show ?thesis by simp
qed

lemma tokens_per_M_mono:
  assumes "sint m \<le> sint n"
  shows "fle (fdivc (f64_of_int64 m) 1000000) (fdivc (f64_of_int64 n) 1000000)"
proof -
  obtain a b where "f64_of_int64 m = Fin a" "f64_of_int64 n = Fin b"
    using f64_of_int64_finite by meson
  with f64_of_int64_mono [OF assms] show ?thesis by (simp add: fdivc_mono del: fdivc.simps)
qed

lemma fmul_Fin_nonneg: "0 \<le> a \<Longrightarrow> 0 \<le> b \<Longrightarrow> fle fzero (fmul (Fin a) (Fin b))"
  by (rule fmul_nonneg) simp_all

lemma Cost_sound:
  assumes "sound_table t" "0 \<le> sint p" "0 \<le> sint c"
  shows "representable (fst (Cost t m p c)) \<and> fle fzero (fst (Cost t m p c))"
proof (cases "snd (Rate t m)")
  case False
  then show ?thesis by (simp add: Cost_def case_prod_beta Let_def)
next
  case True
  obtain i out where r: "R_InputPerM (fst (Rate t m)) = Fin i" "R_OutputPerM (fst (Rate t m)) = Fin out"
    "0 \<le> i" "0 \<le> out" using sound_Rate [OF assms(1), of m] by (auto simp: sound_rate_def)
  obtain x where x: "fdivc (f64_of_int64 p) 1000000 = Fin x" "0 \<le> x"
    using tokens_per_M [of p] assms(2) by blast
  obtain y where y: "fdivc (f64_of_int64 c) 1000000 = Fin y" "0 \<le> y"
    using tokens_per_M [of c] assms(3) by blast
  have "fst (Cost t m p c) = fadd (fmul (Fin x) (Fin i)) (fmul (Fin y) (Fin out))"
    using True by (simp add: Cost_def case_prod_beta Let_def r x y del: fmul.simps fadd.simps)
  moreover have "fle fzero (fmul (Fin x) (Fin i))" "fle fzero (fmul (Fin y) (Fin out))"
    using r x y by (simp_all only: fmul_Fin_nonneg)
  ultimately show ?thesis by (metis fadd_nonneg representable_fadd representable_fmul)
qed

lemma Cost_mono:
  assumes "sound_table t" "0 \<le> sint p" "0 \<le> sint c" "sint p \<le> sint p'" "sint c \<le> sint c'"
  shows "fle (fst (Cost t m p c)) (fst (Cost t m p' c'))"
proof (cases "snd (Rate t m)")
  case False
  then show ?thesis by (simp add: Cost_def case_prod_beta Let_def)
next
  case True
  obtain i out where r: "R_InputPerM (fst (Rate t m)) = Fin i" "R_OutputPerM (fst (Rate t m)) = Fin out"
    "0 \<le> i" "0 \<le> out" using sound_Rate [OF assms(1), of m] by (auto simp: sound_rate_def)
  obtain x where x: "fdivc (f64_of_int64 p) 1000000 = Fin x" "0 \<le> x"
    using tokens_per_M [of p] assms(2) by blast
  obtain y where y: "fdivc (f64_of_int64 c) 1000000 = Fin y" "0 \<le> y"
    using tokens_per_M [of c] assms(3) by blast
  obtain x' y' where x': "fdivc (f64_of_int64 p') 1000000 = Fin x'"
    and y': "fdivc (f64_of_int64 c') 1000000 = Fin y'" using tokens_per_M by meson
  have le: "fle (Fin x) (Fin x')" "fle (Fin y) (Fin y')"
    using tokens_per_M_mono [OF assms(4)] tokens_per_M_mono [OF assms(5)] by (simp_all add: x y x' y')
  have e: "fst (Cost t m p c) = fadd (fmul (Fin x) (Fin i)) (fmul (Fin y) (Fin out))"
    "fst (Cost t m p' c') = fadd (fmul (Fin x') (Fin i)) (fmul (Fin y') (Fin out))"
    using True by (simp_all add: Cost_def case_prod_beta Let_def r x y x' y' del: fmul.simps fadd.simps)
  show ?thesis unfolding e
    using r x y le by (intro fadd_mono fmul_Fin_nonneg fmul_mono)
qed

text \<open>
  What the callers that meter rely on: a cost is a float64, never negative for non-negative
  token counts, and zero when the model has no price.
\<close>

locale pricer =
  fixes price :: "string \<Rightarrow> int64 \<Rightarrow> int64 \<Rightarrow> float64 \<times> bool"
  assumes price_representable: "0 \<le> sint p \<Longrightarrow> 0 \<le> sint c \<Longrightarrow> representable (fst (price m p c))"
    and price_nonneg: "0 \<le> sint p \<Longrightarrow> 0 \<le> sint c \<Longrightarrow> fle fzero (fst (price m p c))"
    and unpriced_free: "\<not> snd (price m p c) \<Longrightarrow> fst (price m p c) = fzero"
begin

lemma charge_grows:
  "0 \<le> sint p \<Longrightarrow> 0 \<le> sint c \<Longrightarrow> representable x \<Longrightarrow> fle fzero x \<Longrightarrow>
     fle x (fadd x (fst (price m p c)))"
  by (rule fadd_ge) (simp_all add: price_nonneg)

lemma unpriced_charge: "\<not> snd (price m p c) \<Longrightarrow> fadd (Fin a) (fst (price m p c)) = f64 a"
  by (simp add: unpriced_free)

end

lemma Cost_unpriced: "\<not> snd (Cost t m p c) \<Longrightarrow> fst (Cost t m p c) = fzero"
  by (simp add: Cost_def case_prod_beta Let_def split: if_splits)

lemma usd_sound: "0 \<le> i \<Longrightarrow> i \<le> 2 ^ 200 \<Longrightarrow> 0 \<le> out \<Longrightarrow> out \<le> 2 ^ 200 \<Longrightarrow> sound_rate (usd i out)"
  using f64_small [of i] f64_small [of out] f64_mono [of 0 i] f64_mono [of 0 out]
  by (auto simp: sound_rate_def usd_def)

lemma put_lower_sound:
  "\<forall>(k, r) \<in> set kvs \<union> set m. sound_rate r \<Longrightarrow> \<forall>(k, r) \<in> set (put_lower kvs m). sound_rate r"
proof (induction kvs arbitrary: m)
  case (Cons kv kvs)
  obtain k v where kv: "kv = (k, v)" by force
  have "set (AList.update (ToLower k) v m) \<subseteq> insert (ToLower k, v) (set m)"
    by (induction m) auto
  with Cons.prems kv have "\<forall>(a, r) \<in> set kvs \<union> set (AList.update (ToLower k) v m). sound_rate r"
    by fastforce
  from Cons.IH [OF this] show ?case by (simp add: put_lower_def kv)
qed (simp add: put_lower_def)

lemma usd_sound100: "0 \<le> i \<Longrightarrow> i \<le> 100 \<Longrightarrow> 0 \<le> out \<Longrightarrow> out \<le> 100 \<Longrightarrow> sound_rate (usd i out)"
proof -
  have "(100 :: rat) \<le> 2 ^ 200" by simp
  moreover assume "0 \<le> i" "i \<le> 100" "0 \<le> out" "out \<le> 100"
  ultimately show ?thesis by (intro usd_sound) linarith+
qed

lemma defaultRates_sound: "\<forall>(k, r) \<in> set defaultRates. sound_rate r"
  by (simp only: defaultRates_def list.set ball_simps prod.case) (simp add: usd_sound100)

lemma NewTable_sound:
  assumes "\<forall>(k, r) \<in> set overrides. sound_rate r"
  shows "sound_table (NewTable overrides)"
proof -
  have "\<forall>(k, r) \<in> set (put_lower defaultRates []). sound_rate r"
    by (rule put_lower_sound) (use defaultRates_sound in simp)
  with assms have "\<forall>(k, r) \<in> set overrides \<union> set (put_lower defaultRates []). sound_rate r"
    by blast
  from put_lower_sound [OF this] show ?thesis by (simp only: sound_table_def NewTable_def option.case price_table.select_convs)
qed

lemma pricer_Cost: "sound_table t \<Longrightarrow> pricer (Cost t)"
  using Cost_sound [of t] Cost_unpriced [of t] by unfold_locales blast+

interpretation builtin: pricer "Cost (NewTable [])"
  by (rule pricer_Cost, rule NewTable_sound) simp

section \<open>Properties of pricing\<close>

lemma Rate_best:
  assumes "distinct (map fst m)"
  obtains best where "longest_match (ToLower model) (fst ` set m) best"
    "best = fold (\<lambda>p b. better (ToLower model) b p) (map fst m) ''''"
    "Rate \<lparr>T_rates = Some m\<rparr> model =
      (if best = '''' then (zero_rate, False) else (the (map_of m best), True))"
proof -
  define best where "best = fold (\<lambda>p b. better (ToLower model) b p) (map fst m) ''''"
  have L: "longest_match (ToLower model) (fst ` set m) best"
    using fold_better_longest [of "ToLower model" "map fst m"] by (simp add: best_def)
  have "Rate \<lparr>T_rates = Some m\<rparr> model =
      (if best = '''' then (zero_rate, False) else (the (map_of m best), True))"
  proof (cases "best = ''''")
    case False
    with L have "map_of m best \<noteq> None" by (simp add: longest_match_def map_of_eq_None_iff)
    with False show ?thesis
      by (auto simp: Rate_def Let_def best_def [symmetric] split: option.splits)
  qed (simp add: Rate_def Let_def best_def [symmetric])
  with L best_def show ?thesis by (rule that)
qed

lemma Rate_found_iff:
  assumes "distinct (map fst m)"
  shows "Rate \<lparr>T_rates = Some m\<rparr> model = (r, True) \<longleftrightarrow>
    (\<exists>k. map_of m k = Some r \<and> k \<noteq> '''' \<and> longest_match (ToLower model) (fst ` set m) k)"
proof -
  from Rate_best [OF assms] obtain best where L: "longest_match (ToLower model) (fst ` set m) best"
    and R: "Rate \<lparr>T_rates = Some m\<rparr> model =
      (if best = '''' then (zero_rate, False) else (the (map_of m best), True))" by metis
  show ?thesis
  proof
    assume "Rate \<lparr>T_rates = Some m\<rparr> model = (r, True)"
    with R have ne: "best \<noteq> ''''" and r: "the (map_of m best) = r" by (auto split: if_splits)
    with L have "map_of m best \<noteq> None" by (simp add: longest_match_def map_of_eq_None_iff)
    with r have "map_of m best = Some r" by auto
    with L ne show "\<exists>k. map_of m k = Some r \<and> k \<noteq> '''' \<and> longest_match (ToLower model) (fst ` set m) k"
      by blast
  next
    assume "\<exists>k. map_of m k = Some r \<and> k \<noteq> '''' \<and> longest_match (ToLower model) (fst ` set m) k"
    with longest_match_unique [OF L] R show "Rate \<lparr>T_rates = Some m\<rparr> model = (r, True)" by auto
  qed
qed

lemma Rate_exact:
  assumes "distinct (map fst m)" "map_of m (ToLower model) = Some r" "ToLower model \<noteq> ''''"
  shows "Rate \<lparr>T_rates = Some m\<rparr> model = (r, True)"
proof -
  have "ToLower model \<in> fst ` set m" using assms(2) by (force dest: map_of_SomeD)
  then have "longest_match (ToLower model) (fst ` set m) (ToLower model)"
    using HasPrefix_length [of "ToLower model"] by (auto simp: longest_match_def HasPrefix_def)
  with assms Rate_found_iff [OF assms(1)] show ?thesis by blast
qed

lemma Rate_perm:
  assumes "distinct (map fst m)" "mset m' = mset m"
  shows "Rate \<lparr>T_rates = Some m'\<rparr> model = Rate \<lparr>T_rates = Some m\<rparr> model"
proof -
  have set: "set m' = set m" using assms(2) by (rule mset_eq_setD)
  have "mset (map fst m') = mset (map fst m)" using assms(2) by simp
  then have "distinct (map fst m')" using assms(1) by (metis mset_eq_imp_distinct_iff)
  then have "map_of m' = map_of m" using assms(1) set by (simp add: map_of_inject_set)
  then show ?thesis
    using fold_better_perm [of "map fst m'" "map fst m" "ToLower model"] set
    by (simp add: Rate_def Let_def)
qed

text \<open>
  C29. The rate of a model is that of its longest listed prefix, whatever order the map is
  visited in. For a table whose keys are distinct, \<open>Rate\<close> returns a rate exactly when that
  rate is stored under a non-empty key that is a prefix of the lower-cased model name and no
  shorter than any other key that is one; and a table holding the same entries in another
  order answers alike.
\<close>

theorem Rate_longest_prefix:
  assumes "distinct (map fst m)" "mset m' = mset m"
  shows "Rate \<lparr>T_rates = Some m'\<rparr> model = Rate \<lparr>T_rates = Some m\<rparr> model \<and>
    (Rate \<lparr>T_rates = Some m\<rparr> model = (r, True) \<longleftrightarrow>
      (\<exists>k. map_of m k = Some r \<and> k \<noteq> '''' \<and> HasPrefix (ToLower model) k \<and>
         list_all (\<lambda>k'. \<not> HasPrefix (ToLower model) k' \<or> length k' \<le> length k) (map fst m)))"
proof -
  have "k \<in> fst ` set m" if "map_of m k = Some r" for k
    using map_of_SomeD [OF that] by force
  then have "longest_match (ToLower model) (fst ` set m) k \<longleftrightarrow> HasPrefix (ToLower model) k \<and>
      list_all (\<lambda>k'. \<not> HasPrefix (ToLower model) k' \<or> length k' \<le> length k) (map fst m)"
    if "map_of m k = Some r" for k
    using that unfolding longest_match_def list_all_iff set_map by blast
  then show ?thesis
    unfolding Rate_found_iff [OF assms(1)] using Rate_perm [OF assms] by blast
qed

lemma Rate_longest_prefix_witness:
  "Rate \<lparr>T_rates = Some [(''gpt-4o-mini'', usd 1 2), (''gpt-4o'', usd 3 4)]\<rparr> ''GPT-4o-mini-2024'' =
     (usd 1 2, True)"
proof -
  let ?m = "[(''gpt-4o-mini'', usd 1 2), (''gpt-4o'', usd 3 4)]"
  have l: "ToLower ''GPT-4o-mini-2024'' = ''gpt-4o-mini-2024''" by code_simp
  have "distinct (map fst ?m)" "mset ?m = mset ?m" by simp_all
  note R = conjunct2 [OF Rate_longest_prefix [OF this], of "''GPT-4o-mini-2024''" "usd 1 2"]
  show ?thesis unfolding R
    by (rule exI [of _ "''gpt-4o-mini''"]) (simp add: l HasPrefix_def)
qed

lemma defaultRates_lower: "map (\<lambda>(k, v). (ToLower k, v)) defaultRates = defaultRates"
proof -
  have "map (ToLower \<circ> fst) defaultRates = map fst defaultRates"
    unfolding defaultRates_def list.map o_def fst_conv by code_simp
  then have "\<forall>x \<in> set defaultRates. ToLower (fst x) = fst x" by (simp add: map_eq_conv)
  then show ?thesis by (intro map_idI) (auto simp: split_beta)
qed

lemma defaultRates_distinct: "distinct (map fst defaultRates)"
  unfolding defaultRates_def list.map fst_conv by code_simp

text \<open>
  Overrides replace built-in prices and nothing else. When no two override keys differ
  only in case, the table \<open>NewTable\<close> builds has distinct keys, holds each override under its
  lower-cased key, and holds the built-in rate under every other built-in key.
\<close>

theorem NewTable_overrides:
  assumes "distinct (map (ToLower \<circ> fst) overrides)"
  shows "case T_rates (NewTable overrides) of None \<Rightarrow> False
    | Some m \<Rightarrow> distinct (map fst m) \<and>
        map_of m k = (case map_of (map (\<lambda>(k, v). (ToLower k, v)) overrides) k of
                        Some r \<Rightarrow> Some r | None \<Rightarrow> map_of defaultRates k)"
proof -
  have keys: "map (ToLower \<circ> fst) defaultRates = map fst defaultRates"
    using arg_cong [OF defaultRates_lower, of "map fst"] by (simp only: map_map o_def split_beta fst_conv)
  have "distinct (map (ToLower \<circ> fst) defaultRates)" unfolding keys by (rule defaultRates_distinct)
  from map_of_put_lower [OF this, of "[]"]
  have "map_of (put_lower defaultRates []) = map_of defaultRates" by (simp add: defaultRates_lower)
  with map_of_put_lower [OF assms, of "put_lower defaultRates []"]
  have "map_of (put_lower overrides (put_lower defaultRates [])) =
      map_of defaultRates ++ map_of (map (\<lambda>(k, v). (ToLower k, v)) overrides)" by simp
  then show ?thesis
    by (simp add: NewTable_def put_lower_distinct map_add_def split: option.splits)
qed

lemma NewTable_overrides_witness:
  "case T_rates (NewTable [(''GPT-4o'', usd 1 1)]) of None \<Rightarrow> False
    | Some m \<Rightarrow> distinct (map fst m) \<and>
        map_of m ''gpt-4o'' = (case map_of (map (\<lambda>(k, v). (ToLower k, v)) [(''GPT-4o'', usd 1 1)]) ''gpt-4o'' of
                        Some r \<Rightarrow> Some r | None \<Rightarrow> map_of defaultRates ''gpt-4o'')"
  by (rule NewTable_overrides) simp

definition finite_rate :: "rate \<Rightarrow> bool" where
  "finite_rate r \<longleftrightarrow> (\<exists>i out. R_InputPerM r = Fin i \<and> R_OutputPerM r = Fin out)"

lemma LoadOverrides_sound:
  assumes "LoadOverrides read decode path = Inr overrides"
    and "\<And>data m. decode data = Inr m \<Longrightarrow> list_all (\<lambda>(_, r). finite_rate r) m"
  shows "sound_table (NewTable overrides)"
proof (rule NewTable_sound)
  from assms(1) obtain data where d: "decode data = Inr overrides"
    "find (\<lambda>(model, r). negative_rate r) overrides = None"
    by (auto simp: LoadOverrides_def split: sum.splits option.splits)
  then have "finite_rate r \<and> \<not> negative_rate r" if "(k, r) \<in> set overrides" for k r
    using that assms(2) [OF d(1)] by (auto simp: find_None_iff list_all_iff)
  then show "\<forall>(k, r) \<in> set overrides. sound_rate r"
    by (fastforce simp: finite_rate_def negative_rate_def sound_rate_def)
qed

text \<open>
  A price list that loads is a sound basis for the dollar budget. When the decoder
  yields finite numbers (JSON has no others), every table built from overrides that
  \<open>LoadOverrides\<close> accepts gives each call a cost that is a float64, not negative, zero for an
  unpriced model, and at least that of a call with no more tokens of either kind.
\<close>

theorem loaded_prices_sound:
  assumes "LoadOverrides read decode path = Inr overrides"
    and decode_finite: "\<And>data m. decode data = Inr m \<Longrightarrow> list_all (\<lambda>(_, r). finite_rate r) m"
    and "0 \<le> sint p" "sint p \<le> sint p'" "0 \<le> sint c" "sint c \<le> sint c'"
  shows "let cost = \<lambda>p c. fst (Cost (NewTable overrides) model p c)
    in representable (cost p c) \<and> fle fzero (cost p c) \<and> fle (cost p c) (cost p' c') \<and>
       (snd (Cost (NewTable overrides) model p c) \<or> cost p c = fzero)"
proof -
  have s: "sound_table (NewTable overrides)" using assms(1,2) by (rule LoadOverrides_sound)
  show ?thesis
    using Cost_sound [OF s assms(3,5), of model] Cost_mono [OF s assms(3,5,4,6), of model]
      Cost_unpriced [of "NewTable overrides" model p c]
    unfolding Let_def by blast
qed

lemma loaded_prices_sound_witness:
  "fle fzero (fst (Cost (NewTable [(''my-model'', usd 1 2)]) ''my-model-7'' 10 20)) \<and>
   fle (fst (Cost (NewTable [(''my-model'', usd 1 2)]) ''my-model-7'' 10 20))
       (fst (Cost (NewTable [(''my-model'', usd 1 2)]) ''my-model-7'' 11 20))"
  using loaded_prices_sound [of "\<lambda>_. Inr ''{...}''" "\<lambda>_. Inr [(''my-model'', usd 1 2)]" "''/prices''"
      "[(''my-model'', usd 1 2)]" 10 11 20 20 "''my-model-7''"]
  by (simp add: LoadOverrides_def negative_rate_def usd_def finite_rate_def Let_def)

text \<open>
  Override keys that differ only in case are resolved by map order. For two such entries
  the table keeps the rate visited last, so two visiting orders of one override map price the
  model differently.
\<close>

theorem override_case_collision:
  "Rate (NewTable [(''My-Model'', a), (''my-model'', b)]) ''my-model'' = (b, True) \<and>
   Rate (NewTable [(''my-model'', b), (''My-Model'', a)]) ''my-model'' = (a, True)"
proof -
  have l: "ToLower ''My-Model'' = ''my-model''" "ToLower ''my-model'' = ''my-model''" by code_simp+
  have "map_of (put_lower [(''My-Model'', x), (''my-model'', y)] m) ''my-model'' = Some y"
    "map_of (put_lower [(''my-model'', y), (''My-Model'', x)] m) ''my-model'' = Some x" for x y m
    by (simp_all add: put_lower_def l update_conv')
  with put_lower_distinct show ?thesis
    unfolding NewTable_def by (auto simp: l intro!: Rate_exact)
qed

end
