(* ===== verification/Glob.thy ===== *)
theory Glob
  imports GoPrelude
begin

text \<open>
  \<open>path.Match\<close> of the Go standard library, which decides side-effect globs and tool
  allowlists. The functions follow the library's: a pattern is cut into chunks between
  stars, a chunk is matched byte by byte, and \<open>*\<close> skips bytes other than \<open>/\<close>. None is
  \<open>ErrBadPattern\<close>. A rune is a byte, which is exact for ASCII patterns and names.
\<close>

section \<open>The matcher\<close>

definition getEsc :: "string \<Rightarrow> (char \<times> string) option" where
  "getEsc chunk =
     (case chunk of
        [] \<Rightarrow> None
      | c # cs \<Rightarrow>
          if c = CHR ''-'' \<or> c = CHR '']'' then None
          else (case (if c = CHR 0x5C then cs else c # cs) of
                  [] \<Rightarrow> None
                | r # nchunk \<Rightarrow> if nchunk = [] then None else Some (r, nchunk)))"

lemma getEsc_length: "getEsc chunk = Some (r, rest) \<Longrightarrow> length rest < length chunk"
  by (auto simp: getEsc_def split: list.splits if_splits)

text \<open>The ranges of a character class up to its bracket: whether \<open>r\<close> is in one, and the rest.\<close>

function class_ranges :: "bool \<Rightarrow> char \<Rightarrow> bool \<Rightarrow> string \<Rightarrow> (bool \<times> string) option" where
  "class_ranges some r hit chunk =
     (if some \<and> chunk \<noteq> [] \<and> hd chunk = CHR '']'' then Some (hit, tl chunk)
      else (case getEsc chunk of
              None \<Rightarrow> None
            | Some (lo, c1) \<Rightarrow>
                if hd c1 = CHR ''-'' then
                  (case getEsc (tl c1) of
                     None \<Rightarrow> None
                   | Some (hi, c2) \<Rightarrow>
                       class_ranges True r
                         (hit \<or> (of_char lo :: nat) \<le> of_char r \<and> (of_char r :: nat) \<le> of_char hi) c2)
                else class_ranges True r (hit \<or> lo = r) c1))"
  by pat_completeness auto
termination
proof (relation "measure (\<lambda>(_, _, _, chunk). length chunk)", goal_cases)
  case (2 some r hit chunk p lo c1 q hi c2)
  then have "length c1 < length chunk" "length c2 < length (tl c1)" by (auto dest: getEsc_length)
  then show ?case by simp
qed (auto dest: getEsc_length)

declare class_ranges.simps [simp del]

lemma class_ranges_length: "class_ranges some r hit chunk = Some (m, rest) \<Longrightarrow> length rest < length chunk"
proof (induction some r hit chunk rule: class_ranges.induct)
  case (1 some r hit chunk)
  note eq = 1(3) [unfolded class_ranges.simps [of some r hit chunk]]
  show ?case
  proof (cases "some \<and> chunk \<noteq> [] \<and> hd chunk = CHR '']''")
    case True
    with eq show ?thesis by (cases chunk) auto
  next
    case False
    with eq obtain lo c1 where e1: "getEsc chunk = Some (lo, c1)"
      by (auto simp only: if_False split: option.splits prod.splits)
    note l1 = getEsc_length [OF e1]
    show ?thesis
    proof (cases "hd c1 = CHR ''-''")
      case True
      with eq False e1 obtain hi c2 where e2: "getEsc (tl c1) = Some (hi, c2)"
        by (cases "getEsc (tl c1)") (simp_all only: if_False if_True option.case prod.case, auto)
      from getEsc_length [OF e2] l1 have "length c2 < length chunk" by simp
      with 1(1) [OF False e1 refl True e2 refl] eq False e1 e2 True show ?thesis by simp
    next
      case no: False
      with 1(2) [OF False e1 refl no] eq False e1 l1 show ?thesis by simp
    qed
  qed
qed

text \<open>
  \<open>matchChunk\<close>: None for a malformed chunk; Some None when it does not match; Some (Some t)
  when it matches a prefix of \<open>s\<close> and \<open>t\<close> is left. After a mismatch the rest of the chunk is
  still checked, with \<open>failed\<close> set.
\<close>

function matchChunk :: "string \<Rightarrow> string \<Rightarrow> bool \<Rightarrow> string option option" where
  "matchChunk chunk s failed0 =
     (case chunk of
        [] \<Rightarrow> Some (if failed0 then None else Some s)
      | c # cs \<Rightarrow>
          (let failed = (failed0 \<or> s = []) in
           if c = CHR ''['' then
             (let r = (if failed then CHR 0x00 else hd s);
                  s' = (if failed then s else tl s);
                  negated = (cs \<noteq> [] \<and> hd cs = CHR 0x5E);
                  cs' = (if negated then tl cs else cs)
              in case class_ranges False r False cs' of
                   None \<Rightarrow> None
                 | Some (m, rest) \<Rightarrow> matchChunk rest s' (failed \<or> m = negated))
           else if c = CHR ''?'' then
             (if failed then matchChunk cs s failed
              else matchChunk cs (tl s) (hd s = CHR ''/''))
           else if c = CHR 0x5C \<and> cs = [] then None
           else (let cs' = (if c = CHR 0x5C then cs else c # cs) in
                 if failed then matchChunk (tl cs') s failed
                 else matchChunk (tl cs') (tl s) (hd cs' \<noteq> hd s))))"
  by pat_completeness auto
termination
  by (relation "measure (\<lambda>(chunk, _, _). length chunk)")
     (auto dest!: class_ranges_length split: if_splits)

declare matchChunk.simps [simp del]

text \<open>\<open>scanChunk\<close>: whether stars lead, the chunk up to the next star outside a class, the rest.\<close>

fun scan_to_star :: "bool \<Rightarrow> string \<Rightarrow> string \<times> string" where
  "scan_to_star inrange [] = ([], [])"
| "scan_to_star inrange (c # cs) =
     (if c = CHR 0x5C then
        (case cs of [] \<Rightarrow> ([c], []) | d # ds \<Rightarrow> apfst (\<lambda>a. c # d # a) (scan_to_star inrange ds))
      else if c = CHR ''*'' \<and> \<not> inrange then ([], c # cs)
      else apfst (\<lambda>a. c # a)
             (scan_to_star (if c = CHR ''['' then True else if c = CHR '']'' then False else inrange) cs))"

definition scanChunk :: "string \<Rightarrow> bool \<times> string \<times> string" where
  "scanChunk pattern =
     (let star = (pattern \<noteq> [] \<and> hd pattern = CHR ''*'');
          p = dropWhile (\<lambda>c. c = CHR ''*'') pattern
      in (star, scan_to_star False p))"

lemma scan_to_star_append: "fst (scan_to_star r p) @ snd (scan_to_star r p) = p"
  by (induction r p rule: scan_to_star.induct) (simp_all split: list.split)

lemma scan_to_star_nonempty: "c \<noteq> CHR ''*'' \<Longrightarrow> fst (scan_to_star False (c # cs)) \<noteq> []"
  by (auto split: list.split)

lemma scanChunk_length:
  assumes "pattern \<noteq> []" "scanChunk pattern = (star, chunk, rest)"
  shows "length rest < length pattern"
proof -
  obtain c cs where p: "pattern = c # cs" using assms(1) by (cases pattern) auto
  let ?p = "dropWhile (\<lambda>c. c = CHR ''*'') pattern"
  from assms(2) have s: "scan_to_star False ?p = (chunk, rest)"
    unfolding scanChunk_def Let_def by (metis prod.inject)
  from scan_to_star_append [of False ?p] s have l: "length ?p = length chunk + length rest"
    by (metis length_append fst_conv snd_conv)
  show ?thesis
  proof (cases "c = CHR ''*''")
    case True
    have "length ?p \<le> length cs" unfolding p using True by (simp add: length_dropWhile_le)
    with l p show ?thesis by simp
  next
    case False
    then have q: "?p = c # cs" by (simp add: p)
    from scan_to_star_nonempty [OF False, of cs] s have "chunk \<noteq> []" unfolding q by simp
    then have "0 < length chunk" by simp
    with l p q show ?thesis by simp
  qed
qed

text \<open>The syntax check of what is left of a pattern that already failed.\<close>

function rest_ok :: "string \<Rightarrow> bool" where
  "rest_ok pattern =
     (if pattern = [] then True
      else (let (_, chunk, rest) = scanChunk pattern
            in matchChunk chunk [] False \<noteq> None \<and> rest_ok rest))"
  by pat_completeness auto
termination
  by (relation "measure length") (auto intro: scanChunk_length [OF _ sym])

declare rest_ok.simps [simp del]

text \<open>
  After a star: try the chunk at each later position up to the first slash. The last chunk
  of a pattern has to exhaust the name.
\<close>

fun star_skip :: "string \<Rightarrow> bool \<Rightarrow> string \<Rightarrow> string option option" where
  "star_skip chunk last_chunk [] = Some None"
| "star_skip chunk last_chunk (c # name) =
     (if c = CHR ''/'' then Some None
      else (case matchChunk chunk name False of
              None \<Rightarrow> None
            | Some (Some t) \<Rightarrow>
                if last_chunk \<and> t \<noteq> [] then star_skip chunk last_chunk name else Some (Some t)
            | Some None \<Rightarrow> star_skip chunk last_chunk name))"

function Match :: "string \<Rightarrow> string \<Rightarrow> bool option" where
  "Match pattern name =
     (if pattern = [] then Some (name = [])
      else
        (let (star, chunk, rest) = scanChunk pattern in
         if star \<and> chunk = [] then Some (CHR ''/'' \<notin> set name)
         else
           (case matchChunk chunk name False of
              None \<Rightarrow> None
            | Some here \<Rightarrow>
                (case here of
                   Some t \<Rightarrow>
                     if t = [] \<or> rest \<noteq> [] then Match rest t
                     else (case (if star then star_skip chunk (rest = []) name else Some None) of
                             None \<Rightarrow> None
                           | Some (Some t) \<Rightarrow> Match rest t
                           | Some None \<Rightarrow> if rest_ok rest then Some False else None)
                 | None \<Rightarrow>
                     (case (if star then star_skip chunk (rest = []) name else Some None) of
                        None \<Rightarrow> None
                      | Some (Some t) \<Rightarrow> Match rest t
                      | Some None \<Rightarrow> if rest_ok rest then Some False else None)))))"
  by pat_completeness auto
termination
  by (relation "measure (\<lambda>(pattern, _). length pattern)")
     (auto intro: scanChunk_length [OF _ sym])

declare Match.simps [simp del]

text \<open>\<open>ok, err := path.Match(p, s); err == nil && ok\<close>, as every caller reads it.\<close>

definition glob :: "string \<Rightarrow> string \<Rightarrow> bool" where
  "glob pattern name \<longleftrightarrow> Match pattern name = Some True"

section \<open>Patterns without metacharacters\<close>

definition plain_char :: "char \<Rightarrow> bool" where
  "plain_char c \<longleftrightarrow> c \<noteq> CHR ''*'' \<and> c \<noteq> CHR ''?'' \<and> c \<noteq> CHR ''['' \<and> c \<noteq> CHR 0x5C"

abbreviation plain :: "string \<Rightarrow> bool" where
  "plain s \<equiv> list_all plain_char s"

lemma matchChunk_Nil [simp]: "matchChunk [] s failed = Some (if failed then None else Some s)"
  by (simp add: matchChunk.simps)

lemma matchChunk_plain_Cons:
  "plain_char c \<Longrightarrow> matchChunk (c # cs) s failed =
     (if failed \<or> s = [] then matchChunk cs s True else matchChunk cs (tl s) (c \<noteq> hd s))"
  by (subst matchChunk.simps) (simp add: plain_char_def Let_def)

lemma matchChunk_plain:
  "plain lit \<Longrightarrow> matchChunk lit s failed =
     Some (if \<not> failed \<and> HasPrefix s lit then Some (drop (length lit) s) else None)"
proof (induction lit arbitrary: s failed)
  case (Cons c lit)
  then show ?case by (cases s) (auto simp: matchChunk_plain_Cons HasPrefix_def)
qed simp

lemma scan_to_star_plain:
  "plain lit \<Longrightarrow> rest = [] \<or> hd rest = CHR ''*'' \<Longrightarrow> scan_to_star False (lit @ rest) = (lit, rest)"
proof (induction lit)
  case Nil
  then show ?case by (cases rest) auto
qed (auto simp: plain_char_def)

lemma scanChunk_plain:
  assumes "plain lit" "lit \<noteq> []" "rest = [] \<or> hd rest = CHR ''*''"
  shows "scanChunk (lit @ rest) = (False, lit, rest)"
    and "scanChunk (CHR ''*'' # lit @ rest) = (True, lit, rest)"
proof -
  from assms(1,2) obtain c cs where c: "lit = c # cs" "c \<noteq> CHR ''*''"
    by (cases lit) (auto simp: plain_char_def)
  then show "scanChunk (lit @ rest) = (False, lit, rest)"
    "scanChunk (CHR ''*'' # lit @ rest) = (True, lit, rest)"
    using scan_to_star_plain [OF assms(1,3)] by (simp_all add: scanChunk_def)
qed

lemma Match_Nil [simp]: "Match [] name = Some (name = [])"
  by (simp add: Match.simps)

lemma Match_star [simp]: "Match ''*'' name = Some (CHR ''/'' \<notin> set name)"
  by (simp add: Match.simps scanChunk_def)

lemma rest_ok_Nil [simp]: "rest_ok []"
  by (simp add: rest_ok.simps)

lemma rest_ok_star [simp]: "rest_ok ''*''"
  by (simp add: rest_ok.simps scanChunk_def)

text \<open>A pattern without metacharacters matches the name it spells, and no other.\<close>

lemma glob_plain:
  assumes "plain lit"
  shows "glob lit name \<longleftrightarrow> name = lit"
proof (cases "lit = []")
  case False
  have "Match lit name = Some (name = lit)"
    using scanChunk_plain(1) [OF assms False, of "[]"] matchChunk_plain [OF assms, of name False] False
    by (subst Match.simps) (auto simp: HasPrefix_iff)
  then show ?thesis by (simp add: glob_def)
qed (auto simp: glob_def)

text \<open>
  The position a chunk after a star is matched at: the first one at or after the start that
  is not behind a slash.
\<close>

fun first_match :: "string \<Rightarrow> string \<Rightarrow> string option" where
  "first_match lit [] = (if lit = [] then Some [] else None)"
| "first_match lit (c # name) =
     (if HasPrefix (c # name) lit then Some (drop (length lit) (c # name))
      else if c = CHR ''/'' then None else first_match lit name)"

lemma first_match_here: "HasPrefix name lit \<Longrightarrow> first_match lit name = Some (drop (length lit) name)"
  by (cases name) auto

lemma star_skip_plain:
  assumes "plain lit" "lit \<noteq> []" "\<not> HasPrefix name lit"
  shows "star_skip lit False name = Some (first_match lit name)"
  using assms(3)
proof (induction name)
  case Nil
  then show ?case using assms(2) by simp
next
  case (Cons c name)
  then show ?case
  proof (cases "HasPrefix name lit")
    case True
    with Cons.prems assms(2) show ?thesis
      by (simp add: matchChunk_plain [OF assms(1)] first_match_here)
  next
    case False
    with Cons show ?thesis by (simp add: matchChunk_plain [OF assms(1)])
  qed
qed

lemma Match_contains:
  assumes "plain lit" "lit \<noteq> []"
  shows "Match (''*'' @ lit @ ''*'') name =
    Some (case first_match lit name of None \<Rightarrow> False | Some t \<Rightarrow> CHR ''/'' \<notin> set t)"
proof -
  have s: "scanChunk (''*'' @ lit @ ''*'') = (True, lit, ''*'')"
    using scanChunk_plain(2) [OF assms, of "''*''"] by simp
  show ?thesis
  proof (cases "HasPrefix name lit")
    case True
    then have "first_match lit name = Some (drop (length lit) name)" by (rule first_match_here)
    with True assms s show ?thesis
      by (subst Match.simps) (simp add: matchChunk_plain)
  next
    case False
    with assms s show ?thesis
      by (subst Match.simps) (simp add: matchChunk_plain star_skip_plain split: option.split)
  qed
qed

lemma first_match_split:
  "first_match lit name = Some t \<Longrightarrow> \<exists>a. name = a @ lit @ t \<and> CHR ''/'' \<notin> set a"
proof (induction name)
  case (Cons c name)
  show ?case
  proof (cases "HasPrefix (c # name) lit")
    case True
    with Cons.prems have "t = drop (length lit) (c # name)" by (simp only: first_match_here option.inject)
    with True show ?thesis by (intro exI [of _ "[]"]) (auto simp: HasPrefix_iff)
  next
    case False
    with Cons obtain a where "name = a @ lit @ t" "CHR ''/'' \<notin> set a" "c \<noteq> CHR ''/''"
      by (auto split: if_splits)
    then show ?thesis by (intro exI [of _ "c # a"]) simp
  qed
qed (simp split: if_splits)

lemma nth_mid: "length a \<le> p \<Longrightarrow> p - length a < length l \<Longrightarrow> (a @ l @ b) ! p = l ! (p - length a)"
  by (simp add: nth_append)

lemma first_match_complete:
  assumes "name = a @ lit @ b" "CHR ''/'' \<notin> set a" "CHR ''/'' \<notin> set b"
  shows "\<exists>t. first_match lit name = Some t \<and> CHR ''/'' \<notin> set t"
  using assms
proof (induction a arbitrary: name)
  case Nil
  then show ?case by (simp add: first_match_here)
next
  case (Cons c a)
  show ?case
  proof (cases "HasPrefix name lit")
    case False
    with Cons show ?thesis by auto
  next
    case True
    then obtain t where t: "name = lit @ t" by (auto simp: HasPrefix_iff)
    have "CHR ''/'' \<notin> set t"
    proof
      assume slash: "CHR ''/'' \<in> set t"
      then obtain i where i: "i < length t" "t ! i = CHR ''/''" by (auto simp: in_set_conv_nth)
      let ?p = "length lit + i" and ?k = "length (c # a)"
      have p: "name ! ?p = CHR ''/''" "?p < length name" using i t by (simp_all add: nth_append)
      have "\<not> ?p < ?k"
        using Cons.prems p by (metis nth_append nth_mem)
      moreover have "\<not> ?k + length lit \<le> ?p"
      proof
        assume h: "?k + length lit \<le> ?p"
        have "name = ((c # a) @ lit) @ b" using Cons.prems(1) by simp
        then have "name ! ?p = b ! (?p - length ((c # a) @ lit))"
          using h by (simp only: nth_append length_append not_less [symmetric] if_False simp_thms)
        then have "name ! ?p = b ! (?p - (?k + length lit))" by (simp only: length_append)
        moreover have "?p - (?k + length lit) < length b" using h p(2) Cons.prems(1) by simp
        ultimately show False using p(1) Cons.prems(3) by (metis nth_mem)
      qed
      ultimately have in_lit: "?k \<le> ?p" "?p - ?k < length lit" by auto
      then have "lit ! (?p - ?k) = CHR ''/''"
        using p(1) nth_mid [of "c # a" ?p lit b] unfolding Cons.prems(1) by simp
      then have ex: "\<exists>j < length lit. lit ! j = CHR ''/''" using in_lit by blast
      define j where "j = (LEAST j. j < length lit \<and> lit ! j = CHR ''/'')"
      from LeastI_ex [OF ex] have j: "j < length lit" "lit ! j = CHR ''/''" by (auto simp: j_def)
      have "name ! j = CHR ''/''" using j t by (simp add: nth_append)
      with Cons.prems(1,2) have "?k \<le> j" by (metis nth_append nth_mem not_le)
      have "name ! j = lit ! (j - ?k)"
        using \<open>?k \<le> j\<close> j(1) nth_mid [of "c # a" j lit b] unfolding Cons.prems(1) by simp
      then have "lit ! (j - ?k) = CHR ''/''" "j - ?k < length lit"
        using \<open>name ! j = CHR ''/''\<close> j(1) by simp_all
      then have "j \<le> j - ?k" unfolding j_def by (intro Least_le) simp
      with \<open>?k \<le> j\<close> show False by simp
    qed
    moreover have "first_match lit name = Some t" using first_match_here [OF True] t by simp
    ultimately show ?thesis by blast
  qed
qed

text \<open>A pattern \<open>*lit*\<close>, the form the side-effect rules are documented with.\<close>

lemma glob_contains:
  assumes "plain lit" "lit \<noteq> []"
  shows "glob (''*'' @ lit @ ''*'') name \<longleftrightarrow>
    (\<exists>a b. name = a @ lit @ b \<and> CHR ''/'' \<notin> set a \<and> CHR ''/'' \<notin> set b)"
proof
  assume "glob (''*'' @ lit @ ''*'') name"
  then show "\<exists>a b. name = a @ lit @ b \<and> CHR ''/'' \<notin> set a \<and> CHR ''/'' \<notin> set b"
    using first_match_split [of lit name] by (auto simp: glob_def Match_contains [OF assms, simplified] split: option.splits)
next
  assume "\<exists>a b. name = a @ lit @ b \<and> CHR ''/'' \<notin> set a \<and> CHR ''/'' \<notin> set b"
  then show "glob (''*'' @ lit @ ''*'') name"
    using first_match_complete by (fastforce simp: glob_def Match_contains [OF assms, simplified])
qed

end
