(* ===== verification/Timestamp.thy ===== *)
theory Timestamp
  imports GoPrelude "HOL-Library.Multiset"
begin

text \<open>
  Instants as text (\<open>fmtTime\<close> in \<open>internal/storage/sqlite.go\<close>: UTC in the RFC3339Nano layout),
  the byte order SQL compares text by, and the stable sort that stands for \<open>ORDER BY\<close>.
  An instant is the number of nanoseconds since 1970-01-01T00:00:00Z; the calendar is the
  proleptic Gregorian one of package time.
\<close>

section \<open>Decimal digits\<close>

function decimal :: "int \<Rightarrow> string" where
  "decimal n = (if n < 10 then [char_of (48 + n)] else decimal (n div 10) @ [char_of (48 + n mod 10)])"
  by pat_completeness auto
termination
  by (relation "measure nat") auto

declare decimal.simps [simp del]

definition pad :: "nat \<Rightarrow> int \<Rightarrow> string" where
  "pad w n = (let s = decimal n in replicate (w - length s) CHR ''0'' @ s)"

section \<open>The RFC3339Nano layout\<close>

text \<open>Year, month and day of a day number counted from 1970-01-01.\<close>

definition civil :: "int \<Rightarrow> int \<times> int \<times> int" where
  "civil days =
     (let z = days + 719468;
          era = z div 146097;
          doe = z - era * 146097;
          yoe = (doe - doe div 1460 + doe div 36524 - doe div 146096) div 365;
          doy = doe - (365 * yoe + yoe div 4 - yoe div 100);
          mp = (5 * doy + 2) div 153;
          d = doy - (153 * mp + 2) div 5 + 1;
          m = (if mp < 10 then mp + 3 else mp - 9);
          y = yoe + era * 400 + (if m \<le> 2 then 1 else 0)
      in (y, m, d))"

text \<open>The fraction drops trailing zeros, and is absent for a whole second.\<close>

definition frac_text :: "int \<Rightarrow> string" where
  "frac_text ns =
     (if ns = 0 then '''' else CHR ''.'' # rev (dropWhile (\<lambda>c. c = CHR ''0'') (rev (pad 9 ns))))"

definition date_text :: "time \<Rightarrow> string" where
  "date_text t =
     (let (y, m, d) = civil (t div 86400000000000)
      in pad 4 y @ ''-'' @ pad 2 m @ ''-'' @ pad 2 d)"

definition fmtTime :: "time \<Rightarrow> string" where
  "fmtTime t =
     (let tod = t mod 86400000000000; s = tod div 1000000000
      in date_text t @ ''T'' @ pad 2 (s div 3600) @ '':'' @ pad 2 (s div 60 mod 60) @ '':'' @
         pad 2 (s mod 60) @ frac_text (tod mod 1000000000) @ ''Z'')"

section \<open>The order of text\<close>

fun text_less :: "string \<Rightarrow> string \<Rightarrow> bool" where
  "text_less [] [] = False"
| "text_less [] (_ # _) = True"
| "text_less (_ # _) [] = False"
| "text_less (a # s) (b # t) =
     ((of_char a :: nat) < of_char b \<or> a = b \<and> text_less s t)"

definition text_le :: "string \<Rightarrow> string \<Rightarrow> bool" where
  "text_le s t \<longleftrightarrow> \<not> text_less t s"

lemma text_less_irrefl [simp]: "\<not> text_less s s"
  by (induction s) auto

lemma text_less_trans: "text_less s t \<Longrightarrow> text_less t u \<Longrightarrow> text_less s u"
  by (induction s t arbitrary: u rule: text_less.induct; case_tac u) auto

lemma text_less_linear: "text_less s t \<or> s = t \<or> text_less t s"
proof (induction s t rule: text_less.induct)
  case (4 a s b t)
  have "(of_char a :: nat) < of_char b \<or> a = b \<or> (of_char b :: nat) < of_char a"
    using linorder_less_linear [of "of_char a :: nat" "of_char b"] by auto
  with 4 show ?case by auto
qed auto

lemma text_le_refl [simp]: "text_le s s"
  by (simp add: text_le_def)

lemma text_le_total: "text_le s t \<or> text_le t s"
  unfolding text_le_def using text_less_trans [of s t s] text_less_irrefl [of s] by blast

lemma text_le_trans: "text_le s t \<Longrightarrow> text_le t u \<Longrightarrow> text_le s u"
  using text_less_linear text_less_trans unfolding text_le_def by metis

lemma text_less_prefix [simp]: "text_less (p @ s) (p @ t) = text_less s t"
  by (induction p) simp_all

text \<open>
  The text order is not the order in time: within one second the whole second, which has no
  fraction, comes last, because the byte of \<open>Z\<close> is above that of the point.
\<close>

definition second_text :: "time \<Rightarrow> string" where
  "second_text t =
     (let s = (t mod 86400000000000) div 1000000000
      in date_text t @ ''T'' @ pad 2 (s div 3600) @ '':'' @ pad 2 (s div 60 mod 60) @ '':'' @ pad 2 (s mod 60))"

lemma fmtTime_within_second:
  assumes "t mod 1000000000 = 0" "0 \<le> ns" "ns < 1000000000"
  shows "fmtTime (t + ns) = second_text t @ frac_text ns @ ''Z''"
proof -
  obtain q where q: "t = 1000000000 * q" using assms(1) by (auto elim: dvdE simp: mod_0_imp_dvd)
  define k r where "k = q div 86400" and "r = q mod 86400"
  have r: "0 \<le> r" "r < 86400" and k: "q = 86400 * k + r" by (simp_all add: k_def r_def)
  have split: "t + n = (1000000000 * r + n) + 86400000000000 * k" for n unfolding q k by simp
  have dm: "(t + n) div 86400000000000 = k" "(t + n) mod 86400000000000 = 1000000000 * r + n"
    if "0 \<le> n" "n < 1000000000" for n
  proof -
    have "0 \<le> 1000000000 * r + n" "1000000000 * r + n < 86400000000000" using that r by linarith+
    then show "(t + n) div 86400000000000 = k" "(t + n) mod 86400000000000 = 1000000000 * r + n"
      unfolding split by simp_all
  qed
  have d: "(t + ns) div 86400000000000 = k" "t div 86400000000000 = k"
    and m: "(t + ns) mod 86400000000000 = 1000000000 * r + ns" "t mod 86400000000000 = 1000000000 * r"
    using dm [of ns] dm [of 0] assms(2,3) by simp_all
  have s: "(1000000000 * r + ns) div 1000000000 = r" "(1000000000 * r + ns) mod 1000000000 = ns"
    using assms(2,3) by simp_all
  show ?thesis unfolding fmtTime_def second_text_def date_text_def Let_def m d s by simp
qed

lemma second_after_its_fractions:
  assumes "t mod 1000000000 = 0" "0 < ns" "ns < 1000000000"
  shows "text_less (fmtTime (t + ns)) (fmtTime t)"
proof -
  have "fmtTime (t + 0) = second_text t @ frac_text 0 @ ''Z''"
    using assms(1) by (intro fmtTime_within_second) simp_all
  moreover have "fmtTime (t + ns) = second_text t @ frac_text ns @ ''Z''"
    using assms by (intro fmtTime_within_second) simp_all
  ultimately show ?thesis using assms(2) by (simp add: frac_text_def)
qed

section \<open>A stable sort by a comparison\<close>

fun insert_by :: "('a \<Rightarrow> 'a \<Rightarrow> bool) \<Rightarrow> 'a \<Rightarrow> 'a list \<Rightarrow> 'a list" where
  "insert_by le x [] = [x]"
| "insert_by le x (y # ys) = (if le x y then x # y # ys else y # insert_by le x ys)"

definition sort_by :: "('a \<Rightarrow> 'a \<Rightarrow> bool) \<Rightarrow> 'a list \<Rightarrow> 'a list" where
  "sort_by le xs = foldr (insert_by le) xs []"

lemma mset_insert_by [simp]: "mset (insert_by le x ys) = add_mset x (mset ys)"
  by (induction ys) simp_all

lemma mset_sort_by [simp]: "mset (sort_by le xs) = mset xs"
  by (induction xs) (simp_all add: sort_by_def)

lemma set_sort_by [simp]: "set (sort_by le xs) = set xs"
  by (rule mset_eq_setD) simp

lemma length_sort_by [simp]: "length (sort_by le xs) = length xs"
  using mset_sort_by [of le xs] by (metis size_mset)

text \<open>The laws of a comparison an \<open>ORDER BY\<close> sorts with.\<close>

locale preference =
  fixes le :: "'a \<Rightarrow> 'a \<Rightarrow> bool"
  assumes le_total: "le x y \<or> le y x"
    and le_trans: "le x y \<Longrightarrow> le y z \<Longrightarrow> le x z"
begin

lemma le_refl: "le x x"
  using le_total by blast

lemma insert_by_sorted: "sorted_wrt le ys \<Longrightarrow> sorted_wrt le (insert_by le x ys)"
proof (induction ys)
  case (Cons y ys)
  have "set (insert_by le x ys) = insert x (set ys)"
    using mset_insert_by [of le x ys] by (metis set_mset_add_mset_insert set_mset_mset)
  with Cons le_total le_trans show ?case by auto
qed simp

lemma sort_by_sorted: "sorted_wrt le (sort_by le xs)"
  by (induction xs) (simp_all add: sort_by_def insert_by_sorted)

lemma insert_by_filter:
  "(\<And>a b. P a \<Longrightarrow> P b \<Longrightarrow> le a b) \<Longrightarrow>
     filter P (insert_by le x ys) = (if P x then x # filter P ys else filter P ys)"
  by (induction ys) auto

text \<open>Where the order decides, the sorted list does not depend on the order of its input.\<close>

lemma sorted_unique:
  assumes "sorted_wrt le xs" "sorted_wrt le ys" "mset xs = mset ys"
    and "\<And>x y. x \<in> set xs \<Longrightarrow> y \<in> set xs \<Longrightarrow> le x y \<Longrightarrow> le y x \<Longrightarrow> x = y"
  shows "xs = ys"
  using assms
proof (induction xs arbitrary: ys)
  case (Cons x xs)
  then obtain y zs where ys: "ys = y # zs" by (cases ys) auto
  have "set (x # xs) = set ys" using Cons.prems(3) by (metis set_mset_mset)
  then have m: "x \<in> set ys" "y \<in> set (x # xs)" unfolding ys by auto
  moreover have "le x y" using m(2) Cons.prems(1) le_refl [of x] by auto
  moreover have "le y x" using m(1) Cons.prems(2) le_refl [of y] unfolding ys by auto
  ultimately have "x = y" using Cons.prems(4) by auto
  with Cons ys show ?case by (auto intro: Cons.IH)
qed simp

lemma sort_by_perm:
  assumes "mset xs = mset ys"
    and "\<And>x y. x \<in> set xs \<Longrightarrow> y \<in> set xs \<Longrightarrow> le x y \<Longrightarrow> le y x \<Longrightarrow> x = y"
  shows "sort_by le xs = sort_by le ys"
  using assms by (intro sorted_unique sort_by_sorted) (simp_all)

text \<open>Elements that compare equal keep their order.\<close>

lemma sort_by_stable:
  assumes "\<And>a b. P a \<Longrightarrow> P b \<Longrightarrow> le a b"
  shows "filter P (sort_by le xs) = filter P xs"
  using insert_by_filter [OF assms] by (induction xs) (simp_all add: sort_by_def)

lemma sort_by_id: "sorted_wrt le xs \<Longrightarrow> sort_by le xs = xs"
proof (induction xs)
  case (Cons x xs)
  then have "sort_by le xs = xs" by simp
  with Cons.prems show ?case by (cases xs) (simp_all add: sort_by_def)
qed (simp add: sort_by_def)

end

lemma preference_key:
  assumes "preference le"
  shows "preference (\<lambda>x y. le (f x) (f y))"
  using preference.le_total [OF assms] preference.le_trans [OF assms]
  by unfold_locales blast+

interpretation bytes_asc: preference text_le
  using text_le_total text_le_trans by unfold_locales blast+

interpretation bytes_desc: preference "\<lambda>s t. text_le t s"
  using text_le_total text_le_trans by unfold_locales blast+

end
