(* ===== verification/Tables.thy ===== *)
theory Tables
  imports GoPrelude
begin

text \<open>
  Tables with a primary key, as lists of rows in insertion order, and the statement
  \<open>INSERT ... ON CONFLICT (key) DO UPDATE SET ...\<close>: a conflicting row keeps its place and
  the columns the SET list does not name, which \<open>merge old new\<close> says. The locale states
  what a client of such a table may rely on, over any implementation of put and get.
\<close>

fun upsert :: "('r \<Rightarrow> 'k) \<Rightarrow> ('r \<Rightarrow> 'r \<Rightarrow> 'r) \<Rightarrow> 'r \<Rightarrow> 'r list \<Rightarrow> 'r list" where
  "upsert key merge new [] = [new]"
| "upsert key merge new (x # xs) =
     (if key x = key new then merge x new # xs else x # upsert key merge new xs)"

definition lookup :: "('r \<Rightarrow> 'k) \<Rightarrow> 'k \<Rightarrow> 'r list \<Rightarrow> 'r option" where
  "lookup key k xs = find (\<lambda>x. key x = k) xs"

lemma lookup_simps [simp]:
  "lookup key k [] = None"
  "lookup key k (x # xs) = (if key x = k then Some x else lookup key k xs)"
  by (simp_all add: lookup_def)

lemma lookup_append: "lookup key k (xs @ ys) =
    (case lookup key k xs of Some x \<Rightarrow> Some x | None \<Rightarrow> lookup key k ys)"
  by (induction xs) simp_all

lemma lookup_None_iff: "lookup key k xs = None \<longleftrightarrow> k \<notin> key ` set xs"
  by (induction xs) auto

lemma lookup_SomeD: "lookup key k xs = Some x \<Longrightarrow> x \<in> set xs \<and> key x = k"
  by (induction xs) (auto split: if_splits)

lemma lookup_Some_iff: "distinct (map key xs) \<Longrightarrow> lookup key k xs = Some x \<longleftrightarrow> x \<in> set xs \<and> key x = k"
  by (induction xs) (auto simp: image_iff dest: lookup_SomeD)

definition is_key :: "('r \<Rightarrow> 'k) \<Rightarrow> 'k \<Rightarrow> 'r list \<Rightarrow> bool" where
  "is_key key k xs \<longleftrightarrow> list_ex (\<lambda>x. key x = k) xs"

lemma is_key_iff: "is_key key k xs \<longleftrightarrow> k \<in> key ` set xs"
  by (auto simp: is_key_def list_ex_iff)

lemma is_key_lookup: "is_key key k xs \<longleftrightarrow> lookup key k xs \<noteq> None"
  by (simp add: is_key_iff lookup_None_iff)

text \<open>The merge keeps the key: it is not in the SET list.\<close>

definition keeps_key :: "('r \<Rightarrow> 'k) \<Rightarrow> ('r \<Rightarrow> 'r \<Rightarrow> 'r) \<Rightarrow> bool" where
  "keeps_key key merge \<longleftrightarrow> (\<forall>x y. key x = key y \<longrightarrow> key (merge x y) = key y)"

lemma lookup_upsert:
  assumes "keeps_key key merge"
  shows "lookup key k (upsert key merge new xs) =
    (if key new = k then Some (case lookup key k xs of None \<Rightarrow> new | Some old \<Rightarrow> merge old new)
     else lookup key k xs)"
  using assms by (induction xs) (auto simp: keeps_key_def)

lemma keys_upsert:
  assumes "keeps_key key merge"
  shows "key ` set (upsert key merge new xs) = insert (key new) (key ` set xs)"
  using assms by (induction xs) (auto simp: keeps_key_def)

lemma distinct_upsert:
  assumes "keeps_key key merge" "distinct (map key xs)"
  shows "distinct (map key (upsert key merge new xs))"
  using assms(2)
proof (induction xs)
  case (Cons x xs)
  have "key (merge x new) = key new" if "key x = key new"
    using assms(1) that by (simp add: keeps_key_def)
  with keys_upsert [OF assms(1), of new xs] Cons show ?case by auto
qed simp

lemma upsert_filter:
  assumes "keeps_key key merge" "\<And>x. P x \<Longrightarrow> key x \<noteq> key new" "\<not> P new"
    "\<And>x. key x = key new \<Longrightarrow> \<not> P (merge x new)"
  shows "filter P (upsert key merge new xs) = filter P xs"
  using assms by (induction xs) auto

text \<open>
  The contract of a keyed table. \<open>stored\<close> is what a put leaves under its key, given what
  was there; a put of one key does not touch another.
\<close>

locale keyed_table =
  fixes put :: "'r \<Rightarrow> 't \<Rightarrow> 't"
    and get :: "'k \<Rightarrow> 't \<Rightarrow> 'r option"
    and key :: "'r \<Rightarrow> 'k"
    and stored :: "'r option \<Rightarrow> 'r \<Rightarrow> 'r"
  assumes get_put_same: "get (key r) (put r t) = Some (stored (get (key r) t) r)"
    and get_put_other: "k \<noteq> key r \<Longrightarrow> get k (put r t) = get k t"
    and get_key: "get k t = Some r \<Longrightarrow> key r = k"
begin

lemma get_put: "get k (put r t) = (if key r = k then Some (stored (get k t) r) else get k t)"
  using get_put_same get_put_other by auto

text \<open>After any puts a key holds the fold of its own puts, and nothing of the others.\<close>

lemma get_puts:
  "get k (fold put rs t) =
     fold (\<lambda>r old. Some (stored old r)) (filter (\<lambda>r. key r = k) rs) (get k t)"
  by (induction rs arbitrary: t) (simp_all add: get_put)

lemma get_puts_absent: "k \<notin> key ` set rs \<Longrightarrow> get k (fold put rs t) = get k t"
  by (induction rs arbitrary: t) (auto simp: get_put)

lemma puts_commute:
  "key r \<noteq> key s \<Longrightarrow> get k (put r (put s t)) = get k (put s (put r t))"
  by (auto simp: get_put)

end

text \<open>A table whose puts do not look at the old row: the last write wins.\<close>

locale overwriting_table = keyed_table +
  assumes overwrites: "key x = key r \<Longrightarrow> stored (Some x) r = r"
    and inserts: "stored None r = r"
begin

lemma get_put_new: "get k (put r t) = (if key r = k then Some r else get k t)"
  by (cases "get k t") (auto simp: get_put overwrites inserts dest: get_key)

lemma put_twice: "key r = key s \<Longrightarrow> get k (put s (put r t)) = get k (put s t)"
  by (simp add: get_put_new)

lemma get_last_put: "get (key r) (fold put (rs @ [r]) t) = Some r"
  by (simp add: get_put_new)

end

lemma upsert_keyed_table:
  assumes "keeps_key key merge"
  shows "keyed_table (upsert key merge) (lookup key) key
    (\<lambda>old r. case old of None \<Rightarrow> r | Some x \<Rightarrow> merge x r)"
  using lookup_upsert [OF assms] by unfold_locales (auto dest: lookup_SomeD split: option.splits)

end
