(* ===== verification/Strconv.thy ===== *)
theory Strconv
  imports GoPrelude Float64 Timestamp
begin

text \<open>
  The number parsers of package strconv the code calls: \<open>ParseInt(s, 10, 64)\<close> (\<open>Atoi\<close> is the
  same on a 64-bit machine) and \<open>ParseFloat(s, 64)\<close>, each None for an error, and the shortest
  printing of a float, \<open>FormatFloat(v, 'g', -1, 64)\<close>.
\<close>

section \<open>Integers\<close>

text \<open>
  \<open>strconv.ParseInt(s, 10, 64)\<close>: an optional sign and one or more digits; out of range is an error.
\<close>

definition digit :: "char \<Rightarrow> int option" where
  "digit c = (let n = of_char c :: int in if 48 \<le> n \<and> n \<le> 57 then Some (n - 48) else None)"

fun digits_value :: "int \<Rightarrow> string \<Rightarrow> int option" where
  "digits_value acc [] = Some acc"
| "digits_value acc (c # s) =
     (case digit c of None \<Rightarrow> None | Some k \<Rightarrow> digits_value (10 * acc + k) s)"

definition ParseInt64 :: "string \<Rightarrow> int option" where
  "ParseInt64 s =
     (let (neg, ds) = (case s of c # t \<Rightarrow> if c = CHR ''-'' then (True, t)
                                 else if c = CHR ''+'' then (False, t) else (False, s) | [] \<Rightarrow> (False, s))
      in if ds = [] then None
         else (case digits_value 0 ds of
                 None \<Rightarrow> None
               | Some v \<Rightarrow> (let n = (if neg then - v else v)
                            in if - (2 ^ 63) \<le> n \<and> n < 2 ^ 63 then Some n else None)))"

section \<open>Floating-point numbers\<close>

text \<open>\<open>special\<close>: infinities with an optional sign, NaN without one, in any case.\<close>

definition split_sign :: "string \<Rightarrow> bool \<times> string" where
  "split_sign s = (case s of [] \<Rightarrow> (False, [])
     | c # t \<Rightarrow> if c = CHR ''-'' then (True, t) else if c = CHR ''+'' then (False, t) else (False, s))"

definition special_float :: "string \<Rightarrow> float64 option" where
  "special_float s =
     (let (neg, t) = split_sign s
      in if ToLower t \<in> {''inf'', ''infinity''} then Some (if neg then NegInf else PosInf)
         else if ToLower s = ''nan'' then Some NaN else None)"

text \<open>A digit of the base, and the mantissa: its digits as an integer, how many follow the point.\<close>

definition base_digit :: "bool \<Rightarrow> char \<Rightarrow> int option" where
  "base_digit hex c =
     (case digit c of Some d \<Rightarrow> Some d
      | None \<Rightarrow> let n = of_char (lower_char c) :: int in
          if hex \<and> 97 \<le> n \<and> n \<le> 102 then Some (n - 87) else None)"

fun read_mantissa :: "bool \<Rightarrow> bool \<Rightarrow> bool \<Rightarrow> int \<Rightarrow> int \<Rightarrow> string \<Rightarrow> bool \<times> int \<times> int \<times> string" where
  "read_mantissa hex sawdot sawdigits m fr [] = (sawdigits, m, fr, [])"
| "read_mantissa hex sawdot sawdigits m fr (c # s) =
     (if c = CHR ''_'' then read_mantissa hex sawdot sawdigits m fr s
      else if c = CHR ''.'' then
        (if sawdot then (sawdigits, m, fr, c # s) else read_mantissa hex True sawdigits m fr s)
      else (case base_digit hex c of
          Some d \<Rightarrow> read_mantissa hex sawdot True ((if hex then 16 else 10) * m + d)
                     (if sawdot then fr + 1 else fr) s
        | None \<Rightarrow> (sawdigits, m, fr, c # s)))"

text \<open>The digits of an exponent; from 10000 on further digits are skipped.\<close>

fun read_exponent :: "int \<Rightarrow> string \<Rightarrow> int \<times> string" where
  "read_exponent e [] = (e, [])"
| "read_exponent e (c # s) =
     (if c = CHR ''_'' then read_exponent e s
      else case digit c of
          Some d \<Rightarrow> read_exponent (if e < 10000 then 10 * e + d else e) s
        | None \<Rightarrow> (e, c # s))"

text \<open>\<open>underscoreOK\<close>: an underscore stands between digits, the base prefix counting as one.\<close>

fun underscores_ok :: "bool \<Rightarrow> char \<Rightarrow> string \<Rightarrow> bool" where
  "underscores_ok hex saw [] = (saw \<noteq> CHR ''_'')"
| "underscores_ok hex saw (c # s) =
     (if base_digit hex c \<noteq> None then underscores_ok hex (CHR ''0'') s
      else if c = CHR ''_'' then saw = CHR ''0'' \<and> underscores_ok hex (CHR ''_'') s
      else saw \<noteq> CHR ''_'' \<and> underscores_ok hex (CHR ''!'') s)"

definition pow_rat :: "rat \<Rightarrow> int \<Rightarrow> rat" where
  "pow_rat b e = (if 0 \<le> e then b ^ nat e else 1 / b ^ nat (- e))"

text \<open>\<open>readFloat\<close>, with the exact value of the text.\<close>

definition read_float :: "string \<Rightarrow> rat option" where
  "read_float s =
     (let (neg, t) = split_sign s;
          hex = (2 < length t \<and> t ! 0 = CHR ''0'' \<and> lower_char (t ! 1) = CHR ''x'');
          body = (if hex then drop 2 t else t);
          (sawdigits, m, fr, r) = read_mantissa hex False False 0 0 body;
          exponent = (case r of
              [] \<Rightarrow> if hex then None else Some (0, [])
            | c # r' \<Rightarrow>
                if lower_char c = (if hex then CHR ''p'' else CHR ''e'') then
                  (let (eneg, ds) = split_sign r' in
                   case ds of [] \<Rightarrow> None
                   | d # _ \<Rightarrow> if digit d = None then None
                             else (let (e, r'') = read_exponent 0 ds in Some (if eneg then - e else e, r'')))
                else if hex then None else Some (0, r))
      in case exponent of
           None \<Rightarrow> None
         | Some (e, rest) \<Rightarrow>
             if \<not> sawdigits \<or> rest \<noteq> [] \<or> CHR ''_'' \<in> set s \<and>
                \<not> (if hex then underscores_ok True (CHR ''0'') body else underscores_ok False (CHR ''^'') t)
             then None
             else Some ((if neg then - 1 else 1) * of_int m *
               (if hex then pow_rat 2 (e - 4 * fr) else pow_rat 10 (e - fr))))"

text \<open>A value that rounds to an infinity is a range error.\<close>

definition ParseFloat64 :: "string \<Rightarrow> float64 option" where
  "ParseFloat64 s =
     (case special_float s of
        Some v \<Rightarrow> Some v
      | None \<Rightarrow> (case read_float s of
            None \<Rightarrow> None
          | Some q \<Rightarrow> (case f64 q of Fin x \<Rightarrow> Some (Fin x) | _ \<Rightarrow> None)))"

section \<open>Printing a floating-point number\<close>

text \<open>
  \<open>FormatFloat(v, 'g', -1, 64)\<close>: the fewest digits that read back as \<open>v\<close>, the closest of
  those; with an exponent when it is below -4 or at least 6. The digits are \<open>0.d1d2... * 10 ^ dp\<close>.
\<close>

definition decimal_point :: "rat \<Rightarrow> int" where
  "decimal_point q =
     (let (n, d) = quotient_of q; e = int (length (decimal n)) - int (length (decimal d))
      in if 10 powi e \<le> q then e + 1 else e)"

definition digits_for :: "rat \<Rightarrow> int \<Rightarrow> nat \<Rightarrow> int option" where
  "digits_for q dp n =
     (let u = 10 powi (dp - int n); lo = \<lfloor>q / u\<rfloor>; ok = (\<lambda>c. f64 (of_int c * u) = Fin q)
      in if ok lo \<and> (\<not> ok (lo + 1) \<or> q / u - of_int lo \<le> 1 / 2) then Some lo
         else if ok (lo + 1) then Some (lo + 1) else None)"

definition shortest_digits :: "rat \<Rightarrow> string \<times> int" where
  "shortest_digits q =
     (let dp = decimal_point q;
          (n, c) = (case List.map_filter (\<lambda>n. map_option (Pair n) (digits_for q dp n)) [1..<18] of
             p # _ \<Rightarrow> p | [] \<Rightarrow> (17, \<lfloor>q / 10 powi (dp - 17)\<rfloor>));
          ds = decimal c
      in (rev (dropWhile (\<lambda>x. x = CHR ''0'') (rev ds)), dp + int (length ds) - int n))"

definition format_e :: "string \<Rightarrow> int \<Rightarrow> string" where
  "format_e ds dp =
     take 1 ds @ (if 1 < length ds then CHR ''.'' # drop 1 ds else []) @ ''e'' @
     (if dp - 1 < 0 then ''-'' else ''+'') @ pad 2 \<bar>dp - 1\<bar>"

definition format_f :: "string \<Rightarrow> int \<Rightarrow> string" where
  "format_f ds dp =
     (if 0 < dp then take (nat dp) ds @ replicate (nat dp - length ds) CHR ''0'' else ''0'') @
     (if int (length ds) \<le> dp then []
      else CHR ''.'' # replicate (nat (- dp)) CHR ''0'' @ drop (nat dp) ds)"

definition FormatG :: "float64 \<Rightarrow> string" where
  "FormatG v =
     (case v of NaN \<Rightarrow> ''NaN'' | PosInf \<Rightarrow> ''+Inf'' | NegInf \<Rightarrow> ''-Inf''
      | Fin q \<Rightarrow>
          if q = 0 then ''0''
          else (let (ds, dp) = shortest_digits \<bar>q\<bar>;
                    s = (if dp - 1 < - 4 \<or> 6 \<le> dp - 1 then format_e ds dp else format_f ds dp)
                in if q < 0 then CHR ''-'' # s else s))"

end
