(* ===== verification/Storage.thy ===== *)
theory Storage
  imports GoPrelude Float64 Timestamp Tables Strconv
begin

text \<open>
  The SQLite store (\<open>internal/storage\<close>: \<open>store.go\<close>, \<open>sqlite.go\<close>, \<open>approvals.go\<close>,
  \<open>checkpoints.go\<close>, \<open>policies.go\<close>, \<open>facts.go\<close> and the schema in \<open>migrations/\<close>). The database
  is a record of tables; each method is a function from the database to the database it
  leaves and a result, an error or a value. Every statement may fail for a reason outside
  the program (disk, lock): the schedule \<open>db_faults\<close> says which ones do, and a failed
  statement changes no table. Constraints of the schema (primary keys, references, NOT NULL,
  which a NaN violates because SQLite stores it as NULL) fail the statement too.

  Columns hold the values the code binds and scans: timestamps round-trip through the
  RFC3339Nano text, JSON columns through package json (a nil map and an empty one both come
  back nil); Rows.thy and SqlStore.thy model the cells and prove it. \<open>ORDER BY\<close> on a timestamp
  compares its text.
\<close>

section \<open>Records\<close>

record run_record =
  RR_ID :: string
  RR_Name :: string
  RR_Status :: string
  RR_HaltReason :: string
  RR_PolicyRef :: string
  RR_BudgetTokens :: int64
  RR_BudgetDollars :: float64
  RR_BudgetLoops :: int32
  RR_BudgetSeconds :: int32
  RR_UsagePromptTokens :: int64
  RR_UsageCompletionTokens :: int64
  RR_UsageDollars :: float64
  RR_UsageLoops :: int32
  RR_Metadata :: "(string \<times> string) list"
  RR_CreatedAt :: time
  RR_UpdatedAt :: time

record step_record =
  SR_RunID :: string
  SR_Index :: int32
  SR_Status :: string
  SR_PromptTokens :: int64
  SR_CompletionTokens :: int64
  SR_Dollars :: float64
  SR_StartedAt :: time
  SR_EndedAt :: "time option"

record ledger_entry =
  LE_RunID :: string
  LE_StepIndex :: int32
  LE_Provider :: string
  LE_Model :: string
  LE_PromptTokens :: int64
  LE_CompletionTokens :: int64
  LE_Dollars :: float64
  LE_Priced :: bool
  LE_ResponseID :: string
  LE_CreatedAt :: time

text \<open>A decoded JSON value, as \<open>map[string]any\<close> holds it.\<close>

datatype json = JNull | JBool bool | JNum rat | JStr string | JArr "json list" | JObj "(string \<times> json) list"

type_synonym json_map = "(string \<times> json) list"

record tool_call_record =
  TC_ID :: string
  TC_RunID :: string
  TC_StepIndex :: int32
  TC_Tool :: string
  TC_SideEffect :: string
  TC_Arguments :: json_map
  TC_Status :: string
  TC_CreatedAt :: time

record checkpoint_record =
  CP_RunID :: string
  CP_StepIndex :: int32
  CP_Name :: string
  CP_UsagePromptTokens :: int64
  CP_UsageCompletionTokens :: int64
  CP_UsageDollars :: float64
  CP_UsageLoops :: int32
  CP_Payload :: json_map
  CP_CreatedAt :: time

definition ApprovalPending :: string where "ApprovalPending = ''pending''"
definition ApprovalApproved :: string where "ApprovalApproved = ''approved''"
definition ApprovalDenied :: string where "ApprovalDenied = ''denied''"

lemma approval_statuses_distinct [simp]:
  "ApprovalApproved \<noteq> ApprovalPending" "ApprovalDenied \<noteq> ApprovalPending"
  "ApprovalApproved \<noteq> ApprovalDenied" "ApprovalDenied \<noteq> ApprovalApproved"
  "ApprovalPending \<noteq> ApprovalApproved" "ApprovalPending \<noteq> ApprovalDenied"
  by (simp_all add: ApprovalPending_def ApprovalApproved_def ApprovalDenied_def)

record approval_record =
  AR_ID :: string
  AR_RunID :: string
  AR_StepIndex :: int32
  AR_Tool :: string
  AR_SideEffect :: string
  AR_Arguments :: json_map
  AR_Status :: string
  AR_Reason :: string
  AR_DecidedBy :: string
  AR_CreatedAt :: time
  AR_DecidedAt :: "time option"

record approval_rule =
  Rule_Tool :: string
  Rule_SideEffect :: string

record policy_record =
  PR_Name :: string
  PR_BudgetTokens :: int64
  PR_BudgetDollars :: float64
  PR_BudgetLoops :: int32
  PR_BudgetSeconds :: int32
  PR_ToolAllowlist :: "string list"
  PR_ApprovalRules :: "approval_rule list"
  PR_CreatedAt :: time
  PR_UpdatedAt :: time

record fact =
  F_Namespace :: string
  F_Key :: string
  F_Value :: string
  F_RunID :: string
  F_UpdatedAt :: time

record ledger_totals =
  LT_RunID :: string
  LT_Calls :: int64
  LT_PromptTokens :: int64
  LT_CompletionTokens :: int64
  LT_Dollars :: float64

record usage_group =
  UG_Key :: string
  UG_Calls :: int64
  UG_PromptTokens :: int64
  UG_CompletionTokens :: int64
  UG_Dollars :: float64

record usage_summary =
  US_By :: string
  US_Groups :: "usage_group list"
  US_Total :: usage_group

record summarize_options =
  SO_By :: string
  SO_Since :: "time option"
  SO_Until :: "time option"

record db =
  db_runs :: "run_record list"
  db_steps :: "step_record list"
  db_ledger :: "ledger_entry list"
  db_tool_calls :: "tool_call_record list"
  db_approvals :: "approval_record list"
  db_checkpoints :: "checkpoint_record list"
  db_policies :: "policy_record list"
  db_facts :: "fact list"
  db_faults :: "bool list"

definition empty_db :: db where
  "empty_db = \<lparr>db_runs = [], db_steps = [], db_ledger = [], db_tool_calls = [], db_approvals = [],
     db_checkpoints = [], db_policies = [], db_facts = [], db_faults = []\<rparr>"

section \<open>Statements\<close>

datatype store_error = ErrNotFound | ErrDB | ErrInvalid string

type_synonym 'a db_result = "db \<times> (store_error + 'a)"

text \<open>Running a statement: the schedule decides whether the backend fails it.\<close>

definition statement :: "(db \<Rightarrow> 'a db_result) \<Rightarrow> db \<Rightarrow> 'a db_result" where
  "statement f d =
     (case db_faults d of
        [] \<Rightarrow> f d
      | b # bs \<Rightarrow> if b then (d\<lparr>db_faults := bs\<rparr>, Inl ErrDB) else f (d\<lparr>db_faults := bs\<rparr>))"

definition query :: "(db \<Rightarrow> store_error + 'a) \<Rightarrow> db \<Rightarrow> 'a db_result" where
  "query q = statement (\<lambda>d. (d, q d))"

definition has_run :: "db \<Rightarrow> string \<Rightarrow> bool" where
  "has_run d rid \<longleftrightarrow> is_key RR_ID rid (db_runs d)"

text \<open>A REAL NOT NULL column takes any float64 but a NaN.\<close>

definition real_ok :: "float64 \<Rightarrow> bool" where
  "real_ok x \<longleftrightarrow> x \<noteq> NaN"

text \<open>\<open>ORDER BY created_at DESC\<close>, and a list of keys in turn.\<close>

definition newest_first :: "('r \<Rightarrow> time) \<Rightarrow> 'r list \<Rightarrow> 'r list" where
  "newest_first stamp = sort_by (\<lambda>x y. text_le (fmtTime (stamp y)) (fmtTime (stamp x)))"

subsection \<open>Runs\<close>

definition merge_run :: "run_record \<Rightarrow> run_record \<Rightarrow> run_record" where
  "merge_run old new = new\<lparr>RR_CreatedAt := RR_CreatedAt old, RR_PolicyRef := RR_PolicyRef old\<rparr>"

definition UpsertRun :: "run_record \<Rightarrow> db \<Rightarrow> unit db_result" where
  "UpsertRun r = statement (\<lambda>d.
     if real_ok (RR_BudgetDollars r) \<and> real_ok (RR_UsageDollars r)
     then (d\<lparr>db_runs := upsert RR_ID merge_run r (db_runs d)\<rparr>, Inr ()) else (d, Inl ErrDB))"

definition GetRun :: "string \<Rightarrow> db \<Rightarrow> run_record db_result" where
  "GetRun rid = query (\<lambda>d. case lookup RR_ID rid (db_runs d) of
     None \<Rightarrow> Inl ErrNotFound | Some r \<Rightarrow> Inr r)"

definition ListRuns :: "db \<Rightarrow> run_record list db_result" where
  "ListRuns = query (\<lambda>d. Inr (newest_first RR_CreatedAt (db_runs d)))"

definition ListRunsByStatus :: "string \<Rightarrow> db \<Rightarrow> run_record list db_result" where
  "ListRunsByStatus status = query (\<lambda>d.
     Inr (newest_first RR_CreatedAt (filter (\<lambda>r. RR_Status r = status) (db_runs d))))"

subsection \<open>Steps\<close>

definition step_key :: "step_record \<Rightarrow> string \<times> int32" where
  "step_key s = (SR_RunID s, SR_Index s)"

definition merge_step :: "step_record \<Rightarrow> step_record \<Rightarrow> step_record" where
  "merge_step old new = new\<lparr>SR_StartedAt := SR_StartedAt old\<rparr>"

definition UpsertStep :: "step_record \<Rightarrow> db \<Rightarrow> unit db_result" where
  "UpsertStep s = statement (\<lambda>d.
     if has_run d (SR_RunID s) \<and> real_ok (SR_Dollars s)
     then (d\<lparr>db_steps := upsert step_key merge_step s (db_steps d)\<rparr>, Inr ()) else (d, Inl ErrDB))"

definition ListSteps :: "string \<Rightarrow> db \<Rightarrow> step_record list db_result" where
  "ListSteps runID = query (\<lambda>d. Inr (sort_by (\<lambda>x y. SR_Index x \<le>s SR_Index y)
     (filter (\<lambda>s. SR_RunID s = runID) (db_steps d))))"

subsection \<open>The cost ledger\<close>

definition AppendLedger :: "ledger_entry \<Rightarrow> db \<Rightarrow> unit db_result" where
  "AppendLedger e = statement (\<lambda>d.
     if has_run d (LE_RunID e) \<and> real_ok (LE_Dollars e)
     then (d\<lparr>db_ledger := db_ledger d @ [e]\<rparr>, Inr ()) else (d, Inl ErrDB))"

definition ledger_of :: "string \<Rightarrow> db \<Rightarrow> ledger_entry list" where
  "ledger_of runID d = filter (\<lambda>e. LE_RunID e = runID) (db_ledger d)"

definition LedgerForRun :: "string \<Rightarrow> db \<Rightarrow> ledger_entry list db_result" where
  "LedgerForRun runID = query (\<lambda>d. Inr (ledger_of runID d))"

text \<open>
  \<open>SUM\<close> of an INTEGER column fails when a running total leaves the int64 range. \<open>SUM\<close> of a
  REAL column is SQLite's compensated summation: the argument \<open>fsum\<close>.
\<close>

fun sum_int64 :: "int \<Rightarrow> int64 list \<Rightarrow> int64 option" where
  "sum_int64 acc [] = Some (word_of_int acc)"
| "sum_int64 acc (x # xs) =
     (let a = acc + sint x in if - (2 ^ 63) \<le> a \<and> a < 2 ^ 63 then sum_int64 a xs else None)"

definition Totals :: "(float64 list \<Rightarrow> float64) \<Rightarrow> string \<Rightarrow> db \<Rightarrow> ledger_totals db_result" where
  "Totals fsum runID = query (\<lambda>d.
     let es = ledger_of runID d in
     case (sum_int64 0 (map LE_PromptTokens es), sum_int64 0 (map LE_CompletionTokens es)) of
       (Some p, Some c) \<Rightarrow>
         Inr \<lparr>LT_RunID = runID, LT_Calls = of_nat (length es), LT_PromptTokens = p,
              LT_CompletionTokens = c,
              LT_Dollars = (if es = [] then fzero else fsum (map LE_Dollars es))\<rparr>
     | _ \<Rightarrow> Inl ErrDB)"

definition meta_char :: "char \<Rightarrow> bool" where
  "meta_char c = (let n = of_char c :: nat in
     97 \<le> n \<and> n \<le> 122 \<or> 65 \<le> n \<and> n \<le> 90 \<or> 48 \<le> n \<and> n \<le> 57 \<or> c = CHR ''_'' \<or> c = CHR ''-'')"

definition validMetaKey :: "string \<Rightarrow> bool" where
  "validMetaKey k \<longleftrightarrow> k \<noteq> '''' \<and> list_all meta_char k"

text \<open>The grouping expression: the key of a ledger row, None when the row drops out of the join.\<close>

definition group_expr :: "string \<Rightarrow> (db \<Rightarrow> ledger_entry \<Rightarrow> string option) option" where
  "group_expr by =
     (if by = ''provider'' then Some (\<lambda>d e. Some (LE_Provider e))
      else if by = ''model'' then Some (\<lambda>d e. Some (LE_Model e))
      else if by = ''day'' then Some (\<lambda>d e. Some (take 10 (fmtTime (LE_CreatedAt e))))
      else if by = ''name'' then
        Some (\<lambda>d e. map_option RR_Name (lookup RR_ID (LE_RunID e) (db_runs d)))
      else if HasPrefix by ''metadata.'' \<and> validMetaKey (TrimPrefix by ''metadata.'') then
        Some (\<lambda>d e. map_option
          (\<lambda>r. case map_of (RR_Metadata r) (TrimPrefix by ''metadata.'') of
                 None \<Rightarrow> ''(none)'' | Some v \<Rightarrow> v)
          (lookup RR_ID (LE_RunID e) (db_runs d)))
      else None)"

definition in_range :: "summarize_options \<Rightarrow> ledger_entry \<Rightarrow> bool" where
  "in_range opts e \<longleftrightarrow>
     (case SO_Since opts of None \<Rightarrow> True
      | Some t \<Rightarrow> text_le (fmtTime t) (fmtTime (LE_CreatedAt e))) \<and>
     (case SO_Until opts of None \<Rightarrow> True
      | Some t \<Rightarrow> text_less (fmtTime (LE_CreatedAt e)) (fmtTime t))"

definition make_group ::
    "(float64 list \<Rightarrow> float64) \<Rightarrow> string \<Rightarrow> ledger_entry list \<Rightarrow> usage_group option" where
  "make_group fsum k es =
     (case (sum_int64 0 (map LE_PromptTokens es), sum_int64 0 (map LE_CompletionTokens es)) of
        (Some p, Some c) \<Rightarrow> Some \<lparr>UG_Key = k, UG_Calls = of_nat (length es), UG_PromptTokens = p,
                                  UG_CompletionTokens = c, UG_Dollars = fsum (map LE_Dollars es)\<rparr>
      | _ \<Rightarrow> None)"

fun all_some :: "'a option list \<Rightarrow> 'a list option" where
  "all_some [] = Some []"
| "all_some (None # xs) = None"
| "all_some (Some x # xs) = map_option (\<lambda>ys. x # ys) (all_some xs)"

text \<open>\<open>ORDER BY SUM(dollars) DESC, k ASC\<close>.\<close>

definition group_le :: "usage_group \<Rightarrow> usage_group \<Rightarrow> bool" where
  "group_le g h \<longleftrightarrow> flt (UG_Dollars h) (UG_Dollars g) \<or>
     \<not> flt (UG_Dollars g) (UG_Dollars h) \<and> text_le (UG_Key g) (UG_Key h)"

definition add_group :: "usage_group \<Rightarrow> usage_group \<Rightarrow> usage_group" where
  "add_group g t = t\<lparr>UG_Calls := UG_Calls t + UG_Calls g,
     UG_PromptTokens := UG_PromptTokens t + UG_PromptTokens g,
     UG_CompletionTokens := UG_CompletionTokens t + UG_CompletionTokens g,
     UG_Dollars := fadd (UG_Dollars t) (UG_Dollars g)\<rparr>"

definition zero_group :: usage_group where
  "zero_group = \<lparr>UG_Key = ''total'', UG_Calls = 0, UG_PromptTokens = 0, UG_CompletionTokens = 0,
     UG_Dollars = fzero\<rparr>"

definition SummarizeLedger ::
    "(float64 list \<Rightarrow> float64) \<Rightarrow> summarize_options \<Rightarrow> db \<Rightarrow> usage_summary db_result" where
  "SummarizeLedger fsum opts d =
     (case group_expr (SO_By opts) of
        None \<Rightarrow> (d, Inl (ErrInvalid (SO_By opts)))
      | Some key \<Rightarrow> query (\<lambda>d.
          let rows = filter (\<lambda>e. in_range opts e \<and> key d e \<noteq> None) (db_ledger d);
              ks = remdups (map (\<lambda>e. the (key d e)) rows)
          in case all_some (map (\<lambda>k. make_group fsum k (filter (\<lambda>e. key d e = Some k) rows)) ks) of
               None \<Rightarrow> Inl ErrDB
             | Some gs \<Rightarrow>
                 (let gs = sort_by group_le gs
                  in Inr \<lparr>US_By = SO_By opts, US_Groups = gs, US_Total = fold add_group gs zero_group\<rparr>)) d)"

subsection \<open>Tool calls\<close>

definition AppendToolCall :: "tool_call_record \<Rightarrow> db \<Rightarrow> unit db_result" where
  "AppendToolCall t = statement (\<lambda>d.
     if has_run d (TC_RunID t) \<and> \<not> is_key TC_ID (TC_ID t) (db_tool_calls d)
     then (d\<lparr>db_tool_calls := db_tool_calls d @ [t]\<rparr>, Inr ()) else (d, Inl ErrDB))"

definition tool_call_le :: "tool_call_record \<Rightarrow> tool_call_record \<Rightarrow> bool" where
  "tool_call_le x y \<longleftrightarrow>
     (if TC_StepIndex x \<noteq> TC_StepIndex y then TC_StepIndex x <s TC_StepIndex y
      else if fmtTime (TC_CreatedAt x) \<noteq> fmtTime (TC_CreatedAt y)
        then text_less (fmtTime (TC_CreatedAt x)) (fmtTime (TC_CreatedAt y))
      else text_le (TC_ID x) (TC_ID y))"

definition ListToolCalls :: "string \<Rightarrow> db \<Rightarrow> tool_call_record list db_result" where
  "ListToolCalls runID = query (\<lambda>d. Inr (sort_by tool_call_le
     (filter (\<lambda>t. TC_RunID t = runID) (db_tool_calls d))))"

subsection \<open>Approvals\<close>

definition CreateApproval :: "approval_record \<Rightarrow> db \<Rightarrow> unit db_result" where
  "CreateApproval a = statement (\<lambda>d.
     if has_run d (AR_RunID a) \<and> \<not> is_key AR_ID (AR_ID a) (db_approvals d)
     then (d\<lparr>db_approvals := db_approvals d @ [a]\<rparr>, Inr ()) else (d, Inl ErrDB))"

definition GetApproval :: "string \<Rightarrow> db \<Rightarrow> approval_record db_result" where
  "GetApproval aid = query (\<lambda>d. case lookup AR_ID aid (db_approvals d) of
     None \<Rightarrow> Inl ErrNotFound | Some a \<Rightarrow> Inr a)"

definition resolvable :: "string \<Rightarrow> approval_record \<Rightarrow> bool" where
  "resolvable aid a \<longleftrightarrow> AR_ID a = aid \<and> AR_Status a = ApprovalPending"

definition ResolveApproval ::
    "string \<Rightarrow> string \<Rightarrow> string \<Rightarrow> string \<Rightarrow> time \<Rightarrow> db \<Rightarrow> unit db_result" where
  "ResolveApproval aid status reason decidedBy decidedAt = statement (\<lambda>d.
     (d\<lparr>db_approvals := map (\<lambda>a. if resolvable aid a
          then a\<lparr>AR_Status := status, AR_Reason := reason, AR_DecidedBy := decidedBy,
                 AR_DecidedAt := Some decidedAt\<rparr> else a) (db_approvals d)\<rparr>,
      if list_ex (resolvable aid) (db_approvals d) then Inr () else Inl ErrNotFound))"

definition ListApprovals :: "string \<Rightarrow> db \<Rightarrow> approval_record list db_result" where
  "ListApprovals status = query (\<lambda>d. Inr (newest_first AR_CreatedAt
     (if status = '''' then db_approvals d
      else filter (\<lambda>a. AR_Status a = status) (db_approvals d))))"

subsection \<open>Checkpoints\<close>

definition SaveCheckpoint :: "checkpoint_record \<Rightarrow> db \<Rightarrow> unit db_result" where
  "SaveCheckpoint c = statement (\<lambda>d.
     if has_run d (CP_RunID c) \<and> real_ok (CP_UsageDollars c)
     then (d\<lparr>db_checkpoints := db_checkpoints d @ [c]\<rparr>, Inr ()) else (d, Inl ErrDB))"

definition checkpoints_of :: "string \<Rightarrow> db \<Rightarrow> checkpoint_record list" where
  "checkpoints_of runID d = filter (\<lambda>c. CP_RunID c = runID) (db_checkpoints d)"

definition LatestCheckpoint :: "string \<Rightarrow> db \<Rightarrow> checkpoint_record db_result" where
  "LatestCheckpoint runID = query (\<lambda>d. case rev (checkpoints_of runID d) of
     [] \<Rightarrow> Inl ErrNotFound | c # _ \<Rightarrow> Inr c)"

definition ListCheckpoints :: "string \<Rightarrow> db \<Rightarrow> checkpoint_record list db_result" where
  "ListCheckpoints runID = query (\<lambda>d. Inr (checkpoints_of runID d))"

subsection \<open>Policies\<close>

definition merge_policy :: "policy_record \<Rightarrow> policy_record \<Rightarrow> policy_record" where
  "merge_policy old new = new\<lparr>PR_CreatedAt := PR_CreatedAt old\<rparr>"

definition UpsertPolicy :: "policy_record \<Rightarrow> db \<Rightarrow> unit db_result" where
  "UpsertPolicy p = statement (\<lambda>d.
     if real_ok (PR_BudgetDollars p)
     then (d\<lparr>db_policies := upsert PR_Name merge_policy p (db_policies d)\<rparr>, Inr ())
     else (d, Inl ErrDB))"

definition GetPolicy :: "string \<Rightarrow> db \<Rightarrow> policy_record db_result" where
  "GetPolicy name = query (\<lambda>d. case lookup PR_Name name (db_policies d) of
     None \<Rightarrow> Inl ErrNotFound | Some p \<Rightarrow> Inr p)"

definition ListPolicies :: "db \<Rightarrow> policy_record list db_result" where
  "ListPolicies = query (\<lambda>d. Inr (newest_first PR_CreatedAt (db_policies d)))"

subsection \<open>Facts\<close>

definition fact_key :: "fact \<Rightarrow> string \<times> string" where
  "fact_key f = (F_Namespace f, F_Key f)"

definition merge_fact :: "fact \<Rightarrow> fact \<Rightarrow> fact" where
  "merge_fact old new =
     old\<lparr>F_Value := F_Value new, F_RunID := F_RunID new, F_UpdatedAt := F_UpdatedAt new\<rparr>"

definition PutFact :: "fact \<Rightarrow> db \<Rightarrow> unit db_result" where
  "PutFact f = statement (\<lambda>d.
     (d\<lparr>db_facts := upsert fact_key merge_fact f (db_facts d)\<rparr>, Inr ()))"

definition GetFact :: "string \<Rightarrow> string \<Rightarrow> db \<Rightarrow> fact db_result" where
  "GetFact ns key = query (\<lambda>d. case lookup fact_key (ns, key) (db_facts d) of
     None \<Rightarrow> Inl ErrNotFound | Some f \<Rightarrow> Inr f)"

definition ListFacts :: "string \<Rightarrow> db \<Rightarrow> fact list db_result" where
  "ListFacts ns = query (\<lambda>d. Inr (sort_by (\<lambda>x y. text_le (F_Key x) (F_Key y))
     (filter (\<lambda>f. F_Namespace f = ns) (db_facts d))))"

section \<open>Schema version\<close>

definition migration_version :: "string \<Rightarrow> int option" where
  "migration_version name =
     (if \<not> HasSuffix name ''.sql'' then None
      else ParseInt64 (case Cut name ''_'' of None \<Rightarrow> name | Some (prefix, _) \<Rightarrow> prefix))"

definition maxMigrationVersion :: "string list \<Rightarrow> int" where
  "maxMigrationVersion names =
     fold (\<lambda>name m. case migration_version name of None \<Rightarrow> m | Some v \<Rightarrow> if m < v then v else m) names 0"

datatype migrate_error = ErrSchemaTooNew int int | ErrGoose

text \<open>
  goose is the argument pair: the version on disk, and what running the migrations answers
  (None for an error).
\<close>

definition migrate :: "string list \<Rightarrow> int option \<Rightarrow> 'a option \<Rightarrow> migrate_error + 'a" where
  "migrate names on_disk up =
     (case on_disk of
        None \<Rightarrow> Inl ErrGoose
      | Some current \<Rightarrow>
          if maxMigrationVersion names < current
          then Inl (ErrSchemaTooNew current (maxMigrationVersion names))
          else (case up of None \<Rightarrow> Inl ErrGoose | Some d \<Rightarrow> Inr d))"

end
