(* ===== verification/StorageLaws.thy ===== *)
theory StorageLaws
  imports Storage Machine "HOL-Library.Sublist"
begin

text \<open>
  What the store guarantees: what each keyed table returns after writes, the integrity the
  schema keeps under every sequence of writes with any failures, that an approval is decided
  at most once, what the latest checkpoint is, and what the ledger reports add up to.
\<close>

section \<open>Statements and failures\<close>

lemma statement_ok [simp]: "db_faults d = [] \<Longrightarrow> statement f d = f d"
  by (simp add: statement_def)

lemma statement_cases:
  obtains (failed) bs where "statement f d = (d\<lparr>db_faults := bs\<rparr>, Inl ErrDB)"
    | (ran) bs where "statement f d = f (d\<lparr>db_faults := bs\<rparr>)"
proof (cases "db_faults d")
  case Nil
  then have e: "d\<lparr>db_faults := []\<rparr> = d" by (cases d) simp
  have "statement f d = f (d\<lparr>db_faults := []\<rparr>)" unfolding e using Nil by (simp add: statement_def)
  then show ?thesis by (rule ran)
next
  case (Cons b bs)
  with failed ran show ?thesis by (cases b) (simp_all add: statement_def)
qed

lemma query_tables [simp]:
  "db_runs (fst (query q d)) = db_runs d" "db_steps (fst (query q d)) = db_steps d"
  "db_ledger (fst (query q d)) = db_ledger d" "db_tool_calls (fst (query q d)) = db_tool_calls d"
  "db_approvals (fst (query q d)) = db_approvals d"
  "db_checkpoints (fst (query q d)) = db_checkpoints d"
  "db_policies (fst (query q d)) = db_policies d" "db_facts (fst (query q d)) = db_facts d"
  by (simp_all add: query_def statement_def split: list.split)

lemma query_ok [simp]: "db_faults d = [] \<Longrightarrow> query q d = (d, q d)"
  by (simp add: query_def)

section \<open>Keyed tables\<close>

lemma merges_keep_keys:
  "keeps_key RR_ID merge_run" "keeps_key step_key merge_step" "keeps_key PR_Name merge_policy"
  "keeps_key fact_key merge_fact"
  by (simp_all add: keeps_key_def merge_run_def merge_step_def step_key_def merge_policy_def
      merge_fact_def fact_key_def)

interpretation runs_table: keyed_table "upsert RR_ID merge_run" "lookup RR_ID" RR_ID
  "\<lambda>old r. case old of None \<Rightarrow> r | Some x \<Rightarrow> merge_run x r"
  by (rule upsert_keyed_table) (rule merges_keep_keys)

interpretation steps_table: keyed_table "upsert step_key merge_step" "lookup step_key" step_key
  "\<lambda>old r. case old of None \<Rightarrow> r | Some x \<Rightarrow> merge_step x r"
  by (rule upsert_keyed_table) (rule merges_keep_keys)

interpretation policies_table: keyed_table "upsert PR_Name merge_policy" "lookup PR_Name" PR_Name
  "\<lambda>old r. case old of None \<Rightarrow> r | Some x \<Rightarrow> merge_policy x r"
  by (rule upsert_keyed_table) (rule merges_keep_keys)

lemma overwriting_facts: "overwriting_table (upsert fact_key merge_fact) (lookup fact_key) fact_key
  (\<lambda>old r. case old of None \<Rightarrow> r | Some x \<Rightarrow> merge_fact x r)"
  by (intro overwriting_table.intro overwriting_table_axioms.intro upsert_keyed_table merges_keep_keys)
     (simp_all add: merge_fact_def fact_key_def)

interpretation facts_table: overwriting_table "upsert fact_key merge_fact" "lookup fact_key" fact_key
  "\<lambda>old r. case old of None \<Rightarrow> r | Some x \<Rightarrow> merge_fact x r"
  by (rule overwriting_facts)

section \<open>Writes as events\<close>

datatype store_event =
    SUpsertRun run_record
  | SUpsertStep step_record
  | SAppendLedger ledger_entry
  | SAppendToolCall tool_call_record
  | SCreateApproval approval_record
  | SResolveApproval string string string string time
  | SSaveCheckpoint checkpoint_record
  | SUpsertPolicy policy_record
  | SPutFact fact

fun store_step :: "db \<Rightarrow> store_event \<Rightarrow> db \<times> (store_error + unit)" where
  "store_step d (SUpsertRun r) = UpsertRun r d"
| "store_step d (SUpsertStep s) = UpsertStep s d"
| "store_step d (SAppendLedger e) = AppendLedger e d"
| "store_step d (SAppendToolCall t) = AppendToolCall t d"
| "store_step d (SCreateApproval a) = CreateApproval a d"
| "store_step d (SResolveApproval i st re de t) = ResolveApproval i st re de t d"
| "store_step d (SSaveCheckpoint c) = SaveCheckpoint c d"
| "store_step d (SUpsertPolicy p) = UpsertPolicy p d"
| "store_step d (SPutFact f) = PutFact f d"

lemmas write_defs = UpsertRun_def UpsertStep_def AppendLedger_def AppendToolCall_def
  CreateApproval_def ResolveApproval_def SaveCheckpoint_def UpsertPolicy_def PutFact_def

section \<open>Integrity\<close>

text \<open>Primary keys are unique, every reference to a run has its run, no stored amount is a NaN.\<close>

definition db_ok :: "db \<Rightarrow> bool" where
  "db_ok d \<longleftrightarrow>
     distinct (map RR_ID (db_runs d)) \<and> distinct (map step_key (db_steps d)) \<and>
     distinct (map TC_ID (db_tool_calls d)) \<and> distinct (map AR_ID (db_approvals d)) \<and>
     distinct (map PR_Name (db_policies d)) \<and> distinct (map fact_key (db_facts d)) \<and>
     list_all (\<lambda>r. real_ok (RR_BudgetDollars r) \<and> real_ok (RR_UsageDollars r)) (db_runs d) \<and>
     list_all (\<lambda>s. has_run d (SR_RunID s) \<and> real_ok (SR_Dollars s)) (db_steps d) \<and>
     list_all (\<lambda>e. has_run d (LE_RunID e) \<and> real_ok (LE_Dollars e)) (db_ledger d) \<and>
     list_all (\<lambda>t. has_run d (TC_RunID t)) (db_tool_calls d) \<and>
     list_all (\<lambda>a. has_run d (AR_RunID a)) (db_approvals d) \<and>
     list_all (\<lambda>c. has_run d (CP_RunID c) \<and> real_ok (CP_UsageDollars c)) (db_checkpoints d) \<and>
     list_all (\<lambda>p. real_ok (PR_BudgetDollars p)) (db_policies d)"

lemma statement_keeps:
  assumes "P d" "\<And>d bs. P d \<Longrightarrow> P (d\<lparr>db_faults := bs\<rparr>)" "\<And>d. P d \<Longrightarrow> P (fst (f d))"
  shows "P (fst (statement f d))"
  by (cases rule: statement_cases [of f d]) (simp_all add: assms)

lemma has_run_update [simp]:
  "has_run (d\<lparr>db_steps := s\<rparr>) r = has_run d r" "has_run (d\<lparr>db_ledger := l\<rparr>) r = has_run d r"
  "has_run (d\<lparr>db_tool_calls := t\<rparr>) r = has_run d r" "has_run (d\<lparr>db_approvals := a\<rparr>) r = has_run d r"
  "has_run (d\<lparr>db_checkpoints := c\<rparr>) r = has_run d r" "has_run (d\<lparr>db_policies := p\<rparr>) r = has_run d r"
  "has_run (d\<lparr>db_facts := f\<rparr>) r = has_run d r" "has_run (d\<lparr>db_faults := b\<rparr>) r = has_run d r"
  by (simp_all add: has_run_def)

lemma has_run_upsert [simp]:
  "has_run (d\<lparr>db_runs := upsert RR_ID merge_run r (db_runs d)\<rparr>) k \<longleftrightarrow> RR_ID r = k \<or> has_run d k"
  by (auto simp: has_run_def is_key_iff keys_upsert [OF merges_keep_keys(1)])

lemma list_all_upsert:
  "list_all P xs \<Longrightarrow> P new \<Longrightarrow> (\<And>x. P x \<Longrightarrow> P (merge x new)) \<Longrightarrow> list_all P (upsert key merge new xs)"
  by (induction xs) auto

lemma db_ok_faults [simp]: "db_ok (d\<lparr>db_faults := bs\<rparr>) = db_ok d"
  by (simp add: db_ok_def)

lemma list_all_or: "list_all (\<lambda>x. Q x \<and> P x) xs \<Longrightarrow> list_all (\<lambda>x. (R x \<or> Q x) \<and> P x) xs"
  "list_all Q xs \<Longrightarrow> list_all (\<lambda>x. R x \<or> Q x) xs"
  by (auto simp: list_all_iff)

lemma db_ok_run: "db_ok d \<Longrightarrow> real_ok (RR_BudgetDollars r) \<Longrightarrow> real_ok (RR_UsageDollars r) \<Longrightarrow>
    db_ok (d\<lparr>db_runs := upsert RR_ID merge_run r (db_runs d)\<rparr>)"
  unfolding db_ok_def has_run_upsert
  by (simp add: distinct_upsert merges_keep_keys list_all_upsert merge_run_def list_all_or)

lemma db_ok_step: "db_ok d \<Longrightarrow> has_run d (SR_RunID s) \<Longrightarrow> real_ok (SR_Dollars s) \<Longrightarrow>
    db_ok (d\<lparr>db_steps := upsert step_key merge_step s (db_steps d)\<rparr>)"
  by (simp add: db_ok_def distinct_upsert merges_keep_keys list_all_upsert merge_step_def)

lemma db_ok_resolve: "db_ok d \<Longrightarrow> db_ok (d\<lparr>db_approvals := map (\<lambda>a. if P a
    then a\<lparr>AR_Status := st, AR_Reason := re, AR_DecidedBy := de, AR_DecidedAt := t\<rparr> else a) (db_approvals d)\<rparr>)"
  by (simp add: db_ok_def list.pred_map o_def if_distrib [of AR_ID] if_distrib [of AR_RunID] cong: if_cong)

lemma store_step_ok: "db_ok d \<Longrightarrow> db_ok (fst (store_step d e))"
proof (cases e)
  case (SUpsertRun r)
  assume "db_ok d"
  then show ?thesis unfolding SUpsertRun store_step.simps UpsertRun_def
    by (rule statement_keeps) (simp_all add: db_ok_run)
next
  case (SUpsertStep s)
  assume "db_ok d"
  then show ?thesis unfolding SUpsertStep store_step.simps UpsertStep_def
    by (rule statement_keeps) (simp_all add: db_ok_step)
next
  case (SResolveApproval i st re de t)
  assume "db_ok d"
  then show ?thesis unfolding SResolveApproval store_step.simps ResolveApproval_def
    by (rule statement_keeps) (simp_all add: db_ok_resolve)
next
  case (SAppendLedger e)
  assume "db_ok d"
  then show ?thesis unfolding SAppendLedger store_step.simps AppendLedger_def
    by (rule statement_keeps) (simp_all add: db_ok_def)
next
  case (SAppendToolCall t)
  assume "db_ok d"
  then show ?thesis unfolding SAppendToolCall store_step.simps AppendToolCall_def
    by (rule statement_keeps) (simp_all add: db_ok_def is_key_iff)
next
  case (SCreateApproval a)
  assume "db_ok d"
  then show ?thesis unfolding SCreateApproval store_step.simps CreateApproval_def
    by (rule statement_keeps) (simp_all add: db_ok_def is_key_iff)
next
  case (SSaveCheckpoint c)
  assume "db_ok d"
  then show ?thesis unfolding SSaveCheckpoint store_step.simps SaveCheckpoint_def
    by (rule statement_keeps) (simp_all add: db_ok_def)
next
  case (SUpsertPolicy p)
  assume "db_ok d"
  then show ?thesis unfolding SUpsertPolicy store_step.simps UpsertPolicy_def
    by (rule statement_keeps) (simp_all add: db_ok_def distinct_upsert merges_keep_keys list_all_upsert merge_policy_def)
next
  case (SPutFact f)
  assume "db_ok d"
  then show ?thesis unfolding SPutFact store_step.simps PutFact_def
    by (rule statement_keeps) (simp_all add: db_ok_def distinct_upsert merges_keep_keys)
qed

interpretation store: invariant_machine store_step db_ok "\<lambda>_. True"
  by unfold_locales (rule store_step_ok)

section \<open>Nothing is lost or rewritten\<close>

text \<open>
  What the writes never touch once it is stored: ledger entries, tool calls and checkpoints
  as a whole; of the rows that are updated the key and the columns the statement leaves out.
\<close>

definition request_part :: "approval_record \<Rightarrow> approval_record" where
  "request_part a = a\<lparr>AR_Status := '''', AR_Reason := '''', AR_DecidedBy := '''', AR_DecidedAt := None\<rparr>"

definition only_grows :: "db \<Rightarrow> db \<Rightarrow> bool" where
  "only_grows d d' \<longleftrightarrow>
     prefix (db_ledger d) (db_ledger d') \<and> prefix (db_tool_calls d) (db_tool_calls d') \<and>
     prefix (db_checkpoints d) (db_checkpoints d') \<and>
     prefix (map request_part (db_approvals d)) (map request_part (db_approvals d')) \<and>
     prefix (map (\<lambda>r. (RR_ID r, RR_CreatedAt r, RR_PolicyRef r)) (db_runs d))
       (map (\<lambda>r. (RR_ID r, RR_CreatedAt r, RR_PolicyRef r)) (db_runs d')) \<and>
     prefix (map (\<lambda>s. (step_key s, SR_StartedAt s)) (db_steps d))
       (map (\<lambda>s. (step_key s, SR_StartedAt s)) (db_steps d')) \<and>
     prefix (map (\<lambda>p. (PR_Name p, PR_CreatedAt p)) (db_policies d))
       (map (\<lambda>p. (PR_Name p, PR_CreatedAt p)) (db_policies d')) \<and>
     prefix (map fact_key (db_facts d)) (map fact_key (db_facts d'))"

lemma prefix_upsert:
  assumes "\<And>x. key x = key r \<Longrightarrow> f (merge x r) = f x"
  shows "prefix (map f xs) (map f (upsert key merge r xs))"
  using assms by (induction xs) auto

lemma statement_grows:
  assumes "\<And>d. only_grows d (fst (f d))"
  shows "only_grows d (fst (statement f d))"
proof (cases rule: statement_cases [of f d])
  case (failed bs)
  then show ?thesis by (simp add: only_grows_def)
next
  case (ran bs)
  with assms [of "d\<lparr>db_faults := bs\<rparr>"] show ?thesis by (simp add: only_grows_def)
qed

lemma resolve_keeps_request:
  "map request_part (map (\<lambda>a. if P a then a\<lparr>AR_Status := st, AR_Reason := re, AR_DecidedBy := de, AR_DecidedAt := t\<rparr> else a) xs) =
   map request_part xs"
  by (simp add: request_part_def)

lemma kept_keys:
  "step_key (s\<lparr>SR_StartedAt := t\<rparr>) = step_key s"
  "fact_key (f\<lparr>F_Value := v, F_RunID := r, F_UpdatedAt := t\<rparr>) = fact_key f"
  by (simp_all add: step_key_def fact_key_def)

lemma store_step_grows: "only_grows d (fst (store_step d e))"
  by (cases e; simp only: store_step.simps write_defs; rule statement_grows)
    (simp_all add: only_grows_def prefix_upsert merge_run_def merge_step_def merge_policy_def
      merge_fact_def kept_keys resolve_keeps_request del: map_map)

lemma only_grows_trans: "only_grows d e \<Longrightarrow> only_grows e f \<Longrightarrow> only_grows d f"
  by (auto simp: only_grows_def intro: prefix_order.trans)

interpretation growth: ledger store_step "\<lambda>_. True" "\<lambda>_. True" only_grows "\<lambda>d. d"
proof
  show "only_grows d d" for d by (simp add: only_grows_def)
qed (rule only_grows_trans store_step_grows, assumption+ | rule TrueI store_step_grows)+


section \<open>Approvals are decided once\<close>

definition decided :: "string \<Rightarrow> db \<Rightarrow> bool" where
  "decided aid d \<longleftrightarrow> distinct (map AR_ID (db_approvals d)) \<and>
     (case lookup AR_ID aid (db_approvals d) of None \<Rightarrow> False | Some a \<Rightarrow> AR_Status a \<noteq> ApprovalPending)"

fun resolve_refused :: "string \<Rightarrow> store_event \<Rightarrow> store_error + unit \<Rightarrow> bool" where
  "resolve_refused aid (SResolveApproval i _ _ _ _) res = (i \<noteq> aid \<or> isl res)"
| "resolve_refused aid _ res = True"

lemma lookup_map_same_key:
  "(\<And>x. key (f x) = key x) \<Longrightarrow> lookup key k (map f xs) = map_option f (lookup key k xs)"
  by (induction xs) auto

lemma store_step_approvals:
  "db_approvals (fst (store_step d e)) =
     (case e of
        SCreateApproval a \<Rightarrow> if isl (snd (store_step d e)) then db_approvals d else db_approvals d @ [a]
      | SResolveApproval i st re de t \<Rightarrow>
          if isl (snd (store_step d e)) then db_approvals d
          else map (\<lambda>a. if resolvable i a then a\<lparr>AR_Status := st, AR_Reason := re, AR_DecidedBy := de,
                     AR_DecidedAt := Some t\<rparr> else a) (db_approvals d)
      | _ \<Rightarrow> db_approvals d)"
proof -
  have "map f (db_approvals d) = db_approvals d" if "\<not> list_ex P (db_approvals d)" "\<And>a. \<not> P a \<Longrightarrow> f a = a"
    for f P using that by (induction "db_approvals d") (auto simp: list_ex_iff map_idI)
  then show ?thesis
    by (cases e) (auto simp: write_defs statement_def split: list.splits)
qed

lemma store_step_resolved:
  assumes "snd (store_step d (SResolveApproval i st re de t)) = Inr u"
  shows "list_ex (resolvable i) (db_approvals d)"
  using assms by (auto simp: ResolveApproval_def statement_def split: list.splits if_splits)

lemma store_step_created:
  assumes "snd (store_step d (SCreateApproval a)) = Inr u"
  shows "AR_ID a \<notin> AR_ID ` set (db_approvals d)"
  using assms by (auto simp: CreateApproval_def statement_def is_key_iff split: list.splits if_splits)

lemma decided_not_resolvable:
  assumes "decided aid d"
  shows "\<not> list_ex (resolvable aid) (db_approvals d)"
proof
  assume "list_ex (resolvable aid) (db_approvals d)"
  then obtain a where a: "a \<in> set (db_approvals d)" "AR_ID a = aid" "AR_Status a = ApprovalPending"
    by (auto simp: list_ex_iff resolvable_def)
  then have "lookup AR_ID aid (db_approvals d) = Some a"
    using assms by (simp add: decided_def lookup_Some_iff)
  with assms a show False by (simp add: decided_def)
qed

lemma approvals_distinct_step:
  assumes "distinct (map AR_ID (db_approvals d))"
  shows "distinct (map AR_ID (db_approvals (fst (store_step d e))))"
proof (cases e)
  case (SCreateApproval b)
  show ?thesis
    unfolding store_step_approvals SCreateApproval store_event.case
    using assms store_step_created [of d b]
    by (cases "snd (store_step d (SCreateApproval b))") (auto simp del: store_step.simps)
next
  case (SResolveApproval i st re de t)
  have m: "map AR_ID (map (\<lambda>a. if resolvable i a then a\<lparr>AR_Status := st, AR_Reason := re,
      AR_DecidedBy := de, AR_DecidedAt := Some t\<rparr> else a) (db_approvals d)) = map AR_ID (db_approvals d)"
    by simp
  show ?thesis unfolding store_step_approvals SResolveApproval store_event.case
    by (cases "isl (snd (store_step d (SResolveApproval i st re de t)))")
       (simp_all only: if_True if_False m assms not_False_eq_True)
qed (use assms in \<open>simp_all add: store_step_approvals del: store_step.simps\<close>)

lemma decided_step:
  assumes "decided aid d"
  shows "decided aid (fst (store_step d e)) \<and>
    lookup AR_ID aid (db_approvals (fst (store_step d e))) = lookup AR_ID aid (db_approvals d)"
proof -
  from assms obtain a where a: "lookup AR_ID aid (db_approvals d) = Some a"
    "AR_Status a \<noteq> ApprovalPending" and dist: "distinct (map AR_ID (db_approvals d))"
    by (auto simp: decided_def split: option.splits)
  have l: "lookup AR_ID aid (db_approvals (fst (store_step d e))) = Some a"
    using a by (auto simp: store_step_approvals lookup_append lookup_map_same_key resolvable_def
        split: store_event.splits)
  with a approvals_distinct_step [OF dist, of e] show ?thesis by (simp add: decided_def)
qed

lemma resolve_success:
  assumes "distinct (map AR_ID (db_approvals d))" "status \<noteq> ApprovalPending"
    and "snd (ResolveApproval aid status reason who decided_at d) = Inr ()"
  defines "d' \<equiv> fst (ResolveApproval aid status reason who decided_at d)"
  obtains a where "decided aid d'" "lookup AR_ID aid (db_approvals d') =
    Some (a\<lparr>AR_Status := status, AR_Reason := reason, AR_DecidedBy := who, AR_DecidedAt := Some decided_at\<rparr>)"
proof -
  let ?e = "SResolveApproval aid status reason who decided_at"
  let ?f = "\<lambda>a. if resolvable aid a then a\<lparr>AR_Status := status, AR_Reason := reason,
      AR_DecidedBy := who, AR_DecidedAt := Some decided_at\<rparr> else a"
  have step: "store_step d ?e = ResolveApproval aid status reason who decided_at d" by simp
  from store_step_resolved [of d aid status reason who decided_at "()"] assms(3)
  obtain a where a: "a \<in> set (db_approvals d)" "resolvable aid a" by (auto simp: list_ex_iff)
  then have l: "lookup AR_ID aid (db_approvals d) = Some a"
    using assms(1) by (simp add: lookup_Some_iff resolvable_def)
  have d': "db_approvals d' = map ?f (db_approvals d)"
    using store_step_approvals [of d ?e] assms(3) unfolding step d'_def by simp
  have la: "lookup AR_ID aid (db_approvals d') = Some (?f a)"
    unfolding d' by (subst lookup_map_same_key) (simp_all add: l)
  moreover have "distinct (map AR_ID (db_approvals d'))"
    using approvals_distinct_step [OF assms(1), of ?e] unfolding step d'_def .
  ultimately have "decided aid d'" using a assms(2) by (simp add: decided_def)
  then show ?thesis using la a by (intro that [of a]) simp_all
qed

interpretation approval: refusing_latch store_step "decided aid"
  "\<lambda>d. lookup AR_ID aid (db_approvals d)" "\<lambda>e _. resolve_refused aid e" for aid
proof
  fix s e assume c: "decided aid s"
  then show "decided aid (fst (store_step s e))"
    "lookup AR_ID aid (db_approvals (fst (store_step s e))) = lookup AR_ID aid (db_approvals s)"
    by (simp_all add: decided_step)
  show "resolve_refused aid e (snd (store_step s e))"
    using decided_not_resolvable [OF c] store_step_resolved [of s]
    by (cases e; cases "snd (store_step s e)") auto
qed

section \<open>Sums over groups\<close>

lemma sum_int64_exact: "sum_int64 acc xs = Some p \<Longrightarrow> p = word_of_int acc + sum_list xs"
proof (induction xs arbitrary: acc)
  case (Cons x xs)
  then have "sum_int64 (acc + sint x) xs = Some p" by (simp add: Let_def split: if_splits)
  from Cons.IH [OF this] show ?case by (simp add: add.assoc)
qed simp

lemma sum_filter_split:
  fixes g :: "'a \<Rightarrow> 'b :: comm_monoid_add"
  assumes "\<And>x. \<not> (P x \<and> Q x)"
  shows "sum_list (map g (filter P xs)) + sum_list (map g (filter Q xs)) =
    sum_list (map g (filter (\<lambda>x. P x \<or> Q x) xs))"
  using assms by (induction xs) (auto simp: ac_simps)

lemma sum_by_groups:
  fixes g :: "'a \<Rightarrow> 'b :: comm_monoid_add"
  assumes "distinct ks"
  shows "sum_list (map (\<lambda>k. sum_list (map g (filter (\<lambda>e. f e = k) xs))) ks) =
    sum_list (map g (filter (\<lambda>e. f e \<in> set ks) xs))"
  using assms
proof (induction ks)
  case (Cons k ks)
  then have "\<not> (f e = k \<and> f e \<in> set ks)" for e by auto
  from sum_filter_split [of "\<lambda>e. f e = k" "\<lambda>e. f e \<in> set ks", OF this] Cons show ?case
    by simp
qed simp

lemma fold_add_group:
  "UG_Calls (fold add_group gs t) = UG_Calls t + sum_list (map UG_Calls gs)"
  "UG_PromptTokens (fold add_group gs t) = UG_PromptTokens t + sum_list (map UG_PromptTokens gs)"
  "UG_CompletionTokens (fold add_group gs t) = UG_CompletionTokens t + sum_list (map UG_CompletionTokens gs)"
  by (induction gs arbitrary: t) (simp_all add: add_group_def ac_simps)

lemma sum_list_sort_by:
  fixes f :: "'a \<Rightarrow> 'b :: comm_monoid_add"
  shows "sum_list (map f (sort_by le xs)) = sum_list (map f xs)"
  by (metis mset_map mset_sort_by sum_mset_sum_list)

lemma all_some_map:
  "all_some (map f ks) = Some gs \<Longrightarrow> length gs = length ks \<and> (\<forall>i < length ks. f (ks ! i) = Some (gs ! i))"
proof (induction ks arbitrary: gs)
  case (Cons k ks)
  then obtain g gs' where "f k = Some g" "all_some (map f ks) = Some gs'" "gs = g # gs'"
    by (cases "f k") auto
  with Cons.IH show ?case by (auto simp: nth_Cons split: nat.split)
qed simp

lemma all_some_map_prop:
  assumes "all_some (map f ks) = Some gs" "\<And>k g. f k = Some g \<Longrightarrow> h g = h' k"
  shows "map h gs = map h' ks"
  using all_some_map [OF assms(1)] assms(2) by (intro nth_equalityI) auto

lemma of_nat_length_sum: "of_nat (length xs) = sum_list (map (\<lambda>_. 1 :: int64) xs)"
  by (induction xs) (simp_all add: ac_simps)

lemma make_group_facts:
  assumes "make_group fsum k es = Some g"
  shows "UG_Key g = k" "UG_Calls g = sum_list (map (\<lambda>_. 1) es)"
    "UG_PromptTokens g = sum_list (map LE_PromptTokens es)"
    "UG_CompletionTokens g = sum_list (map LE_CompletionTokens es)"
  using assms sum_int64_exact [of 0]
  by (auto simp: make_group_def of_nat_length_sum split: option.splits)

text \<open>What \<open>SummarizeLedger\<close> does once the dimension is known, for rows that all have a key.\<close>

lemma summarize_rows:
  fixes rows :: "ledger_entry list" and key :: "ledger_entry \<Rightarrow> string"
  defines "ks \<equiv> remdups (map key rows)"
  assumes "all_some (map (\<lambda>k. make_group fsum k (filter (\<lambda>e. key e = k) rows)) ks) = Some gs"
  shows "sum_list (map UG_Calls gs) = of_nat (length rows)"
    "sum_list (map UG_PromptTokens gs) = sum_list (map LE_PromptTokens rows)"
    "sum_list (map UG_CompletionTokens gs) = sum_list (map LE_CompletionTokens rows)"
    "map UG_Key gs = ks"
proof -
  have all: "filter (\<lambda>e. key e \<in> set ks) rows = rows" by (simp add: ks_def filter_id_conv)
  have sums: "sum_list (map (\<lambda>k. sum_list (map g (filter (\<lambda>e. key e = k) rows))) ks) = sum_list (map g rows)"
    for g :: "ledger_entry \<Rightarrow> int64"
    using sum_by_groups [of ks g key rows] all by (simp add: ks_def)
  show "sum_list (map UG_Calls gs) = of_nat (length rows)"
    using all_some_map_prop [OF assms(2) make_group_facts(2)] sums by (simp add: of_nat_length_sum)
  show "sum_list (map UG_PromptTokens gs) = sum_list (map LE_PromptTokens rows)"
    using all_some_map_prop [OF assms(2) make_group_facts(3)] sums by simp
  show "sum_list (map UG_CompletionTokens gs) = sum_list (map LE_CompletionTokens rows)"
    using all_some_map_prop [OF assms(2) make_group_facts(4)] sums by simp
  show "map UG_Key gs = ks"
    using all_some_map_prop [OF assms(2) make_group_facts(1)] by simp
qed

lemma group_expr_total:
  assumes "group_expr by = Some key" "db_ok d" "e \<in> set (db_ledger d)"
  shows "key d e \<noteq> None"
proof -
  from assms(2,3) have "has_run d (LE_RunID e)" by (auto simp: db_ok_def list_all_iff)
  then have "lookup RR_ID (LE_RunID e) (db_runs d) \<noteq> None" by (simp add: has_run_def is_key_lookup)
  with assms(1) show ?thesis by (auto simp: group_expr_def split: if_splits)
qed

section \<open>Properties of the store\<close>

text \<open>
  C21. Integrity under any writes and any failures. From an empty database, whatever writes
  are issued and whichever statements the backend fails, every primary key stays unique,
  every step, ledger entry, tool call, approval and checkpoint refers to a stored run, and
  no stored amount, a policy's budget included, is a NaN. And nothing is lost: from any point
  on, whatever follows, the ledger, the tool calls and the checkpoints are only appended to,
  no run, step, approval, policy or fact disappears, a run keeps its creation time and its
  policy, a step its start, and an approval everything that was asked.
\<close>

theorem store_integrity:
  "let d = final_state store_step (empty_db\<lparr>db_faults := faults\<rparr>) es;
       d' = final_state store_step (empty_db\<lparr>db_faults := faults\<rparr>) (es @ later)
   in db_ok d' \<and> only_grows d d'"
proof -
  have "db_ok (final_state store_step (empty_db\<lparr>db_faults := faults\<rparr>) (es @ later))"
    by (rule store.run_inv) (simp_all add: db_ok_def empty_db_def list.pred_True)
  with growth.run_grows [where s = "final_state store_step (empty_db\<lparr>db_faults := faults\<rparr>) es" and es = later]
  show ?thesis by (simp add: Let_def list.pred_True)
qed

text \<open>
  C7. An approval is decided once. After a successful \<open>ResolveApproval\<close> with a decision,
  and any further writes with any failures, the stored approval still carries that decision,
  reason, person and time, and every later attempt to resolve it is refused.
\<close>

theorem approval_decided_once:
  assumes "db_ok d" "snd (ResolveApproval aid status reason who decided_at d) = Inr ()"
    and "status \<noteq> ApprovalPending"
  defines "d' \<equiv> fst (ResolveApproval aid status reason who decided_at d)"
  shows "(case lookup AR_ID aid (db_approvals (final_state store_step d' es)) of
      None \<Rightarrow> False
    | Some a \<Rightarrow> AR_Status a = status \<and> AR_Reason a = reason \<and> AR_DecidedBy a = who \<and>
        AR_DecidedAt a = Some decided_at) \<and>
    list_all2 (resolve_refused aid) es (answers store_step d' es)"
proof -
  have "distinct (map AR_ID (db_approvals d))" using assms(1) by (simp add: db_ok_def)
  from resolve_success [OF this assms(3,2)] obtain a where c: "decided aid d'"
    and l: "lookup AR_ID aid (db_approvals d') = Some (a\<lparr>AR_Status := status, AR_Reason := reason,
      AR_DecidedBy := who, AR_DecidedAt := Some decided_at\<rparr>)" unfolding d'_def by metis
  from approval.run_value [OF c] approval.run_refuses [OF c] l show ?thesis by simp
qed

definition sample_run :: "string \<Rightarrow> run_record" where
  "sample_run rid = \<lparr>RR_ID = rid, RR_Name = ''agent'', RR_Status = ''running'', RR_HaltReason = '''',
     RR_PolicyRef = '''', RR_BudgetTokens = 0, RR_BudgetDollars = fzero, RR_BudgetLoops = 0,
     RR_BudgetSeconds = 0, RR_UsagePromptTokens = 0, RR_UsageCompletionTokens = 0,
     RR_UsageDollars = fzero, RR_UsageLoops = 0, RR_Metadata = [], RR_CreatedAt = 0, RR_UpdatedAt = 0\<rparr>"

definition sample_approval :: "string \<Rightarrow> string \<Rightarrow> approval_record" where
  "sample_approval aid rid = \<lparr>AR_ID = aid, AR_RunID = rid, AR_StepIndex = 1, AR_Tool = ''rm'',
     AR_SideEffect = ''write'', AR_Arguments = [], AR_Status = ApprovalPending, AR_Reason = '''',
     AR_DecidedBy = '''', AR_CreatedAt = 0, AR_DecidedAt = None\<rparr>"

definition sample_db :: db where
  "sample_db = empty_db\<lparr>db_runs := [sample_run ''r1''], db_approvals := [sample_approval ''a1'' ''r1'']\<rparr>"

lemma sample_db_ok: "db_ok sample_db"
  by (simp add: db_ok_def sample_db_def empty_db_def has_run_def is_key_def sample_run_def
      sample_approval_def real_ok_def)

lemma approval_decided_once_witness:
  "list_all2 (resolve_refused ''a1'') [SResolveApproval ''a1'' ApprovalDenied '''' ''eve'' 9]
     (answers store_step (fst (ResolveApproval ''a1'' ApprovalApproved ''ok'' ''bob'' 7 sample_db))
        [SResolveApproval ''a1'' ApprovalDenied '''' ''eve'' 9])"
proof -
  have "snd (ResolveApproval ''a1'' ApprovalApproved ''ok'' ''bob'' 7 sample_db) = Inr ()"
    by (simp add: ResolveApproval_def sample_db_def empty_db_def sample_approval_def resolvable_def)
  from approval_decided_once [OF sample_db_ok this, of "[SResolveApproval ''a1'' ApprovalDenied '''' ''eve'' 9]"]
  show ?thesis by simp
qed

lemma UpsertRun_nofault:
  "db_faults d = [] \<Longrightarrow> real_ok (RR_BudgetDollars r) \<Longrightarrow> real_ok (RR_UsageDollars r) \<Longrightarrow>
     fst (UpsertRun r d) = d\<lparr>db_runs := upsert RR_ID merge_run r (db_runs d)\<rparr>"
  by (simp add: UpsertRun_def)

lemma upsert_runs:
  assumes "db_faults d = []"
    and "list_all (\<lambda>r. real_ok (RR_BudgetDollars r) \<and> real_ok (RR_UsageDollars r)) rs"
  shows "fold (\<lambda>r d. fst (UpsertRun r d)) rs d = d\<lparr>db_runs := fold (upsert RR_ID merge_run) rs (db_runs d)\<rparr>"
  using assms by (induction rs arbitrary: d) (simp_all add: UpsertRun_nofault)

lemma fold_merge_run:
  "fold (\<lambda>r old. Some (case old of None \<Rightarrow> r | Some x \<Rightarrow> merge_run x r)) (rs @ [r]) (Some x) = Some (merge_run x r)"
  by (induction rs arbitrary: x) (simp_all add: merge_run_def)

text \<open>
  What a run's row holds. In a database without the run, after an upsert of it and any
  later upserts of this and of other runs, \<open>GetRun\<close> returns the last record written for
  the id, except that the creation time and the policy reference are those of the first.
\<close>

theorem run_row_last_write:
  assumes "db_faults d = []" "lookup RR_ID (RR_ID r) (db_runs d) = None" "RR_ID first = RR_ID r"
    and "list_all (\<lambda>r. real_ok (RR_BudgetDollars r) \<and> real_ok (RR_UsageDollars r)) (first # rs @ [r])"
  shows "snd (GetRun (RR_ID r) (fold (\<lambda>r d. fst (UpsertRun r d)) (first # rs @ [r]) d)) =
    Inr (r\<lparr>RR_CreatedAt := RR_CreatedAt first, RR_PolicyRef := RR_PolicyRef first\<rparr>)"
proof -
  have "lookup RR_ID (RR_ID r) (fold (upsert RR_ID merge_run) (first # rs @ [r]) (db_runs d)) =
      Some (merge_run first r)"
    unfolding runs_table.get_puts using fold_merge_run [of "filter (\<lambda>x. RR_ID x = RR_ID r) rs" r first]
    by (simp add: assms(2,3))
  then show ?thesis
    unfolding upsert_runs [OF assms(1,4)] using assms(1) by (simp add: GetRun_def merge_run_def)
qed

lemma run_row_last_write_witness:
  "snd (GetRun ''r2'' (fold (\<lambda>r d. fst (UpsertRun r d))
      [sample_run ''r2'', sample_run ''r1'', (sample_run ''r2'')\<lparr>RR_Status := ''halted'', RR_CreatedAt := 5\<rparr>]
      sample_db)) = Inr ((sample_run ''r2'')\<lparr>RR_Status := ''halted''\<rparr>)"
  using run_row_last_write [of sample_db "(sample_run ''r2'')\<lparr>RR_Status := ''halted'', RR_CreatedAt := 5\<rparr>"
      "sample_run ''r2''" "[sample_run ''r1'']"]
  by (simp add: sample_db_def empty_db_def sample_run_def real_ok_def)

fun saves_for :: "string \<Rightarrow> store_event \<Rightarrow> bool" where
  "saves_for rid (SSaveCheckpoint c) = (CP_RunID c = rid)"
| "saves_for rid _ = False"

lemma checkpoints_step:
  "\<not> saves_for rid e \<Longrightarrow> checkpoints_of rid (fst (store_step d e)) = checkpoints_of rid d"
  by (cases e) (auto simp: checkpoints_of_def write_defs statement_def split: list.split)

lemma checkpoints_run:
  "list_all (\<lambda>e. \<not> saves_for rid e) es \<Longrightarrow>
     checkpoints_of rid (final_state store_step d es) = checkpoints_of rid d"
  by (induction es arbitrary: d) (simp_all add: checkpoints_step del: store_step.simps)

text \<open>
  The latest checkpoint is the last one saved. After a successful \<open>SaveCheckpoint\<close> and
  any writes that save no other checkpoint of the run, \<open>LatestCheckpoint\<close> returns it, unless
  the query itself fails.
\<close>

theorem latest_checkpoint_is_last_saved:
  assumes "snd (SaveCheckpoint c d) = Inr ()" "list_all (\<lambda>e. \<not> saves_for (CP_RunID c) e) es"
  shows "snd (LatestCheckpoint (CP_RunID c) (final_state store_step (fst (SaveCheckpoint c d)) es))
    \<in> {Inr c, Inl ErrDB}"
proof -
  have "checkpoints_of (CP_RunID c) (fst (SaveCheckpoint c d)) = checkpoints_of (CP_RunID c) d @ [c]"
    using assms(1) by (auto simp: SaveCheckpoint_def statement_def checkpoints_of_def
        split: list.splits if_splits)
  with checkpoints_run [OF assms(2)]
  have "checkpoints_of (CP_RunID c) (final_state store_step (fst (SaveCheckpoint c d)) es) =
      checkpoints_of (CP_RunID c) d @ [c]" by simp
  then show ?thesis
    by (simp add: LatestCheckpoint_def query_def statement_def checkpoints_of_def split: list.split)
qed

definition sample_checkpoint :: "string \<Rightarrow> int32 \<Rightarrow> checkpoint_record" where
  "sample_checkpoint rid loops = \<lparr>CP_RunID = rid, CP_StepIndex = loops, CP_Name = '''',
     CP_UsagePromptTokens = 0, CP_UsageCompletionTokens = 0, CP_UsageDollars = fzero,
     CP_UsageLoops = loops, CP_Payload = [], CP_CreatedAt = 0\<rparr>"

lemma latest_checkpoint_is_last_saved_witness:
  "snd (LatestCheckpoint ''r1'' (final_state store_step
      (fst (SaveCheckpoint (sample_checkpoint ''r1'' 3) sample_db)) [SUpsertRun (sample_run ''r2'')]))
    \<in> {Inr (sample_checkpoint ''r1'' 3), Inl ErrDB}"
  using latest_checkpoint_is_last_saved [of "sample_checkpoint ''r1'' 3" sample_db "[SUpsertRun (sample_run ''r2'')]"]
  by (simp add: SaveCheckpoint_def sample_db_def empty_db_def has_run_def is_key_def sample_run_def
      sample_checkpoint_def real_ok_def)

text \<open>
  A spend report loses nothing, whatever it groups by. On a database with its integrity,
  whichever dimension \<open>SummarizeLedger\<close> groups by, the grand total counts exactly the ledger
  rows in range and adds up exactly their prompt and completion tokens, and no key has two
  groups.
\<close>

theorem summarize_complete:
  assumes "db_ok d" "db_faults d = []" "snd (SummarizeLedger fsum opts d) = Inr s"
  shows "UG_Calls (US_Total s) = of_nat (length (filter (in_range opts) (db_ledger d))) \<and>
    UG_PromptTokens (US_Total s) = sum_list (map LE_PromptTokens (filter (in_range opts) (db_ledger d))) \<and>
    UG_CompletionTokens (US_Total s) =
      sum_list (map LE_CompletionTokens (filter (in_range opts) (db_ledger d))) \<and>
    distinct (map UG_Key (US_Groups s))"
proof -
  from assms(3) obtain key where key: "group_expr (SO_By opts) = Some key"
    by (cases "group_expr (SO_By opts)") (simp_all add: SummarizeLedger_def)
  define rows where "rows = filter (in_range opts) (db_ledger d)"
  define ks where "ks = remdups (map (\<lambda>e. the (key d e)) rows)"
  have some: "key d e \<noteq> None" if "e \<in> set (db_ledger d)" for e
    using group_expr_total [OF key assms(1) that] .
  have rows: "filter (\<lambda>e. in_range opts e \<and> key d e \<noteq> None) (db_ledger d) = rows"
    unfolding rows_def using some by (intro filter_cong) auto
  have groups: "filter (\<lambda>e. key d e = Some k) rows = filter (\<lambda>e. the (key d e) = k) rows" for k
    using some by (intro filter_cong) (auto simp: rows_def)
  have "snd (SummarizeLedger fsum opts d) =
      (case all_some (map (\<lambda>k. make_group fsum k (filter (\<lambda>e. the (key d e) = k) rows)) ks) of
         None \<Rightarrow> Inl ErrDB
       | Some gs \<Rightarrow> Inr \<lparr>US_By = SO_By opts, US_Groups = sort_by group_le gs,
                        US_Total = fold add_group (sort_by group_le gs) zero_group\<rparr>)"
    unfolding SummarizeLedger_def key option.case query_ok [OF assms(2)] Let_def snd_conv rows
    unfolding groups ks_def by (rule refl)
  with assms(3) obtain gs where
    gs: "all_some (map (\<lambda>k. make_group fsum k (filter (\<lambda>e. the (key d e) = k) rows)) ks) = Some gs"
    and s: "US_Groups s = sort_by group_le gs" "US_Total s = fold add_group (sort_by group_le gs) zero_group"
    by (auto split: option.splits)
  note sums = summarize_rows [OF gs [unfolded ks_def]]
  have "mset (map UG_Key (sort_by group_le gs)) = mset (map UG_Key gs)" by simp
  moreover have "distinct (map UG_Key gs)" unfolding sums(4) by simp
  ultimately have "distinct (map UG_Key (US_Groups s))" unfolding s by (metis mset_eq_imp_distinct_iff)
  then show ?thesis
    unfolding s fold_add_group by (simp add: zero_group_def sum_list_sort_by sums(1-3) rows_def)
qed

definition sample_entry :: "string \<Rightarrow> time \<Rightarrow> ledger_entry" where
  "sample_entry rid t = \<lparr>LE_RunID = rid, LE_StepIndex = 1, LE_Provider = ''openai'', LE_Model = ''gpt-4o'',
     LE_PromptTokens = 3, LE_CompletionTokens = 4, LE_Dollars = Fin 1, LE_Priced = True,
     LE_ResponseID = '''', LE_CreatedAt = t\<rparr>"

definition sample_opts :: "string \<Rightarrow> summarize_options" where
  "sample_opts by = \<lparr>SO_By = by, SO_Since = None, SO_Until = None\<rparr>"

lemma summarize_complete_witness:
  "\<exists>s. snd (SummarizeLedger (\<lambda>_. Fin 2) (sample_opts ''provider'')
      (sample_db\<lparr>db_ledger := [sample_entry ''r1'' 0, sample_entry ''r1'' 5]\<rparr>)) = Inr s \<and>
    UG_Calls (US_Total s) = 2"
proof -
  let ?d = "sample_db\<lparr>db_ledger := [sample_entry ''r1'' 0, sample_entry ''r1'' 5]\<rparr>"
  have ok: "db_ok ?d"
    by (simp add: db_ok_def sample_db_def empty_db_def has_run_def is_key_def sample_run_def
      sample_approval_def real_ok_def sample_entry_def)
  have f: "db_faults ?d = []" by (simp add: sample_db_def empty_db_def)
  obtain s where s: "snd (SummarizeLedger (\<lambda>_. Fin 2) (sample_opts ''provider'') ?d) = Inr s"
    using f by (simp add: SummarizeLedger_def sample_opts_def group_expr_def in_range_def
        sample_entry_def make_group_def Let_def)
  from summarize_complete [OF ok f s] s show ?thesis
    by (simp add: in_range_def sample_opts_def)
qed

text \<open>
  A range that starts at a whole second misses most of that second. \<open>SummarizeLedger\<close>
  with \<open>Since\<close> at a whole second leaves out every call made later in the same second,
  because the timestamps are compared as text.
\<close>

theorem since_misses_its_second:
  assumes "SO_Since opts = Some t" "t mod 1000000000 = 0"
    and "LE_CreatedAt e = t + ns" "0 < ns" "ns < 1000000000"
  shows "t < LE_CreatedAt e \<and> \<not> in_range opts e"
  using second_after_its_fractions [OF assms(2,4,5)] assms(1,3,4)
  by (simp add: in_range_def text_le_def)

lemma since_misses_its_second_witness:
  "(0 :: int) < LE_CreatedAt (sample_entry ''r1'' 500000000) \<and>
   \<not> in_range ((sample_opts ''model'')\<lparr>SO_Since := Some 0\<rparr>) (sample_entry ''r1'' 500000000)"
  by (rule since_misses_its_second [where t = 0 and ns = 500000000])
     (simp_all add: sample_entry_def sample_opts_def)

end
