(* ===== verification/Approval.thy ===== *)
theory Approval
  imports Glob Storage StorageLaws
begin

text \<open>
  The approval policy (\<open>internal/approval/policy.go\<close>) and the human gate
  (\<open>internal/approval/gate.go\<close>). A waiting caller is a channel of capacity one in
  \<open>g.waiters\<close>: the map takes an approval id to the channel's content. \<open>g.newID\<close> and
  \<open>g.now\<close> are the arguments \<open>newID\<close> and \<open>now\<close>.
\<close>

section \<open>Policy\<close>

record rule =
  AP_Tool :: string
  AP_SideEffect :: string

definition rule_matches :: "rule \<Rightarrow> string \<Rightarrow> string \<Rightarrow> bool" where
  "rule_matches r tool sideEffect =
     (if AP_Tool r \<noteq> '''' \<and> AP_Tool r = tool then True
      else if AP_SideEffect r \<noteq> '''' then glob (AP_SideEffect r) sideEffect
      else False)"

record approval_policy =
  AP_RequireFor :: "rule list"
  AP_DefaultSafe :: bool

definition Requires :: "approval_policy \<Rightarrow> string \<Rightarrow> string \<Rightarrow> bool" where
  "Requires p tool sideEffect =
     (if list_ex (\<lambda>r. rule_matches r tool sideEffect) (AP_RequireFor p) then True
      else AP_DefaultSafe p \<and> sideEffect \<noteq> '''')"

section \<open>The gate\<close>

record decision =
  D_Approved :: bool
  D_Reason :: string
  D_By :: string

record approval_request =
  Q_RunID :: string
  Q_StepIndex :: int32
  Q_Tool :: string
  Q_SideEffect :: string
  Q_Arguments :: json_map

text \<open>\<open>gt_notified\<close> is what a push channel has been told; a nil notifier is told nothing.\<close>

record gate =
  gt_store :: "db option"
  gt_policy :: approval_policy
  gt_notifier :: bool
  gt_notified :: "approval_record list"
  gt_waiters :: "string \<rightharpoonup> decision option"

definition NewGate :: "db option \<Rightarrow> approval_policy \<Rightarrow> bool \<Rightarrow> gate" where
  "NewGate store policy notifier =
     \<lparr>gt_store = store, gt_policy = policy, gt_notifier = notifier, gt_notified = [],
      gt_waiters = Map.empty\<rparr>"

definition gate_Required :: "gate \<Rightarrow> string \<Rightarrow> string \<Rightarrow> bool" where
  "gate_Required g tool sideEffect = Requires (gt_policy g) tool sideEffect"

definition pending_record :: "approval_request \<Rightarrow> string \<Rightarrow> time \<Rightarrow> approval_record" where
  "pending_record req newID now =
     \<lparr>AR_ID = newID, AR_RunID = Q_RunID req, AR_StepIndex = Q_StepIndex req, AR_Tool = Q_Tool req,
      AR_SideEffect = Q_SideEffect req, AR_Arguments = Q_Arguments req,
      AR_Status = ApprovalPending, AR_Reason = '''', AR_DecidedBy = '''', AR_CreatedAt = now,
      AR_DecidedAt = None\<rparr>"

definition persist_pending :: "approval_record \<Rightarrow> gate \<Rightarrow> gate \<times> store_error option" where
  "persist_pending rec g =
     (case gt_store g of
        None \<Rightarrow> (g, None)
      | Some d \<Rightarrow> (let (d', res) = CreateApproval rec d
                  in (g\<lparr>gt_store := Some d'\<rparr>, case res of Inl e \<Rightarrow> Some e | Inr _ \<Rightarrow> None)))"

definition register_waiter :: "string \<Rightarrow> gate \<Rightarrow> gate" where
  "register_waiter aid g = g\<lparr>gt_waiters := (gt_waiters g)(aid \<mapsto> None)\<rparr>"

definition remove_waiter :: "string \<Rightarrow> gate \<Rightarrow> gate" where
  "remove_waiter aid g = g\<lparr>gt_waiters := (gt_waiters g)(aid := None)\<rparr>"

definition notify :: "approval_record \<Rightarrow> gate \<Rightarrow> gate" where
  "notify rec g = (if gt_notifier g then g\<lparr>gt_notified := gt_notified g @ [rec]\<rparr> else g)"

datatype request_error = StoreFailed store_error | ContextDone

definition no_decision :: decision where
  "no_decision = \<lparr>D_Approved = False, D_Reason = '''', D_By = ''''\<rparr>"

text \<open>
  \<open>RequestUnder\<close>. While the call blocks the rest of the system runs: \<open>blocked\<close> is the gate
  it leaves and whether the select takes the context's case. With nothing in the channel
  only the context can end the wait.
\<close>

definition RequestUnder ::
    "approval_request \<Rightarrow> approval_policy \<Rightarrow> string \<Rightarrow> time \<Rightarrow> (gate \<Rightarrow> gate \<times> bool) \<Rightarrow> gate \<Rightarrow>
     gate \<times> decision \<times> string \<times> request_error option" where
  "RequestUnder req policy newID now blocked g =
     (if \<not> Requires policy (Q_Tool req) (Q_SideEffect req)
      then (g, \<lparr>D_Approved = True, D_Reason = '''', D_By = ''''\<rparr>, '''', None)
      else
        (let rec = pending_record req newID now; (g, err) = persist_pending rec g
         in case err of
              Some e \<Rightarrow> (g, no_decision, '''', Some (StoreFailed e))
            | None \<Rightarrow>
                (let g = notify rec (register_waiter newID g);
                     (g, ctx_first) = blocked g
                 in case gt_waiters g newID of
                      Some (Some d) \<Rightarrow>
                        if ctx_first then (remove_waiter newID g, no_decision, newID, Some ContextDone)
                        else (remove_waiter newID g, d, newID, None)
                    | _ \<Rightarrow> (remove_waiter newID g, no_decision, newID, Some ContextDone))))"

definition gate_Request ::
    "approval_request \<Rightarrow> string \<Rightarrow> time \<Rightarrow> (gate \<Rightarrow> gate \<times> bool) \<Rightarrow> gate \<Rightarrow>
     gate \<times> decision \<times> string \<times> request_error option" where
  "gate_Request req newID now blocked g = RequestUnder req (gt_policy g) newID now blocked g"

text \<open>\<open>Create\<close>: the record, and whether approval is required.\<close>

definition gate_Create ::
    "approval_request \<Rightarrow> string \<Rightarrow> time \<Rightarrow> gate \<Rightarrow> gate \<times> (store_error + approval_record option)" where
  "gate_Create req newID now g =
     (if \<not> Requires (gt_policy g) (Q_Tool req) (Q_SideEffect req) then (g, Inr None)
      else
        (let rec = pending_record req newID now; (g, err) = persist_pending rec g
         in case err of
              Some e \<Rightarrow> (g, Inl e)
            | None \<Rightarrow> (notify rec g, Inr (Some rec))))"

definition decision_status :: "bool \<Rightarrow> string" where
  "decision_status approved = (if approved then ApprovalApproved else ApprovalDenied)"

definition resolve_in_store ::
    "string \<Rightarrow> decision \<Rightarrow> time \<Rightarrow> gate \<Rightarrow> gate \<times> store_error option" where
  "resolve_in_store aid dec now g =
     (case gt_store g of
        None \<Rightarrow> (g, None)
      | Some d \<Rightarrow>
          (let (d', res) = ResolveApproval aid (decision_status (D_Approved dec)) (D_Reason dec)
                             (D_By dec) now d
           in (g\<lparr>gt_store := Some d'\<rparr>, case res of Inl e \<Rightarrow> Some e | Inr _ \<Rightarrow> None)))"

text \<open>Sending to the waiter's channel, when there is one; a full channel blocks the sender.\<close>

datatype send_result = Sent | NoWaiter | SendBlocks

definition send_decision :: "string \<Rightarrow> decision \<Rightarrow> gate \<Rightarrow> gate \<times> send_result" where
  "send_decision aid dec g =
     (case gt_waiters g aid of
        None \<Rightarrow> (g, NoWaiter)
      | Some None \<Rightarrow> (g\<lparr>gt_waiters := (gt_waiters g)(aid \<mapsto> Some dec)\<rparr>, Sent)
      | Some (Some _) \<Rightarrow> (g, SendBlocks))"

definition gate_Resolve ::
    "string \<Rightarrow> decision \<Rightarrow> time \<Rightarrow> gate \<Rightarrow> gate \<times> (store_error + send_result)" where
  "gate_Resolve aid dec now g =
     (let (g, err) = resolve_in_store aid dec now g
      in case err of
           Some e \<Rightarrow> (g, Inl e)
         | None \<Rightarrow> (let (g, res) = send_decision aid dec g in (g, Inr res)))"

definition gate_Pending :: "gate \<Rightarrow> gate \<times> (store_error + approval_record list)" where
  "gate_Pending g =
     (case gt_store g of
        None \<Rightarrow> (g, Inr [])
      | Some d \<Rightarrow> (let (d', res) = ListApprovals ApprovalPending d in (g\<lparr>gt_store := Some d'\<rparr>, res)))"

text \<open>\<open>Get\<close> needs a store: without one the Go code panics, here None.\<close>

definition gate_Get :: "string \<Rightarrow> gate \<Rightarrow> (gate \<times> (store_error + approval_record)) option" where
  "gate_Get aid g =
     (case gt_store g of
        None \<Rightarrow> None
      | Some d \<Rightarrow> (let (d', res) = GetApproval aid d in Some (g\<lparr>gt_store := Some d'\<rparr>, res)))"

section \<open>Callers and humans interleaved\<close>

text \<open>
  The pieces of \<open>RequestUnder\<close> and \<open>Resolve\<close> between which other goroutines run. A request is
  known by its approval id: persisted but not yet in the waiter map, waiting, or returned.
  \<open>gs_sends\<close> are the \<open>Resolve\<close> calls between their store update and their send. Other writes
  to the store by the rest of the program do not touch approvals.
\<close>

datatype request_phase = Persisted approval_record | Waiting | Returned decision | GaveUp

record gate_sys =
  gs_gate :: gate
  gs_phase :: "string \<rightharpoonup> request_phase"
  gs_sends :: "(string \<times> decision) list"

fun other_write :: "store_event \<Rightarrow> bool" where
  "other_write (SCreateApproval _) = False"
| "other_write (SResolveApproval _ _ _ _ _) = False"
| "other_write _ = True"

inductive gate_trans :: "gate_sys \<Rightarrow> gate_sys \<Rightarrow> bool" where
  Begin: "gs_phase s newID = None \<Longrightarrow> Requires policy (Q_Tool req) (Q_SideEffect req) \<Longrightarrow>
    persist_pending (pending_record req newID now) (gs_gate s) = (g, None) \<Longrightarrow>
    gate_trans s (s\<lparr>gs_gate := g,
      gs_phase := (gs_phase s)(newID \<mapsto> Persisted (pending_record req newID now))\<rparr>)"
| Register: "gs_phase s aid = Some (Persisted rec) \<Longrightarrow>
    gate_trans s (s\<lparr>gs_gate := notify rec (register_waiter aid (gs_gate s)),
      gs_phase := (gs_phase s)(aid \<mapsto> Waiting)\<rparr>)"
| Receive: "gs_phase s aid = Some Waiting \<Longrightarrow> gt_waiters (gs_gate s) aid = Some (Some dec) \<Longrightarrow>
    gate_trans s (s\<lparr>gs_gate := remove_waiter aid (gs_gate s),
      gs_phase := (gs_phase s)(aid \<mapsto> Returned dec)\<rparr>)"
| CtxDone: "gs_phase s aid = Some Waiting \<Longrightarrow>
    gate_trans s (s\<lparr>gs_gate := remove_waiter aid (gs_gate s),
      gs_phase := (gs_phase s)(aid \<mapsto> GaveUp)\<rparr>)"
| ResolveStore: "resolve_in_store aid dec now (gs_gate s) = (g, None) \<Longrightarrow>
    gate_trans s (s\<lparr>gs_gate := g, gs_sends := (aid, dec) # gs_sends s\<rparr>)"
| ResolveFails: "resolve_in_store aid dec now (gs_gate s) = (g, Some e) \<Longrightarrow>
    gate_trans s (s\<lparr>gs_gate := g\<rparr>)"
| Send: "(aid, dec) \<in> set (gs_sends s) \<Longrightarrow> send_decision aid dec (gs_gate s) = (g, res) \<Longrightarrow>
    res \<noteq> SendBlocks \<Longrightarrow>
    gate_trans s (s\<lparr>gs_gate := g, gs_sends := remove1 (aid, dec) (gs_sends s)\<rparr>)"
| Elsewhere: "gt_store (gs_gate s) = Some d \<Longrightarrow> other_write e \<Longrightarrow>
    gate_trans s (s\<lparr>gs_gate := (gs_gate s)\<lparr>gt_store := Some (fst (store_step d e))\<rparr>\<rparr>)"

abbreviation gate_reach :: "gate_sys \<Rightarrow> gate_sys \<Rightarrow> bool" where
  "gate_reach \<equiv> gate_trans\<^sup>*\<^sup>*"

definition gate_start :: "db \<Rightarrow> approval_policy \<Rightarrow> bool \<Rightarrow> gate_sys" where
  "gate_start d policy notifier =
     \<lparr>gs_gate = NewGate (Some d) policy notifier, gs_phase = Map.empty, gs_sends = []\<rparr>"

section \<open>What a matching rule set promises\<close>

text \<open>
  Rules and the two kinds of policy over them (a gate's policy here, a bundle of a policy
  file) share a contract: any rule of the set that matches makes the call gated.
\<close>

locale gating =
  fixes rule_hits :: "'r \<Rightarrow> string \<Rightarrow> string \<Rightarrow> bool"
    and rules_of :: "'p \<Rightarrow> 'r list"
    and gates :: "'p \<Rightarrow> string \<Rightarrow> string \<Rightarrow> bool"
  assumes gates_rule: "r \<in> set (rules_of p) \<Longrightarrow> rule_hits r tool se \<Longrightarrow> gates p tool se"
begin

lemma gates_any: "list_ex (\<lambda>r. rule_hits r tool se) (rules_of p) \<Longrightarrow> gates p tool se"
  by (auto simp: list_ex_iff intro: gates_rule)

lemma ungated_no_rule: "\<not> gates p tool se \<Longrightarrow> r \<in> set (rules_of p) \<Longrightarrow> \<not> rule_hits r tool se"
  using gates_rule by blast

end

interpretation policy: gating rule_matches AP_RequireFor Requires
  by unfold_locales (auto simp: Requires_def list_ex_iff)

lemma Requires_iff: "Requires p tool se \<longleftrightarrow>
    list_ex (\<lambda>r. rule_matches r tool se) (AP_RequireFor p) \<or> (AP_DefaultSafe p \<and> se \<noteq> '''')"
  by (simp add: Requires_def)

section \<open>The gate's invariant\<close>

text \<open>The stored approval carries exactly this decision.\<close>

definition carries :: "decision \<Rightarrow> string \<Rightarrow> db \<Rightarrow> bool" where
  "carries dec aid d \<longleftrightarrow> decided aid d \<and>
     (case lookup AR_ID aid (db_approvals d) of
        None \<Rightarrow> False
      | Some a \<Rightarrow> AR_Status a = decision_status (D_Approved dec) \<and> AR_Reason a = D_Reason dec \<and>
                  AR_DecidedBy a = D_By dec)"

lemma carries_step: "carries dec aid d \<Longrightarrow> carries dec aid (fst (store_step d e))"
  using decided_step [of aid d e] by (simp add: carries_def)

lemma decision_status_not_pending [simp]: "decision_status b \<noteq> ApprovalPending"
  by (simp add: decision_status_def)

lemma carries_resolved:
  assumes "distinct (map AR_ID (db_approvals d))"
    and "snd (ResolveApproval aid (decision_status (D_Approved dec)) (D_Reason dec) (D_By dec) now d) = Inr ()"
  shows "carries dec aid (fst (ResolveApproval aid (decision_status (D_Approved dec)) (D_Reason dec) (D_By dec) now d))"
  by (rule resolve_success [OF assms(1) decision_status_not_pending assms(2)]) (simp add: carries_def)

definition gate_inv :: "gate_sys \<Rightarrow> bool" where
  "gate_inv s \<longleftrightarrow> (\<exists>d. gt_store (gs_gate s) = Some d \<and> distinct (map AR_ID (db_approvals d)) \<and>
     (\<forall>aid dec. (aid, dec) \<in> set (gs_sends s) \<longrightarrow> carries dec aid d) \<and>
     (\<forall>aid dec. gt_waiters (gs_gate s) aid = Some (Some dec) \<longrightarrow> carries dec aid d) \<and>
     (\<forall>aid dec. gs_phase s aid = Some (Returned dec) \<longrightarrow> carries dec aid d))"

text \<open>What a transition does to the database: nothing, or one write.\<close>

definition db_moves :: "gate_sys \<Rightarrow> gate_sys \<Rightarrow> bool" where
  "db_moves s s' \<longleftrightarrow> (\<forall>d. gt_store (gs_gate s) = Some d \<longrightarrow>
     gt_store (gs_gate s') = Some d \<or> (\<exists>e. gt_store (gs_gate s') = Some (fst (store_step d e))))"

lemma gate_piece_sel [simp]:
  "gt_store (register_waiter aid g) = gt_store g" "gt_store (remove_waiter aid g) = gt_store g"
  "gt_store (notify rec g) = gt_store g" "gt_waiters (notify rec g) = gt_waiters g"
  "gt_waiters (register_waiter aid g) = (gt_waiters g)(aid \<mapsto> None)"
  "gt_waiters (remove_waiter aid g) = (gt_waiters g)(aid := None)"
  by (simp_all add: register_waiter_def remove_waiter_def notify_def)

lemma persist_pending_db:
  assumes "persist_pending rec g = (g', err)" "gt_store g = Some d"
  shows "gt_store g' = Some (fst (store_step d (SCreateApproval rec)))" "gt_waiters g' = gt_waiters g"
  using assms by (auto simp: persist_pending_def Let_def split: prod.splits)

lemma resolve_in_store_db:
  assumes "resolve_in_store aid dec now g = (g', err)" "gt_store g = Some d"
  shows "gt_store g' = Some (fst (ResolveApproval aid (decision_status (D_Approved dec)) (D_Reason dec) (D_By dec) now d))"
    "gt_waiters g' = gt_waiters g"
    "err = None \<longleftrightarrow> snd (ResolveApproval aid (decision_status (D_Approved dec)) (D_Reason dec) (D_By dec) now d) = Inr ()"
  using assms by (auto simp: resolve_in_store_def Let_def split: prod.splits sum.splits)

lemma send_decision_sel:
  assumes "send_decision aid dec g = (g', res)"
  shows "gt_store g' = gt_store g"
    "gt_waiters g' k = (if k = aid \<and> gt_waiters g aid = Some None then Some (Some dec) else gt_waiters g k)"
  using assms by (auto simp: send_decision_def split: option.splits)

inductive_cases gate_transE: "gate_trans s s'"

lemma gate_trans_db:
  assumes "gate_trans s s'" "gt_store (gs_gate s) = Some d"
  shows "\<exists>d'. gt_store (gs_gate s') = Some d' \<and> (d' = d \<or> (\<exists>e. d' = fst (store_step d e)))"
  using assms
proof cases
  case (Begin newID policy req now g)
  with persist_pending_db [OF Begin(4) assms(2)] show ?thesis
    by (auto intro: exI [of _ "SCreateApproval (pending_record req newID now)"])
next
  case (ResolveStore aid dec now g)
  from resolve_in_store_db [OF ResolveStore(2) assms(2)] ResolveStore(1) show ?thesis
    by (auto intro: exI [of _ "SResolveApproval aid (decision_status (D_Approved dec)) (D_Reason dec) (D_By dec) now"])
next
  case (ResolveFails aid dec now g e)
  from resolve_in_store_db [OF ResolveFails(2) assms(2)] ResolveFails(1) show ?thesis
    by (auto intro: exI [of _ "SResolveApproval aid (decision_status (D_Approved dec)) (D_Reason dec) (D_By dec) now"])
next
  case (Send aid dec g res)
  from send_decision_sel(1) [OF Send(3)] Send(1) assms(2) show ?thesis by simp
qed (use assms(2) in auto)

lemma gate_trans_carries:
  assumes "gate_trans s s'" "gt_store (gs_gate s) = Some d" "gt_store (gs_gate s') = Some d'"
    and "carries dec aid d"
  shows "carries dec aid d'"
  using gate_trans_db [OF assms(1,2)] assms(3,4) carries_step by fastforce

lemma gate_inv_step:
  assumes "gate_trans s s'" "gate_inv s"
  shows "gate_inv s'"
proof -
  from assms(2) obtain d where d: "gt_store (gs_gate s) = Some d" "distinct (map AR_ID (db_approvals d))"
    and sends: "\<And>aid dec. (aid, dec) \<in> set (gs_sends s) \<Longrightarrow> carries dec aid d"
    and chans: "\<And>aid dec. gt_waiters (gs_gate s) aid = Some (Some dec) \<Longrightarrow> carries dec aid d"
    and rets: "\<And>aid dec. gs_phase s aid = Some (Returned dec) \<Longrightarrow> carries dec aid d"
    by (auto simp: gate_inv_def)
  from gate_trans_db [OF assms(1) d(1)] obtain d' where d': "gt_store (gs_gate s') = Some d'"
    and moved: "d' = d \<or> (\<exists>e. d' = fst (store_step d e))" by blast
  note keep = gate_trans_carries [OF assms(1) d(1) d']
  have dist: "distinct (map AR_ID (db_approvals d'))"
    using moved d(2) approvals_distinct_step by blast
  have sends': "carries dec aid d'" if "(aid, dec) \<in> set (gs_sends s')" for aid dec
    using assms(1)
  proof cases
    case (ResolveStore aid' dec' now g)
    from resolve_in_store_db [OF ResolveStore(2) d(1)] carries_resolved [OF d(2), of aid' dec' now]
      d' ResolveStore(1)
    have "carries dec' aid' d'" by auto
    with that ResolveStore(1) sends keep show ?thesis by auto
  next
    case (Send aid' dec' g res)
    with that sends keep show ?thesis using set_remove1_subset [of "(aid', dec')" "gs_sends s"] by fastforce
  qed (use that sends keep in auto)
  have chans': "carries dec aid d'" if "gt_waiters (gs_gate s') aid = Some (Some dec)" for aid dec
    using assms(1)
  proof cases
    case (Begin newID policy req now g)
    with that chans keep persist_pending_db [OF Begin(4) d(1)] show ?thesis by auto
  next
    case (ResolveStore aid' dec' now g)
    with that chans keep resolve_in_store_db [OF ResolveStore(2) d(1)] show ?thesis by auto
  next
    case (ResolveFails aid' dec' now g e)
    with that chans keep resolve_in_store_db [OF ResolveFails(2) d(1)] show ?thesis by auto
  next
    case (Send aid' dec' g res)
    with that chans sends keep send_decision_sel(2) [OF Send(3), of aid] show ?thesis
      by (auto split: if_splits)
  qed (use that chans keep in \<open>auto split: if_splits\<close>)
  have rets': "carries dec aid d'" if "gs_phase s' aid = Some (Returned dec)" for aid dec
    using assms(1)
  proof cases
    case (Receive aid' dec')
    with that chans rets keep show ?thesis by (auto split: if_splits)
  qed (use that rets keep in \<open>auto split: if_splits\<close>)
  from d' dist sends' chans' rets' show ?thesis unfolding gate_inv_def by blast
qed

lemma gate_inv_reach: "gate_reach s s' \<Longrightarrow> gate_inv s \<Longrightarrow> gate_inv s'"
  by (induction rule: rtranclp_induct) (auto intro: gate_inv_step)

lemma gate_inv_start: "db_ok d \<Longrightarrow> gate_inv (gate_start d policy notifier)"
  by (simp add: gate_inv_def gate_start_def NewGate_def db_ok_def)

section \<open>A decision that arrives too early\<close>

text \<open>Once decided with nothing left to send and nothing in the channel, a wait never ends well.\<close>

definition stuck :: "string \<Rightarrow> gate_sys \<Rightarrow> bool" where
  "stuck aid s \<longleftrightarrow> (\<exists>d. gt_store (gs_gate s) = Some d \<and> decided aid d) \<and>
     aid \<notin> fst ` set (gs_sends s) \<and>
     (\<forall>dec. gt_waiters (gs_gate s) aid \<noteq> Some (Some dec)) \<and>
     (gs_phase s aid = Some Waiting \<or> gs_phase s aid = Some GaveUp)"

lemma decided_not_resolved:
  "decided aid d \<Longrightarrow> snd (ResolveApproval aid st re who now d) \<noteq> Inr ()"
  using decided_not_resolvable store_step_resolved [of d aid st re who now] by auto

lemma stuck_step:
  assumes "gate_trans s s'" "stuck aid s"
  shows "stuck aid s'"
proof -
  from assms(2) obtain d where d: "gt_store (gs_gate s) = Some d" "decided aid d"
    and s: "aid \<notin> fst ` set (gs_sends s)" "\<And>dec. gt_waiters (gs_gate s) aid \<noteq> Some (Some dec)"
      "gs_phase s aid = Some Waiting \<or> gs_phase s aid = Some GaveUp"
    by (auto simp: stuck_def)
  from gate_trans_db [OF assms(1) d(1)] d(2) decided_step
  have d': "\<exists>d. gt_store (gs_gate s') = Some d \<and> decided aid d" by blast
  have sends: "aid \<notin> fst ` set (gs_sends s')"
    using assms(1)
  proof cases
    case (ResolveStore aid' dec now g)
    with resolve_in_store_db [OF ResolveStore(2) d(1)] decided_not_resolved [OF d(2)] s show ?thesis
      by auto
  next
    case (Send aid' dec g res)
    with s show ?thesis using set_remove1_subset [of "(aid', dec)" "gs_sends s"] by auto
  qed (use s in auto)
  have chan: "gt_waiters (gs_gate s') aid \<noteq> Some (Some dec)" for dec
    using assms(1)
  proof cases
    case (Begin newID policy req now g)
    with s persist_pending_db [OF Begin(4) d(1)] show ?thesis by auto
  next
    case (ResolveStore aid' dec now g)
    with s resolve_in_store_db [OF ResolveStore(2) d(1)] show ?thesis by auto
  next
    case (ResolveFails aid' dec now g e)
    with s resolve_in_store_db [OF ResolveFails(2) d(1)] show ?thesis by auto
  next
    case (Send aid' dec' g res)
    then have "aid' \<noteq> aid" using s(1) by force
    with Send s send_decision_sel(2) [OF Send(3), of aid] show ?thesis by auto
  qed (use s in auto)
  have "gs_phase s' aid = Some Waiting \<or> gs_phase s' aid = Some GaveUp"
    using assms(1) by cases (use s in auto)
  with d' sends chan show ?thesis by (simp add: stuck_def)
qed

lemma stuck_reach: "gate_reach s s' \<Longrightarrow> stuck aid s \<Longrightarrow> stuck aid s'"
  by (induction rule: rtranclp_induct) (auto intro: stuck_step)

section \<open>Properties of the gate\<close>

text \<open>
  C8. A released call carries the decision on record. In any interleaving of callers,
  humans and other writers, with any store failures, a request that returned a decision
  returned the very decision, reason and person stored with its approval, and that approval
  is no longer pending.
\<close>

theorem released_call_matches_record:
  assumes "db_ok d" "gate_reach (gate_start d policy notifier) s"
    and "gs_phase s aid = Some (Returned dec)"
  shows "case gt_store (gs_gate s) of None \<Rightarrow> False
    | Some d' \<Rightarrow> (case lookup AR_ID aid (db_approvals d') of None \<Rightarrow> False
        | Some a \<Rightarrow> AR_Status a = (if D_Approved dec then ApprovalApproved else ApprovalDenied) \<and>
            AR_Reason a = D_Reason dec \<and> AR_DecidedBy a = D_By dec)"
proof -
  from gate_inv_reach [OF assms(2) gate_inv_start [OF assms(1)]] assms(3)
  obtain d' where "gt_store (gs_gate s) = Some d'" "carries dec aid d'"
    unfolding gate_inv_def by blast
  then show ?thesis by (auto simp: carries_def decision_status_def split: option.splits)
qed

definition safe_policy :: approval_policy where
  "safe_policy = \<lparr>AP_RequireFor = [], AP_DefaultSafe = True\<rparr>"

definition sample_request :: approval_request where
  "sample_request = \<lparr>Q_RunID = ''r1'', Q_StepIndex = 1, Q_Tool = ''rm'', Q_SideEffect = ''write'',
     Q_Arguments = []\<rparr>"

definition yes_by :: "string \<Rightarrow> decision" where
  "yes_by who = \<lparr>D_Approved = True, D_Reason = '''', D_By = who\<rparr>"

lemma sample_requires: "Requires safe_policy (Q_Tool sample_request) (Q_SideEffect sample_request)"
  by (simp add: Requires_def safe_policy_def sample_request_def)

text \<open>The states a request, its registration and its resolution pass through.\<close>

definition begun :: gate_sys where
  "begun = (let s = gate_start sample_db safe_policy False
            in s\<lparr>gs_gate := fst (persist_pending (pending_record sample_request ''n1'' 0) (gs_gate s)),
                 gs_phase := (gs_phase s)(''n1'' \<mapsto> Persisted (pending_record sample_request ''n1'' 0))\<rparr>)"

definition registered :: "gate_sys \<Rightarrow> gate_sys" where
  "registered s = s\<lparr>gs_gate := notify (pending_record sample_request ''n1'' 0) (register_waiter ''n1'' (gs_gate s)),
     gs_phase := (gs_phase s)(''n1'' \<mapsto> Waiting)\<rparr>"

definition resolved :: "gate_sys \<Rightarrow> gate_sys" where
  "resolved s = s\<lparr>gs_gate := fst (resolve_in_store ''n1'' (yes_by ''bob'') 5 (gs_gate s)),
     gs_sends := (''n1'', yes_by ''bob'') # gs_sends s\<rparr>"

definition sent :: "gate_sys \<Rightarrow> gate_sys" where
  "sent s = s\<lparr>gs_gate := fst (send_decision ''n1'' (yes_by ''bob'') (gs_gate s)),
     gs_sends := remove1 (''n1'', yes_by ''bob'') (gs_sends s)\<rparr>"

lemmas sample_run_defs = begun_def registered_def resolved_def sent_def gate_start_def NewGate_def
  persist_pending_def CreateApproval_def sample_db_def empty_db_def has_run_def is_key_def
  sample_run_def sample_approval_def pending_record_def sample_request_def register_waiter_def
  notify_def resolve_in_store_def ResolveApproval_def resolvable_def send_decision_def

lemma begun_step: "gate_trans (gate_start sample_db safe_policy False) begun"
  unfolding begun_def Let_def
  by (rule gate_trans.Begin [OF _ sample_requires, where now = 0])
     (simp_all add: sample_run_defs)

lemma register_step:
  "gs_phase s ''n1'' = Some (Persisted (pending_record sample_request ''n1'' 0)) \<Longrightarrow> gate_trans s (registered s)"
  unfolding registered_def by (rule gate_trans.Register)

lemma resolve_step:
  "snd (resolve_in_store ''n1'' (yes_by ''bob'') 5 (gs_gate s)) = None \<Longrightarrow> gate_trans s (resolved s)"
  unfolding resolved_def by (rule gate_trans.ResolveStore [where now = 5]) (simp add: prod_eq_iff)

lemma send_step:
  "(''n1'', yes_by ''bob'') \<in> set (gs_sends s) \<Longrightarrow>
   snd (send_decision ''n1'' (yes_by ''bob'') (gs_gate s)) \<noteq> SendBlocks \<Longrightarrow> gate_trans s (sent s)"
  unfolding sent_def by (rule gate_trans.Send) (auto simp: prod_eq_iff)

text \<open>
  A decision made between the two halves of a request is lost. \<open>RequestUnder\<close> stores
  the pending approval before it registers the waiter; if a human resolves it in between,
  \<open>Resolve\<close> finds no channel and succeeds, and from the state then reached, with the
  approval stored as approved and its caller waiting, no continuation whatsoever makes the
  request return a decision.
\<close>

theorem early_decision_is_lost:
  "\<exists>s. gate_reach (gate_start sample_db safe_policy False) s \<and>
     gs_phase s ''n1'' = Some Waiting \<and>
     map_option (\<lambda>d. map_option AR_Status (lookup AR_ID ''n1'' (db_approvals d))) (gt_store (gs_gate s)) =
       Some (Some ApprovalApproved) \<and>
     (\<forall>s'. \<not> (gate_reach s s' \<and> (\<exists>dec. gs_phase s' ''n1'' = Some (Returned dec))))"
proof -
  let ?s = "registered (sent (resolved begun))"
  have 1: "gate_trans begun (resolved begun)"
    by (rule resolve_step) (simp add: sample_run_defs yes_by_def)
  have 2: "gate_trans (resolved begun) (sent (resolved begun))"
    by (rule send_step) (simp_all add: sample_run_defs)
  have 3: "gate_trans (sent (resolved begun)) ?s"
    by (rule register_step) (simp add: sent_def resolved_def begun_def Let_def)
  have r: "gate_reach (gate_start sample_db safe_policy False) ?s"
    using begun_step 1 2 3 by (meson rtranclp.rtrancl_into_rtrancl rtranclp.rtrancl_refl)
  have st: "map_option (\<lambda>d. map_option AR_Status (lookup AR_ID ''n1'' (db_approvals d))) (gt_store (gs_gate ?s)) =
       Some (Some ApprovalApproved)"
    by (simp add: sample_run_defs yes_by_def decision_status_def)
  have "stuck ''n1'' ?s"
    by (simp add: sample_run_defs yes_by_def decision_status_def stuck_def decided_def)
  then have "\<not> (gate_reach ?s s' \<and> (\<exists>dec. gs_phase s' ''n1'' = Some (Returned dec)))" for s'
    using stuck_reach [of ?s s' "''n1''"] by (auto simp: stuck_def)
  moreover have "gs_phase ?s ''n1'' = Some Waiting" by (simp add: registered_def)
  ultimately show ?thesis using r st by blast
qed

lemma released_call_matches_record_witness:
  "\<exists>s. gate_reach (gate_start sample_db safe_policy False) s \<and>
     gs_phase s ''n1'' = Some (Returned (yes_by ''bob'')) \<and>
     (case gt_store (gs_gate s) of None \<Rightarrow> False
      | Some d' \<Rightarrow> (case lookup AR_ID ''n1'' (db_approvals d') of None \<Rightarrow> False
        | Some a \<Rightarrow> AR_Status a = ApprovalApproved \<and> AR_Reason a = '''' \<and> AR_DecidedBy a = ''bob''))"
proof -
  let ?w = "sent (resolved (registered begun))"
  define s where "s = ?w\<lparr>gs_gate := remove_waiter ''n1'' (gs_gate ?w),
      gs_phase := (gs_phase ?w)(''n1'' \<mapsto> Returned (yes_by ''bob''))\<rparr>"
  have 1: "gate_trans begun (registered begun)"
    by (rule register_step) (simp add: begun_def Let_def)
  have 2: "gate_trans (registered begun) (resolved (registered begun))"
    by (rule resolve_step) (simp add: sample_run_defs yes_by_def)
  have 3: "gate_trans (resolved (registered begun)) ?w"
    by (rule send_step) (simp_all add: sample_run_defs)
  have 4: "gate_trans ?w s"
    unfolding s_def by (rule gate_trans.Receive) (simp_all add: sample_run_defs)
  have r: "gate_reach (gate_start sample_db safe_policy False) s"
    using begun_step 1 2 3 4 by (meson rtranclp.rtrancl_into_rtrancl rtranclp.rtrancl_refl)
  have p: "gs_phase s ''n1'' = Some (Returned (yes_by ''bob''))" by (simp add: s_def)
  from released_call_matches_record [OF sample_db_ok r p] r p show ?thesis
    by (intro exI [of _ s]) (auto simp: yes_by_def split: option.splits)
qed

text \<open>The ways a request ends.\<close>

lemma RequestUnder_cases:
  assumes "RequestUnder req policy newID now blocked g = (g', dec, aid, err)"
  obtains
    (ungated) "\<not> Requires policy (Q_Tool req) (Q_SideEffect req)" "g' = g" "err = None"
      "dec = \<lparr>D_Approved = True, D_Reason = '''', D_By = ''''\<rparr>"
  | (unstored) e where "Requires policy (Q_Tool req) (Q_SideEffect req)"
      "persist_pending (pending_record req newID now) g = (g', Some e)" "dec = no_decision" "err = Some (StoreFailed e)"
  | (decided) g1 after where "Requires policy (Q_Tool req) (Q_SideEffect req)"
      "persist_pending (pending_record req newID now) g = (g1, None)"
      "blocked (notify (pending_record req newID now) (register_waiter newID g1)) = (after, False)"
      "gt_waiters after newID = Some (Some dec)" "g' = remove_waiter newID after" "aid = newID" "err = None"
  | (gave_up) g1 after first where "Requires policy (Q_Tool req) (Q_SideEffect req)"
      "persist_pending (pending_record req newID now) g = (g1, None)"
      "blocked (notify (pending_record req newID now) (register_waiter newID g1)) = (after, first)"
      "g' = remove_waiter newID after" "dec = no_decision" "err = Some ContextDone"
proof (cases "Requires policy (Q_Tool req) (Q_SideEffect req)")
  case False
  with assms that(1) show thesis by (simp add: RequestUnder_def)
next
  case True
  obtain g1 e where p: "persist_pending (pending_record req newID now) g = (g1, e)" by force
  obtain after first where b: "blocked (notify (pending_record req newID now) (register_waiter newID g1)) = (after, first)"
    by force
  show thesis
  proof (cases e)
    case (Some x)
    with assms True p show thesis by (intro that(2) [of x]) (simp_all add: RequestUnder_def)
  next
    case None
    note p = p [unfolded None]
    show thesis
    proof (cases "(\<exists>d. gt_waiters after newID = Some (Some d)) \<and> \<not> first")
      case yes: True
      then obtain d where d: "gt_waiters after newID = Some (Some d)" "first = False" by blast
      from assms True p b d have "g' = remove_waiter newID after \<and> dec = d \<and> aid = newID \<and> err = None"
        by (auto simp: RequestUnder_def)
      with True p b d show thesis by (intro that(3) [of g1 after]) simp_all
    next
      case no: False
      have "(case gt_waiters after newID of Some (Some d) \<Rightarrow>
              if first then (remove_waiter newID after, no_decision, newID, Some ContextDone)
              else (remove_waiter newID after, d, newID, None)
            | _ \<Rightarrow> (remove_waiter newID after, no_decision, newID, Some ContextDone)) =
          (remove_waiter newID after, no_decision, newID, Some ContextDone)"
        using no by (auto split: option.split)
      with assms True p b have "g' = remove_waiter newID after \<and> dec = no_decision \<and> err = Some ContextDone"
        by (auto simp: RequestUnder_def)
      with True p b show thesis by (intro that(4) [of g1 after first]) simp_all
    qed
  qed
qed

text \<open>
  C27. A gated call fails closed. \<open>RequestUnder\<close> approves a call only when the policy does
  not require approval, or when while it blocked a decision that approves was put in its
  channel and was received; a store failure and a context that ends the wait never approve.
\<close>

theorem request_fails_closed:
  assumes "RequestUnder req policy newID now blocked g = (g', dec, aid, err)"
    and "D_Approved dec"
  shows "err = None \<and>
    (\<not> Requires policy (Q_Tool req) (Q_SideEffect req) \<or>
     (let rec = pending_record req newID now;
          (after, ctx_first) =
            blocked (notify rec (register_waiter newID (fst (persist_pending rec g))))
      in aid = newID \<and> gt_waiters after newID = Some (Some dec) \<and> \<not> ctx_first \<and>
         snd (persist_pending rec g) = None))"
  using assms(1)
  by (cases rule: RequestUnder_cases) (use assms(2) in \<open>auto simp: no_decision_def Let_def case_prod_beta\<close>)

lemma request_fails_closed_witness:
  "D_Approved (fst (snd (RequestUnder sample_request safe_policy ''n1'' 0
      (\<lambda>g. (fst (gate_Resolve ''n1'' (yes_by ''bob'') 5 g), False))
      (NewGate (Some sample_db) safe_policy False)))) \<and>
   snd (snd (snd (RequestUnder sample_request safe_policy ''n1'' 0
      (\<lambda>g. (fst (gate_Resolve ''n1'' (yes_by ''bob'') 5 g), False))
      (NewGate (Some sample_db) safe_policy False)))) = None"
proof -
  let ?R = "RequestUnder sample_request safe_policy ''n1'' 0
      (\<lambda>g. (fst (gate_Resolve ''n1'' (yes_by ''bob'') 5 g), False)) (NewGate (Some sample_db) safe_policy False)"
  obtain g' dec aid err where r: "?R = (g', dec, aid, err)" by (cases ?R)
  have a: "D_Approved (fst (snd ?R))"
    using sample_requires
    by (simp add: RequestUnder_def gate_Resolve_def sample_run_defs yes_by_def Let_def)
  with r have "D_Approved dec" by simp
  from request_fails_closed [OF r this] a r show ?thesis by simp
qed

text \<open>
  What a side-effect rule \<open>*lit*\<close> gates. For a text \<open>lit\<close> without metacharacters, a
  rule with that glob and no tool matches exactly the calls whose side effect contains
  \<open>lit\<close> with no slash before it and none after it: a star does not cross a slash.
\<close>

theorem side_effect_rule_contains:
  assumes "plain lit" "lit \<noteq> []"
  shows "rule_matches \<lparr>AP_Tool = '''', AP_SideEffect = ''*'' @ lit @ ''*''\<rparr> tool sideEffect \<longleftrightarrow>
    (\<exists>a b. sideEffect = a @ lit @ b \<and> CHR ''/'' \<notin> set a \<and> CHR ''/'' \<notin> set b)"
  using glob_contains [OF assms, of sideEffect] by (simp add: rule_matches_def)

lemma side_effect_rule_contains_witness:
  "\<not> rule_matches \<lparr>AP_Tool = '''', AP_SideEffect = ''*'' @ ''write'' @ ''*''\<rparr> ''cp'' ''fs/write'' \<and>
   rule_matches \<lparr>AP_Tool = '''', AP_SideEffect = ''*'' @ ''write'' @ ''*''\<rparr> ''cp'' ''fs_write''"
proof -
  have p: "plain ''write''" "''write'' \<noteq> []" by (simp_all add: plain_char_def)
  have slash: "CHR ''/'' \<in> set a \<or> CHR ''/'' \<in> set b" if "''fs/write'' = a @ ''write'' @ b" for a b
  proof -
    have "CHR ''/'' \<in> set ''fs/write''" by simp
    then have "CHR ''/'' \<in> set (a @ ''write'' @ b)" unfolding that .
    then show ?thesis by auto
  qed
  have "''fs_write'' = ''fs_'' @ ''write'' @ ''''" by simp
  then have "\<exists>a b. ''fs_write'' = a @ ''write'' @ b \<and> CHR ''/'' \<notin> set a \<and> CHR ''/'' \<notin> set b"
    by (intro exI [of _ "''fs_''"] exI [of _ "''''"]) simp
  with slash show ?thesis unfolding side_effect_rule_contains [OF p] by blast
qed

end
