(* ===== verification/PolicyFile.thy ===== *)
theory PolicyFile
  imports Governor Approval
begin

text \<open>
  Policy bundles from a riskkernel.yaml file (\<open>internal/policy/policy.go\<close>) and the dry run of
  a bundle against a recorded run (\<open>internal/policy/dryrun.go\<close>). Reading the file and the
  strict YAML decoder are arguments of \<open>Load\<close>.
\<close>

section \<open>Data\<close>

record yaml_budget =
  YB_Tokens :: int64
  YB_Dollars :: float64
  YB_Loops :: int32
  YB_Seconds :: int32

record yaml_rule =
  YR_Tool :: string
  YR_SideEffect :: string

record policy_bundle =
  BN_Name :: string
  BN_Budget :: yaml_budget
  BN_ToolAllowlist :: "string list"
  BN_RequireFor :: "yaml_rule list"

record policy_file =
  PF_SchemaVersion :: int
  PF_Policies :: "policy_bundle list"

definition SchemaVersion :: int where "SchemaVersion = 1"

section \<open>What a bundle decides\<close>

definition yaml_rule_matches :: "yaml_rule \<Rightarrow> string \<Rightarrow> string \<Rightarrow> bool" where
  "yaml_rule_matches r tool sideEffect =
     (if YR_Tool r \<noteq> '''' \<and> YR_Tool r = tool then True
      else if YR_SideEffect r \<noteq> '''' then glob (YR_SideEffect r) sideEffect
      else False)"

definition requiresApproval :: "policy_bundle \<Rightarrow> string \<Rightarrow> string \<Rightarrow> bool" where
  "requiresApproval b tool sideEffect = list_ex (\<lambda>r. yaml_rule_matches r tool sideEffect) (BN_RequireFor b)"

definition bundle_allows :: "policy_bundle \<Rightarrow> string \<Rightarrow> bool" where
  "bundle_allows b tool = (if BN_ToolAllowlist b = [] then True else list_ex (\<lambda>t. t = tool) (BN_ToolAllowlist b))"

interpretation yaml_rules: gating yaml_rule_matches BN_RequireFor requiresApproval
  by unfold_locales (auto simp: requiresApproval_def list_ex_iff)

section \<open>Validation and loading\<close>

datatype policy_error =
    PolicyRead string | PolicyParse string
  | UnsupportedSchema int | NoPolicies | UnnamedPolicy nat | DuplicatePolicy string
  | NegativeBudget string

definition negative_budget :: "yaml_budget \<Rightarrow> bool" where
  "negative_budget b \<longleftrightarrow>
     YB_Tokens b <s 0 \<or> flt (YB_Dollars b) fzero \<or> YB_Loops b <s 0 \<or> YB_Seconds b <s 0"

fun validate_from :: "nat \<Rightarrow> string list \<Rightarrow> policy_bundle list \<Rightarrow> policy_error option" where
  "validate_from i seen [] = None"
| "validate_from i seen (b # bs) =
     (if TrimSpace (BN_Name b) = '''' then Some (UnnamedPolicy i)
      else if BN_Name b \<in> set seen then Some (DuplicatePolicy (BN_Name b))
      else if negative_budget (BN_Budget b) then Some (NegativeBudget (BN_Name b))
      else validate_from (Suc i) (BN_Name b # seen) bs)"

definition Validate :: "policy_file \<Rightarrow> policy_error option" where
  "Validate f =
     (if PF_SchemaVersion f \<noteq> SchemaVersion then Some (UnsupportedSchema (PF_SchemaVersion f))
      else if PF_Policies f = [] then Some NoPolicies
      else validate_from 0 [] (PF_Policies f))"

definition policy_Load ::
    "(string \<Rightarrow> string + string) \<Rightarrow> (string \<Rightarrow> string + policy_file) \<Rightarrow> string \<Rightarrow> policy_error + policy_file" where
  "policy_Load read decode path =
     (case read path of
        Inl e \<Rightarrow> Inl (PolicyRead e)
      | Inr raw \<Rightarrow>
          (case decode raw of
             Inl e \<Rightarrow> Inl (PolicyParse e)
           | Inr f \<Rightarrow> (case Validate f of Some e \<Rightarrow> Inl e | None \<Rightarrow> Inr f)))"

definition file_Bundle :: "policy_file \<Rightarrow> string \<Rightarrow> policy_bundle option" where
  "file_Bundle f name = find (\<lambda>b. BN_Name b = name) (PF_Policies f)"

definition bundle_Record :: "policy_bundle \<Rightarrow> time \<Rightarrow> policy_record" where
  "bundle_Record b now =
     \<lparr>PR_Name = BN_Name b, PR_BudgetTokens = YB_Tokens (BN_Budget b),
      PR_BudgetDollars = YB_Dollars (BN_Budget b), PR_BudgetLoops = YB_Loops (BN_Budget b),
      PR_BudgetSeconds = YB_Seconds (BN_Budget b), PR_ToolAllowlist = BN_ToolAllowlist b,
      PR_ApprovalRules = map (\<lambda>r. \<lparr>Rule_Tool = YR_Tool r, Rule_SideEffect = YR_SideEffect r\<rparr>) (BN_RequireFor b),
      PR_CreatedAt = now, PR_UpdatedAt = now\<rparr>"

section \<open>Dry run\<close>

record run_data =
  RD_Run :: run_record
  RD_Totals :: ledger_totals
  RD_ToolCalls :: "tool_call_record list"

text \<open>The report without its detail text.\<close>

record report =
  RP_Policy :: string
  RP_RunID :: string
  RP_BudgetHalt :: string
  RP_GatedCalls :: "tool_call_record list"
  RP_BlockedCalls :: "tool_call_record list"
  RP_TotalCalls :: nat

definition budget_halt :: "yaml_budget \<Rightarrow> run_data \<Rightarrow> string" where
  "budget_halt b d =
     (let tokens = LT_PromptTokens (RD_Totals d) + LT_CompletionTokens (RD_Totals d) in
      if flt fzero (YB_Dollars b) \<and> fle (YB_Dollars b) (LT_Dollars (RD_Totals d))
        then ''dollar_budget_exceeded''
      else if 0 <s YB_Tokens b \<and> YB_Tokens b \<le>s tokens then ''token_budget_exceeded''
      else if 0 <s YB_Loops b \<and> YB_Loops b <s RR_UsageLoops (RD_Run d) then ''loop_budget_exceeded''
      else '''')"

definition DryRun :: "policy_bundle \<Rightarrow> run_data \<Rightarrow> report" where
  "DryRun b d =
     \<lparr>RP_Policy = BN_Name b, RP_RunID = RR_ID (RD_Run d), RP_BudgetHalt = budget_halt (BN_Budget b) d,
      RP_GatedCalls = filter (\<lambda>c. requiresApproval b (TC_Tool c) (TC_SideEffect c)) (RD_ToolCalls d),
      RP_BlockedCalls = filter (\<lambda>c. \<not> bundle_allows b (TC_Tool c)) (RD_ToolCalls d),
      RP_TotalCalls = length (RD_ToolCalls d)\<rparr>"

section \<open>Validation\<close>

lemma validate_from_None_iff:
  "validate_from i seen bs = None \<longleftrightarrow>
     list_all (\<lambda>b. TrimSpace (BN_Name b) \<noteq> '''' \<and> \<not> negative_budget (BN_Budget b)) bs \<and>
     distinct (map BN_Name bs) \<and> set seen \<inter> BN_Name ` set bs = {}"
  by (induction bs arbitrary: i seen) auto

section \<open>A recorded run replayed under a budget\<close>

type_synonym model_call = "int64 \<times> int64 \<times> float64"

text \<open>The calls of a run in the order of the ledger: a step, its guard, its usage.\<close>

fun replay :: "time \<Rightarrow> model_call list \<Rightarrow> gov_event list" where
  "replay now [] = []"
| "replay now ((p, c, d) # cs) = EPreStep now # ECanProceed now # ERecordUsage now p c d # replay now cs"

definition bundle_budget :: "yaml_budget \<Rightarrow> budget" where
  "bundle_budget b = \<lparr>B_Tokens = YB_Tokens b, B_Dollars = YB_Dollars b, B_Loops = YB_Loops b,
     B_Seconds = YB_Seconds b\<rparr>"

definition add_call :: "model_call \<Rightarrow> usage \<Rightarrow> usage" where
  "add_call call u = (case call of (p, c, d) \<Rightarrow> (add_usage p c d u)\<lparr>U_Loops := U_Loops u + 1\<rparr>)"

definition spend :: "model_call list \<Rightarrow> usage \<Rightarrow> usage" where
  "spend cs u = fold add_call cs u"

lemma spend_simps [simp]: "spend [] u = u" "spend (c # cs) u = spend cs (add_call c u)"
  by (simp_all add: spend_def)

definition inside :: "budget \<Rightarrow> usage \<Rightarrow> bool" where
  "inside b u \<longleftrightarrow>
     \<not> (flt fzero (B_Dollars b) \<and> fle (B_Dollars b) (U_Dollars u)) \<and>
     \<not> (0 <s B_Tokens b \<and> B_Tokens b \<le>s Tokens u) \<and>
     \<not> (0 <s B_Loops b \<and> B_Loops b <s U_Loops u)"

lemma add_call_sel [simp]:
  "U_PromptTokens (add_call (p, c, d) u) = U_PromptTokens u + p"
  "U_CompletionTokens (add_call (p, c, d) u) = U_CompletionTokens u + c"
  "U_Dollars (add_call (p, c, d) u) = fadd (U_Dollars u) d"
  "U_Loops (add_call (p, c, d) u) = U_Loops u + 1"
  "Tokens (add_call (p, c, d) u) = Tokens u + (p + c)"
  by (simp_all add: add_call_def add_usage_def Tokens_def)

definition call_ok :: "model_call \<Rightarrow> bool" where
  "call_ok call = (case call of (p, c, d) \<Rightarrow> 0 \<le> sint p \<and> 0 \<le> sint c \<and> representable d \<and> fle fzero d)"

definition call_tokens :: "model_call \<Rightarrow> int" where
  "call_tokens call = (case call of (p, c, d) \<Rightarrow> sint p + sint c)"

text \<open>A ledger that adds up without overflow from a usage \<open>u\<close>.\<close>

definition adds_up :: "model_call list \<Rightarrow> usage \<Rightarrow> bool" where
  "adds_up cs u \<longleftrightarrow> list_all call_ok cs \<and>
     0 \<le> sint (Tokens u) \<and> sint (Tokens u) + sum_list (map call_tokens cs) < 2 ^ 63 \<and>
     0 \<le> sint (U_Loops u) \<and> sint (U_Loops u) + int (length cs) < 2 ^ 31 \<and>
     representable (U_Dollars u) \<and> fle fzero (U_Dollars u)"

lemma call_tokens_nonneg: "list_all call_ok cs \<Longrightarrow> 0 \<le> sum_list (map call_tokens cs)"
  by (induction cs) (auto simp: call_ok_def call_tokens_def)

lemma adds_up_tokens:
  assumes "adds_up ((p, c, d) # cs) u"
  shows "sint (Tokens (add_call (p, c, d) u)) = sint (Tokens u) + (sint p + sint c)"
proof -
  have pos: "0 \<le> sum_list (map call_tokens cs)" using assms by (intro call_tokens_nonneg) (simp add: adds_up_def)
  have b: "0 \<le> sint p" "0 \<le> sint c" "0 \<le> sint (Tokens u)"
    "sint (Tokens u) + (sint p + sint c) + sum_list (map call_tokens cs) < 2 ^ 63"
    using assms by (simp_all add: adds_up_def call_ok_def call_tokens_def ac_simps)
  then have "sint (p + c) = sint p + sint c" using pos by (intro sint_add_exact64) linarith+
  moreover have "sint (Tokens u + (p + c)) = sint (Tokens u) + sint (p + c)"
    using b pos by (intro sint_add_exact64) (simp_all add: calculation)
  ultimately show ?thesis by simp
qed

lemma adds_up_Cons:
  assumes "adds_up (call # cs) u"
  shows "adds_up cs (add_call call u)" "sint (Tokens u) \<le> sint (Tokens (add_call call u))"
    "sint (U_Loops (add_call call u)) = sint (U_Loops u) + 1"
    "fle (U_Dollars u) (U_Dollars (add_call call u))"
proof -
  obtain p c d where call: "call = (p, c, d)" by (cases call)
  note t = adds_up_tokens [OF assms [unfolded call]]
  have ok: "0 \<le> sint p" "0 \<le> sint c" "representable d" "fle fzero d"
    using assms by (auto simp: adds_up_def call_ok_def call)
  have l: "sint (U_Loops u + 1) = sint (U_Loops u) + 1"
    using assms by (intro sint_succ32) (simp add: adds_up_def)
  show "sint (Tokens u) \<le> sint (Tokens (add_call call u))" using t ok by (simp add: call)
  show "sint (U_Loops (add_call call u)) = sint (U_Loops u) + 1" by (simp add: call l)
  show f: "fle (U_Dollars u) (U_Dollars (add_call call u))"
    using assms ok by (simp add: call adds_up_def fadd_ge)
  show "adds_up cs (add_call call u)"
    using assms ok t l f by (auto simp: adds_up_def call call_tokens_def intro: fle_trans)
qed

lemma inside_mono:
  assumes "inside b v" "sint (Tokens u) \<le> sint (Tokens v)" "sint (U_Loops u) \<le> sint (U_Loops v)"
    and "fle (U_Dollars u) (U_Dollars v)"
  shows "inside b u"
proof -
  have "fle (B_Dollars b) (U_Dollars v)" if "fle (B_Dollars b) (U_Dollars u)"
    using that assms(4) by (rule fle_trans)
  then show ?thesis using assms(1-3) unfolding inside_def word_sle_eq sless_sint by auto
qed

lemma spend_grows:
  "adds_up cs u \<Longrightarrow> inside b (spend cs u) \<Longrightarrow> inside b u"
proof (induction cs arbitrary: u)
  case (Cons call cs)
  from Cons.IH [OF adds_up_Cons(1) [OF Cons.prems(1)]] Cons.prems(2)
  have "inside b (add_call call u)" by simp
  then show ?case by (rule inside_mono) (use adds_up_Cons(2-4) [OF Cons.prems(1)] in simp_all)
qed simp

text \<open>One recorded call under a run that stays within its budget.\<close>

lemma replay_call:
  assumes "g_halted r = HaltNone" "B_Seconds (g_budget r) \<le>s 0"
    and "inside (g_budget r) (g_usage r)" "inside (g_budget r) (add_call (p, c, d) (g_usage r))"
  shows "final_state gov_step r [EPreStep now, ECanProceed now, ERecordUsage now p c d] =
    r\<lparr>g_usage := add_call (p, c, d) (g_usage r)\<rparr>"
proof -
  let ?u = "(g_usage r)\<lparr>U_Loops := U_Loops (g_usage r) + 1\<rparr>"
  have e: "\<not> expiredLocked now (r\<lparr>g_usage := u\<rparr>)" "\<not> expiredLocked now r" for u
    using assms(2) by (simp_all add: expiredLocked_def)
  have 1: "PreStep now r = (r\<lparr>g_usage := ?u\<rparr>, None)"
    using assms(1,4) e(2) by (auto simp: PreStep_def inside_def)
  have 2: "checkLocked now (r\<lparr>g_usage := ?u\<rparr>) = (r\<lparr>g_usage := ?u\<rparr>, None)"
    using assms(1,3) e(1) by (auto simp: checkLocked_def inside_def Tokens_def)
  have u: "add_usage p c d ?u = add_call (p, c, d) (g_usage r)"
    by (simp add: add_call_def add_usage_def)
  have 3: "checkLocked now (r\<lparr>g_usage := add_call (p, c, d) (g_usage r)\<rparr>) =
      (r\<lparr>g_usage := add_call (p, c, d) (g_usage r)\<rparr>, None)"
    using assms(1,4) e(1) unfolding checkLocked_def inside_def by auto
  show ?thesis
    by (simp add: 1 2 CanProceed_def RecordUsage_def u 3 del: add_call_sel)
qed

lemma replay_inside:
  assumes "adds_up cs (g_usage r)" "g_halted r = HaltNone" "B_Seconds (g_budget r) \<le>s 0"
    and "inside (g_budget r) (spend cs (g_usage r))"
  shows "g_halted (final_state gov_step r (replay now cs)) = HaltNone"
  using assms
proof (induction cs arbitrary: r)
  case (Cons call cs)
  obtain p c d where call: "call = (p, c, d)" by (cases call)
  let ?r = "r\<lparr>g_usage := add_call call (g_usage r)\<rparr>"
  have w: "inside (g_budget r) (add_call call (g_usage r))"
    using spend_grows [OF adds_up_Cons(1) [OF Cons.prems(1)]] Cons.prems(4) by simp
  have "inside (g_budget r) (g_usage r)" using spend_grows [OF Cons.prems(1,4)] .
  from replay_call [OF Cons.prems(2,3) this w [unfolded call]]
  have "final_state gov_step r (replay now (call # cs)) = final_state gov_step ?r (replay now cs)"
    unfolding call replay.simps by (simp only: final_state_Cons run_events.simps(1) fst_conv)
  moreover have "g_halted (final_state gov_step ?r (replay now cs)) = HaltNone"
    using Cons.prems adds_up_Cons(1) [OF Cons.prems(1)] by (intro Cons.IH) simp_all
  ultimately show ?case by simp
qed simp

lemma halted_later: "g_halted r \<noteq> HaltNone \<Longrightarrow> g_halted (final_state gov_step r es) \<noteq> HaltNone"
  using halt.run_closed [of r es] by (simp add: Halted_def)

lemma replay_unhalted:
  assumes "g_halted (final_state gov_step r (replay now cs)) = HaltNone"
    and "inside (g_budget r) (g_usage r)"
  shows "inside (g_budget r) (spend cs (g_usage r))"
  using assms
proof (induction cs arbitrary: r)
  case (Cons call cs)
  obtain p c d where call: "call = (p, c, d)" by (cases call)
  define r1 where "r1 = fst (PreStep now r)"
  define r2 where "r2 = fst (CanProceed now r1)"
  define r3 where "r3 = fst (RecordUsage now p c d r2)"
  have f: "final_state gov_step r (replay now (call # cs)) = final_state gov_step r3 (replay now cs)"
    by (simp add: call r1_def r2_def r3_def)
  from Cons.prems(1) halted_later have h3: "g_halted r3 = HaltNone" unfolding f by blast
  have "g_halted r3 = g_halted r2" if "g_halted r2 \<noteq> HaltNone"
    using that gov_step_halted [of r2 "ERecordUsage now p c d"] by (simp add: r3_def)
  with h3 have h2: "g_halted r2 = HaltNone" by metis
  have "g_halted r2 = g_halted r1" if "g_halted r1 \<noteq> HaltNone"
    using that gov_step_halted [of r1 "ECanProceed now"] by (simp add: r2_def)
  with h2 have h1: "g_halted r1 = HaltNone" by metis
  have "r1 = r\<lparr>g_usage := (g_usage r)\<lparr>U_Loops := U_Loops (g_usage r) + 1\<rparr>\<rparr> \<and>
    \<not> (0 <s B_Loops (g_budget r) \<and> B_Loops (g_budget r) <s U_Loops (g_usage r) + 1)"
    by (cases rule: PreStep_cases [of now r]) (use h1 in \<open>auto simp: r1_def\<close>)
  note p = conjunct1 [OF this] conjunct2 [OF this]
  have r2: "r2 = r1" using checkLocked_unhalted [of now r1] h2 by (simp add: r2_def CanProceed_def)
  let ?r = "r2\<lparr>g_usage := add_usage p c d (g_usage r2)\<rparr>"
  have q: "checkLocked now ?r = (?r, None)"
    using checkLocked_unhalted [of now ?r] h3 by (simp add: r3_def RecordUsage_def)
  then have r3: "r3 = ?r" by (simp add: r3_def RecordUsage_def)
  have u: "g_usage r3 = add_call call (g_usage r)" "g_budget r3 = g_budget r"
    by (simp_all add: r3 r2 p(1) call add_call_def add_usage_def)
  have "inside (g_budget r) (add_call call (g_usage r))"
    using checkLocked_None_iff [of now ?r] q p(2) u unfolding r3 [symmetric]
    by (simp add: inside_def call)
  with Cons.IH [of r3] Cons.prems(1) u show ?case unfolding f by simp
qed simp

section \<open>Properties of policy files\<close>

text \<open>
  C26. The dry run predicts the governor. For a bundle without a wall-clock budget and a
  recorded run whose totals are those of its calls (non-negative tokens and costs that add
  up without overflow), the dry run reports a budget halt exactly when a fresh governor
  under the bundle's budget, fed the same calls in order, ends halted.
\<close>

theorem dry_run_predicts_governor:
  assumes "adds_up cs zero_usage" "YB_Seconds (BN_Budget b) \<le>s 0"
    and "LT_PromptTokens (RD_Totals d) = U_PromptTokens (spend cs zero_usage)"
    and "LT_CompletionTokens (RD_Totals d) = U_CompletionTokens (spend cs zero_usage)"
    and "LT_Dollars (RD_Totals d) = U_Dollars (spend cs zero_usage)"
    and "RR_UsageLoops (RD_Run d) = U_Loops (spend cs zero_usage)"
  shows "RP_BudgetHalt (DryRun b d) = '''' \<longleftrightarrow>
    \<not> Halted (final_state gov_step (gov_New Background (bundle_budget (BN_Budget b)) [] t0) (replay now cs))"
proof -
  let ?b = "bundle_budget (BN_Budget b)"
  let ?r = "gov_New Background ?b [] t0"
  have r: "g_budget ?r = ?b" "g_usage ?r = zero_usage" "g_halted ?r = HaltNone"
    by (simp_all add: gov_New_fresh)
  have "RP_BudgetHalt (DryRun b d) = '''' \<longleftrightarrow> inside ?b (spend cs zero_usage)"
    using assms(3-6)
    by (auto simp: DryRun_def budget_halt_def inside_def bundle_budget_def Tokens_def Let_def)
  moreover have "inside ?b zero_usage"
    using spend_grows [OF assms(1), of ?b] gov_New_ceiling [of Background ?b t0]
    by (auto simp: inside_def under_ceiling_def r Halted_def sless_sint zero_usage_def)
  moreover have "B_Seconds ?b \<le>s 0" using assms(2) by (simp add: bundle_budget_def)
  ultimately show ?thesis
    using replay_inside [of cs ?r now] replay_unhalted [of ?r now cs] assms(1) r
    by (auto simp: Halted_def)
qed

definition sample_bundle :: policy_bundle where
  "sample_bundle = \<lparr>BN_Name = ''ci'', BN_Budget = \<lparr>YB_Tokens = 10, YB_Dollars = fzero, YB_Loops = 0, YB_Seconds = 0\<rparr>,
     BN_ToolAllowlist = [''ls''], BN_RequireFor = []\<rparr>"

definition sample_data :: run_data where
  "sample_data = \<lparr>RD_Run = (sample_run ''r1'')\<lparr>RR_UsageLoops := 2\<rparr>,
     RD_Totals = \<lparr>LT_RunID = ''r1'', LT_Calls = 2, LT_PromptTokens = 7, LT_CompletionTokens = 5, LT_Dollars = Fin 3\<rparr>,
     RD_ToolCalls = []\<rparr>"

lemma dry_run_predicts_governor_witness:
  "RP_BudgetHalt (DryRun sample_bundle sample_data) = ''token_budget_exceeded'' \<and>
   Halted (final_state gov_step (gov_New Background (bundle_budget (BN_Budget sample_bundle)) [] 0)
     (replay 1 [(3, 2, Fin 1), (4, 3, Fin 2)]))"
proof -
  let ?cs = "[(3, 2, Fin 1), (4, 3, Fin 2)] :: model_call list"
  have "adds_up ?cs zero_usage"
    by (simp add: adds_up_def call_ok_def call_tokens_def zero_usage_def Tokens_def)
  note P = dry_run_predicts_governor [OF this, of sample_bundle sample_data 0 1]
  have h: "RP_BudgetHalt (DryRun sample_bundle sample_data) = ''token_budget_exceeded''"
    by (simp add: DryRun_def budget_halt_def sample_bundle_def sample_data_def Let_def sless_sint word_sle_eq)
  moreover have "YB_Seconds (BN_Budget sample_bundle) \<le>s 0" by (simp add: sample_bundle_def)
  moreover have "spend ?cs zero_usage =
      \<lparr>U_PromptTokens = 7, U_CompletionTokens = 5, U_Dollars = Fin 3, U_Loops = 2\<rparr>"
    by (simp add: add_call_def add_usage_def zero_usage_def)
  ultimately show ?thesis using P by (simp add: sample_data_def sample_run_def)
qed

text \<open>
  What a policy file must satisfy. \<open>Validate\<close> accepts a file exactly when its schema
  version is the supported one, it has a policy, every policy has a name that is not blank
  and no negative limit, and no two policies share a name; and then every policy of the file
  is the one \<open>Bundle\<close> finds under its name.
\<close>

theorem Validate_accepts:
  "(Validate f = None \<longleftrightarrow>
     PF_SchemaVersion f = SchemaVersion \<and> PF_Policies f \<noteq> [] \<and> distinct (map BN_Name (PF_Policies f)) \<and>
     list_all (\<lambda>b. TrimSpace (BN_Name b) \<noteq> '''' \<and> \<not> negative_budget (BN_Budget b)) (PF_Policies f)) \<and>
   (if Validate f = None then list_all (\<lambda>b. file_Bundle f (BN_Name b) = Some b) (PF_Policies f) else True)"
proof -
  have find: "distinct (map BN_Name bs) \<Longrightarrow> list_all (\<lambda>b. find (\<lambda>x. BN_Name x = BN_Name b) bs = Some b) bs" for bs
    by (induction bs) (auto simp: list_all_iff)
  have v: "Validate f = None \<longleftrightarrow>
     PF_SchemaVersion f = SchemaVersion \<and> PF_Policies f \<noteq> [] \<and> distinct (map BN_Name (PF_Policies f)) \<and>
     list_all (\<lambda>b. TrimSpace (BN_Name b) \<noteq> '''' \<and> \<not> negative_budget (BN_Budget b)) (PF_Policies f)"
    using validate_from_None_iff [of 0 "[]" "PF_Policies f"] by (auto simp: Validate_def)
  with find [of "PF_Policies f"] show ?thesis unfolding file_Bundle_def by simp
qed

text \<open>
  A dollar limit that is not a number is no limit. \<open>Validate\<close> judges a bundle whose
  dollar limit is NaN (YAML \<open>.nan\<close>) by its other limits only, and no sequence of calls
  halts a run under such a budget for its dollars.
\<close>

theorem nan_dollar_budget_never_fires:
  assumes "B_Dollars (g_budget r) = NaN" "g_halted r \<noteq> HaltDollarBudget"
  shows "g_halted (final_state gov_step r es) \<noteq> HaltDollarBudget \<and>
    (negative_budget (b\<lparr>YB_Dollars := NaN\<rparr>) \<longleftrightarrow> YB_Tokens b <s 0 \<or> YB_Loops b <s 0 \<or> YB_Seconds b <s 0)"
proof -
  have "g_halted (final_state gov_step r es) \<noteq> HaltDollarBudget"
    using assms
  proof (induction es arbitrary: r)
    case (Cons e es)
    have "g_halted (fst (gov_step r e)) \<noteq> HaltDollarBudget"
    proof (cases "Halted r")
      case True
      with Cons.prems show ?thesis by (simp add: Halted_def)
    next
      case False
      with Cons.prems show ?thesis
        by (cases e) (simp_all add: PreStep_def CanProceed_def RecordUsage_def checkLocked_def
            gov_Cancel_def Halted_def halt_reasons_distinct [symmetric])
    qed
    with Cons show ?case by simp
  qed simp
  then show ?thesis by (simp add: negative_budget_def)
qed

lemma nan_dollar_budget_never_fires_witness:
  "g_halted (final_state gov_step (gov_New Background ((token_cap 0)\<lparr>B_Dollars := NaN\<rparr>) [] 0)
     [ERecordUsage 1 5 5 (Fin 1000000)]) \<noteq> HaltDollarBudget \<and>
   \<not> negative_budget ((BN_Budget sample_bundle)\<lparr>YB_Dollars := NaN\<rparr>)"
  using nan_dollar_budget_never_fires [of "gov_New Background ((token_cap 0)\<lparr>B_Dollars := NaN\<rparr>) [] 0"
      "[ERecordUsage 1 5 5 (Fin 1000000)]" "BN_Budget sample_bundle"]
  by (simp add: gov_New_fresh token_cap_def sample_bundle_def sless_sint)

end
