(* ===== verification/Runs.thy ===== *)
theory Runs
  imports Governor Storage StorageLaws "HOL-Library.AList"
begin

text \<open>
  The run manager (\<open>internal/runs/manager.go\<close>): live runs around their governors, written
  through to the store. A \<open>*Run\<close> is an address in \<open>m_heap\<close>; \<open>m_runs\<close> is the map from run
  ids to addresses. A write-through is best effort: its error is logged and dropped. One
  \<open>now\<close> stands for the clock readings inside a call, \<open>newID\<close> for \<open>id.NewUUID()\<close>. Methods
  are sequential here; where the code reads state in one step and writes it in a later one,
  the two steps are definitions of their own.
\<close>

section \<open>Data\<close>

record run_obj =
  rn_ID :: string
  rn_Name :: string
  rn_Budget :: budget
  rn_PolicyRef :: string
  rn_Metadata :: "(string \<times> string) list"
  rn_gov :: gov
  rn_createdAt :: time
  rn_updatedAt :: time
  rn_curStepStarted :: time

record call =
  CL_StepIndex :: int32
  CL_Provider :: string
  CL_Model :: string
  CL_PromptTokens :: int64
  CL_CompletionTokens :: int64
  CL_Dollars :: float64
  CL_Priced :: bool
  CL_ResponseID :: string

record view =
  VW_ID :: string
  VW_Name :: string
  VW_Status :: string
  VW_PolicyRef :: string
  VW_Budget :: budget
  VW_Usage :: usage
  VW_HaltReason :: halt_reason
  VW_CreatedAt :: time
  VW_UpdatedAt :: time
  VW_Metadata :: "(string \<times> string) list"

type_synonym addr = nat

record manager =
  m_defaultBudget :: budget
  m_store :: "db option"
  m_heap :: "run_obj list"
  m_runs :: "(string \<times> addr) list"

definition run_at :: "manager \<Rightarrow> addr \<Rightarrow> run_obj" where
  "run_at m a = m_heap m ! a"

definition set_run :: "addr \<Rightarrow> run_obj \<Rightarrow> manager \<Rightarrow> manager" where
  "set_run a r m = m\<lparr>m_heap := (m_heap m)[a := r]\<rparr>"

definition alloc_run :: "run_obj \<Rightarrow> manager \<Rightarrow> manager \<times> addr" where
  "alloc_run r m = (m\<lparr>m_heap := m_heap m @ [r]\<rparr>, length (m_heap m))"

section \<open>Snapshots\<close>

definition statusFor :: "halt_reason \<Rightarrow> string" where
  "statusFor h = (if h = HaltNone then ''running''
     else if h = HaltCancelled then ''cancelled'' else ''halted'')"

definition run_View :: "run_obj \<Rightarrow> view" where
  "run_View r =
     (let (usage, halt) = gov_Status (rn_gov r)
      in \<lparr>VW_ID = rn_ID r, VW_Name = rn_Name r, VW_Status = statusFor halt,
          VW_PolicyRef = rn_PolicyRef r, VW_Budget = rn_Budget r, VW_Usage = usage,
          VW_HaltReason = halt, VW_CreatedAt = rn_createdAt r, VW_UpdatedAt = rn_updatedAt r,
          VW_Metadata = rn_Metadata r\<rparr>)"

definition run_rec :: "run_obj \<Rightarrow> run_record" where
  "run_rec r =
     (let v = run_View r
      in \<lparr>RR_ID = VW_ID v, RR_Name = VW_Name v, RR_Status = VW_Status v,
          RR_HaltReason = VW_HaltReason v, RR_PolicyRef = VW_PolicyRef v,
          RR_BudgetTokens = B_Tokens (VW_Budget v), RR_BudgetDollars = B_Dollars (VW_Budget v),
          RR_BudgetLoops = B_Loops (VW_Budget v), RR_BudgetSeconds = B_Seconds (VW_Budget v),
          RR_UsagePromptTokens = U_PromptTokens (VW_Usage v),
          RR_UsageCompletionTokens = U_CompletionTokens (VW_Usage v),
          RR_UsageDollars = U_Dollars (VW_Usage v), RR_UsageLoops = U_Loops (VW_Usage v),
          RR_Metadata = VW_Metadata v, RR_CreatedAt = VW_CreatedAt v, RR_UpdatedAt = VW_UpdatedAt v\<rparr>)"

section \<open>Write-through\<close>

definition store_write :: "store_event \<Rightarrow> manager \<Rightarrow> manager" where
  "store_write e m =
     (case m_store m of None \<Rightarrow> m | Some d \<Rightarrow> m\<lparr>m_store := Some (fst (store_step d e))\<rparr>)"

definition persistRun :: "addr \<Rightarrow> manager \<Rightarrow> manager" where
  "persistRun a m = store_write (SUpsertRun (run_rec (run_at m a))) m"

definition persistStepStart :: "addr \<Rightarrow> int32 \<Rightarrow> time \<Rightarrow> manager \<Rightarrow> manager" where
  "persistStepStart a idx started m =
     persistRun a (store_write (SUpsertStep
       \<lparr>SR_RunID = rn_ID (run_at m a), SR_Index = idx, SR_Status = ''running'', SR_PromptTokens = 0,
        SR_CompletionTokens = 0, SR_Dollars = fzero, SR_StartedAt = started, SR_EndedAt = None\<rparr>) m)"

definition call_entry :: "run_obj \<Rightarrow> call \<Rightarrow> time \<Rightarrow> ledger_entry" where
  "call_entry r c now =
     \<lparr>LE_RunID = rn_ID r, LE_StepIndex = CL_StepIndex c, LE_Provider = CL_Provider c,
      LE_Model = CL_Model c, LE_PromptTokens = CL_PromptTokens c,
      LE_CompletionTokens = CL_CompletionTokens c, LE_Dollars = CL_Dollars c,
      LE_Priced = CL_Priced c, LE_ResponseID = CL_ResponseID c, LE_CreatedAt = now\<rparr>"

definition call_step :: "run_obj \<Rightarrow> call \<Rightarrow> bool \<Rightarrow> time \<Rightarrow> step_record" where
  "call_step r c halted now =
     \<lparr>SR_RunID = rn_ID r, SR_Index = CL_StepIndex c,
      SR_Status = (if halted then ''halted'' else ''completed''),
      SR_PromptTokens = CL_PromptTokens c, SR_CompletionTokens = CL_CompletionTokens c,
      SR_Dollars = CL_Dollars c, SR_StartedAt = rn_curStepStarted r, SR_EndedAt = Some now\<rparr>"

definition checkpoint_rec ::
    "string \<Rightarrow> int32 \<Rightarrow> string \<Rightarrow> usage \<Rightarrow> json_map \<Rightarrow> time \<Rightarrow> checkpoint_record" where
  "checkpoint_rec runID step name u payload now =
     \<lparr>CP_RunID = runID, CP_StepIndex = step, CP_Name = name,
      CP_UsagePromptTokens = U_PromptTokens u, CP_UsageCompletionTokens = U_CompletionTokens u,
      CP_UsageDollars = U_Dollars u, CP_UsageLoops = U_Loops u, CP_Payload = payload,
      CP_CreatedAt = now\<rparr>"

text \<open>The four writes of \<open>persistCall\<close>, in order.\<close>

definition call_writes :: "run_obj \<Rightarrow> call \<Rightarrow> bool \<Rightarrow> time \<Rightarrow> store_event list" where
  "call_writes r c halted now =
     [SAppendLedger (call_entry r c now), SUpsertStep (call_step r c halted now),
      SUpsertRun (run_rec r),
      SSaveCheckpoint (checkpoint_rec (rn_ID r) (CL_StepIndex c) '''' (fst (gov_Status (rn_gov r))) [] now)]"

definition persistCall :: "addr \<Rightarrow> call \<Rightarrow> bool \<Rightarrow> time \<Rightarrow> manager \<Rightarrow> manager" where
  "persistCall a c halted now m = fold store_write (call_writes (run_at m a) c halted now) m"

section \<open>Methods of a run\<close>

definition touch :: "addr \<Rightarrow> time \<Rightarrow> manager \<Rightarrow> manager" where
  "touch a now m = set_run a ((run_at m a)\<lparr>rn_updatedAt := now\<rparr>) m"

definition persistHalt :: "addr \<Rightarrow> time \<Rightarrow> manager \<Rightarrow> manager" where
  "persistHalt a now m = persistRun a (touch a now m)"

definition set_gov :: "addr \<Rightarrow> gov \<Rightarrow> manager \<Rightarrow> manager" where
  "set_gov a g m = set_run a ((run_at m a)\<lparr>rn_gov := g\<rparr>) m"

definition BeginStep :: "addr \<Rightarrow> time \<Rightarrow> manager \<Rightarrow> manager \<times> (halt_error + int32)" where
  "BeginStep a now m =
     (let (g, err) = PreStep now (rn_gov (run_at m a)); m = set_gov a g m
      in case err of
           Some e \<Rightarrow> (persistHalt a now m, Inl e)
         | None \<Rightarrow>
             (let loops = U_Loops (fst (gov_Status g));
                  m = set_run a ((run_at m a)\<lparr>rn_updatedAt := now, rn_curStepStarted := now\<rparr>) m
              in (persistStepStart a loops now m, Inr loops)))"

definition run_CanProceed :: "addr \<Rightarrow> time \<Rightarrow> manager \<Rightarrow> manager \<times> halt_error option" where
  "run_CanProceed a now m =
     (let (g, err) = CanProceed now (rn_gov (run_at m a)); m = set_gov a g m
      in case err of Some e \<Rightarrow> (persistHalt a now m, Some e) | None \<Rightarrow> (m, None))"

definition RecordCall :: "addr \<Rightarrow> call \<Rightarrow> time \<Rightarrow> manager \<Rightarrow> manager \<times> halt_error option" where
  "RecordCall a c now m =
     (let (g, err) = RecordUsage now (CL_PromptTokens c) (CL_CompletionTokens c) (CL_Dollars c)
                       (rn_gov (run_at m a));
          m = touch a now (set_gov a g m)
      in (persistCall a c (err \<noteq> None) now m, err))"

definition run_Cancel :: "addr \<Rightarrow> time \<Rightarrow> manager \<Rightarrow> manager" where
  "run_Cancel a now m =
     persistRun a (touch a now (set_gov a (gov_Cancel (rn_gov (run_at m a))) m))"

definition run_Close :: "addr \<Rightarrow> manager \<Rightarrow> manager" where
  "run_Close a m = set_gov a (gov_Close (rn_gov (run_at m a))) m"

section \<open>The manager\<close>

definition NewManager :: "budget \<Rightarrow> manager" where
  "NewManager defaultBudget =
     \<lparr>m_defaultBudget = defaultBudget, m_store = None, m_heap = [], m_runs = []\<rparr>"

definition WithStore :: "db \<Rightarrow> manager \<Rightarrow> manager" where
  "WithStore d m = m\<lparr>m_store := Some d\<rparr>"

definition newRun :: "string \<Rightarrow> string \<Rightarrow> budget \<Rightarrow> (string \<times> string) list \<Rightarrow> time \<Rightarrow> run_obj" where
  "newRun rid name budget meta now =
     \<lparr>rn_ID = rid, rn_Name = name, rn_Budget = budget, rn_PolicyRef = '''', rn_Metadata = meta,
      rn_gov = gov_New Background budget [] now, rn_createdAt = now, rn_updatedAt = now,
      rn_curStepStarted = zero_time\<rparr>"

definition put_run :: "string \<Rightarrow> addr \<Rightarrow> manager \<Rightarrow> manager" where
  "put_run rid a m = m\<lparr>m_runs := AList.update rid a (m_runs m)\<rparr>"

record create_options =
  CO_ID :: string
  CO_Name :: string
  CO_Budget :: "budget option"
  CO_PolicyRef :: string
  CO_Metadata :: "(string \<times> string) list"

definition run_Create :: "create_options \<Rightarrow> string \<Rightarrow> time \<Rightarrow> manager \<Rightarrow> manager \<times> addr" where
  "run_Create opts newID now m =
     (let budget = (case CO_Budget opts of None \<Rightarrow> m_defaultBudget m | Some b \<Rightarrow> b);
          rid = (if CO_ID opts = '''' then newID else CO_ID opts);
          r = (newRun rid (CO_Name opts) budget (CO_Metadata opts) now)\<lparr>rn_PolicyRef := CO_PolicyRef opts\<rparr>;
          (m, a) = alloc_run r m
      in (persistRun a (put_run rid a m), a))"

definition get_run :: "string \<Rightarrow> manager \<Rightarrow> addr option" where
  "get_run rid m = map_of (m_runs m) rid"

definition run_List :: "manager \<Rightarrow> view list" where
  "run_List m = map (\<lambda>(rid, a). run_View (run_at m a)) (m_runs m)"

definition record_budget :: "run_record \<Rightarrow> budget" where
  "record_budget rec = \<lparr>B_Tokens = RR_BudgetTokens rec, B_Dollars = RR_BudgetDollars rec,
     B_Loops = RR_BudgetLoops rec, B_Seconds = RR_BudgetSeconds rec\<rparr>"

definition record_usage :: "run_record \<Rightarrow> usage" where
  "record_usage rec = \<lparr>U_PromptTokens = RR_UsagePromptTokens rec,
     U_CompletionTokens = RR_UsageCompletionTokens rec, U_Dollars = RR_UsageDollars rec,
     U_Loops = RR_UsageLoops rec\<rparr>"

definition checkpoint_usage :: "checkpoint_record \<Rightarrow> usage" where
  "checkpoint_usage cp = \<lparr>U_PromptTokens = CP_UsagePromptTokens cp,
     U_CompletionTokens = CP_UsageCompletionTokens cp, U_Dollars = CP_UsageDollars cp,
     U_Loops = CP_UsageLoops cp\<rparr>"

definition reloadRun :: "run_record \<Rightarrow> time \<Rightarrow> db \<Rightarrow> manager \<Rightarrow> manager \<times> addr" where
  "reloadRun rec now d m =
     (let terminal = (RR_Status rec = ''halted'' \<or> RR_Status rec = ''cancelled'');
          (d, rollback) =
            (if terminal then (d, None)
             else (let (d, res) = LatestCheckpoint (RR_ID rec) d
                   in (d, case res of Inl _ \<Rightarrow> None
                            | Inr cp \<Rightarrow> if CP_UsageLoops cp <s RR_UsageLoops rec then Some cp else None)));
          usage = (case rollback of None \<Rightarrow> record_usage rec | Some cp \<Rightarrow> checkpoint_usage cp);
          opts = WithRestoredUsage usage # (if terminal then [WithRestoredHalt (RR_HaltReason rec)] else []);
          r = \<lparr>rn_ID = RR_ID rec, rn_Name = RR_Name rec, rn_Budget = record_budget rec,
               rn_PolicyRef = RR_PolicyRef rec, rn_Metadata = RR_Metadata rec,
               rn_gov = gov_New Background (record_budget rec) opts now,
               rn_createdAt = RR_CreatedAt rec, rn_updatedAt = RR_UpdatedAt rec, rn_curStepStarted = zero_time\<rparr>;
          (m, a) = alloc_run r (m\<lparr>m_store := Some d\<rparr>)
      in (if rollback = None then m else persistRun a m, a))"

definition restoreFromStore :: "string \<Rightarrow> time \<Rightarrow> manager \<Rightarrow> manager \<times> addr option" where
  "restoreFromStore rid now m =
     (case m_store m of
        None \<Rightarrow> (m, None)
      | Some d \<Rightarrow>
          (let (d, res) = GetRun rid d
           in case res of
                Inl _ \<Rightarrow> (m\<lparr>m_store := Some d\<rparr>, None)
              | Inr rec \<Rightarrow> apsnd Some (reloadRun rec now d m)))"

text \<open>The part of \<open>GetOrCreate\<close> under the write lock, and what follows it.\<close>

definition publish_run :: "string \<Rightarrow> addr option \<Rightarrow> time \<Rightarrow> manager \<Rightarrow> manager \<times> addr" where
  "publish_run rid restored now m =
     (case get_run rid m of
        Some a \<Rightarrow> (case restored of None \<Rightarrow> (m, a) | Some b \<Rightarrow> (run_Close b m, a))
      | None \<Rightarrow>
          (case restored of
             Some b \<Rightarrow> (put_run rid b m, b)
           | None \<Rightarrow> (let (m, a) = alloc_run (newRun rid '''' (m_defaultBudget m) [] now) m
                     in (persistRun a (put_run rid a m), a))))"

definition GetOrCreate :: "string \<Rightarrow> time \<Rightarrow> manager \<Rightarrow> manager \<times> addr" where
  "GetOrCreate rid now m =
     (case get_run rid m of
        Some a \<Rightarrow> (m, a)
      | None \<Rightarrow> (let (m, restored) = restoreFromStore rid now m in publish_run rid restored now m))"

fun reload_all :: "time \<Rightarrow> run_record list \<Rightarrow> manager \<Rightarrow> manager \<times> nat" where
  "reload_all now [] m = (m, 0)"
| "reload_all now (rec # recs) m =
     (case (get_run (RR_ID rec) m, m_store m) of
        (None, Some d) \<Rightarrow>
          (let (m, a) = reloadRun rec now d m; (m, n) = reload_all now recs (put_run (RR_ID rec) a m)
           in (m, Suc n))
      | _ \<Rightarrow> reload_all now recs m)"

definition Reload :: "time \<Rightarrow> manager \<Rightarrow> manager \<times> (store_error + nat)" where
  "Reload now m =
     (case m_store m of
        None \<Rightarrow> (m, Inr 0)
      | Some d \<Rightarrow>
          (let (d, res) = ListRunsByStatus ''running'' d; m = m\<lparr>m_store := Some d\<rparr>
           in case res of Inl e \<Rightarrow> (m, Inl e) | Inr recs \<Rightarrow> apsnd Inr (reload_all now recs m)))"

datatype checkpoint_error = RunNotFound string | CheckpointStore store_error

definition run_Checkpoint ::
    "string \<Rightarrow> string \<Rightarrow> json_map \<Rightarrow> time \<Rightarrow> manager \<Rightarrow> manager \<times> checkpoint_error option" where
  "run_Checkpoint runID name payload now m =
     (case get_run runID m of
        None \<Rightarrow> (m, Some (RunNotFound runID))
      | Some a \<Rightarrow>
          (case m_store m of
             None \<Rightarrow> (m, None)
           | Some d \<Rightarrow>
               (let u = fst (gov_Status (rn_gov (run_at m a)));
                    (d, res) = SaveCheckpoint (checkpoint_rec runID (U_Loops u) name u payload now) d
                in (m\<lparr>m_store := Some d\<rparr>,
                    case res of Inl e \<Rightarrow> Some (CheckpointStore e) | Inr _ \<Rightarrow> None))))"

text \<open>
  A process that dies and starts again: the store is all that survives, and the new manager
  is \<open>NewManager\<close> with it (\<open>internal/app/bootstrap.go\<close>).
\<close>

definition restart :: "budget \<Rightarrow> db \<Rightarrow> manager" where
  "restart b d = WithStore d (NewManager b)"

end
