(* ===== verification/RunsLaws.thy ===== *)
theory RunsLaws
  imports Runs
begin

text \<open>
  What the run manager guarantees: the store mirrors every live run after every call, a run
  that is over stays over across a restart, what a crash at each point of a step restores,
  and that racing callers of \<open>GetOrCreate\<close> share one run.
\<close>

section \<open>Writing one run through\<close>

lemma run_at_set_run [simp]: "a < length (m_heap m) \<Longrightarrow> run_at (set_run a r m) a = r"
  by (simp add: run_at_def set_run_def)

lemma run_at_set_run_other [simp]: "a \<noteq> b \<Longrightarrow> run_at (set_run a r m) b = run_at m b"
  by (simp add: run_at_def set_run_def)

lemma set_run_twice [simp]: "set_run a r (set_run a q m) = set_run a r m"
  by (simp add: set_run_def)

lemma set_run_sel [simp]:
  "m_store (set_run a r m) = m_store m" "m_runs (set_run a r m) = m_runs m"
  "m_defaultBudget (set_run a r m) = m_defaultBudget m"
  "length (m_heap (set_run a r m)) = length (m_heap m)"
  by (simp_all add: set_run_def)

lemma store_write_sel [simp]:
  "m_heap (store_write e m) = m_heap m" "m_runs (store_write e m) = m_runs m"
  "m_defaultBudget (store_write e m) = m_defaultBudget m" "run_at (store_write e m) a = run_at m a"
  by (simp_all add: store_write_def run_at_def split: option.split)

lemma store_write_store [simp]:
  "m_store m = Some d \<Longrightarrow> m_store (store_write e m) = Some (fst (store_step d e))"
  by (simp add: store_write_def)

lemma fold_store_write:
  "m_store m = Some d \<Longrightarrow> m_store (fold store_write es m) = Some (final_state store_step d es) \<and>
     m_heap (fold store_write es m) = m_heap m \<and> m_runs (fold store_write es m) = m_runs m \<and>
     m_defaultBudget (fold store_write es m) = m_defaultBudget m"
  by (induction es arbitrary: m d) (simp_all del: store_step.simps)

lemma store_step_faults: "db_faults d = [] \<Longrightarrow> db_faults (fst (store_step d e)) = []"
  by (cases e) (simp_all add: write_defs)

lemma store_step_runs:
  "db_faults d = [] \<Longrightarrow> db_runs (fst (store_step d e)) =
     (case e of SUpsertRun r \<Rightarrow>
        if real_ok (RR_BudgetDollars r) \<and> real_ok (RR_UsageDollars r)
        then upsert RR_ID merge_run r (db_runs d) else db_runs d
      | _ \<Rightarrow> db_runs d)"
  by (cases e) (simp_all add: write_defs)

lemma store_step_ledger:
  "db_faults d = [] \<Longrightarrow> ledger_of rid (fst (store_step d e)) =
     (case e of SAppendLedger l \<Rightarrow>
        if has_run d (LE_RunID l) \<and> real_ok (LE_Dollars l) \<and> LE_RunID l = rid
        then ledger_of rid d @ [l] else ledger_of rid d
      | _ \<Rightarrow> ledger_of rid d)"
  by (cases e) (auto simp: write_defs ledger_of_def)

lemma run_rec_sel [simp]:
  "RR_ID (run_rec r) = rn_ID r" "RR_CreatedAt (run_rec r) = rn_createdAt r"
  "RR_PolicyRef (run_rec r) = rn_PolicyRef r" "RR_BudgetDollars (run_rec r) = B_Dollars (rn_Budget r)"
  "RR_UsageDollars (run_rec r) = U_Dollars (g_usage (rn_gov r))"
  "RR_Status (run_rec r) = statusFor (g_halted (rn_gov r))"
  "RR_HaltReason (run_rec r) = g_halted (rn_gov r)" "RR_UsageLoops (run_rec r) = U_Loops (g_usage (rn_gov r))"
  by (simp_all add: run_rec_def run_View_def gov_Status_def)

lemma run_rec_usage [simp]:
  "record_usage (run_rec r) = g_usage (rn_gov r)" "record_budget (run_rec r) = rn_Budget r"
  by (simp_all add: run_rec_def run_View_def gov_Status_def record_usage_def record_budget_def)

lemma run_rec_gov [simp]: "run_rec (r\<lparr>rn_gov := rn_gov r\<rparr>) = run_rec r"
  by simp

section \<open>One call on one run\<close>

text \<open>The amounts of a run that can be stored, and that a call with a price keeps so.\<close>

definition storable :: "run_obj \<Rightarrow> bool" where
  "storable r \<longleftrightarrow> real_ok (B_Dollars (rn_Budget r)) \<and> dollars_sound (rn_gov r) \<and>
     g_budget (rn_gov r) = rn_Budget r"

definition same_run :: "run_obj \<Rightarrow> run_obj \<Rightarrow> bool" where
  "same_run r r' \<longleftrightarrow> rn_ID r' = rn_ID r \<and> rn_createdAt r' = rn_createdAt r \<and>
     rn_PolicyRef r' = rn_PolicyRef r \<and> rn_Budget r' = rn_Budget r"

text \<open>
  A call on the run at \<open>a\<close> replaces that run by one with the same identity, and either
  upserts its row or leaves the rows alone because the row would be the same.
\<close>

definition run_effect :: "addr \<Rightarrow> manager \<Rightarrow> manager \<Rightarrow> bool" where
  "run_effect a m m' \<longleftrightarrow> (\<exists>r' d d'. m_store m = Some d \<and>
     m_heap m' = (m_heap m)[a := r'] \<and> m_runs m' = m_runs m \<and> m_store m' = Some d' \<and>
     same_run (run_at m a) r' \<and> storable r' \<and> db_faults d' = [] \<and>
     (db_runs d' = upsert RR_ID merge_run (run_rec r') (db_runs d) \<or>
      db_runs d' = db_runs d \<and> run_rec r' = run_rec (run_at m a)))"

lemma storable_rec: "storable r \<Longrightarrow> real_ok (RR_BudgetDollars (run_rec r)) \<and> real_ok (RR_UsageDollars (run_rec r))"
  by (auto simp: storable_def dollars_sound_def real_ok_def dest: fle_not_NaN)

lemma persistRun_effect:
  assumes "a < length (m_heap m)" "m_store m = Some d" "db_faults d = []"
    and "same_run (run_at m a) r'" "storable r'"
  shows "run_effect a m (persistRun a (set_run a r' m))"
proof -
  let ?e = "SUpsertRun (run_rec r')"
  have "persistRun a (set_run a r' m) = store_write ?e (set_run a r' m)"
    using assms(1) by (simp add: persistRun_def)
  moreover have "db_runs (fst (store_step d ?e)) = upsert RR_ID merge_run (run_rec r') (db_runs d)"
    using storable_rec [OF assms(5)] store_step_runs [OF assms(3), of ?e] by simp
  ultimately show ?thesis
    using assms store_step_faults [OF assms(3), of ?e] unfolding run_effect_def
    by (intro exI [of _ r'] exI [of _ d] exI [of _ "fst (store_step d ?e)"])
       (simp add: set_run_def del: store_step.simps)
qed

lemma storable_step:
  assumes "storable r" "priced e" "rn_gov r' = fst (gov_step (rn_gov r) e)" "rn_Budget r' = rn_Budget r"
  shows "storable r'"
  using assms dollars.step_inv [of "rn_gov r" e] by (simp add: storable_def)

lemma BeginStep_effect:
  assumes "a < length (m_heap m)" "m_store m = Some d" "db_faults d = []" "storable (run_at m a)"
  shows "run_effect a m (fst (BeginStep a now m))"
proof -
  let ?g = "fst (PreStep now (rn_gov (run_at m a)))"
  have st: "storable r'" if "rn_gov r' = ?g" "rn_Budget r' = rn_Budget (run_at m a)" for r'
    using storable_step [OF assms(4), of "EPreStep now"] that by simp
  show ?thesis
  proof (cases "snd (PreStep now (rn_gov (run_at m a)))")
    case (Some e)
    have "fst (BeginStep a now m) = persistRun a (set_run a ((run_at m a)\<lparr>rn_gov := ?g, rn_updatedAt := now\<rparr>) m)"
      using Some assms(1) by (simp add: BeginStep_def case_prod_beta Let_def persistHalt_def touch_def set_gov_def)
    then show ?thesis
      using assms by (simp, intro persistRun_effect) (auto simp: same_run_def intro: st)
  next
    case None
    let ?r = "(run_at m a)\<lparr>rn_gov := ?g, rn_updatedAt := now, rn_curStepStarted := now\<rparr>"
    let ?s = "\<lparr>SR_RunID = rn_ID ?r, SR_Index = U_Loops (g_usage ?g), SR_Status = ''running'', SR_PromptTokens = 0,
        SR_CompletionTokens = 0, SR_Dollars = fzero, SR_StartedAt = now, SR_EndedAt = None\<rparr>"
    let ?m = "store_write (SUpsertStep ?s) m"
    have e: "fst (BeginStep a now m) = persistRun a (set_run a ?r ?m)"
      using None assms(1,2)
      by (simp add: BeginStep_def case_prod_beta Let_def set_gov_def persistStepStart_def gov_Status_def
          persistRun_def store_write_def set_run_def run_at_def)
    have d': "m_store ?m = Some (fst (store_step d (SUpsertStep ?s)))"
      using assms(2) by (simp del: store_step.simps)
    have "run_effect a ?m (persistRun a (set_run a ?r ?m))"
      by (rule persistRun_effect [OF _ d' store_step_faults [OF assms(3)]])
         (use assms(1) in \<open>auto simp: same_run_def intro: st\<close>)
    moreover have "db_runs (fst (store_step d (SUpsertStep ?s))) = db_runs d"
      using store_step_runs [OF assms(3), of "SUpsertStep ?s"] by simp
    ultimately show ?thesis
      using assms(2) d' unfolding e run_effect_def by (auto simp del: store_step.simps)
  qed
qed

lemma run_CanProceed_effect:
  assumes "a < length (m_heap m)" "m_store m = Some d" "db_faults d = []" "storable (run_at m a)"
  shows "run_effect a m (fst (run_CanProceed a now m))"
proof -
  let ?g = "fst (CanProceed now (rn_gov (run_at m a)))"
  have st: "storable r'" if "rn_gov r' = ?g" "rn_Budget r' = rn_Budget (run_at m a)" for r'
    using storable_step [OF assms(4), of "ECanProceed now"] that by simp
  show ?thesis
  proof (cases "snd (CanProceed now (rn_gov (run_at m a)))")
    case (Some e)
    have "fst (run_CanProceed a now m) =
        persistRun a (set_run a ((run_at m a)\<lparr>rn_gov := ?g, rn_updatedAt := now\<rparr>) m)"
      using Some assms(1)
      by (simp add: run_CanProceed_def case_prod_beta Let_def persistHalt_def touch_def set_gov_def)
    then show ?thesis
      using assms by (simp, intro persistRun_effect) (auto simp: same_run_def intro: st)
  next
    case None
    then have "?g = rn_gov (run_at m a)"
      by (cases rule: checkLocked_cases [of now "rn_gov (run_at m a)"]) (simp_all add: CanProceed_def)
    then have "fst (run_CanProceed a now m) = set_run a (run_at m a) m"
      using None by (simp add: run_CanProceed_def case_prod_beta Let_def set_gov_def)
    with assms show ?thesis
      by (auto simp: run_effect_def same_run_def set_run_def)
  qed
qed

lemma RecordCall_effect:
  assumes "a < length (m_heap m)" "m_store m = Some d" "db_faults d = []" "storable (run_at m a)"
    and "representable (CL_Dollars c)" "fle fzero (CL_Dollars c)"
  shows "run_effect a m (fst (RecordCall a c now m))"
proof -
  let ?res = "RecordUsage now (CL_PromptTokens c) (CL_CompletionTokens c) (CL_Dollars c) (rn_gov (run_at m a))"
  let ?r = "(run_at m a)\<lparr>rn_gov := fst ?res, rn_updatedAt := now\<rparr>"
  let ?ws = "call_writes ?r c (snd ?res \<noteq> None) now"
  have st: "storable ?r"
    using storable_step [OF assms(4), of "ERecordUsage now (CL_PromptTokens c) (CL_CompletionTokens c) (CL_Dollars c)"]
      assms(5,6) by simp
  have e: "fst (RecordCall a c now m) = fold store_write ?ws (set_run a ?r m)"
    using assms(1) by (simp add: RecordCall_def case_prod_beta Let_def touch_def set_gov_def persistCall_def)
  note f = fold_store_write [of "set_run a ?r m" d ?ws]
  have runs: "db_runs (final_state store_step d ?ws) = upsert RR_ID merge_run (run_rec ?r) (db_runs d)"
    using storable_rec [OF st] store_step_faults assms(3) unfolding call_writes_def
    by (simp add: store_step_runs del: store_step.simps)
  have faults: "db_faults (final_state store_step d es) = []" for es
    using assms(3) by (induction es arbitrary: d) (simp_all add: store_step_faults del: store_step.simps)
  show ?thesis unfolding e run_effect_def
    using f assms(2) runs faults st
    by (intro exI [of _ ?r] exI [of _ d] exI [of _ "final_state store_step d ?ws"])
       (simp add: same_run_def set_run_def)
qed

lemma run_Cancel_effect:
  assumes "a < length (m_heap m)" "m_store m = Some d" "db_faults d = []" "storable (run_at m a)"
  shows "run_effect a m (run_Cancel a now m)"
proof -
  let ?r = "(run_at m a)\<lparr>rn_gov := gov_Cancel (rn_gov (run_at m a)), rn_updatedAt := now\<rparr>"
  have "storable ?r" using storable_step [OF assms(4), of ECancel] by simp
  moreover have "run_Cancel a now m = persistRun a (set_run a ?r m)"
    using assms(1) by (simp add: run_Cancel_def touch_def set_gov_def)
  ultimately show ?thesis
    using assms by (simp, intro persistRun_effect) (auto simp: same_run_def)
qed

section \<open>The mirror\<close>

definition mirrors :: "manager \<Rightarrow> bool" where
  "mirrors m \<longleftrightarrow> (\<exists>d. m_store m = Some d \<and> db_faults d = [] \<and>
     (\<forall>rid a. get_run rid m = Some a \<longrightarrow> a < length (m_heap m) \<and> rn_ID (run_at m a) = rid \<and>
        storable (run_at m a) \<and> lookup RR_ID rid (db_runs d) = Some (run_rec (run_at m a))))"

lemma mirrorsD:
  assumes "mirrors m" "get_run rid m = Some a"
  obtains d where "m_store m = Some d" "db_faults d = []" "a < length (m_heap m)"
    "rn_ID (run_at m a) = rid" "storable (run_at m a)"
    "lookup RR_ID rid (db_runs d) = Some (run_rec (run_at m a))"
  using assms unfolding mirrors_def by blast

lemma merge_same_run: "same_run r r' \<Longrightarrow> merge_run (run_rec r) (run_rec r') = run_rec r'"
  by (simp add: merge_run_def same_run_def run_rec_def run_View_def gov_Status_def)

lemma effect_mirrors:
  assumes "mirrors m" "get_run rid m = Some a" "run_effect a m m'"
  shows "mirrors m'"
proof -
  from assms(1) obtain d where d: "m_store m = Some d" "db_faults d = []"
    and all: "\<And>k b. get_run k m = Some b \<Longrightarrow> b < length (m_heap m) \<and> rn_ID (run_at m b) = k \<and>
        storable (run_at m b) \<and> lookup RR_ID k (db_runs d) = Some (run_rec (run_at m b))"
    by (auto simp: mirrors_def)
  from assms(3) d obtain r' d' where e: "m_heap m' = (m_heap m)[a := r']" "m_runs m' = m_runs m"
    "m_store m' = Some d'" "same_run (run_at m a) r'" "storable r'" "db_faults d' = []"
    and rows: "db_runs d' = upsert RR_ID merge_run (run_rec r') (db_runs d) \<or>
      db_runs d' = db_runs d \<and> run_rec r' = run_rec (run_at m a)"
    by (auto simp: run_effect_def)
  note a = all [OF assms(2)]
  have id: "rn_ID r' = rid" using e(4) a by (simp add: same_run_def)
  have "b < length (m_heap m') \<and> rn_ID (run_at m' b) = k \<and> storable (run_at m' b) \<and>
      lookup RR_ID k (db_runs d') = Some (run_rec (run_at m' b))" if "get_run k m' = Some b" for k b
  proof -
    have k: "get_run k m = Some b" using that e(2) by (simp add: get_run_def)
    note kb = all [OF k]
    show ?thesis
    proof (cases "b = a")
      case True
      then have "k = rid" using kb a by simp
      moreover have "run_at m' b = r'" using True a e(1) by (simp add: run_at_def)
      moreover have "lookup RR_ID rid (db_runs d') = Some (run_rec r')"
        using rows a id merge_same_run [OF e(4)]
        by (auto simp: lookup_upsert [OF merges_keep_keys(1)])
      ultimately show ?thesis using True a e(1,5) id by simp
    next
      case False
      then have "run_at m' b = run_at m b" using e(1) by (simp add: run_at_def)
      moreover have "k \<noteq> rid" using False k assms(2) by auto
      then have "lookup RR_ID k (db_runs d') = lookup RR_ID k (db_runs d)"
        using rows id by (auto simp: lookup_upsert [OF merges_keep_keys(1)])
      ultimately show ?thesis using kb e(1) by simp
    qed
  qed
  with e(3,6) show ?thesis by (auto simp: mirrors_def)
qed

datatype run_event =
    RBeginStep string time
  | RCanProceed string time
  | RRecordCall string call time
  | RCancel string time

fun event_run :: "run_event \<Rightarrow> string" where
  "event_run (RBeginStep rid _) = rid"
| "event_run (RCanProceed rid _) = rid"
| "event_run (RRecordCall rid _ _) = rid"
| "event_run (RCancel rid _) = rid"

text \<open>A handler looks the run up and calls the method; an unknown run is a 404.\<close>

fun on_run :: "addr \<Rightarrow> run_event \<Rightarrow> manager \<Rightarrow> manager \<times> halt_error option" where
  "on_run a (RBeginStep _ now) m =
     (fst (BeginStep a now m), case snd (BeginStep a now m) of Inl e \<Rightarrow> Some e | Inr _ \<Rightarrow> None)"
| "on_run a (RCanProceed _ now) m = run_CanProceed a now m"
| "on_run a (RRecordCall _ c now) m = RecordCall a c now m"
| "on_run a (RCancel _ now) m = (run_Cancel a now m, None)"

definition run_step :: "manager \<Rightarrow> run_event \<Rightarrow> manager \<times> halt_error option" where
  "run_step m e = (case get_run (event_run e) m of None \<Rightarrow> (m, None) | Some a \<Rightarrow> on_run a e m)"

fun priced_call :: "run_event \<Rightarrow> bool" where
  "priced_call (RRecordCall _ c _) = (representable (CL_Dollars c) \<and> fle fzero (CL_Dollars c))"
| "priced_call _ = True"

lemma on_run_effect:
  assumes "mirrors m" "get_run (event_run e) m = Some a" "priced_call e"
  shows "run_effect a m (fst (on_run a e m))"
proof -
  from mirrorsD [OF assms(1,2)] obtain d where
    "m_store m = Some d" "db_faults d = []" "a < length (m_heap m)" "storable (run_at m a)" by metis
  with assms(3) show ?thesis
    by (cases e) (simp_all add: BeginStep_effect run_CanProceed_effect RecordCall_effect run_Cancel_effect)
qed

lemma run_step_mirrors: "mirrors m \<Longrightarrow> priced_call e \<Longrightarrow> mirrors (fst (run_step m e))"
  using on_run_effect effect_mirrors by (auto simp: run_step_def split: option.split)

interpretation mirror: invariant_machine run_step mirrors priced_call
  by unfold_locales (rule run_step_mirrors)

lemma run_step_runs: "mirrors m \<Longrightarrow> priced_call e \<Longrightarrow> m_runs (fst (run_step m e)) = m_runs m"
  using on_run_effect [of m e] by (auto simp: run_step_def run_effect_def split: option.split)

lemma run_events_get:
  "mirrors m \<Longrightarrow> list_all priced_call es \<Longrightarrow> get_run rid (final_state run_step m es) = get_run rid m"
proof (induction es arbitrary: m)
  case (Cons e es)
  with run_step_runs [of m e] run_step_mirrors [of m e] show ?case by (simp add: get_run_def)
qed simp

section \<open>Creating and restoring\<close>

lemma mirrors_restart: "db_faults d = [] \<Longrightarrow> mirrors (restart b d)"
  by (simp add: mirrors_def restart_def WithStore_def NewManager_def get_run_def)

lemma get_run_put [simp]: "get_run k (put_run rid a m) = (if k = rid then Some a else get_run k m)"
  by (simp add: get_run_def put_run_def update_conv')

lemma put_run_sel [simp]:
  "m_heap (put_run rid a m) = m_heap m" "m_store (put_run rid a m) = m_store m"
  "m_defaultBudget (put_run rid a m) = m_defaultBudget m" "run_at (put_run rid a m) b = run_at m b"
  by (simp_all add: put_run_def run_at_def)

lemma alloc_run_sel [simp]:
  "snd (alloc_run r m) = length (m_heap m)" "m_heap (fst (alloc_run r m)) = m_heap m @ [r]"
  "m_store (fst (alloc_run r m)) = m_store m" "m_runs (fst (alloc_run r m)) = m_runs m"
  "m_defaultBudget (fst (alloc_run r m)) = m_defaultBudget m"
  "get_run k (fst (alloc_run r m)) = get_run k m"
  by (simp_all add: alloc_run_def get_run_def)

lemma run_at_alloc [simp]: "run_at (fst (alloc_run r m)) (length (m_heap m)) = r"
  by (simp add: run_at_def)

lemma run_at_alloc_old [simp]: "b < length (m_heap m) \<Longrightarrow> run_at (fst (alloc_run r m)) b = run_at m b"
  by (simp add: run_at_def nth_append)

lemma newRun_storable:
  "real_ok (B_Dollars b) \<Longrightarrow> storable ((newRun rid name b meta now)\<lparr>rn_PolicyRef := p\<rparr>)"
  by (simp add: storable_def newRun_def dollars_sound_def gov_New_fresh zero_usage_def)

text \<open>A new run under an unknown id, and its first row.\<close>

lemma run_Create_new:
  fixes opts newID now m
  defines "budget \<equiv> (case CO_Budget opts of None \<Rightarrow> m_defaultBudget m | Some b \<Rightarrow> b)"
  defines "r \<equiv> (newRun newID (CO_Name opts) budget (CO_Metadata opts) now)\<lparr>rn_PolicyRef := CO_PolicyRef opts\<rparr>"
  assumes "mirrors m" "CO_ID opts = ''''" "real_ok (B_Dollars budget)"
    and "m_store m = Some d" "lookup RR_ID newID (db_runs d) = None" "get_run newID m = None"
  shows "mirrors (fst (run_Create opts newID now m))"
    "get_run newID (fst (run_Create opts newID now m)) = Some (snd (run_Create opts newID now m))"
    "run_at (fst (run_Create opts newID now m)) (snd (run_Create opts newID now m)) = r"
proof -
  let ?a = "length (m_heap m)"
  let ?e = "SUpsertRun (run_rec r)"
  have f: "db_faults d = []" using assms(3,6) by (auto simp: mirrors_def)
  have st: "storable r" unfolding r_def using assms(5) by (rule newRun_storable)
  have id: "rn_ID r = newID" by (simp add: r_def newRun_def)
  have c: "run_Create opts newID now m = (store_write ?e (put_run newID ?a (fst (alloc_run r m))), ?a)"
    using assms(4) by (simp add: run_Create_def budget_def [symmetric] r_def [symmetric] Let_def
        case_prod_beta persistRun_def)
  let ?m = "store_write ?e (put_run newID ?a (fst (alloc_run r m)))"
  have rows: "db_runs (fst (store_step d ?e)) = upsert RR_ID merge_run (run_rec r) (db_runs d)"
    using storable_rec [OF st] store_step_runs [OF f, of ?e] by simp
  have get: "get_run k ?m = (if k = newID then Some ?a else get_run k m)" for k
    using get_run_put [of k newID ?a "fst (alloc_run r m)"] by (simp add: get_run_def)
  have at: "run_at ?m b = (if b = ?a then r else run_at m b)" if "b \<le> ?a" for b
    using that by (auto simp: run_at_def nth_append)
  show "get_run newID (fst (run_Create opts newID now m)) = Some (snd (run_Create opts newID now m))"
    unfolding c using get by simp
  show "run_at (fst (run_Create opts newID now m)) (snd (run_Create opts newID now m)) = r"
    unfolding c using at by simp
  have "b < length (m_heap ?m) \<and> rn_ID (run_at ?m b) = k \<and> storable (run_at ?m b) \<and>
      lookup RR_ID k (db_runs (fst (store_step d ?e))) = Some (run_rec (run_at ?m b))"
    if "get_run k ?m = Some b" for k b
  proof (cases "k = newID")
    case True
    with that get have "b = ?a" by simp
    with True st id assms(7) show ?thesis
      unfolding rows by (simp add: at lookup_upsert [OF merges_keep_keys(1)])
  next
    case False
    with that get have k: "get_run k m = Some b" by simp
    from mirrorsD [OF assms(3) k] assms(6) have "b < ?a" "rn_ID (run_at m b) = k" "storable (run_at m b)"
      "lookup RR_ID k (db_runs d) = Some (run_rec (run_at m b))" by (metis option.inject)+
    with False id show ?thesis
      unfolding rows by (simp add: at lookup_upsert [OF merges_keep_keys(1)])
  qed
  moreover have "m_store ?m = Some (fst (store_step d ?e))"
    using assms(6) by (simp del: store_step.simps)
  ultimately show "mirrors (fst (run_Create opts newID now m))"
    unfolding c fst_conv mirrors_def using store_step_faults [OF f] by blast
qed

text \<open>What a restarted daemon makes of a stored row.\<close>

lemma GetOrCreate_restart:
  fixes rid :: string and now :: time and b :: budget and d :: db and row :: run_record
  assumes "db_faults d = []" "lookup RR_ID rid (db_runs d) = Some row"
  defines "usage \<equiv> (if RR_Status row = ''halted'' \<or> RR_Status row = ''cancelled'' then record_usage row
     else (case rev (checkpoints_of rid d) of [] \<Rightarrow> record_usage row
           | cp # _ \<Rightarrow> if CP_UsageLoops cp <s RR_UsageLoops row then checkpoint_usage cp else record_usage row))"
  defines "halt \<equiv> (if RR_Status row = ''halted'' \<or> RR_Status row = ''cancelled'' then RR_HaltReason row else HaltNone)"
  defines "res \<equiv> GetOrCreate rid now (restart b d)"
  shows "gov_Status (rn_gov (run_at (fst res) (snd res))) = (usage, halt)"
    "rn_Budget (run_at (fst res) (snd res)) = record_budget row"
    "g_budget (rn_gov (run_at (fst res) (snd res))) = record_budget row"
    "g_startedAt (rn_gov (run_at (fst res) (snd res))) = now"
    "snd res < length (m_heap (fst res))"
proof -
  have id: "RR_ID row = rid" using lookup_SomeD [OF assms(2)] by simp
  let ?m = "(restart b d)\<lparr>m_store := Some d\<rparr>"
  have m: "m_heap ?m = []" "get_run rid ?m = None" "get_run rid (restart b d) = None"
    "m_store (restart b d) = Some d" "m_heap (restart b d) = []"
    by (simp_all add: restart_def WithStore_def NewManager_def get_run_def)
  have rest: "restoreFromStore rid now (restart b d) = apsnd Some (reloadRun row now d (restart b d))"
    using assms(1,2) m by (simp add: restoreFromStore_def GetRun_def)
  have latest: "snd (LatestCheckpoint rid d) = (case rev (checkpoints_of rid d) of [] \<Rightarrow> Inl ErrNotFound | c # _ \<Rightarrow> Inr c)"
    "fst (LatestCheckpoint rid d) = d"
    using assms(1) by (simp_all add: LatestCheckpoint_def)
  let ?rr = "reloadRun row now d (restart b d)"
  have a: "snd ?rr = 0" "get_run rid (fst ?rr) = None" "length (m_heap (fst ?rr)) = 1"
    using m by (auto simp: reloadRun_def Let_def case_prod_beta persistRun_def get_run_def
        restart_def WithStore_def NewManager_def split: option.split)
  have g: "gov_Status (rn_gov (run_at (fst ?rr) 0)) = (usage, halt)"
    "rn_Budget (run_at (fst ?rr) 0) = record_budget row"
    "g_budget (rn_gov (run_at (fst ?rr) 0)) = record_budget row"
    "g_startedAt (rn_gov (run_at (fst ?rr) 0)) = now"
    using m latest id
    by (auto simp: reloadRun_def Let_def case_prod_beta persistRun_def run_at_def usage_def halt_def
        gov_Status_def gov_New_def WithRestoredUsage_def WithRestoredHalt_def
        split: option.splits list.splits sum.splits)
  have "res = (put_run rid 0 (fst ?rr), 0)"
    using m a by (simp add: res_def GetOrCreate_def rest publish_run_def case_prod_beta Let_def apsnd_def map_prod_def)
  with g a show "gov_Status (rn_gov (run_at (fst res) (snd res))) = (usage, halt)"
    "rn_Budget (run_at (fst res) (snd res)) = record_budget row"
    "g_budget (rn_gov (run_at (fst res) (snd res))) = record_budget row"
    "g_startedAt (rn_gov (run_at (fst res) (snd res))) = now"
    "snd res < length (m_heap (fst res))"
    by simp_all
qed

section \<open>What a crash leaves\<close>

lemma run_faults: "db_faults d = [] \<Longrightarrow> db_faults (final_state store_step d es) = []"
  by (induction es arbitrary: d) (simp_all add: store_step_faults del: store_step.simps)

lemma BeginStep_store:
  assumes "m_store m = Some d"
  shows "\<exists>es. m_store (fst (BeginStep a now m)) = Some (final_state store_step d es) \<and>
    list_all (\<lambda>e. \<not> saves_for k e) es"
proof (cases "snd (PreStep now (rn_gov (run_at m a)))")
  case (Some e)
  with assms have "m_store (fst (BeginStep a now m)) =
      Some (final_state store_step d [SUpsertRun (run_rec (run_at (touch a now (set_gov a
        (fst (PreStep now (rn_gov (run_at m a)))) m)) a))])"
    by (simp add: BeginStep_def case_prod_beta Let_def persistHalt_def persistRun_def touch_def
        set_gov_def del: store_step.simps)
  then show ?thesis by fastforce
next
  case None
  then obtain s r where "m_store (fst (BeginStep a now m)) =
      Some (final_state store_step d [SUpsertStep s, SUpsertRun r])"
    using assms by (simp add: BeginStep_def case_prod_beta Let_def persistStepStart_def persistRun_def
        set_gov_def del: store_step.simps)
  then show ?thesis by (intro exI [of _ "[SUpsertStep s, SUpsertRun r]"]) simp
qed

lemma BeginStep_checkpoints:
  assumes "m_store m = Some d" "m_store (fst (BeginStep a now m)) = Some d'"
  shows "checkpoints_of k d' = checkpoints_of k d"
  using BeginStep_store [OF assms(1), of a now k] assms(2) checkpoints_run by force

text \<open>A step that was admitted: the run's row is one loop ahead.\<close>

lemma BeginStep_admitted:
  assumes "a < length (m_heap m)" "snd (BeginStep a now m) = Inr idx"
  shows "rn_gov (run_at (fst (BeginStep a now m)) a) =
      (rn_gov (run_at m a))\<lparr>g_usage := (g_usage (rn_gov (run_at m a)))\<lparr>U_Loops := U_Loops (g_usage (rn_gov (run_at m a))) + 1\<rparr>\<rparr>"
    "g_halted (rn_gov (run_at m a)) = HaltNone"
proof -
  from assms have "snd (PreStep now (rn_gov (run_at m a))) = None"
    by (auto simp: BeginStep_def case_prod_beta Let_def split: option.splits)
  then have g: "fst (PreStep now (rn_gov (run_at m a))) =
      (rn_gov (run_at m a))\<lparr>g_usage := (g_usage (rn_gov (run_at m a)))\<lparr>U_Loops := U_Loops (g_usage (rn_gov (run_at m a))) + 1\<rparr>\<rparr>"
    and h: "g_halted (rn_gov (run_at m a)) = HaltNone"
    by (cases rule: PreStep_cases [of now "rn_gov (run_at m a)"]; simp)+
  from h show "g_halted (rn_gov (run_at m a)) = HaltNone" .
  have "run_at (fst (BeginStep a now m)) a = (run_at m a)\<lparr>rn_gov := fst (PreStep now (rn_gov (run_at m a))),
      rn_updatedAt := now, rn_curStepStarted := now\<rparr>"
    using \<open>snd (PreStep now (rn_gov (run_at m a))) = None\<close> assms(1)
    by (simp add: BeginStep_def case_prod_beta Let_def persistStepStart_def persistRun_def set_gov_def)
  with g show "rn_gov (run_at (fst (BeginStep a now m)) a) =
      (rn_gov (run_at m a))\<lparr>g_usage := (g_usage (rn_gov (run_at m a)))\<lparr>U_Loops := U_Loops (g_usage (rn_gov (run_at m a))) + 1\<rparr>\<rparr>"
    by simp
qed

lemma begun_mirrors:
  assumes "mirrors m" "get_run rid m = Some a" "snd (BeginStep a now m) = Inr idx"
  shows "mirrors (fst (BeginStep a now m))" "get_run rid (fst (BeginStep a now m)) = Some a"
proof -
  from mirrorsD [OF assms(1,2)] obtain d where
    "m_store m = Some d" "db_faults d = []" "a < length (m_heap m)" "storable (run_at m a)" by metis
  from BeginStep_effect [OF this(3,1,2,4)] have e: "run_effect a m (fst (BeginStep a now m))" .
  from effect_mirrors [OF assms(1,2) e] show "mirrors (fst (BeginStep a now m))" .
  from e assms(2) show "get_run rid (fst (BeginStep a now m)) = Some a"
    by (auto simp: run_effect_def get_run_def)
qed

lemma statusFor_terminal [simp]:
  "statusFor h = ''halted'' \<or> statusFor h = ''cancelled'' \<longleftrightarrow> h \<noteq> HaltNone"
  by (simp add: statusFor_def)

text \<open>What a restart makes of a live run that the store mirrors.\<close>

lemma restart_mirrored:
  fixes m :: manager and rid :: string and a :: addr and d :: db and now :: time and b :: budget
  assumes "mirrors m" "get_run rid m = Some a" "m_store m = Some d"
  defines "g \<equiv> rn_gov (run_at m a)"
  defines "g' \<equiv> rn_gov (run_at (fst (GetOrCreate rid now (restart b d))) (snd (GetOrCreate rid now (restart b d))))"
  shows "Halted g \<Longrightarrow> gov_Status g' = gov_Status g"
    "\<not> Halted g \<Longrightarrow> gov_Status g' = (case rev (checkpoints_of rid d) of [] \<Rightarrow> g_usage g
       | cp # _ \<Rightarrow> if CP_UsageLoops cp <s U_Loops (g_usage g) then checkpoint_usage cp else g_usage g, HaltNone)"
    "g_budget g' = g_budget g"
proof -
  from mirrorsD [OF assms(1,2)] assms(3) have f: "db_faults d = []"
    and l: "lookup RR_ID rid (db_runs d) = Some (run_rec (run_at m a))" and s: "storable (run_at m a)"
    by (metis option.inject)+
  note R = GetOrCreate_restart [OF f l, of now b]
  show "Halted g \<Longrightarrow> gov_Status g' = gov_Status g"
    using R(1) by (simp add: g_def g'_def Halted_def gov_Status_def)
  show "\<not> Halted g \<Longrightarrow> gov_Status g' = (case rev (checkpoints_of rid d) of [] \<Rightarrow> g_usage g
       | cp # _ \<Rightarrow> if CP_UsageLoops cp <s U_Loops (g_usage g) then checkpoint_usage cp else g_usage g, HaltNone)"
    using R(1) by (simp add: g_def g'_def Halted_def split: list.split)
  show "g_budget g' = g_budget g"
    using R(3) s by (simp add: g_def g'_def storable_def)
qed

section \<open>Properties of the run manager\<close>

text \<open>A run created under an unknown id, and what its callers then did.\<close>

lemma created_run:
  assumes "db_faults d = []" "lookup RR_ID rid (db_runs d) = None" "CO_ID opts = ''''"
    and "real_ok (B_Dollars (case CO_Budget opts of None \<Rightarrow> b | Some x \<Rightarrow> x))"
    and "list_all priced_call es"
  shows "mirrors (final_state run_step (fst (run_Create opts rid t0 (restart b d))) es)"
    "get_run rid (final_state run_step (fst (run_Create opts rid t0 (restart b d))) es) =
       Some (snd (run_Create opts rid t0 (restart b d)))"
proof -
  have m: "m_store (restart b d) = Some d" "get_run rid (restart b d) = None"
    "m_defaultBudget (restart b d) = b"
    by (simp_all add: restart_def WithStore_def NewManager_def get_run_def)
  note new = run_Create_new [where m = "restart b d" and now = t0,
      OF mirrors_restart [OF assms(1)] assms(3) _ m(1) assms(2) m(2)]
  have ok: "real_ok (B_Dollars (case CO_Budget opts of None \<Rightarrow> m_defaultBudget (restart b d) | Some x \<Rightarrow> x))"
    unfolding m by (rule assms(4))
  show "mirrors (final_state run_step (fst (run_Create opts rid t0 (restart b d))) es)"
    using new(1) [OF ok] assms(5) by (rule mirror.run_inv)
  show "get_run rid (final_state run_step (fst (run_Create opts rid t0 (restart b d))) es) =
       Some (snd (run_Create opts rid t0 (restart b d)))"
    using run_events_get [OF new(1) [OF ok] assms(5), of rid] new(2) [OF ok] by simp
qed

definition sample_create :: "budget \<Rightarrow> create_options" where
  "sample_create b = \<lparr>CO_ID = '''', CO_Name = ''agent'', CO_Budget = Some b, CO_PolicyRef = '''', CO_Metadata = []\<rparr>"

definition sample_call :: "int64 \<Rightarrow> int64 \<Rightarrow> float64 \<Rightarrow> call" where
  "sample_call p c d = \<lparr>CL_StepIndex = 1, CL_Provider = ''openai'', CL_Model = ''gpt-4o'',
     CL_PromptTokens = p, CL_CompletionTokens = c, CL_Dollars = d, CL_Priced = True, CL_ResponseID = ''''\<rparr>"

text \<open>
  C17. A run that is over stays over. When the store does not fail, a run that any sequence
  of calls has halted is, after the daemon is killed and restarted and its id is used
  again, restored with the same halt reason and the same usage under the same budget,
  instead of being handed a fresh run.
\<close>

theorem halted_run_survives_restart:
  assumes "db_faults d = []" "lookup RR_ID rid (db_runs d) = None" "CO_ID opts = ''''"
    and "real_ok (B_Dollars (case CO_Budget opts of None \<Rightarrow> b | Some x \<Rightarrow> x))"
    and "list_all priced_call es"
    and "Halted (rn_gov (run_at (final_state run_step (fst (run_Create opts rid t0 (restart b d))) es)
           (snd (run_Create opts rid t0 (restart b d)))))"
  shows "let (m, a) = run_Create opts rid t0 (restart b d); m' = final_state run_step m es;
      (m2, a2) = GetOrCreate rid t1 (restart b2 (case m_store m' of Some d' \<Rightarrow> d' | None \<Rightarrow> empty_db))
    in Halted (rn_gov (run_at m2 a2)) \<and> gov_Status (rn_gov (run_at m2 a2)) = gov_Status (rn_gov (run_at m' a)) \<and>
       g_budget (rn_gov (run_at m2 a2)) = g_budget (rn_gov (run_at m' a))"
proof -
  note c = created_run [OF assms(1-5), of t0]
  let ?m = "final_state run_step (fst (run_Create opts rid t0 (restart b d))) es"
  from mirrorsD [OF c] obtain d' where d': "m_store ?m = Some d'" by metis
  note R = restart_mirrored [OF c d', of t1 b2]
  from R(1) [OF assms(6)] R(3) assms(6) show ?thesis
    by (simp add: Let_def case_prod_beta d' Halted_def gov_Status_def)
qed

lemma halted_run_survives_restart_witness:
  "let (m, a) = run_Create (sample_create (token_cap 10)) ''r9'' 0 (restart (token_cap 0) empty_db);
       m' = final_state run_step m [RCancel ''r9'' 1];
      (m2, a2) = GetOrCreate ''r9'' 5 (restart (token_cap 3) (case m_store m' of Some d' \<Rightarrow> d' | None \<Rightarrow> empty_db))
    in Halted (rn_gov (run_at m2 a2)) \<and> gov_Status (rn_gov (run_at m2 a2)) = gov_Status (rn_gov (run_at m' a)) \<and>
       g_budget (rn_gov (run_at m2 a2)) = g_budget (rn_gov (run_at m' a))"
proof (rule halted_run_survives_restart)
  let ?m = "restart (token_cap 0) empty_db" and ?o = "sample_create (token_cap 10)"
  show "Halted (rn_gov (run_at (final_state run_step (fst (run_Create ?o ''r9'' 0 ?m)) [RCancel ''r9'' 1])
      (snd (run_Create ?o ''r9'' 0 ?m))))"
    by (simp add: run_Create_def sample_create_def alloc_run_def restart_def WithStore_def NewManager_def
        Let_def run_step_def get_run_def put_run_def persistRun_def store_write_def run_Cancel_def
        touch_def set_gov_def set_run_def run_at_def Halted_def gov_Cancel_def newRun_def gov_New_fresh)
qed (simp_all add: empty_db_def sample_create_def token_cap_def real_ok_def)

text \<open>
  A run in the middle of its life: the store mirrors it, it is live, and its loop count has
  not reached the end of the int32 range.
\<close>

definition live :: "manager \<Rightarrow> string \<Rightarrow> addr \<Rightarrow> db \<Rightarrow> bool" where
  "live m rid a d \<longleftrightarrow> mirrors m \<and> get_run rid m = Some a \<and> m_store m = Some d \<and>
     \<not> Halted (rn_gov (run_at m a)) \<and> 0 \<le> sint (U_Loops (g_usage (rn_gov (run_at m a)))) \<and>
     sint (U_Loops (g_usage (rn_gov (run_at m a)))) < 2 ^ 31 - 1"

lemma live_begin:
  assumes "live m rid a d" "snd (BeginStep a now m) = Inr idx"
    and "m_store (fst (BeginStep a now m)) = Some d'"
  defines "m' \<equiv> fst (BeginStep a now m)"
  shows "mirrors m'" "get_run rid m' = Some a" "\<not> Halted (rn_gov (run_at m' a))"
    "sint (U_Loops (g_usage (rn_gov (run_at m' a)))) = sint (U_Loops (g_usage (rn_gov (run_at m a)))) + 1"
    "g_usage (rn_gov (run_at m' a)) = (g_usage (rn_gov (run_at m a)))\<lparr>U_Loops := U_Loops (g_usage (rn_gov (run_at m a))) + 1\<rparr>"
    "checkpoints_of k d' = checkpoints_of k d"
proof -
  from assms(1) have l: "mirrors m" "get_run rid m = Some a" "m_store m = Some d"
    "sint (U_Loops (g_usage (rn_gov (run_at m a)))) < 2 ^ 31 - 1" by (simp_all add: live_def)
  from mirrorsD [OF l(1,2)] have len: "a < length (m_heap m)" by metis
  note b = BeginStep_admitted [OF len assms(2)]
  show "mirrors m'" "get_run rid m' = Some a" unfolding m'_def by (rule begun_mirrors [OF l(1,2) assms(2)])+
  show "\<not> Halted (rn_gov (run_at m' a))" using b by (simp add: m'_def Halted_def)
  show "g_usage (rn_gov (run_at m' a)) = (g_usage (rn_gov (run_at m a)))\<lparr>U_Loops := U_Loops (g_usage (rn_gov (run_at m a))) + 1\<rparr>"
    using b by (simp add: m'_def)
  then show "sint (U_Loops (g_usage (rn_gov (run_at m' a)))) = sint (U_Loops (g_usage (rn_gov (run_at m a)))) + 1"
    using sint_succ32 [OF l(4)] by simp
  show "checkpoints_of k d' = checkpoints_of k d" by (rule BeginStep_checkpoints [OF l(3) assms(3)])
qed

abbreviation restored_status :: "string \<Rightarrow> time \<Rightarrow> budget \<Rightarrow> db \<Rightarrow> usage \<times> halt_reason" where
  "restored_status rid now b d \<equiv>
     gov_Status (rn_gov (run_at (fst (GetOrCreate rid now (restart b d))) (snd (GetOrCreate rid now (restart b d)))))"

text \<open>A recorded call that does not halt the run leaves a checkpoint of the usage it reaches.\<close>

lemma RecordCall_checkpoint:
  fixes m :: manager and rid :: string and a :: addr and c :: call and now :: time and d' :: db
  assumes "mirrors m" "get_run rid m = Some a" "representable (CL_Dollars c)" "fle fzero (CL_Dollars c)"
  defines "m' \<equiv> fst (RecordCall a c now m)"
  shows "mirrors m'" "get_run rid m' = Some a"
    "rn_gov (run_at m' a) = fst (RecordUsage now (CL_PromptTokens c) (CL_CompletionTokens c) (CL_Dollars c) (rn_gov (run_at m a)))"
    "m_store m' = Some d' \<Longrightarrow>
       \<exists>cp cps. rev (checkpoints_of rid d') = cp # cps \<and> checkpoint_usage cp = g_usage (rn_gov (run_at m' a))"
proof -
  from mirrorsD [OF assms(1,2)] obtain d where M: "m_store m = Some d" "db_faults d = []"
    "a < length (m_heap m)" "rn_ID (run_at m a) = rid" "storable (run_at m a)"
    "lookup RR_ID rid (db_runs d) = Some (run_rec (run_at m a))" by metis
  have e: "run_effect a m m'" unfolding m'_def by (rule RecordCall_effect [OF M(3,1,2,5) assms(3,4)])
  from effect_mirrors [OF assms(1,2) e] show mm: "mirrors m'" .
  from e assms(2) show gm: "get_run rid m' = Some a" by (auto simp: run_effect_def get_run_def)
  let ?res = "RecordUsage now (CL_PromptTokens c) (CL_CompletionTokens c) (CL_Dollars c) (rn_gov (run_at m a))"
  let ?r = "(run_at m a)\<lparr>rn_gov := fst ?res, rn_updatedAt := now\<rparr>"
  let ?ws = "call_writes ?r c (snd ?res \<noteq> None) now"
  have f: "m' = fold store_write ?ws (set_run a ?r m)"
    using M(3) by (simp add: m'_def RecordCall_def case_prod_beta Let_def touch_def set_gov_def persistCall_def)
  note F = fold_store_write [of "set_run a ?r m" d ?ws]
  have heap: "run_at m' a = ?r" using F M(1,3) unfolding f by (simp add: run_at_def set_run_def)
  then show "rn_gov (run_at m' a) = fst ?res" by simp
  assume "m_store m' = Some d'"
  then have d': "d' = final_state store_step d ?ws" using F M(1) unfolding f by simp
  let ?cp = "checkpoint_rec rid (CL_StepIndex c) '''' (fst (gov_Status (rn_gov ?r))) [] now"
  let ?x = "final_state store_step d (take 3 ?ws)"
  have split: "?ws = take 3 ?ws @ [SSaveCheckpoint ?cp]" by (simp add: call_writes_def M(4))
  have "d' = fst (store_step ?x (SSaveCheckpoint ?cp))"
    unfolding d' by (subst split) (simp del: store_step.simps)
  moreover have "has_run ?x rid"
    using M(2,6) by (simp add: call_writes_def has_run_def is_key_lookup store_step_runs store_step_faults
        lookup_upsert [OF merges_keep_keys(1)] M(4) numeral_3_eq_3 split: option.split del: store_step.simps)
  moreover have "storable ?r"
    using assms(3,4) by (intro storable_step [OF M(5), of "ERecordUsage now (CL_PromptTokens c)
      (CL_CompletionTokens c) (CL_Dollars c)"]) simp_all
  then have "real_ok (U_Dollars (g_usage (fst ?res)))" using storable_rec by force
  ultimately have "checkpoints_of rid d' = checkpoints_of rid ?x @ [?cp]"
    using run_faults [OF M(2), of "take 3 ?ws"]
    by (simp add: SaveCheckpoint_def checkpoints_of_def checkpoint_rec_def gov_Status_def)
  moreover have "checkpoint_usage ?cp = g_usage (rn_gov (run_at m' a))"
    unfolding heap by (simp add: checkpoint_usage_def checkpoint_rec_def gov_Status_def)
  ultimately show "\<exists>cp cps. rev (checkpoints_of rid d') = cp # cps \<and> checkpoint_usage cp = g_usage (rn_gov (run_at m' a))"
    by simp
qed

text \<open>
  C23. A crash in the middle of a step charges nothing. For a live run that just recorded a
  call, if the daemon is killed after \<open>BeginStep\<close> counted the next step and before that
  step's call is recorded, the restarted daemon restores the run with exactly the usage it
  had before the step.
\<close>

theorem crash_mid_step_rolls_back:
  assumes "live m0 rid a d0" "representable (CL_Dollars c)" "fle fzero (CL_Dollars c)"
    and "RecordCall a c t1 m0 = (m, None)" "BeginStep a t2 m = (m', Inr idx)" "m_store m' = Some d'"
  shows "restored_status rid now' b d' = (g_usage (rn_gov (run_at m a)), HaltNone)"
proof -
  from assms(1) have l: "mirrors m0" "get_run rid m0 = Some a" by (simp_all add: live_def)
  note C = RecordCall_checkpoint [OF l assms(2,3), of t1, unfolded assms(4) fst_conv]
  from mirrorsD [OF C(1,2)] obtain d where d: "m_store m = Some d" and len: "a < length (m_heap m)" by metis
  from C(4) [OF d] obtain cp cps where cp: "rev (checkpoints_of rid d) = cp # cps"
    "checkpoint_usage cp = g_usage (rn_gov (run_at m a))" by blast
  have "U_Loops (g_usage (rn_gov (run_at m a))) = U_Loops (g_usage (rn_gov (run_at m0 a)))"
    unfolding C(3) by (simp add: RecordUsage_def add_usage_def)
  moreover have "\<not> Halted (rn_gov (run_at m a))"
    using BeginStep_admitted(2) [OF len, of t2 idx] assms(5) by (simp add: Halted_def)
  ultimately have "live m rid a d" using assms(1) C(1,2) d by (simp add: live_def)
  note L = live_begin [OF this, of t2 idx d', unfolded assms(5) fst_conv snd_conv, OF refl assms(6)]
  note R = restart_mirrored(2) [OF L(1,2) assms(6) L(3), of now' b]
  have "CP_UsageLoops cp = U_Loops (g_usage (rn_gov (run_at m a)))"
    unfolding cp(2) [symmetric] by (simp add: checkpoint_usage_def)
  then have "CP_UsageLoops cp <s U_Loops (g_usage (rn_gov (run_at m' a)))"
    using L(4) by (simp add: sless_sint)
  then show ?thesis using R L(6) cp by simp
qed

text \<open>
  A crash in the first step is charged. For a live run without any checkpoint, the same
  crash restores the run with the interrupted step still counted.
\<close>

theorem first_step_crash_is_charged:
  assumes "live m rid a d" "checkpoints_of rid d = []"
    and "snd (BeginStep a now m) = Inr idx" "m_store (fst (BeginStep a now m)) = Some d'"
  shows "restored_status rid now' b d' =
      ((g_usage (rn_gov (run_at m a)))\<lparr>U_Loops := U_Loops (g_usage (rn_gov (run_at m a))) + 1\<rparr>, HaltNone)"
proof -
  note L = live_begin [OF assms(1,3,4)]
  note R = restart_mirrored(2) [OF L(1,2) assms(4) L(3), of now' b]
  then show ?thesis using L(5,6) assms(2) by simp
qed

text \<open>The store after the first \<open>n\<close> of the four writes of a recorded call.\<close>

lemma crash_in_call_db:
  fixes d :: db and r r0 :: run_obj and row :: run_record and c :: call and n :: nat
    and halted :: bool and now :: time
  assumes "db_faults d = []" "has_run d (rn_ID r)" "lookup RR_ID (rn_ID r) (db_runs d) = Some row"
    and "storable r" "same_run r0 r" "row = run_rec r0" "fle fzero (CL_Dollars c)"
    and "1 \<le> n" "n \<le> 3"
  defines "d' \<equiv> final_state store_step d (take n (call_writes r c halted now))"
  shows "db_faults d' = []" "ledger_of (rn_ID r) d' = ledger_of (rn_ID r) d @ [call_entry r c now]"
    "checkpoints_of k d' = checkpoints_of k d"
    "lookup RR_ID (rn_ID r) (db_runs d') = Some (if n = 3 then run_rec r else row)"
proof -
  let ?e1 = "SAppendLedger (call_entry r c now)" and ?e2 = "SUpsertStep (call_step r c halted now)"
    and ?e3 = "SUpsertRun (run_rec r)"
  have n: "take n (call_writes r c halted now) = (if n = 1 then [?e1] else if n = 2 then [?e1, ?e2] else [?e1, ?e2, ?e3])"
    using assms(8,9) by (auto simp: call_writes_def take_Cons numeral_3_eq_3 split: nat.splits)
  show "db_faults d' = []" unfolding d'_def by (rule run_faults [OF assms(1)])
  show "checkpoints_of k d' = checkpoints_of k d"
    unfolding d'_def n by (intro checkpoints_run) simp
  have real: "real_ok (CL_Dollars c)" using fle_not_NaN [OF assms(7)] by (simp add: real_ok_def)
  have l1: "ledger_of (rn_ID r) (fst (store_step d ?e1)) = ledger_of (rn_ID r) d @ [call_entry r c now]"
    using assms(2) real unfolding store_step_ledger [OF assms(1)] by (simp add: call_entry_def)
  have keep: "ledger_of k (fst (store_step x ?e2)) = ledger_of k x" "ledger_of k (fst (store_step x ?e3)) = ledger_of k x"
    if "db_faults x = []" for k x
    using that by (simp_all add: store_step_ledger del: store_step.simps)
  show "ledger_of (rn_ID r) d' = ledger_of (rn_ID r) d @ [call_entry r c now]"
    unfolding d'_def n using l1 keep store_step_faults assms(1) by (simp del: store_step.simps)
  have rows: "db_runs (fst (store_step x ?e1)) = db_runs x" "db_runs (fst (store_step x ?e2)) = db_runs x"
    "db_runs (fst (store_step x ?e3)) = upsert RR_ID merge_run (run_rec r) (db_runs x)"
    if "db_faults x = []" for x
    using storable_rec [OF assms(4)]
    by (simp_all add: store_step_runs [OF that] del: store_step.simps)
  have "lookup RR_ID (rn_ID r) (upsert RR_ID merge_run (run_rec r) (db_runs d)) = Some (run_rec r)"
    using assms(3,5,6) merge_same_run [OF assms(5)] by (simp add: lookup_upsert [OF merges_keep_keys(1)])
  then show "lookup RR_ID (rn_ID r) (db_runs d') = Some (if n = 3 then run_rec r else row)"
    unfolding d'_def n using assms(3,8,9) rows store_step_faults assms(1) by (simp del: store_step.simps)
qed

text \<open>
  A crash inside \<open>RecordCall\<close> forgets a charge. For a live run in a step (its latest
  checkpoint is of an earlier loop), if the daemon is killed after one, two or three of the
  four writes with which a non-halting call is persisted, the cost ledger holds the call,
  but the restarted daemon restores the run with the usage of the checkpoint, which leaves
  the call out: the run can spend that much beyond its budget.
\<close>

theorem crash_in_record_call_forgets_charge:
  fixes m :: manager and rid :: string and a :: addr and d :: db and c :: call and g :: gov
    and n :: nat and now :: time
  assumes "live m rid a d" "rev (checkpoints_of rid d) = cp # cps"
    and "CP_UsageLoops cp <s U_Loops (g_usage (rn_gov (run_at m a)))"
    and "representable (CL_Dollars c)" "fle fzero (CL_Dollars c)"
    and "RecordUsage now (CL_PromptTokens c) (CL_CompletionTokens c) (CL_Dollars c) (rn_gov (run_at m a)) = (g, None)"
    and "1 \<le> n" "n \<le> 3"
  defines "r \<equiv> (run_at m a)\<lparr>rn_gov := g, rn_updatedAt := now\<rparr>"
  defines "d' \<equiv> final_state store_step d (take n (call_writes r c False now))"
  shows "ledger_of rid d' = ledger_of rid d @ [call_entry r c now] \<and>
    restored_status rid now' b d' = (checkpoint_usage cp, HaltNone)"
proof -
  from assms(1) have l: "mirrors m" "get_run rid m = Some a" "m_store m = Some d" by (simp_all add: live_def)
  from mirrorsD [OF l(1,2)] l(3) have M: "db_faults d = []" "rn_ID (run_at m a) = rid"
    "storable (run_at m a)" "lookup RR_ID rid (db_runs d) = Some (run_rec (run_at m a))"
    by (metis option.inject)+
  have id: "rn_ID r = rid" using M(2) by (simp add: r_def)
  have g: "g = fst (gov_step (rn_gov (run_at m a)) (ERecordUsage now (CL_PromptTokens c) (CL_CompletionTokens c) (CL_Dollars c)))"
    using assms(6) by simp
  have st: "storable r"
    using assms(4,5) g by (intro storable_step [OF M(3), of "ERecordUsage now (CL_PromptTokens c)
      (CL_CompletionTokens c) (CL_Dollars c)"]) (simp_all add: r_def)
  have same: "same_run (run_at m a) r" by (simp add: same_run_def r_def)
  have has: "has_run d (rn_ID r)" using M(4) by (simp add: has_run_def is_key_lookup id)
  note C = crash_in_call_db [OF M(1) has M(4) [folded id] st same refl assms(5,7,8), where halted = False and now = now,
      folded d'_def, unfolded id]
  have h: "g_halted g = HaltNone" "U_Loops (g_usage g) = U_Loops (g_usage (rn_gov (run_at m a)))"
    using assms(6) by (auto simp: RecordUsage_def checkLocked_def add_usage_def haltLocked_def Let_def split: if_splits)
  let ?row = "if n = 3 then run_rec r else run_rec (run_at m a)"
  have row: "RR_Status ?row = ''running''" "RR_UsageLoops ?row = U_Loops (g_usage (rn_gov (run_at m a)))"
    using assms(1) h by (auto simp: live_def Halted_def r_def statusFor_def)
  from GetOrCreate_restart(1) [OF C(1) C(4), of now' b]
  have "restored_status rid now' b d' = (checkpoint_usage cp, HaltNone)"
    using C(3) [of rid] assms(2,3) row by simp
  with C(2) show ?thesis by simp
qed

text \<open>
  A write that arrives late undoes a cancel. \<open>persistRun\<close> snapshots the run and writes
  the row in two steps; when the run is cancelled between them, the late write leaves the
  row as running, and a restarted daemon takes the cancelled run up again.
\<close>

theorem late_write_undoes_cancel:
  assumes "live m rid a d" "m_store (run_Cancel a now m) = Some d'"
  shows "Halted (rn_gov (run_at (run_Cancel a now m) a)) \<and>
    snd (restored_status rid now' b (fst (UpsertRun (run_rec (run_at m a)) d'))) = HaltNone"
proof -
  from assms(1) have l: "mirrors m" "get_run rid m = Some a" "m_store m = Some d" by (simp_all add: live_def)
  from mirrorsD [OF l(1,2)] l(3) have M: "db_faults d = []" "rn_ID (run_at m a) = rid"
    "storable (run_at m a)" "lookup RR_ID rid (db_runs d) = Some (run_rec (run_at m a))"
    "a < length (m_heap m)" by (metis option.inject)+
  let ?g = "gov_Cancel (rn_gov (run_at m a))"
  let ?r = "(run_at m a)\<lparr>rn_gov := ?g, rn_updatedAt := now\<rparr>"
  have at: "run_at (run_Cancel a now m) a = ?r"
    using M(5) by (simp add: run_Cancel_def touch_def set_gov_def persistRun_def)
  have e: "run_effect a m (run_Cancel a now m)" by (rule run_Cancel_effect [OF M(5) l(3) M(1,3)])
  from effect_mirrors [OF l(1,2) e] have "mirrors (run_Cancel a now m)" .
  moreover have "get_run rid (run_Cancel a now m) = Some a"
    using e l(2) by (auto simp: run_effect_def get_run_def)
  ultimately obtain f: "db_faults d' = []" "lookup RR_ID rid (db_runs d') = Some (run_rec ?r)"
    using assms(2) at by (metis mirrorsD option.inject)
  let ?e = "SUpsertRun (run_rec (run_at m a))"
  have rows: "db_runs (fst (store_step d' ?e)) = upsert RR_ID merge_run (run_rec (run_at m a)) (db_runs d')"
    using store_step_runs [OF f(1), of ?e] storable_rec [OF M(3)] by simp
  have same: "same_run ?r (run_at m a)" by (simp add: same_run_def)
  have l': "lookup RR_ID rid (db_runs (fst (store_step d' ?e))) = Some (run_rec (run_at m a))"
    unfolding rows using f(2) M(2) merge_same_run [OF same] by (simp add: lookup_upsert [OF merges_keep_keys(1)])
  have "statusFor (g_halted (rn_gov (run_at m a))) = ''running''"
    using assms(1) by (simp add: live_def Halted_def statusFor_def)
  with GetOrCreate_restart(1) [OF store_step_faults [OF f(1)] l', of now' b]
  have "snd (restored_status rid now' b (fst (UpsertRun (run_rec (run_at m a)) d'))) = HaltNone" by simp
  moreover have "Halted (rn_gov (run_at (run_Cancel a now m) a))"
    using assms(1) by (simp add: at gov_Cancel_def live_def Halted_def)
  ultimately show ?thesis by blast
qed

lemma publish_run_registers: "get_run rid (fst (publish_run rid x now m)) = Some (snd (publish_run rid x now m))"
proof -
  have s: "get_run k (store_write e m) = get_run k m" for k e m by (simp add: get_run_def)
  have c: "get_run k (run_Close b m) = get_run k m" for k b m by (simp add: run_Close_def set_gov_def get_run_def)
  show ?thesis
    by (auto simp: publish_run_def s c Let_def case_prod_beta persistRun_def split: option.split)
qed

lemma publish_run_present: "get_run rid m = Some a \<Longrightarrow> snd (publish_run rid x now m) = a"
  by (simp add: publish_run_def split: option.split)

text \<open>
  Racing first calls share one run. When two callers of \<open>GetOrCreate\<close> both find the id
  missing and both look in the store before either takes the write lock, the two critical
  sections that follow return the same run, and it is the one registered under the id.
\<close>

theorem racing_first_calls_share_a_run:
  "let (m1, x1) = restoreFromStore rid t1 m; (m2, x2) = restoreFromStore rid t2 m1;
       (m3, a1) = publish_run rid x1 t3 m2; (m4, a2) = publish_run rid x2 t4 m3
   in a2 = a1 \<and> get_run rid m4 = Some a1"
  using publish_run_registers publish_run_present by (simp add: Let_def case_prod_beta)

text \<open>A live run to apply the crash properties to: created, one call recorded, one step begun.\<close>

definition sample_manager :: manager where
  "sample_manager = fst (run_Create (sample_create (token_cap 100)) ''r9'' 0 (restart (token_cap 0) empty_db))"

definition sample_called :: manager where
  "sample_called = fst (RecordCall 0 (sample_call 7 6 (Fin 2)) 1 sample_manager)"

definition sample_begun :: manager where
  "sample_begun = fst (BeginStep 0 2 sample_called)"

lemma sample_manager_run:
  "run_at sample_manager 0 = newRun ''r9'' ''agent'' (token_cap 100) [] 0"
  "get_run ''r9'' sample_manager = Some 0" "mirrors sample_manager"
  "m_store sample_manager = Some (empty_db\<lparr>db_runs := [run_rec (newRun ''r9'' ''agent'' (token_cap 100) [] 0)]\<rparr>)"
proof -
  have a: "snd (run_Create (sample_create (token_cap 100)) ''r9'' 0 (restart (token_cap 0) empty_db)) = 0"
    by (simp add: run_Create_def alloc_run_def restart_def WithStore_def NewManager_def Let_def)
  have m: "m_store (restart (token_cap 0) empty_db) = Some empty_db" "get_run ''r9'' (restart (token_cap 0) empty_db) = None"
    by (simp_all add: restart_def WithStore_def NewManager_def get_run_def)
  note new = run_Create_new [where m = "restart (token_cap 0) empty_db" and now = 0 and newID = "''r9''"
      and opts = "sample_create (token_cap 100)", OF mirrors_restart _ _ m(1) _ m(2)]
  show "run_at sample_manager 0 = newRun ''r9'' ''agent'' (token_cap 100) [] 0"
    "get_run ''r9'' sample_manager = Some 0" "mirrors sample_manager"
    using new a by (simp_all add: sample_manager_def empty_db_def sample_create_def token_cap_def real_ok_def newRun_def)
  show "m_store sample_manager = Some (empty_db\<lparr>db_runs := [run_rec (newRun ''r9'' ''agent'' (token_cap 100) [] 0)]\<rparr>)"
    by (simp add: sample_manager_def run_Create_def alloc_run_def restart_def WithStore_def NewManager_def Let_def
        sample_create_def persistRun_def store_write_def put_run_def run_at_def UpsertRun_def empty_db_def
        real_ok_def token_cap_def newRun_def run_rec_def run_View_def gov_Status_def gov_New_fresh write_defs zero_usage_def)
qed

lemma sample_live: "live sample_manager ''r9'' 0 (empty_db\<lparr>db_runs := [run_rec (newRun ''r9'' ''agent'' (token_cap 100) [] 0)]\<rparr>)"
  using sample_manager_run by (simp add: live_def newRun_def gov_New_fresh Halted_def zero_usage_def)

lemma sample_called_run:
  "mirrors sample_called" "get_run ''r9'' sample_called = Some 0"
  "snd (RecordCall 0 (sample_call 7 6 (Fin 2)) 1 sample_manager) = None"
  "g_usage (rn_gov (run_at sample_called 0)) = \<lparr>U_PromptTokens = 7, U_CompletionTokens = 6, U_Dollars = Fin 2, U_Loops = 0\<rparr>"
  "g_halted (rn_gov (run_at sample_called 0)) = HaltNone" "g_budget (rn_gov (run_at sample_called 0)) = token_cap 100"
  "g_startedAt (rn_gov (run_at sample_called 0)) = 0"
proof -
  note S = sample_manager_run
  have r: "representable (CL_Dollars (sample_call 7 6 (Fin 2)))" "fle fzero (CL_Dollars (sample_call 7 6 (Fin 2)))"
    by (simp_all add: sample_call_def)
  note C = RecordCall_checkpoint [OF S(3,2) r, of 1, folded sample_called_def]
  show "mirrors sample_called" "get_run ''r9'' sample_called = Some 0" by (rule C)+
  have e: "RecordUsage 1 7 6 (Fin 2) (rn_gov (run_at sample_manager 0)) =
      ((rn_gov (run_at sample_manager 0))\<lparr>g_usage := \<lparr>U_PromptTokens = 7, U_CompletionTokens = 6, U_Dollars = Fin 2, U_Loops = 0\<rparr>\<rparr>, None)"
    by (simp add: S newRun_def RecordUsage_def checkLocked_def gov_New_fresh add_usage_def zero_usage_def
        expiredLocked_def token_cap_def Tokens_def)
  then show "snd (RecordCall 0 (sample_call 7 6 (Fin 2)) 1 sample_manager) = None"
    by (simp add: RecordCall_def sample_call_def)
  show "g_usage (rn_gov (run_at sample_called 0)) = \<lparr>U_PromptTokens = 7, U_CompletionTokens = 6, U_Dollars = Fin 2, U_Loops = 0\<rparr>"
    "g_halted (rn_gov (run_at sample_called 0)) = HaltNone" "g_budget (rn_gov (run_at sample_called 0)) = token_cap 100"
    "g_startedAt (rn_gov (run_at sample_called 0)) = 0"
    using C(3) e by (simp_all add: sample_call_def S newRun_def gov_New_fresh)
qed

lemma sample_step:
  "snd (BeginStep 0 1 sample_manager) = Inr 1" "snd (BeginStep 0 2 sample_called) = Inr 1"
  by (simp_all add: BeginStep_def PreStep_def sample_manager_run sample_called_run newRun_def gov_New_fresh
      expiredLocked_def token_cap_def zero_usage_def gov_Status_def Let_def)
lemma sample_live_called:
  "m_store sample_called = Some d \<Longrightarrow> live sample_called ''r9'' 0 d"
  using sample_called_run by (simp add: live_def Halted_def)

lemma first_step_crash_is_charged_witness:
  "map_option (restored_status ''r9'' 5 (token_cap 3)) (m_store (fst (BeginStep 0 1 sample_manager))) =
     Some (zero_usage\<lparr>U_Loops := 1\<rparr>, HaltNone)"
proof -
  obtain d' where d': "m_store (fst (BeginStep 0 1 sample_manager)) = Some d'"
    using BeginStep_store [OF sample_manager_run(4)] by blast
  from first_step_crash_is_charged [OF sample_live _ sample_step(1) d', of 5 "token_cap 3"] d'
  show ?thesis by (simp add: checkpoints_of_def empty_db_def sample_manager_run newRun_def gov_New_fresh zero_usage_def)
qed

lemma crash_mid_step_rolls_back_witness:
  "map_option (restored_status ''r9'' 5 (token_cap 3)) (m_store (fst (BeginStep 0 2 sample_called))) =
     Some (\<lparr>U_PromptTokens = 7, U_CompletionTokens = 6, U_Dollars = Fin 2, U_Loops = 0\<rparr>, HaltNone)"
proof -
  have c: "RecordCall 0 (sample_call 7 6 (Fin 2)) 1 sample_manager = (sample_called, None)"
    using sample_called_run(3) by (simp add: sample_called_def prod_eq_iff)
  have b: "BeginStep 0 2 sample_called = (fst (BeginStep 0 2 sample_called), Inr 1)"
    using sample_step(2) by (simp add: prod_eq_iff)
  obtain d where d: "m_store sample_called = Some d" using sample_called_run(1) by (auto simp: mirrors_def)
  obtain d' where d': "m_store (fst (BeginStep 0 2 sample_called)) = Some d'"
    using BeginStep_store [OF d] by blast
  from crash_mid_step_rolls_back [OF sample_live _ _ c b d', of 5 "token_cap 3"] d'
  show ?thesis by (simp add: sample_call_def sample_called_run)
qed

lemma crash_in_record_call_forgets_charge_witness:
  "\<exists>d c g. let r = (run_at sample_begun 0)\<lparr>rn_gov := g, rn_updatedAt := 3\<rparr>;
      d' = final_state store_step d (take 1 (call_writes r c False 3))
    in ledger_of ''r9'' d' = ledger_of ''r9'' d @ [call_entry r c 3] \<and>
       restored_status ''r9'' 5 (token_cap 3) d' =
         (\<lparr>U_PromptTokens = 7, U_CompletionTokens = 6, U_Dollars = Fin 2, U_Loops = 0\<rparr>, HaltNone)"
proof -
  note S = sample_called_run
  obtain d1 where d1: "m_store sample_called = Some d1" using S(1) by (auto simp: mirrors_def)
  obtain d where d: "m_store sample_begun = Some d"
    unfolding sample_begun_def using BeginStep_store [OF d1] by blast
  note L = live_begin [OF sample_live_called [OF d1] sample_step(2) d [unfolded sample_begun_def], folded sample_begun_def]
  have r: "representable (CL_Dollars (sample_call 7 6 (Fin 2)))" "fle fzero (CL_Dollars (sample_call 7 6 (Fin 2)))"
    by (simp_all add: sample_call_def)
  from RecordCall_checkpoint(4) [OF sample_manager_run(3,2) r, of 1, folded sample_called_def, OF d1]
  obtain cp cps where cp: "rev (checkpoints_of ''r9'' d1) = cp # cps" "checkpoint_usage cp = g_usage (rn_gov (run_at sample_called 0))"
    by blast
  have len: "0 < length (m_heap sample_called)" by (rule mirrorsD [OF S(1,2)]) simp
  have g: "rn_gov (run_at sample_begun 0) = (rn_gov (run_at sample_called 0))\<lparr>g_usage :=
      \<lparr>U_PromptTokens = 7, U_CompletionTokens = 6, U_Dollars = Fin 2, U_Loops = 1\<rparr>\<rparr>"
    unfolding sample_begun_def using BeginStep_admitted(1) [OF len sample_step(2)] S(4) by simp
  have live: "live sample_begun ''r9'' 0 d" using L(1-4) d g by (simp add: live_def)
  have loops: "CP_UsageLoops cp = 0" using cp(2) S(4) by (simp add: checkpoint_usage_def)
  let ?g = "(rn_gov (run_at sample_begun 0))\<lparr>g_usage :=
      \<lparr>U_PromptTokens = 14, U_CompletionTokens = 12, U_Dollars = fadd (Fin 2) (Fin 2), U_Loops = 1\<rparr>\<rparr>"
  have u: "RecordUsage 3 7 6 (Fin 2) (rn_gov (run_at sample_begun 0)) = (?g, None)"
    by (simp add: g S RecordUsage_def checkLocked_def add_usage_def expiredLocked_def token_cap_def Tokens_def)
  have z: "(0 :: int32) <s 1" by (simp add: sless_sint)
  from crash_in_record_call_forgets_charge [OF live _ _ r, of cp cps 3 ?g 1 5 "token_cap 3"] cp L(6) loops g u z
  show ?thesis
    by (intro exI [of _ d] exI [of _ "sample_call 7 6 (Fin 2)"] exI [of _ ?g])
       (simp add: Let_def S sample_call_def)
qed

lemma late_write_undoes_cancel_witness:
  "map_option (\<lambda>d. snd (restored_status ''r9'' 5 (token_cap 3) (fst (UpsertRun (run_rec (run_at sample_manager 0)) d))))
     (m_store (run_Cancel 0 1 sample_manager)) = Some HaltNone"
proof -
  obtain d where d: "m_store (run_Cancel 0 1 sample_manager) = Some d"
    by (simp add: run_Cancel_def persistRun_def touch_def set_gov_def sample_manager_run store_write_def)
  from late_write_undoes_cancel [OF sample_live d, of 5 "token_cap 3"] d show ?thesis by simp
qed

end
