(* ===== verification/RunsLife.thy ===== *)
theory RunsLife
  imports RunsLaws
begin

text \<open>
  The life of a run manager with many runs (\<open>internal/runs/manager.go\<close>): runs created and
  looked up, restored from their rows, driven, saved at checkpoints, and the daemon restarted
  with a reload, in any order and on any runs. A step relation's reachable managers; in each of
  them every live run's row is the snapshot of that run.
\<close>

section \<open>Rows and checkpoints the manager writes\<close>

definition row_sound :: "run_record \<Rightarrow> bool" where
  "row_sound row \<longleftrightarrow> real_ok (RR_BudgetDollars row) \<and> representable (RR_UsageDollars row) \<and>
     fle fzero (RR_UsageDollars row) \<and> RR_Status row = statusFor (RR_HaltReason row)"

definition cp_sound :: "checkpoint_record \<Rightarrow> bool" where
  "cp_sound cp \<longleftrightarrow> representable (CP_UsageDollars cp) \<and> fle fzero (CP_UsageDollars cp)"

definition rows_sound :: "db \<Rightarrow> bool" where
  "rows_sound d \<longleftrightarrow> distinct (map RR_ID (db_runs d)) \<and> list_all row_sound (db_runs d) \<and>
     list_all cp_sound (db_checkpoints d)"

fun sound_write :: "store_event \<Rightarrow> bool" where
  "sound_write (SUpsertRun r) = row_sound r"
| "sound_write (SSaveCheckpoint c) = cp_sound c"
| "sound_write _ = True"

lemma row_sound_merge: "row_sound r \<Longrightarrow> row_sound (merge_run old r)"
  by (simp add: row_sound_def merge_run_def)

lemma rows_sound_step:
  assumes "rows_sound d" "sound_write e"
  shows "rows_sound (fst (store_step d e))"
  using assms
  by (cases e; simp only: store_step.simps write_defs; elim statement_keeps)
    (simp_all add: rows_sound_def distinct_upsert merges_keep_keys list_all_upsert row_sound_merge)

interpretation rows: invariant_machine store_step rows_sound sound_write
  by unfold_locales (rule rows_sound_step)

lemma run_rec_sound: "storable r \<Longrightarrow> row_sound (run_rec r)"
  by (simp add: storable_def row_sound_def dollars_sound_def)

lemma checkpoint_sound: "storable r \<Longrightarrow> cp_sound (checkpoint_rec rid step name (fst (gov_Status (rn_gov r))) payload now)"
  by (simp add: storable_def cp_sound_def dollars_sound_def checkpoint_rec_def gov_Status_def)

section \<open>What the methods write\<close>

lemma effect_run_at: "a < length (m_heap m) \<Longrightarrow> run_effect a m m' \<Longrightarrow> storable (run_at m' a)"
  by (auto simp: run_effect_def run_at_def)

lemma persistRun_writes:
  "m_store m = Some d \<Longrightarrow> m_store (persistRun a m) = Some (final_state store_step d [SUpsertRun (run_rec (run_at (persistRun a m) a))])"
  by (simp add: persistRun_def del: store_step.simps)

lemma BeginStep_writes:
  assumes "m_store m = Some d"
  shows "\<exists>es. m_store (fst (BeginStep a now m)) = Some (final_state store_step d es) \<and>
    (storable (run_at (fst (BeginStep a now m)) a) \<longrightarrow> list_all sound_write es)"
proof (cases "snd (PreStep now (rn_gov (run_at m a)))")
  case (Some e)
  let ?m = "touch a now (set_gov a (fst (PreStep now (rn_gov (run_at m a)))) m)"
  have "fst (BeginStep a now m) = persistRun a ?m"
    using Some by (simp add: BeginStep_def case_prod_beta Let_def persistHalt_def)
  moreover have "m_store ?m = Some d" using assms by (simp add: touch_def set_gov_def)
  ultimately show ?thesis using persistRun_writes [of ?m d a]
    by (intro exI [of _ "[SUpsertRun (run_rec (run_at (fst (BeginStep a now m)) a))]"]) (simp add: run_rec_sound del: store_step.simps)
next
  case None
  let ?g = "fst (PreStep now (rn_gov (run_at m a)))"
  let ?m = "set_run a ((run_at (set_gov a ?g m) a)\<lparr>rn_updatedAt := now, rn_curStepStarted := now\<rparr>) (set_gov a ?g m)"
  let ?s = "\<lparr>SR_RunID = rn_ID (run_at ?m a), SR_Index = U_Loops (fst (gov_Status ?g)), SR_Status = ''running'', SR_PromptTokens = 0,
        SR_CompletionTokens = 0, SR_Dollars = fzero, SR_StartedAt = now, SR_EndedAt = None\<rparr>"
  have "fst (BeginStep a now m) = persistRun a (store_write (SUpsertStep ?s) ?m)"
    using None by (simp add: BeginStep_def case_prod_beta Let_def persistStepStart_def)
  moreover have "m_store (store_write (SUpsertStep ?s) ?m) = Some (fst (store_step d (SUpsertStep ?s)))"
    using assms by (simp add: set_gov_def del: store_step.simps)
  ultimately show ?thesis
    using persistRun_writes [of "store_write (SUpsertStep ?s) ?m" "fst (store_step d (SUpsertStep ?s))" a]
    by (intro exI [of _ "[SUpsertStep ?s, SUpsertRun (run_rec (run_at (fst (BeginStep a now m)) a))]"])
      (simp add: run_rec_sound del: store_step.simps)
qed

lemma run_CanProceed_writes:
  assumes "m_store m = Some d"
  shows "\<exists>es. m_store (fst (run_CanProceed a now m)) = Some (final_state store_step d es) \<and>
    (storable (run_at (fst (run_CanProceed a now m)) a) \<longrightarrow> list_all sound_write es)"
proof (cases "snd (CanProceed now (rn_gov (run_at m a)))")
  case (Some e)
  let ?m = "touch a now (set_gov a (fst (CanProceed now (rn_gov (run_at m a)))) m)"
  have "fst (run_CanProceed a now m) = persistRun a ?m"
    using Some by (simp add: run_CanProceed_def case_prod_beta Let_def persistHalt_def)
  moreover have "m_store ?m = Some d" using assms by (simp add: touch_def set_gov_def)
  ultimately show ?thesis using persistRun_writes [of ?m d a]
    by (intro exI [of _ "[SUpsertRun (run_rec (run_at (fst (run_CanProceed a now m)) a))]"]) (simp add: run_rec_sound del: store_step.simps)
next
  case None
  with assms show ?thesis
    by (intro exI [of _ "[]"]) (simp add: run_CanProceed_def case_prod_beta Let_def set_gov_def)
qed

lemma RecordCall_writes:
  assumes "m_store m = Some d"
  shows "\<exists>es. m_store (fst (RecordCall a c now m)) = Some (final_state store_step d es) \<and>
    (storable (run_at (fst (RecordCall a c now m)) a) \<longrightarrow> list_all sound_write es)"
proof -
  let ?res = "RecordUsage now (CL_PromptTokens c) (CL_CompletionTokens c) (CL_Dollars c) (rn_gov (run_at m a))"
  let ?m = "touch a now (set_gov a (fst ?res) m)"
  let ?es = "call_writes (run_at ?m a) c (snd ?res \<noteq> None) now"
  have e: "fst (RecordCall a c now m) = fold store_write ?es ?m"
    by (simp add: RecordCall_def case_prod_beta Let_def persistCall_def)
  have "m_store ?m = Some d" using assms by (simp add: touch_def set_gov_def)
  note f = fold_store_write [OF this, of ?es]
  then have "run_at (fst (RecordCall a c now m)) a = run_at ?m a" unfolding e by (simp add: run_at_def)
  with f show ?thesis unfolding e
    by (intro exI [of _ ?es]) (simp add: call_writes_def run_rec_sound checkpoint_sound)
qed

lemma run_Cancel_writes:
  assumes "m_store m = Some d"
  shows "\<exists>es. m_store (run_Cancel a now m) = Some (final_state store_step d es) \<and>
    (storable (run_at (run_Cancel a now m) a) \<longrightarrow> list_all sound_write es)"
proof -
  let ?m = "touch a now (set_gov a (gov_Cancel (rn_gov (run_at m a))) m)"
  have "m_store ?m = Some d" using assms by (simp add: touch_def set_gov_def)
  from persistRun_writes [OF this, of a] show ?thesis
    by (intro exI [of _ "[SUpsertRun (run_rec (run_at (run_Cancel a now m) a))]"])
      (simp add: run_Cancel_def run_rec_sound del: store_step.simps)
qed

lemma on_run_writes:
  assumes "m_store m = Some d"
  shows "\<exists>es. m_store (fst (on_run a e m)) = Some (final_state store_step d es) \<and>
    (storable (run_at (fst (on_run a e m)) a) \<longrightarrow> list_all sound_write es)"
  by (cases e) (simp_all add: BeginStep_writes [OF assms] run_CanProceed_writes [OF assms] RecordCall_writes [OF assms]
      run_Cancel_writes [OF assms])

section \<open>Managers whose store holds what they wrote\<close>

definition kept :: "manager \<Rightarrow> bool" where
  "kept m \<longleftrightarrow> mirrors m \<and> (\<exists>d. m_store m = Some d \<and> rows_sound d) \<and> real_ok (B_Dollars (m_defaultBudget m))"

lemma keptE:
  assumes "kept m"
  obtains d where "m_store m = Some d" "rows_sound d" "db_faults d = []" "mirrors m"
    "real_ok (B_Dollars (m_defaultBudget m))"
  using assms by (auto simp: kept_def mirrors_def)

text \<open>A run added at a new address under an id that was not live, and its row.\<close>

definition publishes :: "run_obj \<Rightarrow> manager \<Rightarrow> manager \<Rightarrow> bool" where
  "publishes r m m' \<longleftrightarrow> (\<exists>d d' es. m_store m = Some d \<and> m_store m' = Some d' \<and>
     d' = final_state store_step d es \<and> list_all sound_write es \<and>
     m_heap m' = m_heap m @ [r] \<and> m_defaultBudget m' = m_defaultBudget m \<and> storable r \<and>
     (\<forall>k. get_run k m' = (if k = rn_ID r then Some (length (m_heap m)) else get_run k m)) \<and>
     lookup RR_ID (rn_ID r) (db_runs d') = Some (run_rec r) \<and>
     (\<forall>k. k \<noteq> rn_ID r \<longrightarrow> lookup RR_ID k (db_runs d') = lookup RR_ID k (db_runs d)))"

lemma publishes_kept:
  assumes "kept m" "publishes r m m'"
  shows "kept m'"
proof -
  from assms(1) obtain d where d: "m_store m = Some d" "rows_sound d" "db_faults d = []" "mirrors m"
    "real_ok (B_Dollars (m_defaultBudget m))" by (rule keptE)
  from assms(2) d(1) obtain d' es where p: "m_store m' = Some d'" "d' = final_state store_step d es"
    "list_all sound_write es" "m_heap m' = m_heap m @ [r]" "m_defaultBudget m' = m_defaultBudget m" "storable r"
    "\<And>k. get_run k m' = (if k = rn_ID r then Some (length (m_heap m)) else get_run k m)"
    "lookup RR_ID (rn_ID r) (db_runs d') = Some (run_rec r)"
    "\<And>k. k \<noteq> rn_ID r \<Longrightarrow> lookup RR_ID k (db_runs d') = lookup RR_ID k (db_runs d)"
    by (auto simp: publishes_def)
  have f: "db_faults d' = []" unfolding p(2) by (rule run_faults) (rule d(3))
  have "b < length (m_heap m') \<and> rn_ID (run_at m' b) = k \<and> storable (run_at m' b) \<and>
      lookup RR_ID k (db_runs d') = Some (run_rec (run_at m' b))" if "get_run k m' = Some b" for k b
  proof (cases "k = rn_ID r")
    case True
    with that p(4,6-8) show ?thesis by (auto simp: run_at_def)
  next
    case False
    with that p(7) have k: "get_run k m = Some b" by simp
    from mirrorsD [OF d(4) k] d(1) have "b < length (m_heap m)" "rn_ID (run_at m b) = k" "storable (run_at m b)"
      "lookup RR_ID k (db_runs d) = Some (run_rec (run_at m b))" by (metis option.inject)+
    with False p(4,9) show ?thesis by (simp add: run_at_def nth_append)
  qed
  with p(1) f have "mirrors m'" by (auto simp: mirrors_def)
  moreover have "rows_sound d'" unfolding p(2) using d(2) p(3) by (rule rows.run_inv)
  ultimately show ?thesis using p(1,5) d(5) by (simp add: kept_def)
qed

text \<open>An operation on the live run at \<open>a\<close>.\<close>

lemma effect_kept:
  assumes "kept m" "get_run rid m = Some a" "run_effect a m m'" "m_defaultBudget m' = m_defaultBudget m"
    and "\<And>d. m_store m = Some d \<Longrightarrow> \<exists>es. m_store m' = Some (final_state store_step d es) \<and>
      (storable (run_at m' a) \<longrightarrow> list_all sound_write es)"
  shows "kept m'"
proof -
  from assms(1) obtain d where d: "m_store m = Some d" "rows_sound d" "db_faults d = []" "mirrors m"
    "real_ok (B_Dollars (m_defaultBudget m))" by (rule keptE)
  from mirrorsD [OF d(4) assms(2)] have "a < length (m_heap m)" by metis
  from effect_run_at [OF this assms(3)] assms(5) [OF d(1)] obtain es where
    "m_store m' = Some (final_state store_step d es)" "list_all sound_write es" by blast
  with effect_mirrors [OF d(4) assms(2,3)] rows.run_inv [OF d(2)] d(5) assms(4) show ?thesis
    by (auto simp: kept_def)
qed

lemma on_run_default [simp]: "m_defaultBudget (fst (on_run a e m)) = m_defaultBudget m"
  by (cases e) (auto simp: BeginStep_def run_CanProceed_def RecordCall_def run_Cancel_def case_prod_beta Let_def
      persistHalt_def persistRun_def persistStepStart_def touch_def set_gov_def persistCall_def call_writes_def
      split: option.split)

lemma run_step_kept:
  assumes "kept m" "priced_call e"
  shows "kept (fst (run_step m e))"
proof (cases "get_run (event_run e) m")
  case None
  with assms(1) show ?thesis by (simp add: run_step_def)
next
  case (Some a)
  from assms(1) have "mirrors m" by (simp add: kept_def)
  from effect_kept [OF assms(1) Some on_run_effect [OF this Some assms(2)]] on_run_writes show ?thesis
    by (simp add: run_step_def Some)
qed

text \<open>Writes of the rest of the program: any but a run's row and a checkpoint.\<close>

fun foreign_write :: "store_event \<Rightarrow> bool" where
  "foreign_write (SUpsertRun r) = False"
| "foreign_write (SSaveCheckpoint c) = False"
| "foreign_write _ = True"

lemma same_rows_kept:
  assumes "kept m" "m_store m = Some d" "db_runs (fst (store_step d e)) = db_runs d" "sound_write e"
  shows "kept (m\<lparr>m_store := Some (fst (store_step d e))\<rparr>)"
proof -
  from assms(1,2) have d: "rows_sound d" "db_faults d = []" "mirrors m" "real_ok (B_Dollars (m_defaultBudget m))"
    by (auto elim: keptE)
  from d(3) assms(2,3) store_step_faults [OF d(2), of e] have "mirrors (m\<lparr>m_store := Some (fst (store_step d e))\<rparr>)"
    by (simp add: mirrors_def get_run_def run_at_def del: store_step.simps)
  with rows_sound_step [OF d(1) assms(4)] d(4) show ?thesis by (simp add: kept_def del: store_step.simps)
qed

lemma foreign_kept:
  assumes "kept m" "foreign_write e"
  shows "kept (store_write e m)"
proof -
  from assms(1) obtain d where d: "m_store m = Some d" "db_faults d = []" by (rule keptE)
  have "db_runs (fst (store_step d e)) = db_runs d" "sound_write e"
    using assms(2) store_step_runs [OF d(2), of e] by (cases e; simp del: store_step.simps)+
  from same_rows_kept [OF assms(1) d(1) this] show ?thesis by (simp add: store_write_def d(1) del: store_step.simps)
qed

lemma run_Checkpoint_kept:
  assumes "kept m"
  shows "kept (fst (run_Checkpoint rid name payload now m))"
proof (cases "get_run rid m")
  case None
  with assms show ?thesis by (simp add: run_Checkpoint_def)
next
  case (Some a)
  from assms obtain d where d: "m_store m = Some d" "db_faults d = []" "mirrors m" by (rule keptE)
  let ?e = "SSaveCheckpoint (checkpoint_rec rid (U_Loops (fst (gov_Status (rn_gov (run_at m a))))) name
    (fst (gov_Status (rn_gov (run_at m a)))) payload now)"
  from mirrorsD [OF d(3) Some] have "storable (run_at m a)" by metis
  then have "sound_write ?e" by (simp add: checkpoint_sound)
  moreover have "db_runs (fst (store_step d ?e)) = db_runs d" using store_step_runs [OF d(2), of ?e] by simp
  ultimately have "kept (m\<lparr>m_store := Some (fst (store_step d ?e))\<rparr>)" using same_rows_kept [OF assms d(1)] by blast
  moreover have "fst (run_Checkpoint rid name payload now m) = m\<lparr>m_store := Some (fst (store_step d ?e))\<rparr>"
    by (simp add: run_Checkpoint_def Some d(1) Let_def case_prod_beta)
  ultimately show ?thesis by simp
qed

section \<open>Creating and restoring among other runs\<close>

lemma persistRun_published:
  assumes "kept m" "get_run (rn_ID r) m = None" "storable r" "m_store m = Some d"
    and "lookup RR_ID (rn_ID r) (db_runs d) = None \<or>
      (\<exists>row. lookup RR_ID (rn_ID r) (db_runs d) = Some row \<and> RR_CreatedAt row = rn_createdAt r \<and> RR_PolicyRef row = rn_PolicyRef r)"
  shows "publishes r m (persistRun (length (m_heap m)) (put_run (rn_ID r) (length (m_heap m)) (fst (alloc_run r m))))"
proof -
  from assms(1,4) have f: "db_faults d = []" by (auto elim: keptE)
  let ?e = "SUpsertRun (run_rec r)"
  have merge: "RR_CreatedAt row = rn_createdAt r \<Longrightarrow> RR_PolicyRef row = rn_PolicyRef r \<Longrightarrow> merge_run row (run_rec r) = run_rec r" for row
    by (simp add: merge_run_def run_rec_def run_View_def case_prod_beta Let_def)
  have rows: "db_runs (fst (store_step d ?e)) = upsert RR_ID merge_run (run_rec r) (db_runs d)"
    using storable_rec [OF assms(3)] store_step_runs [OF f, of ?e] by simp
  have p: "persistRun (length (m_heap m)) (put_run (rn_ID r) (length (m_heap m)) (fst (alloc_run r m))) =
      store_write ?e (put_run (rn_ID r) (length (m_heap m)) (fst (alloc_run r m)))"
    by (simp add: persistRun_def)
  have get: "get_run k (store_write ?e (put_run (rn_ID r) a m')) = (if k = rn_ID r then Some a else get_run k m')" for k a m'
    using get_run_put [of k "rn_ID r" a m'] by (simp add: get_run_def)
  show ?thesis unfolding p publishes_def
    using assms(3-5) merge
    by (intro exI [of _ d] exI [of _ "fst (store_step d ?e)"] exI [of _ "[?e]"])
      (auto simp: rows lookup_upsert [OF merges_keep_keys(1)] run_rec_sound get simp del: store_step.simps)
qed

lemma run_Create_kept:
  assumes "kept m" "CO_ID opts = ''''" "get_run newID m = None"
    and "\<And>d. m_store m = Some d \<Longrightarrow> lookup RR_ID newID (db_runs d) = None"
    and "real_ok (B_Dollars (case CO_Budget opts of None \<Rightarrow> m_defaultBudget m | Some b \<Rightarrow> b))"
  shows "kept (fst (run_Create opts newID now m))"
proof -
  from assms(1) obtain d where d: "m_store m = Some d" by (rule keptE)
  let ?r = "(newRun newID (CO_Name opts) (case CO_Budget opts of None \<Rightarrow> m_defaultBudget m | Some b \<Rightarrow> b)
    (CO_Metadata opts) now)\<lparr>rn_PolicyRef := CO_PolicyRef opts\<rparr>"
  have id: "rn_ID ?r = newID" by (simp add: newRun_def)
  have "publishes ?r m (persistRun (length (m_heap m)) (put_run (rn_ID ?r) (length (m_heap m)) (fst (alloc_run ?r m))))"
    using assms(3) assms(4) [OF d]
    by (intro persistRun_published [OF assms(1) _ newRun_storable [OF assms(5)] d] disjI1) (simp_all add: id)
  moreover have "fst (run_Create opts newID now m) =
      persistRun (length (m_heap m)) (put_run (rn_ID ?r) (length (m_heap m)) (fst (alloc_run ?r m)))"
    unfolding id using assms(2) by (simp add: run_Create_def Let_def case_prod_beta)
  ultimately show ?thesis using publishes_kept [OF assms(1)] by simp
qed

lemma persistRun_put: "put_run rid b (persistRun a m) = persistRun a (put_run rid b m)"
  by (simp add: persistRun_def store_write_def put_run_def run_at_def split: option.split)

text \<open>The run that a stored row becomes, and what is then in its row.\<close>

definition rollback_of :: "run_record \<Rightarrow> db \<Rightarrow> checkpoint_record option" where
  "rollback_of rec d =
     (if RR_Status rec = ''halted'' \<or> RR_Status rec = ''cancelled'' then None
      else case snd (LatestCheckpoint (RR_ID rec) d) of Inl _ \<Rightarrow> None
        | Inr cp \<Rightarrow> if CP_UsageLoops cp <s RR_UsageLoops rec then Some cp else None)"

definition restored_run :: "run_record \<Rightarrow> time \<Rightarrow> db \<Rightarrow> run_obj" where
  "restored_run rec now d =
     \<lparr>rn_ID = RR_ID rec, rn_Name = RR_Name rec, rn_Budget = record_budget rec,
      rn_PolicyRef = RR_PolicyRef rec, rn_Metadata = RR_Metadata rec,
      rn_gov = gov_New Background (record_budget rec)
        (WithRestoredUsage (case rollback_of rec d of None \<Rightarrow> record_usage rec | Some cp \<Rightarrow> checkpoint_usage cp) #
         (if RR_Status rec = ''halted'' \<or> RR_Status rec = ''cancelled'' then [WithRestoredHalt (RR_HaltReason rec)] else [])) now,
      rn_createdAt = RR_CreatedAt rec, rn_updatedAt = RR_UpdatedAt rec,
      rn_curStepStarted = rn_curStepStarted (newRun '''' '''' (record_budget rec) [] now)\<rparr>"

lemma reloadRun_shape:
  assumes "db_faults d = []" "m_store m = Some d"
  shows "reloadRun rec now d m =
    (if rollback_of rec d = None then fst (alloc_run (restored_run rec now d) m)
     else persistRun (length (m_heap m)) (fst (alloc_run (restored_run rec now d) m)), length (m_heap m))"
proof -
  have "fst (LatestCheckpoint (RR_ID rec) d) = d" using assms(1) by (simp add: LatestCheckpoint_def)
  moreover have "m\<lparr>m_store := Some d\<rparr> = m" using assms(2) by simp
  ultimately show ?thesis
    by (auto simp: reloadRun_def rollback_of_def restored_run_def newRun_def Let_def case_prod_beta split: sum.splits)
qed

lemma rollback_sound:
  assumes "db_faults d = []" "rows_sound d" "rollback_of rec d = Some cp"
  shows "cp_sound cp"
proof -
  from assms(1,3) have "cp \<in> set (checkpoints_of (RR_ID rec) d)"
    by (auto simp: rollback_of_def LatestCheckpoint_def query_def statement_def split: if_splits list.splits sum.splits
        dest!: arg_cong [of "rev _" _ set])
  with assms(2) show ?thesis by (auto simp: rows_sound_def checkpoints_of_def list_all_iff)
qed

lemma restored_run_sound:
  assumes "db_faults d = []" "rows_sound d" "row_sound rec"
  shows "storable (restored_run rec now d)" "rn_ID (restored_run rec now d) = RR_ID rec"
    "rollback_of rec d = None \<Longrightarrow> run_rec (restored_run rec now d) = rec"
proof -
  let ?u = "case rollback_of rec d of None \<Rightarrow> record_usage rec | Some cp \<Rightarrow> checkpoint_usage cp"
  have u: "representable (U_Dollars ?u)" "fle fzero (U_Dollars ?u)"
    using assms(3) rollback_sound [OF assms(1,2)]
    by (auto simp: row_sound_def cp_sound_def record_usage_def checkpoint_usage_def split: option.split)
  have g: "g_budget (rn_gov (restored_run rec now d)) = record_budget rec" "g_usage (rn_gov (restored_run rec now d)) = ?u"
    "g_halted (rn_gov (restored_run rec now d)) =
      (if RR_Status rec = ''halted'' \<or> RR_Status rec = ''cancelled'' then RR_HaltReason rec else HaltNone)"
    by (simp_all add: restored_run_def gov_New_def WithRestoredUsage_def WithRestoredHalt_def Let_def)
  have b: "rn_Budget (restored_run rec now d) = record_budget rec" by (simp add: restored_run_def)
  show "storable (restored_run rec now d)"
    using assms(3) u by (simp add: storable_def dollars_sound_def g b) (simp add: row_sound_def record_budget_def)
  show "rn_ID (restored_run rec now d) = RR_ID rec" by (simp add: restored_run_def)
  have st: "RR_Status rec = statusFor (RR_HaltReason rec)" using assms(3) by (simp add: row_sound_def)
  have h: "g_halted (rn_gov (restored_run rec now d)) = RR_HaltReason rec"
    using st by (auto simp: g(3) statusFor_def split: if_splits)
  show "run_rec (restored_run rec now d) = rec" if "rollback_of rec d = None"
    using that g(2) st
    by (simp add: run_rec_def run_View_def gov_Status_def Let_def h record_usage_def)
      (simp add: restored_run_def record_budget_def)
qed

text \<open>A restored run in the run table: nothing but its own row can have changed.\<close>

lemma restore_publishes:
  assumes "kept m" "m_store m = Some d" "get_run (RR_ID rec) m = None" "lookup RR_ID (RR_ID rec) (db_runs d) = Some rec"
  shows "publishes (restored_run rec now d) m (put_run (RR_ID rec) (length (m_heap m)) (fst (reloadRun rec now d m)))"
    "snd (reloadRun rec now d m) = length (m_heap m)" "get_run k (fst (reloadRun rec now d m)) = get_run k m"
proof -
  from assms(1,2) have d: "rows_sound d" "db_faults d = []" by (auto elim: keptE)
  from lookup_SomeD [OF assms(4)] d(1) have rec: "row_sound rec" by (auto simp: rows_sound_def list_all_iff)
  note r = restored_run_sound [OF d(2,1) rec, of now]
  note shape = reloadRun_shape [OF d(2) assms(2), of rec now]
  show "snd (reloadRun rec now d m) = length (m_heap m)" by (simp add: shape)
  show "get_run k (fst (reloadRun rec now d m)) = get_run k m"
    by (simp add: shape get_run_def persistRun_def)
  show "publishes (restored_run rec now d) m (put_run (RR_ID rec) (length (m_heap m)) (fst (reloadRun rec now d m)))"
  proof (cases "rollback_of rec d = None")
    case True
    with r(3) assms(2,4) show ?thesis unfolding publishes_def
      by (intro exI [of _ d] exI [of _ d] exI [of _ "[]"]) (simp add: shape r(1,2))
  next
    case False
    have "publishes (restored_run rec now d) m (persistRun (length (m_heap m))
        (put_run (rn_ID (restored_run rec now d)) (length (m_heap m)) (fst (alloc_run (restored_run rec now d) m))))"
      by (rule persistRun_published [OF assms(1) _ r(1) assms(2)])
        (use assms(3,4) r(2) in \<open>simp_all add: restored_run_def\<close>)
    with False show ?thesis unfolding shape by (simp add: r(2) persistRun_put del: not_None_eq)
  qed
qed

lemma GetOrCreate_kept:
  assumes "kept m"
  shows "kept (fst (GetOrCreate rid now m))"
proof (cases "get_run rid m")
  case (Some a)
  with assms show ?thesis by (simp add: GetOrCreate_def)
next
  case None
  from assms obtain d where d: "m_store m = Some d" "db_faults d = []" "real_ok (B_Dollars (m_defaultBudget m))"
    by (rule keptE)
  have same: "m\<lparr>m_store := Some d\<rparr> = m" using d(1) by simp
  show ?thesis
  proof (cases "lookup RR_ID rid (db_runs d)")
    case unknown: None
    let ?r = "newRun rid '''' (m_defaultBudget m) [] now"
    have id: "rn_ID ?r = rid" by (simp add: newRun_def)
    have st: "storable ?r" using newRun_storable [OF d(3), where rid = rid and name = "''''" and meta = "[]" and now = now and p = "''''"]
      by (simp add: newRun_def)
    have "publishes ?r m (persistRun (length (m_heap m)) (put_run (rn_ID ?r) (length (m_heap m)) (fst (alloc_run ?r m))))"
      by (rule persistRun_published [OF assms _ st d(1)]) (simp_all add: id None unknown)
    moreover have "fst (GetOrCreate rid now m) =
        persistRun (length (m_heap m)) (put_run (rn_ID ?r) (length (m_heap m)) (fst (alloc_run ?r m)))"
      unfolding id using None unknown d(1,2)
      by (simp add: GetOrCreate_def restoreFromStore_def GetRun_def publish_run_def same case_prod_beta Let_def)
    ultimately show ?thesis using publishes_kept [OF assms] by simp
  next
    case (Some rec)
    have id: "RR_ID rec = rid" using lookup_SomeD [OF Some] by simp
    note p = restore_publishes [OF assms d(1), of rec, unfolded id, OF None Some, where now = now]
    have "fst (GetOrCreate rid now m) = put_run rid (length (m_heap m)) (fst (reloadRun rec now d m))"
      using None Some d(1,2) p(2,3)
      by (simp add: GetOrCreate_def restoreFromStore_def GetRun_def publish_run_def case_prod_beta Let_def apsnd_def map_prod_def)
    with publishes_kept [OF assms p(1)] show ?thesis by simp
  qed
qed

lemma reload_all_kept:
  assumes "kept m" "m_store m = Some d" "distinct (map RR_ID recs)"
    and "\<forall>rec \<in> set recs. lookup RR_ID (RR_ID rec) (db_runs d) = Some rec"
  shows "kept (fst (reload_all now recs m))"
  using assms
proof (induction recs arbitrary: m d)
  case (Cons rec recs)
  show ?case
  proof (cases "get_run (RR_ID rec) m")
    case (Some a)
    with Cons show ?thesis by simp
  next
    case None
    let ?m = "put_run (RR_ID rec) (length (m_heap m)) (fst (reloadRun rec now d m))"
    have row: "lookup RR_ID (RR_ID rec) (db_runs d) = Some rec" using Cons.prems(4) by simp
    note p = restore_publishes [OF Cons.prems(1,2) None row, where now = now]
    from Cons.prems(1,2) have "rows_sound d" "db_faults d = []" by (auto elim: keptE)
    from restored_run_sound(2) [OF this(2,1)] lookup_SomeD [OF row] this(1)
    have id: "rn_ID (restored_run rec now d) = RR_ID rec" by (auto simp: rows_sound_def list_all_iff)
    from p(1) Cons.prems(2) obtain d' where d': "m_store ?m = Some d'"
      "\<And>k. k \<noteq> RR_ID rec \<Longrightarrow> lookup RR_ID k (db_runs d') = lookup RR_ID k (db_runs d)"
      by (auto simp: publishes_def id)
    have "lookup RR_ID (RR_ID r) (db_runs d') = Some r" if "r \<in> set recs" for r
    proof -
      have "RR_ID r \<noteq> RR_ID rec" using Cons.prems(3) imageI [OF that, of RR_ID] by auto
      with d'(2) Cons.prems(4) that show ?thesis by simp
    qed
    then have "\<forall>r \<in> set recs. lookup RR_ID (RR_ID r) (db_runs d') = Some r" by blast
    with Cons.IH [OF publishes_kept [OF Cons.prems(1) p(1)] d'(1)] Cons.prems(3)
    have "kept (fst (reload_all now recs ?m))" by simp
    with None Cons.prems(2) p(2) show ?thesis by (simp add: case_prod_beta Let_def)
  qed
qed simp

lemma restart_kept:
  assumes "rows_sound d" "db_faults d = []" "real_ok (B_Dollars b)"
  shows "kept (restart b d)"
  using assms mirrors_restart [of d b] by (simp add: kept_def restart_def WithStore_def NewManager_def)

lemma Reload_kept:
  assumes "rows_sound d" "db_faults d = []" "real_ok (B_Dollars b)"
  shows "kept (fst (Reload now (restart b d)))"
proof -
  let ?recs = "newest_first RR_CreatedAt (filter (\<lambda>r. RR_Status r = ''running'') (db_runs d))"
  have s: "m_store (restart b d) = Some d" by (simp add: restart_def WithStore_def)
  have "mset (map RR_ID ?recs) = mset (map RR_ID (filter (\<lambda>r. RR_Status r = ''running'') (db_runs d)))"
    by (simp add: newest_first_def)
  from mset_eq_imp_distinct_iff [OF this] have "distinct (map RR_ID ?recs)"
    using assms(1) by (simp add: rows_sound_def distinct_map_filter)
  moreover have "\<forall>rec \<in> set ?recs. lookup RR_ID (RR_ID rec) (db_runs d) = Some rec"
    using assms(1) by (auto simp: newest_first_def rows_sound_def lookup_Some_iff)
  ultimately have "kept (fst (reload_all now ?recs (restart b d)))"
    by (rule reload_all_kept [OF restart_kept [OF assms] s])
  moreover have "(restart b d)\<lparr>m_store := Some d\<rparr> = restart b d" by (simp add: restart_def WithStore_def)
  ultimately show ?thesis
    using assms(2) by (simp only: Reload_def ListRunsByStatus_def s option.case) (simp add: case_prod_beta Let_def)
qed

section \<open>The life of the daemon's runs\<close>

text \<open>
  The managers a daemon can have when its store does not fail: from an empty database, the API
  creates runs under fresh ids, a client's id finds, restores or creates a run, callers drive
  any run, save checkpoints, the rest of the program writes its own tables, and the daemon is
  restarted and reloads. Costs that callers record are not negative and not NaN, and neither
  are the budgets NaN.
\<close>

inductive managed :: "manager \<Rightarrow> bool" where
  Start: "real_ok (B_Dollars b) \<Longrightarrow> managed (restart b empty_db)"
| Create: "managed m \<Longrightarrow> CO_ID opts = '''' \<Longrightarrow> get_run newID m = None \<Longrightarrow>
    (\<And>d. m_store m = Some d \<Longrightarrow> lookup RR_ID newID (db_runs d) = None) \<Longrightarrow>
    real_ok (B_Dollars (case CO_Budget opts of None \<Rightarrow> m_defaultBudget m | Some b \<Rightarrow> b)) \<Longrightarrow>
    managed (fst (run_Create opts newID now m))"
| Use: "managed m \<Longrightarrow> managed (fst (GetOrCreate rid now m))"
| Drive: "managed m \<Longrightarrow> priced_call e \<Longrightarrow> managed (fst (run_step m e))"
| Save: "managed m \<Longrightarrow> managed (fst (run_Checkpoint rid name payload now m))"
| Elsewhere: "managed m \<Longrightarrow> foreign_write e \<Longrightarrow> managed (store_write e m)"
| Restart: "managed m \<Longrightarrow> m_store m = Some d \<Longrightarrow> real_ok (B_Dollars b) \<Longrightarrow>
    managed (fst (Reload now (restart b d)))"

lemma managed_kept: "managed m \<Longrightarrow> kept m"
proof (induction rule: managed.induct)
  case (Start b)
  then show ?case by (intro restart_kept) (simp_all add: rows_sound_def empty_db_def)
next
  case (Restart m d b now)
  from Restart.IH Restart.hyps(2) have "rows_sound d" "db_faults d = []" by (auto elim: keptE)
  then show ?case using Restart.hyps(3) by (rule Reload_kept)
qed (simp_all add: run_Create_kept GetOrCreate_kept run_step_kept run_Checkpoint_kept foreign_kept del: store_step.simps)

text \<open>
  C18. The store mirrors every live run. While the store does not fail, whatever the daemon has
  done with any number of runs (creating, looking up, restoring, driving, cancelling, saving
  checkpoints, restarting), the stored row of each run that is live is exactly the snapshot of
  that run: its usage, its status and its halt reason; and no two ids share a run. Taken for
  granted: recorded costs are numbers that are not negative, no dollar budget is a NaN, an id
  drawn for a new run is fresh, and only the manager writes runs and checkpoints.
\<close>

theorem store_mirrors_live_runs:
  assumes "managed m" "get_run rid m = Some a"
  shows "\<exists>d. m_store m = Some d \<and> snd (GetRun rid d) = Inr (run_rec (run_at m a)) \<and>
    rn_ID (run_at m a) = rid"
proof -
  from managed_kept [OF assms(1)] have "mirrors m" by (simp add: kept_def)
  from mirrorsD [OF this assms(2)] obtain d where "m_store m = Some d" "db_faults d = []"
    "rn_ID (run_at m a) = rid" "lookup RR_ID rid (db_runs d) = Some (run_rec (run_at m a))" by metis
  then show ?thesis by (simp add: GetRun_def)
qed

text \<open>Two runs, one created through a client's id after the other; the first is then charged and cancelled.\<close>

definition two_runs :: manager where
  "two_runs = fst (GetOrCreate ''r2'' 1 (fst (run_Create (sample_create (token_cap 10)) ''r1'' 0 (restart (token_cap 0) empty_db))))"

definition driven_runs :: manager where
  "driven_runs = fst (run_step (fst (run_step two_runs (RRecordCall ''r1'' (sample_call 7 6 (Fin 2)) 2))) (RCancel ''r2'' 3))"

lemma two_runs_managed: "managed two_runs"
  unfolding two_runs_def
  by (intro managed.Use managed.Create managed.Start)
    (simp_all add: sample_create_def token_cap_def real_ok_def restart_def WithStore_def NewManager_def
      get_run_def empty_db_def)

lemma driven_managed: "managed driven_runs"
  unfolding driven_runs_def by (intro managed.Drive two_runs_managed) (simp_all add: sample_call_def)

lemma two_runs_addresses: "get_run ''r1'' two_runs = Some 0" "get_run ''r2'' two_runs = Some 1"
  by (simp_all add: two_runs_def run_Create_def sample_create_def alloc_run_def restart_def WithStore_def NewManager_def
        Let_def get_run_def put_run_def persistRun_def store_write_def empty_db_def UpsertRun_def run_at_def newRun_def
        GetOrCreate_def restoreFromStore_def GetRun_def publish_run_def token_cap_def real_ok_def gov_New_fresh zero_usage_def)

lemma driven_addresses: "get_run ''r1'' driven_runs = Some 0" "get_run ''r2'' driven_runs = Some 1"
proof -
  have "mirrors two_runs" using managed_kept [OF two_runs_managed] by (simp add: kept_def)
  from run_events_get [OF this, of "[RRecordCall ''r1'' (sample_call 7 6 (Fin 2)) 2, RCancel ''r2'' 3]"]
  have "get_run k driven_runs = get_run k two_runs" for k by (simp add: driven_runs_def sample_call_def)
  then show "get_run ''r1'' driven_runs = Some 0" "get_run ''r2'' driven_runs = Some 1"
    using two_runs_addresses by simp_all
qed

lemma store_mirrors_live_runs_witness:
  "(\<exists>d. m_store driven_runs = Some d \<and> snd (GetRun ''r1'' d) = Inr (run_rec (run_at driven_runs 0)) \<and>
     rn_ID (run_at driven_runs 0) = ''r1'') \<and>
   (\<exists>d. m_store driven_runs = Some d \<and> snd (GetRun ''r2'' d) = Inr (run_rec (run_at driven_runs 1)) \<and>
     rn_ID (run_at driven_runs 1) = ''r2'')"
  using store_mirrors_live_runs [OF driven_managed driven_addresses(1)]
    store_mirrors_live_runs [OF driven_managed driven_addresses(2)] by simp

end
