(* ===== verification/Http.thy ===== *)
theory Http
  imports GoPrelude
begin

text \<open>
  What the handlers use of package net/http: header maps, whose keys are matched without
  regard to case, and the exchanges with an upstream server. The network is an argument: a
  function from the request sent to the response or to the error that \<open>Client.Do\<close> returns.
\<close>

section \<open>Headers\<close>

type_synonym header = "(string \<times> string) list"

definition same_key :: "string \<Rightarrow> string \<Rightarrow> bool" where
  "same_key k l \<longleftrightarrow> ToLower k = ToLower l"

text \<open>\<open>Get\<close> is the first value of the key, the empty string without one.\<close>

fun header_get :: "header \<Rightarrow> string \<Rightarrow> string" where
  "header_get [] k = ''''"
| "header_get ((l, v) # h) k = (if same_key l k then v else header_get h k)"

definition header_set :: "header \<Rightarrow> string \<Rightarrow> string \<Rightarrow> header" where
  "header_set h k v = (k, v) # filter (\<lambda>(l, _). \<not> same_key l k) h"

fun copyHeader :: "header \<Rightarrow> header \<Rightarrow> string list \<Rightarrow> header" where
  "copyHeader dst src [] = dst"
| "copyHeader dst src (k # ks) =
     copyHeader (let v = header_get src k in if v \<noteq> '''' then header_set dst k v else dst) src ks"

lemma same_key_refl [simp]: "same_key k k"
  by (simp add: same_key_def)

lemma header_get_other: "\<not> same_key k l \<Longrightarrow> header_get (filter (\<lambda>(m, _). \<not> same_key m k) h) l = header_get h l"
proof (induction h)
  case (Cons p h)
  then show ?case by (cases p) (auto simp: same_key_def)
qed simp

lemma header_get_set:
  "header_get (header_set h k v) l = (if same_key k l then v else header_get h l)"
  by (simp add: header_set_def header_get_other)

text \<open>A copied key has the source's value, a key not in the list is left alone.\<close>

lemma header_get_copy:
  "header_get (copyHeader dst src ks) k =
     (if list_ex (\<lambda>l. same_key l k) ks \<and> header_get src k \<noteq> '''' then header_get src k
      else header_get dst k)"
proof (induction ks arbitrary: dst)
  case (Cons l ks)
  have "same_key l k \<Longrightarrow> header_get src l = header_get src k"
    by (induction src) (auto simp: same_key_def)
  then show ?case by (auto simp: Cons header_get_set Let_def)
qed simp

section \<open>Exchanges with an upstream server\<close>

record up_request =
  UQ_URL :: string
  UQ_Header :: header
  UQ_Body :: string

record up_response =
  UP_Status :: int
  UP_Header :: header
  UP_Body :: string

text \<open>
  What \<open>Client.Do\<close> answers: a response, or an error with its text and whether the request's
  own context was cancelled by then.
\<close>

datatype do_result = Answered up_response | DoError string bool

record http_request =
  RQ_Header :: header
  RQ_Body :: "string option"

text \<open>\<open>io.ReadAll(io.LimitReader(r.Body, n))\<close>: None when reading fails.\<close>

definition read_limited :: "nat \<Rightarrow> http_request \<Rightarrow> string option" where
  "read_limited n r = map_option (take n) (RQ_Body r)"

definition TrimRight1 :: "char \<Rightarrow> string \<Rightarrow> string" where
  "TrimRight1 c s = rev (dropWhile (\<lambda>x. x = c) (rev s))"

end
