(* ===== verification/Telemetry.thy ===== *)
theory Telemetry
  imports GoPrelude Float64
begin

text \<open>
  The spans the daemon exports (\<open>internal/otel/otel.go\<close>): what \<open>RecordCall\<close> and
  \<open>RecordToolCall\<close> put on a span, in the order the code appends it. The exporter and the
  span processor behind the tracer are third-party packages: the model ends with the list of
  finished spans. The start and end times of a span are left out.
\<close>

section \<open>Attributes\<close>

datatype attr_value = AString string | AInt int | AFloat float64 | AStrings "string list"

type_synonym attributes = "(string \<times> attr_value) list"

record span =
  SN_Name :: string
  SN_Client :: bool
  SN_Attributes :: attributes
  SN_Error :: "string option"

definition attrGenAISystem :: string where "attrGenAISystem = ''gen_ai.system''"
definition attrGenAIOperation :: string where "attrGenAIOperation = ''gen_ai.operation.name''"
definition attrGenAIRequestModel :: string where "attrGenAIRequestModel = ''gen_ai.request.model''"
definition attrGenAIResponseModel :: string where "attrGenAIResponseModel = ''gen_ai.response.model''"
definition attrGenAIMaxTokens :: string where "attrGenAIMaxTokens = ''gen_ai.request.max_tokens''"
definition attrGenAITemperature :: string where "attrGenAITemperature = ''gen_ai.request.temperature''"
definition attrGenAIInputTokens :: string where "attrGenAIInputTokens = ''gen_ai.usage.input_tokens''"
definition attrGenAIOutputTokens :: string where "attrGenAIOutputTokens = ''gen_ai.usage.output_tokens''"
definition attrGenAIFinishReasons :: string where "attrGenAIFinishReasons = ''gen_ai.response.finish_reasons''"
definition attrGenAIResponseID :: string where "attrGenAIResponseID = ''gen_ai.response.id''"
definition attrErrorType :: string where "attrErrorType = ''error.type''"
definition attrRunID :: string where "attrRunID = ''riskkernel.run.id''"
definition attrRunName :: string where "attrRunName = ''riskkernel.run.name''"
definition attrStepIndex :: string where "attrStepIndex = ''riskkernel.step.index''"
definition attrRunMetaPrefix :: string where "attrRunMetaPrefix = ''riskkernel.run.meta.''"
definition attrCostUSD :: string where "attrCostUSD = ''riskkernel.cost.usd''"
definition attrBudgetTokLimit :: string where "attrBudgetTokLimit = ''riskkernel.budget.tokens.limit''"
definition attrBudgetTokRemain :: string where "attrBudgetTokRemain = ''riskkernel.budget.tokens.remaining''"
definition attrBudgetDolLimit :: string where "attrBudgetDolLimit = ''riskkernel.budget.dollars.limit''"
definition attrBudgetDolRemain :: string where "attrBudgetDolRemain = ''riskkernel.budget.dollars.remaining''"
definition attrHaltReason :: string where "attrHaltReason = ''riskkernel.halt.reason''"
definition attrGenAIToolName :: string where "attrGenAIToolName = ''gen_ai.tool.name''"
definition attrToolSideEffect :: string where "attrToolSideEffect = ''riskkernel.tool.side_effect''"
definition attrToolStatus :: string where "attrToolStatus = ''riskkernel.tool.status''"

section \<open>Model calls\<close>

record call_span =
  SP_RunID :: string
  SP_RunName :: string
  SP_Metadata :: "(string \<times> string) list"
  SP_StepIndex :: int32
  SP_Provider :: string
  SP_Operation :: string
  SP_RequestModel :: string
  SP_ResponseModel :: string
  SP_MaxTokens :: int64
  SP_Temperature :: "float64 option"
  SP_PromptTokens :: int64
  SP_OutputTokens :: int64
  SP_CostUSD :: float64
  SP_Priced :: bool
  SP_FinishReason :: string
  SP_ResponseID :: string
  SP_BudgetTokensLimit :: int64
  SP_BudgetTokensRemaining :: int64
  SP_BudgetDollarsLimit :: float64
  SP_BudgetDollarsRemaining :: float64
  SP_HaltReason :: string
  SP_Err :: "string option"

definition opt_attr :: "bool \<Rightarrow> attributes \<Rightarrow> attributes" where
  "opt_attr c as = (if c then as else [])"

definition call_attributes :: "call_span \<Rightarrow> attributes" where
  "call_attributes c =
     [(attrGenAISystem, AString (SP_Provider c)), (attrGenAIOperation, AString (SP_Operation c)),
      (attrGenAIRequestModel, AString (SP_RequestModel c)), (attrRunID, AString (SP_RunID c)),
      (attrStepIndex, AInt (sint (SP_StepIndex c)))] @
     opt_attr (SP_RunName c \<noteq> '''') [(attrRunName, AString (SP_RunName c))] @
     map (\<lambda>(k, v). (attrRunMetaPrefix @ k, AString v)) (SP_Metadata c) @
     opt_attr (SP_ResponseModel c \<noteq> '''') [(attrGenAIResponseModel, AString (SP_ResponseModel c))] @
     opt_attr (0 <s SP_MaxTokens c) [(attrGenAIMaxTokens, AInt (sint (SP_MaxTokens c)))] @
     (case SP_Temperature c of None \<Rightarrow> [] | Some t \<Rightarrow> [(attrGenAITemperature, AFloat t)]) @
     opt_attr (SP_Err c = None)
       ([(attrGenAIInputTokens, AInt (sint (SP_PromptTokens c))),
         (attrGenAIOutputTokens, AInt (sint (SP_OutputTokens c)))] @
        opt_attr (SP_FinishReason c \<noteq> '''') [(attrGenAIFinishReasons, AStrings [SP_FinishReason c])] @
        opt_attr (SP_ResponseID c \<noteq> '''') [(attrGenAIResponseID, AString (SP_ResponseID c))] @
        opt_attr (SP_Priced c) [(attrCostUSD, AFloat (SP_CostUSD c))]) @
     opt_attr (0 <s SP_BudgetTokensLimit c)
       [(attrBudgetTokLimit, AInt (sint (SP_BudgetTokensLimit c))),
        (attrBudgetTokRemain, AInt (sint (SP_BudgetTokensRemaining c)))] @
     opt_attr (flt fzero (SP_BudgetDollarsLimit c))
       [(attrBudgetDolLimit, AFloat (SP_BudgetDollarsLimit c)),
        (attrBudgetDolRemain, AFloat (SP_BudgetDollarsRemaining c))] @
     opt_attr (SP_HaltReason c \<noteq> '''') [(attrHaltReason, AString (SP_HaltReason c))]"

record tracer =
  TR_enabled :: bool
  TR_spans :: "span list"

definition Disabled :: tracer where
  "Disabled = \<lparr>TR_enabled = False, TR_spans = []\<rparr>"

definition tracer_RecordCall :: "call_span \<Rightarrow> tracer \<Rightarrow> tracer" where
  "tracer_RecordCall c t =
     (if \<not> TR_enabled t then t
      else t\<lparr>TR_spans := TR_spans t @
        [\<lparr>SN_Name = SP_Operation c @ '' '' @ SP_RequestModel c, SN_Client = True,
          SN_Attributes = call_attributes c @
            opt_attr (SP_Err c \<noteq> None) [(attrErrorType, AString ''provider_error'')],
          SN_Error = SP_Err c\<rparr>]\<rparr>)"

section \<open>Tool calls\<close>

record tool_call_span =
  OT_RunID :: string
  OT_StepIndex :: int32
  OT_Tool :: string
  OT_SideEffect :: string
  OT_Status :: string

definition tracer_RecordToolCall :: "tool_call_span \<Rightarrow> tracer \<Rightarrow> tracer" where
  "tracer_RecordToolCall c t =
     (if \<not> TR_enabled t then t
      else t\<lparr>TR_spans := TR_spans t @
        [\<lparr>SN_Name = ''execute_tool '' @ OT_Tool c, SN_Client = False,
          SN_Attributes =
            [(attrGenAIOperation, AString ''execute_tool''), (attrGenAIToolName, AString (OT_Tool c)),
             (attrRunID, AString (OT_RunID c)), (attrStepIndex, AInt (sint (OT_StepIndex c))),
             (attrToolStatus, AString (OT_Status c))] @
            opt_attr (OT_SideEffect c \<noteq> '''') [(attrToolSideEffect, AString (OT_SideEffect c))],
          SN_Error = (if OT_Status c \<noteq> ''approved'' then Some (''tool '' @ OT_Status c) else None)\<rparr>]\<rparr>)"

text \<open>The cost is on a span exactly when the call succeeded and the model has a price.\<close>

lemmas attr_keys = attrGenAISystem_def attrGenAIOperation_def attrGenAIRequestModel_def attrGenAIResponseModel_def
  attrGenAIMaxTokens_def attrGenAITemperature_def attrGenAIInputTokens_def attrGenAIOutputTokens_def
  attrGenAIFinishReasons_def attrGenAIResponseID_def attrErrorType_def attrRunID_def attrRunName_def
  attrStepIndex_def attrRunMetaPrefix_def attrCostUSD_def attrBudgetTokLimit_def attrBudgetTokRemain_def
  attrBudgetDolLimit_def attrBudgetDolRemain_def attrHaltReason_def attrGenAIToolName_def
  attrToolSideEffect_def attrToolStatus_def

lemma opt_attr_iff [simp]: "x \<in> set (opt_attr c as) \<longleftrightarrow> c \<and> x \<in> set as"
  by (simp add: opt_attr_def)

lemma call_attributes_cost:
  "(attrCostUSD, v) \<in> set (call_attributes c) \<longleftrightarrow> SP_Err c = None \<and> SP_Priced c \<and> v = AFloat (SP_CostUSD c)"
  by (auto simp: call_attributes_def attr_keys split: option.splits)

end
