(* ===== verification/Mcp.thy ===== *)
theory Mcp
  imports Http Telemetry Approval Runs RunsLaws
begin

text \<open>
  The MCP gateway (\<open>internal/mcp/gateway.go\<close>): tools/call in front of an upstream MCP server.
  The gate, the run manager and the gateway hold the same store (\<open>internal/app/bootstrap.go\<close>),
  kept in the run manager's \<open>m_store\<close>. Package json's decoder, the network and the rest of
  the program while a call waits for a decision are fields of \<open>mcp_world\<close>. A call that waits
  changes runs only through the store here: what other requests do to live runs meanwhile
  does not matter to \<open>handle\<close>, which reads its run before the wait.
\<close>

section \<open>The gateway\<close>

record mcp_config =
  MG_upstream :: string
  MG_allow :: "string list"
  MG_readonly :: "string list"
  MG_approvalTimeout :: int

record rpc_request =
  JR_ID :: string
  JR_Method :: string
  JR_Params :: string

record mcp_state =
  mc_runs :: manager
  mc_gate :: gate
  mc_spans :: "tool_call_span list"
  mc_sent :: "up_request list"

text \<open>
  \<open>MW_decode\<close> and \<open>MW_params\<close> are \<open>json.Unmarshal\<close> into the two structs (an error of the second
  is ignored), \<open>MW_url_ok\<close> says whether \<open>NewRequestWithContext\<close> accepts the upstream URL,
  \<open>MW_do\<close> is the network, \<open>MW_blocked\<close> the rest of the program while the call waits.
\<close>

record mcp_world =
  MW_decode :: "string \<Rightarrow> rpc_request option"
  MW_params :: "string \<Rightarrow> string \<times> json_map"
  MW_url_ok :: bool
  MW_do :: "up_request \<Rightarrow> do_result"
  MW_blocked :: "gate \<Rightarrow> gate \<times> bool"
  MW_runID :: string
  MW_approvalID :: string
  MW_callID :: string
  MW_now :: time

datatype mcp_reply =
    BadRequest string
  | RPCError string int string
  | Relayed up_response
  | NoReply

definition maxBody :: nat where "maxBody = 10 * 1024 * 1024"

definition HeaderRunID :: string where
  "HeaderRunID = ''X-RiskKernel-Run-Id''"

definition mcp_New :: "string \<Rightarrow> string list \<Rightarrow> string list \<Rightarrow> int \<Rightarrow> mcp_config" where
  "mcp_New upstream allowlist readonly approvalTimeout =
     \<lparr>MG_upstream = TrimRight1 (CHR ''/'') upstream, MG_allow = allowlist, MG_readonly = readonly,
      MG_approvalTimeout = (if approvalTimeout \<le> 0 then 110 * 1000000000 else approvalTimeout)\<rparr>"

section \<open>Policy of a call\<close>

fun matchAllow :: "string list \<Rightarrow> string \<Rightarrow> bool" where
  "matchAllow [] tool = True"
| "matchAllow (p # ps) tool = list_ex (\<lambda>pat. pat = tool \<or> glob pat tool) (p # ps)"

definition allowedFor :: "mcp_config \<Rightarrow> string \<Rightarrow> policy_record option \<Rightarrow> bool" where
  "allowedFor g tool bundle =
     matchAllow (case bundle of
         None \<Rightarrow> MG_allow g
       | Some p \<Rightarrow> if PR_ToolAllowlist p \<noteq> [] then PR_ToolAllowlist p else MG_allow g) tool"

definition bundlePolicy :: "policy_record \<Rightarrow> approval_policy" where
  "bundlePolicy p =
     \<lparr>AP_RequireFor = map (\<lambda>r. \<lparr>AP_Tool = Rule_Tool r, AP_SideEffect = Rule_SideEffect r\<rparr>) (PR_ApprovalRules p),
      AP_DefaultSafe = True\<rparr>"

definition sideEffect :: "mcp_config \<Rightarrow> string \<Rightarrow> string" where
  "sideEffect g tool = (if tool \<in> set (MG_readonly g) then '''' else ''tool'')"

section \<open>The handler's pieces\<close>

definition on_store :: "(db \<Rightarrow> 'a db_result) \<Rightarrow> mcp_state \<Rightarrow> mcp_state \<times> (store_error + 'a) option" where
  "on_store f s =
     (case m_store (mc_runs s) of
        None \<Rightarrow> (s, None)
      | Some d \<Rightarrow> (let (d', res) = f d in (s\<lparr>mc_runs := (mc_runs s)\<lparr>m_store := Some d'\<rparr>\<rparr>, Some res)))"

text \<open>Running the gate on the shared store.\<close>

definition with_gate :: "(gate \<Rightarrow> gate \<times> 'a) \<Rightarrow> mcp_state \<Rightarrow> mcp_state \<times> 'a" where
  "with_gate f s =
     (let (g, x) = f ((mc_gate s)\<lparr>gt_store := m_store (mc_runs s)\<rparr>)
      in (s\<lparr>mc_gate := g, mc_runs := (mc_runs s)\<lparr>m_store := gt_store g\<rparr>\<rparr>, x))"

definition resolveRun :: "mcp_world \<Rightarrow> http_request \<Rightarrow> mcp_state \<Rightarrow> mcp_state \<times> addr" where
  "resolveRun w r s =
     (let rid = header_get (RQ_Header r) HeaderRunID;
          (m, a) = (if rid \<noteq> '''' then GetOrCreate rid (MW_now w) (mc_runs s)
                    else run_Create \<lparr>CO_ID = '''', CO_Name = ''mcp'', CO_Budget = None,
                           CO_PolicyRef = '''', CO_Metadata = []\<rparr> (MW_runID w) (MW_now w) (mc_runs s))
      in (s\<lparr>mc_runs := m\<rparr>, a))"

definition runPolicy :: "run_obj \<Rightarrow> mcp_state \<Rightarrow> mcp_state \<times> policy_record option" where
  "runPolicy run s =
     (if rn_PolicyRef run = '''' then (s, None)
      else (let (s, res) = on_store (GetPolicy (rn_PolicyRef run)) s
            in (s, case res of Some (Inr p) \<Rightarrow> Some p | _ \<Rightarrow> None)))"

text \<open>The span goes to the tracer before the row goes to the store.\<close>

definition recordToolCall ::
    "mcp_world \<Rightarrow> string \<Rightarrow> int32 \<Rightarrow> string \<Rightarrow> string \<Rightarrow> json_map \<Rightarrow> string \<Rightarrow> mcp_state \<Rightarrow> mcp_state" where
  "recordToolCall w runID step tool se args status s =
     fst (on_store (AppendToolCall
         \<lparr>TC_ID = MW_callID w, TC_RunID = runID, TC_StepIndex = step, TC_Tool = tool,
          TC_SideEffect = se, TC_Arguments = args, TC_Status = status, TC_CreatedAt = MW_now w\<rparr>)
       (s\<lparr>mc_spans := mc_spans s @ [\<lparr>OT_RunID = runID, OT_StepIndex = step, OT_Tool = tool,
            OT_SideEffect = se, OT_Status = status\<rparr>]\<rparr>))"

definition writeRPCError :: "string \<Rightarrow> int \<Rightarrow> string \<Rightarrow> mcp_reply" where
  "writeRPCError rid code message = RPCError (if rid = '''' then ''null'' else rid) code message"

definition upstream_request :: "mcp_config \<Rightarrow> http_request \<Rightarrow> string \<Rightarrow> up_request" where
  "upstream_request g r body =
     (let h = copyHeader [] (RQ_Header r) [''Content-Type'', ''Accept'', ''Mcp-Session-Id'', ''MCP-Protocol-Version'']
      in \<lparr>UQ_URL = MG_upstream g,
          UQ_Header = (if header_get h ''Content-Type'' = '''' then header_set h ''Content-Type'' ''application/json'' else h),
          UQ_Body = body\<rparr>)"

definition forward :: "mcp_world \<Rightarrow> mcp_config \<Rightarrow> http_request \<Rightarrow> string \<Rightarrow> mcp_state \<Rightarrow> mcp_state \<times> mcp_reply" where
  "forward w g r body s =
     (if \<not> MW_url_ok w
      then (s, writeRPCError '''' (-32603) ''internal error building upstream request'')
      else
        (let req = upstream_request g r body; s = s\<lparr>mc_sent := mc_sent s @ [req]\<rparr>
         in case MW_do w req of
              DoError e cancelled \<Rightarrow>
                (s, if cancelled then NoReply
                    else writeRPCError '''' (-32603) (''upstream MCP server unreachable: '' @ e))
            | Answered resp \<Rightarrow>
                (s, Relayed \<lparr>UP_Status = UP_Status resp,
                      UP_Header = copyHeader [] (UP_Header resp) [''Content-Type'', ''Mcp-Session-Id''],
                      UP_Body = UP_Body resp\<rparr>)))"

text \<open>The approval half of \<open>handle\<close>: whether the gate is asked, and what it answers.\<close>

definition needsApproval :: "mcp_config \<Rightarrow> string \<Rightarrow> policy_record option \<Rightarrow> bool" where
  "needsApproval g tool bundle =
     (sideEffect g tool \<noteq> '''' \<or>
      (case bundle of None \<Rightarrow> False | Some p \<Rightarrow> Requires (bundlePolicy p) tool (sideEffect g tool)))"

definition askGate ::
    "mcp_world \<Rightarrow> approval_request \<Rightarrow> policy_record option \<Rightarrow> mcp_state \<Rightarrow>
     mcp_state \<times> decision \<times> request_error option" where
  "askGate w areq bundle s =
     (let (s, dec, _, err) = with_gate (case bundle of
            Some p \<Rightarrow> RequestUnder areq (bundlePolicy p) (MW_approvalID w) (MW_now w) (MW_blocked w)
          | None \<Rightarrow> gate_Request areq (MW_approvalID w) (MW_now w) (MW_blocked w)) s
      in (s, dec, err))"

definition handleCall ::
    "mcp_world \<Rightarrow> mcp_config \<Rightarrow> http_request \<Rightarrow> string \<Rightarrow> rpc_request \<Rightarrow> mcp_state \<Rightarrow> mcp_state \<times> mcp_reply" where
  "handleCall w g r body req s =
     (let (tool, args) = MW_params w (JR_Params req);
          (s, a) = resolveRun w r s;
          run = run_at (mc_runs s) a;
          stepIdx = U_Loops (VW_Usage (run_View run));
          (s, bundle) = runPolicy run s
      in if \<not> allowedFor g tool bundle
         then (recordToolCall w (rn_ID run) stepIdx tool '''' args ''blocked'' s,
               writeRPCError (JR_ID req) (-32001) (''tool not allowed by policy: '' @ tool))
         else
           (let se = sideEffect g tool;
                (s, dec, err) =
                  (if needsApproval g tool bundle
                   then askGate w \<lparr>Q_RunID = rn_ID run, Q_StepIndex = stepIdx, Q_Tool = tool,
                          Q_SideEffect = se, Q_Arguments = args\<rparr> bundle s
                   else (s, \<lparr>D_Approved = True, D_Reason = '''', D_By = ''''\<rparr>, None))
            in if err \<noteq> None
               then (recordToolCall w (rn_ID run) stepIdx tool se args ''timeout'' s,
                     writeRPCError (JR_ID req) (-32002) (''approval timed out or run cancelled for tool: '' @ tool))
               else if \<not> D_Approved dec
               then (recordToolCall w (rn_ID run) stepIdx tool se args ''denied'' s,
                     writeRPCError (JR_ID req) (-32003) (''approval denied for tool: '' @ tool))
               else forward w g r body (recordToolCall w (rn_ID run) stepIdx tool se args ''approved'' s)))"

definition handle :: "mcp_world \<Rightarrow> mcp_config \<Rightarrow> http_request \<Rightarrow> mcp_state \<Rightarrow> mcp_state \<times> mcp_reply" where
  "handle w g r s =
     (case read_limited maxBody r of
        None \<Rightarrow> (s, BadRequest ''read error'')
      | Some body \<Rightarrow>
          (case MW_decode w body of
             None \<Rightarrow> forward w g r body s
           | Some req \<Rightarrow>
               if JR_Method req \<noteq> ''tools/call'' then forward w g r body s
               else handleCall w g r body req s))"

end
