(* ===== verification/McpLaws.thy ===== *)
theory McpLaws
  imports Mcp
begin

text \<open>
  What the MCP gateway guarantees: nothing reaches the upstream server through tools/call
  without passing the allowlist and, for a tool with side effects, a human approval, and
  every governed call leaves one record; and what it does not check.
\<close>

section \<open>The pieces\<close>

lemma on_store_sel [simp]:
  "mc_spans (fst (on_store f s)) = mc_spans s" "mc_sent (fst (on_store f s)) = mc_sent s"
  "mc_gate (fst (on_store f s)) = mc_gate s"
  "m_heap (mc_runs (fst (on_store f s))) = m_heap (mc_runs s)"
  "m_runs (mc_runs (fst (on_store f s))) = m_runs (mc_runs s)"
  by (simp_all add: on_store_def case_prod_beta Let_def split: option.split)

lemma on_store_Some:
  "m_store (mc_runs s) = Some d \<Longrightarrow>
     m_store (mc_runs (fst (on_store f s))) = Some (fst (f d)) \<and> snd (on_store f s) = Some (snd (f d))"
  by (simp add: on_store_def case_prod_beta Let_def)

lemma resolveRun_sel [simp]:
  "mc_spans (fst (resolveRun w r s)) = mc_spans s" "mc_sent (fst (resolveRun w r s)) = mc_sent s"
  "mc_gate (fst (resolveRun w r s)) = mc_gate s"
  by (simp_all add: resolveRun_def case_prod_beta Let_def)

lemma resolveRun_known:
  assumes "header_get (RQ_Header r) HeaderRunID = rid" "rid \<noteq> ''''" "get_run rid (mc_runs s) = Some a"
  shows "resolveRun w r s = (s, a)"
  using assms by (simp add: resolveRun_def GetOrCreate_def)

lemma runPolicy_sel [simp]:
  "mc_spans (fst (runPolicy run s)) = mc_spans s" "mc_sent (fst (runPolicy run s)) = mc_sent s"
  "mc_gate (fst (runPolicy run s)) = mc_gate s"
  "m_heap (mc_runs (fst (runPolicy run s))) = m_heap (mc_runs s)"
  "m_runs (mc_runs (fst (runPolicy run s))) = m_runs (mc_runs s)"
  by (simp_all add: runPolicy_def case_prod_beta Let_def)

lemma recordToolCall_sel [simp]:
  "mc_spans (recordToolCall w runID step tool se args status s) =
     mc_spans s @ [\<lparr>OT_RunID = runID, OT_StepIndex = step, OT_Tool = tool, OT_SideEffect = se, OT_Status = status\<rparr>]"
  "mc_sent (recordToolCall w runID step tool se args status s) = mc_sent s"
  "mc_gate (recordToolCall w runID step tool se args status s) = mc_gate s"
  by (simp_all add: recordToolCall_def)

lemma forward_sel [simp]:
  "mc_spans (fst (forward w g r body s)) = mc_spans s" "mc_runs (fst (forward w g r body s)) = mc_runs s"
  "mc_gate (fst (forward w g r body s)) = mc_gate s"
  "mc_sent (fst (forward w g r body s)) = mc_sent s @ (if MW_url_ok w then [upstream_request g r body] else [])"
  by (auto simp: forward_def Let_def split: do_result.split)

lemma with_gate_sel [simp]:
  "mc_spans (fst (with_gate f s)) = mc_spans s" "mc_sent (fst (with_gate f s)) = mc_sent s"
  "m_heap (mc_runs (fst (with_gate f s))) = m_heap (mc_runs s)"
  "m_runs (mc_runs (fst (with_gate f s))) = m_runs (mc_runs s)"
  by (simp_all add: with_gate_def case_prod_beta Let_def)

lemma askGate_sel [simp]:
  "mc_spans (fst (askGate w areq bundle s)) = mc_spans s" "mc_sent (fst (askGate w areq bundle s)) = mc_sent s"
  by (simp_all add: askGate_def case_prod_beta Let_def)

section \<open>The verdict on a call\<close>

datatype verdict = Blocked | TimedOut | Denied | Approved

fun verdict_status :: "verdict \<Rightarrow> string" where
  "verdict_status Blocked = ''blocked''"
| "verdict_status TimedOut = ''timeout''"
| "verdict_status Denied = ''denied''"
| "verdict_status Approved = ''approved''"

definition verdict :: "bool \<Rightarrow> (decision \<times> request_error option) option \<Rightarrow> verdict" where
  "verdict allowed asked =
     (if \<not> allowed then Blocked
      else (case asked of None \<Rightarrow> Approved
            | Some (dec, err) \<Rightarrow> if err \<noteq> None then TimedOut else if D_Approved dec then Approved else Denied))"

text \<open>Everything \<open>handleCall\<close> does before it records: the state then, the run, and the verdict.\<close>

definition ruling ::
    "mcp_world \<Rightarrow> mcp_config \<Rightarrow> http_request \<Rightarrow> rpc_request \<Rightarrow> mcp_state \<Rightarrow>
     mcp_state \<times> run_obj \<times> policy_record option \<times> verdict" where
  "ruling w g r req s =
     (let (tool, args) = MW_params w (JR_Params req);
          (s1, a) = resolveRun w r s; run = run_at (mc_runs s1) a;
          (s2, bundle) = runPolicy run s1;
          areq = \<lparr>Q_RunID = rn_ID run, Q_StepIndex = U_Loops (VW_Usage (run_View run)), Q_Tool = tool,
                  Q_SideEffect = sideEffect g tool, Q_Arguments = args\<rparr>
      in if allowedFor g tool bundle \<and> needsApproval g tool bundle
         then (let (s3, dec, err) = askGate w areq bundle s2
               in (s3, run, bundle, verdict True (Some (dec, err))))
         else (s2, run, bundle, verdict (allowedFor g tool bundle) None))"

definition call_reply :: "rpc_request \<Rightarrow> string \<Rightarrow> verdict \<Rightarrow> mcp_reply \<Rightarrow> mcp_reply" where
  "call_reply req tool v relayed =
     (case v of
        Blocked \<Rightarrow> writeRPCError (JR_ID req) (-32001) (''tool not allowed by policy: '' @ tool)
      | TimedOut \<Rightarrow> writeRPCError (JR_ID req) (-32002) (''approval timed out or run cancelled for tool: '' @ tool)
      | Denied \<Rightarrow> writeRPCError (JR_ID req) (-32003) (''approval denied for tool: '' @ tool)
      | Approved \<Rightarrow> relayed)"

lemma handleCall_ruling:
  fixes w :: mcp_world and g :: mcp_config and r :: http_request and body :: string
    and req :: rpc_request and s :: mcp_state
  defines "tool \<equiv> fst (MW_params w (JR_Params req))"
  defines "args \<equiv> snd (MW_params w (JR_Params req))"
  assumes "ruling w g r req s = (s3, run, bundle, v)"
  shows "handleCall w g r body req s =
     (let s4 = recordToolCall w (rn_ID run) (U_Loops (VW_Usage (run_View run))) tool
                 (if v = Blocked then '''' else sideEffect g tool) args (verdict_status v) s3
      in if v = Approved then forward w g r body s4 else (s4, call_reply req tool v NoReply))"
  using assms(3)
  by (auto simp: ruling_def handleCall_def Let_def case_prod_beta tool_def args_def verdict_def call_reply_def
      split: if_splits)

lemma ruling_sel:
  assumes "ruling w g r req s = (s3, run, bundle, v)"
  shows "mc_spans s3 = mc_spans s" "mc_sent s3 = mc_sent s"
  using assms by (auto simp: ruling_def Let_def case_prod_beta split: if_splits)

lemma handle_call:
  assumes "read_limited maxBody r = Some body" "MW_decode w body = Some req"
    and "JR_Method req = ''tools/call''"
  shows "handle w g r s = handleCall w g r body req s"
  using assms by (simp add: handle_def)

lemma askGate_approved:
  assumes "askGate w areq bundle s = (s', dec, err)" "err = None" "D_Approved dec"
    and "Requires (case bundle of Some p \<Rightarrow> bundlePolicy p | None \<Rightarrow> gt_policy (mc_gate s)) (Q_Tool areq) (Q_SideEffect areq)"
  shows "\<exists>waiting after. MW_blocked w waiting = (after, False) \<and>
    gt_waiters waiting (MW_approvalID w) = Some None \<and> gt_waiters after (MW_approvalID w) = Some (Some dec)"
proof -
  let ?g = "(mc_gate s)\<lparr>gt_store := m_store (mc_runs s)\<rparr>"
  let ?p = "case bundle of Some p \<Rightarrow> bundlePolicy p | None \<Rightarrow> gt_policy ?g"
  obtain g' d aid e where r: "RequestUnder areq ?p (MW_approvalID w) (MW_now w) (MW_blocked w) ?g = (g', d, aid, e)"
    by (metis prod_cases4)
  with assms(1) have eq: "d = dec" "e = err"
    by (auto simp: askGate_def with_gate_def gate_Request_def case_prod_beta Let_def split: option.splits)
  from r show ?thesis
  proof (cases rule: RequestUnder_cases)
    case (decided g1 after)
    have "gt_waiters after (MW_approvalID w) = Some (Some dec)" using decided(4) eq(1) by simp
    with decided(3) show ?thesis by (intro exI conjI) (assumption, simp)
  qed (use assms(2-4) eq in \<open>simp_all add: no_decision_def split: option.splits\<close>)
qed

lemma bundlePolicy_safe: "se \<noteq> '''' \<Longrightarrow> Requires (bundlePolicy p) tool se"
  by (simp add: Requires_def bundlePolicy_def)

section \<open>Properties of the gateway\<close>

text \<open>
  C9. No side effect without approval. When the gate's policy gates side effects by default
  and a tools/call message for a tool outside the read-only list leads to any request to the
  upstream server, then the tool passes the allowlist in force (of the run's bundle or the
  global one), the call waited at the gate, a decision that approves was delivered to it
  there before its context ended, and its span is the last one and says approved.
\<close>

theorem side_effects_need_approval:
  assumes "read_limited maxBody r = Some body" "MW_decode w body = Some req"
    and "JR_Method req = ''tools/call''" "fst (MW_params w (JR_Params req)) = tool"
    and "tool \<notin> set (MG_readonly g)" "AP_DefaultSafe (gt_policy (mc_gate s))"
    and "handle w g r s = (s', reply)" "mc_sent s' \<noteq> mc_sent s"
  shows "(let (s1, a) = resolveRun w r s; (s2, bundle) = runPolicy (run_at (mc_runs s1) a) s1
          in allowedFor g tool bundle) \<and>
    (\<exists>waiting after dec. MW_blocked w waiting = (after, False) \<and>
       gt_waiters waiting (MW_approvalID w) = Some None \<and>
       gt_waiters after (MW_approvalID w) = Some (Some dec) \<and> D_Approved dec) \<and>
    OT_Status (last (mc_spans s')) = ''approved''"
proof -
  obtain s3 run bnd v where r: "ruling w g r req s = (s3, run, bnd, v)" by (metis prod_cases4)
  note h = handle_call [OF assms(1-3)] handleCall_ruling [OF r]
  have v: "v = Approved"
    using assms(7,8) ruling_sel [OF r] by (auto simp: h Let_def split: if_splits)
  have se: "sideEffect g tool = ''tool''" using assms(5) by (simp add: sideEffect_def)
  let ?areq = "\<lparr>Q_RunID = rn_ID run, Q_StepIndex = U_Loops (VW_Usage (run_View run)), Q_Tool = tool,
      Q_SideEffect = sideEffect g tool, Q_Arguments = snd (MW_params w (JR_Params req))\<rparr>"
  obtain s1 a where s1: "resolveRun w r s = (s1, a)" by force
  obtain s2 b where s2: "runPolicy (run_at (mc_runs s1) a) s1 = (s2, b)" by force
  obtain s4 dec err where ask: "askGate w ?areq b s2 = (s4, dec, err)" by (metis prod_cases3)
  have pol: "gt_policy (mc_gate s2) = gt_policy (mc_gate s)"
    using resolveRun_sel(3) [of w r s] runPolicy_sel(3) [of "run_at (mc_runs s1) a" s1] s1 s2 by simp
  have "needsApproval g tool b" using se by (simp add: needsApproval_def)
  with r s1 s2 ask assms(4) v have eq: "run = run_at (mc_runs s1) a" "bnd = b" "allowedFor g tool b"
    "err = None" "D_Approved dec"
    by (auto simp: ruling_def Let_def case_prod_beta verdict_def split: if_splits)
  have "Requires (case b of Some p \<Rightarrow> bundlePolicy p | None \<Rightarrow> gt_policy (mc_gate s2)) tool (sideEffect g tool)"
    using se assms(6) pol bundlePolicy_safe [of "''tool''"] by (cases b) (simp_all add: Requires_def)
  with askGate_approved [OF ask eq(4,5)] eq(5) have "\<exists>waiting after dec. MW_blocked w waiting = (after, False) \<and>
       gt_waiters waiting (MW_approvalID w) = Some None \<and>
       gt_waiters after (MW_approvalID w) = Some (Some dec) \<and> D_Approved dec" by auto
  moreover have "OT_Status (last (mc_spans s')) = ''approved''"
  proof -
    have "mc_spans s' = mc_spans (fst (handle w g r s))" using assms(7) by simp
    then show ?thesis by (simp add: h v Let_def)
  qed
  ultimately show ?thesis using eq(3) s1 s2 by simp
qed

text \<open>
  What other requests and deciders do while a call waits: their statements succeed, runs may change
  but none is deleted, and the tool calls they add have other ids than this call's.
\<close>

definition others_wrote :: "string \<Rightarrow> db \<Rightarrow> db \<Rightarrow> bool" where
  "others_wrote callID d d' \<longleftrightarrow> db_faults d' = [] \<and> (\<forall>k. has_run d k \<longrightarrow> has_run d' k) \<and>
     (\<exists>more. db_tool_calls d' = db_tool_calls d @ more \<and> callID \<notin> TC_ID ` set more)"

definition works_meanwhile :: "string \<Rightarrow> (gate \<Rightarrow> gate \<times> bool) \<Rightarrow> bool" where
  "works_meanwhile callID blocked \<longleftrightarrow> (\<forall>g d. gt_store g = Some d \<longrightarrow> db_faults d = [] \<longrightarrow>
     (\<exists>d'. gt_store (fst (blocked g)) = Some d' \<and> others_wrote callID d d'))"

lemma others_wrote_trans: "others_wrote i d e \<Longrightarrow> others_wrote i e f \<Longrightarrow> others_wrote i d f"
  unfolding others_wrote_def by (elim conjE exE, intro conjI) (simp_all add: image_Un)

lemma others_wrote_same:
  "db_faults d' = [] \<Longrightarrow> db_runs d' = db_runs d \<Longrightarrow> db_tool_calls d' = db_tool_calls d \<Longrightarrow> others_wrote i d d'"
  by (simp add: others_wrote_def has_run_def)

lemma works_meanwhileD:
  assumes "works_meanwhile i blocked" "gt_store g = Some d" "db_faults d = []"
  obtains d' where "gt_store (fst (blocked g)) = Some d'" "others_wrote i d d'"
  using assms unfolding works_meanwhile_def by blast

definition same_calls :: "string \<Rightarrow> mcp_state \<Rightarrow> mcp_state \<Rightarrow> bool" where
  "same_calls i s s' \<longleftrightarrow> (\<exists>d d'. m_store (mc_runs s) = Some d \<and> m_store (mc_runs s') = Some d' \<and>
     db_faults d = [] \<and> others_wrote i d d')"

lemma same_calls_trans: "same_calls i s t \<Longrightarrow> same_calls i t u \<Longrightarrow> same_calls i s u"
  by (auto simp: same_calls_def intro: others_wrote_trans)

lemma runPolicy_same:
  assumes "m_store (mc_runs s) = Some d" "db_faults d = []"
  shows "same_calls i s (fst (runPolicy run s))"
  using assms
  by (auto simp: runPolicy_def on_store_def same_calls_def case_prod_beta Let_def GetPolicy_def others_wrote_same)

lemma persist_pending_tool_calls:
  assumes "gt_store g = Some d" "db_faults d = []"
  shows "\<exists>d'. gt_store (fst (persist_pending rec g)) = Some d' \<and> db_faults d' = [] \<and>
    db_runs d' = db_runs d \<and> db_tool_calls d' = db_tool_calls d"
  using assms by (auto simp: persist_pending_def CreateApproval_def case_prod_beta Let_def)

lemma askGate_same:
  assumes "works_meanwhile i (MW_blocked w)" "m_store (mc_runs s) = Some d" "db_faults d = []"
  shows "same_calls i s (fst (askGate w areq bundle s))"
proof -
  let ?g = "(mc_gate s)\<lparr>gt_store := m_store (mc_runs s)\<rparr>"
  let ?p = "case bundle of Some p \<Rightarrow> bundlePolicy p | None \<Rightarrow> gt_policy ?g"
  obtain g' dec aid e where r: "RequestUnder areq ?p (MW_approvalID w) (MW_now w) (MW_blocked w) ?g = (g', dec, aid, e)"
    by (metis prod_cases4)
  then have ask: "askGate w areq bundle s =
      (s\<lparr>mc_gate := g', mc_runs := (mc_runs s)\<lparr>m_store := gt_store g'\<rparr>\<rparr>, dec, e)"
    by (auto simp: askGate_def with_gate_def gate_Request_def case_prod_beta Let_def split: option.splits)
  have g: "gt_store ?g = Some d" by (simp add: assms(2))
  note P = persist_pending_tool_calls [OF g assms(3), of "pending_record areq (MW_approvalID w) (MW_now w)"]
  have P': "\<exists>d'. gt_store (fst (persist_pending (pending_record areq (MW_approvalID w) (MW_now w)) ?g)) = Some d' \<and> others_wrote i d d'"
    using P by (auto intro: others_wrote_same)
  have B: "\<exists>d'. gt_store after = Some d' \<and> others_wrote i d d'"
    if "persist_pending (pending_record areq (MW_approvalID w) (MW_now w)) ?g = (g1, None)"
      "MW_blocked w (notify (pending_record areq (MW_approvalID w) (MW_now w)) (register_waiter (MW_approvalID w) g1)) = (after, first)"
    for g1 after first
  proof -
    from P' that(1) obtain d1 where d1: "gt_store g1 = Some d1" "others_wrote i d d1" by auto
    then have "gt_store (notify (pending_record areq (MW_approvalID w) (MW_now w)) (register_waiter (MW_approvalID w) g1)) = Some d1"
      "db_faults d1 = []" by (simp_all add: others_wrote_def)
    from works_meanwhileD [OF assms(1) this] that(2) obtain d2 where "gt_store after = Some d2" "others_wrote i d1 d2"
      by auto
    with d1(2) show ?thesis by (auto intro: others_wrote_trans)
  qed
  from r have "\<exists>d'. gt_store g' = Some d' \<and> others_wrote i d d'"
  proof (cases rule: RequestUnder_cases)
    case ungated
    with g assms(3) show ?thesis by (auto intro: others_wrote_same)
  next
    case (unstored x)
    with P' show ?thesis by auto
  next
    case (decided g1 after)
    with B [of g1 after False] show ?thesis by auto
  next
    case (gave_up g1 after first)
    with B [of g1 after first] show ?thesis by auto
  qed
  with assms(2,3) show ?thesis by (auto simp: ask same_calls_def)
qed

lemma rulings_same:
  assumes "ruling w g r req s = (s3, run, bnd, v)" "resolveRun w r s = (s, a)"
    and "works_meanwhile i (MW_blocked w)" "m_store (mc_runs s) = Some d" "db_faults d = []"
  shows "same_calls i s s3" "run = run_at (mc_runs s) a"
proof -
  obtain s2 b where s2: "runPolicy (run_at (mc_runs s) a) s = (s2, b)" by force
  from runPolicy_same [OF assms(4,5), of i "run_at (mc_runs s) a"] s2 have 1: "same_calls i s s2" by simp
  then obtain d2 where "m_store (mc_runs s2) = Some d2" "db_faults d2 = []"
    by (auto simp: same_calls_def others_wrote_def)
  from askGate_same [OF assms(3) this] same_calls_trans [OF 1] 1 assms(1,2) s2
  show "same_calls i s s3" "run = run_at (mc_runs s) a"
    by (auto simp: ruling_def Let_def case_prod_beta split: if_splits)
qed

text \<open>
  C24. Every governed call leaves one record. A tools/call message of a live run, whose body can be
  read and decoded, adds one tool-call row with its own id, after those other calls may have added
  while it waited, of this run, tool and arguments. The row's status is approved, denied, timeout
  or blocked, and the message is sent to the upstream server exactly when it is approved and
  the upstream's URL can be requested; an approved call whose URL cannot be keeps its row and is
  not sent. Taken for granted: the store mirrors its runs and works, also while the call waits,
  when runs may change but are not deleted; and the id drawn for the call is fresh.
\<close>

theorem governed_call_recorded_once:
  assumes "read_limited maxBody r = Some body" "MW_decode w body = Some req"
    and "JR_Method req = ''tools/call''"
    and "header_get (RQ_Header r) HeaderRunID = rid" "rid \<noteq> ''''" "get_run rid (mc_runs s) = Some a"
    and "mirrors (mc_runs s)" "m_store (mc_runs s) = Some d" "works_meanwhile (MW_callID w) (MW_blocked w)"
    and "\<not> is_key TC_ID (MW_callID w) (db_tool_calls d)" "handle w g r s = (s', reply)"
  shows "\<exists>d' others rec. m_store (mc_runs s') = Some d' \<and> db_tool_calls d' = db_tool_calls d @ others @ [rec] \<and>
    MW_callID w \<notin> TC_ID ` set others \<and> TC_ID rec = MW_callID w \<and> TC_RunID rec = rid \<and>
    TC_Tool rec = fst (MW_params w (JR_Params req)) \<and> TC_Arguments rec = snd (MW_params w (JR_Params req)) \<and>
    TC_Status rec \<in> {''approved'', ''denied'', ''timeout'', ''blocked''} \<and>
    mc_sent s' = (if TC_Status rec = ''approved'' \<and> MW_url_ok w
                  then mc_sent s @ [upstream_request g r body] else mc_sent s)"
proof -
  obtain s3 run bnd v where r: "ruling w g r req s = (s3, run, bnd, v)" by (metis prod_cases4)
  note h = handle_call [OF assms(1-3)] handleCall_ruling [OF r]
  from mirrorsD [OF assms(7,6)] assms(8) have M: "db_faults d = []" "rn_ID (run_at (mc_runs s) a) = rid"
    "lookup RR_ID rid (db_runs d) = Some (run_rec (run_at (mc_runs s) a))" by (metis option.inject)+
  note same = rulings_same [OF r resolveRun_known [OF assms(4-6)] assms(9,8) M(1)]
  from same(1) assms(8) obtain d3 others where d3: "m_store (mc_runs s3) = Some d3" "db_faults d3 = []"
    "\<And>k. has_run d k \<Longrightarrow> has_run d3 k" "db_tool_calls d3 = db_tool_calls d @ others" "MW_callID w \<notin> TC_ID ` set others"
    by (auto simp: same_calls_def others_wrote_def)
  have has: "has_run d3 rid" using M(3) by (intro d3(3)) (simp add: has_run_def is_key_lookup)
  have fresh: "\<not> is_key TC_ID (MW_callID w) (db_tool_calls d3)"
    using assms(10) d3(5) unfolding d3(4) by (auto simp: is_key_iff)
  have id: "rn_ID run = rid" using same(2) M(2) by simp
  let ?rec = "\<lambda>se. \<lparr>TC_ID = MW_callID w, TC_RunID = rid, TC_StepIndex = U_Loops (VW_Usage (run_View run)),
      TC_Tool = fst (MW_params w (JR_Params req)), TC_SideEffect = se,
      TC_Arguments = snd (MW_params w (JR_Params req)), TC_Status = verdict_status v, TC_CreatedAt = MW_now w\<rparr>"
  have rec: "m_store (mc_runs (recordToolCall w rid (U_Loops (VW_Usage (run_View run)))
        (fst (MW_params w (JR_Params req))) se (snd (MW_params w (JR_Params req))) (verdict_status v) s3)) =
      Some (d3\<lparr>db_tool_calls := db_tool_calls d @ others @ [?rec se]\<rparr>)" for se
    using d3(1,2) has fresh by (simp add: recordToolCall_def on_store_def AppendToolCall_def d3(4))
  have s': "s' = fst (handle w g r s)" using assms(11) by simp
  have "v = Approved \<longleftrightarrow> verdict_status v = ''approved''"
    "verdict_status v \<in> {''approved'', ''denied'', ''timeout'', ''blocked''}" by (cases v; simp)+
  then show ?thesis
    using rec d3(5) ruling_sel(2) [OF r]
    by (cases "v = Approved") (auto simp: s' h Let_def id)
qed

text \<open>A call without a bundle that is allowed and gets an approving decision is sent.\<close>

lemma approved_call_sent:
  assumes "read_limited maxBody r = Some body" "MW_decode w body = Some req"
    and "JR_Method req = ''tools/call''"
    and "header_get (RQ_Header r) HeaderRunID = rid" "rid \<noteq> ''''" "get_run rid (mc_runs s) = Some a"
    and "mirrors (mc_runs s)" "m_store (mc_runs s) = Some d" "\<not> is_key AR_ID (MW_approvalID w) (db_approvals d)"
    and "rn_PolicyRef (run_at (mc_runs s) a) = ''''"
    and "matchAllow (MG_allow g) (fst (MW_params w (JR_Params req)))" "MW_url_ok w"
    and "\<forall>waiting. gt_waiters (fst (MW_blocked w waiting)) (MW_approvalID w) = Some (Some dec) \<and>
           \<not> snd (MW_blocked w waiting)" "D_Approved dec"
  shows "mc_sent (fst (handle w g r s)) = mc_sent s @ [upstream_request g r body]"
proof -
  obtain s3 run bnd v where r: "ruling w g r req s = (s3, run, bnd, v)" by (metis prod_cases4)
  note h = handle_call [OF assms(1-3)] handleCall_ruling [OF r]
  from mirrorsD [OF assms(7,6)] assms(8) have M: "db_faults d = []" "rn_ID (run_at (mc_runs s) a) = rid"
    "lookup RR_ID rid (db_runs d) = Some (run_rec (run_at (mc_runs s) a))" by (metis option.inject)+
  let ?run = "run_at (mc_runs s) a" and ?tool = "fst (MW_params w (JR_Params req))"
  let ?areq = "\<lparr>Q_RunID = rn_ID ?run, Q_StepIndex = U_Loops (VW_Usage (run_View ?run)), Q_Tool = ?tool,
      Q_SideEffect = sideEffect g ?tool, Q_Arguments = snd (MW_params w (JR_Params req))\<rparr>"
  have has: "has_run d (rn_ID ?run)" using M by (simp add: has_run_def is_key_lookup)
  let ?g = "(mc_gate s)\<lparr>gt_store := m_store (mc_runs s)\<rparr>"
  have p: "snd (persist_pending (pending_record ?areq (MW_approvalID w) (MW_now w)) ?g) = None"
    using has M(1) assms(8,9) by (simp add: persist_pending_def CreateApproval_def pending_record_def)
  obtain s4 dec' err where ask: "askGate w ?areq None s = (s4, dec', err)" by (metis prod_cases3)
  obtain g' dq aid e where q: "RequestUnder ?areq (gt_policy ?g) (MW_approvalID w) (MW_now w) (MW_blocked w) ?g = (g', dq, aid, e)"
    by (metis prod_cases4)
  with ask have eq: "dec' = dq" "err = e"
    by (auto simp: askGate_def with_gate_def gate_Request_def case_prod_beta Let_def)
  from q have ok: "e = None \<and> D_Approved dq"
  proof (cases rule: RequestUnder_cases)
    case (gave_up g1 after first)
    with assms(13) have "gt_waiters after (MW_approvalID w) = Some (Some dec)" "\<not> first" by (metis fst_conv snd_conv)+
    with gave_up q show ?thesis by (auto simp: RequestUnder_def Let_def no_decision_def)
  next
    case (decided g1 after)
    with assms(13,14) show ?thesis by (metis fst_conv option.inject)
  qed (use p in simp_all)
  have "v = Approved"
    using r ask eq ok assms(10,11) resolveRun_known [OF assms(4-6), of w]
    by (auto simp: ruling_def runPolicy_def Let_def case_prod_beta allowedFor_def verdict_def split: if_splits)
  then show ?thesis using ruling_sel(2) [OF r] assms(12) by (simp add: h Let_def)
qed

text \<open>
  Cancelling a run does not stop its tool calls. For a live run that is halted, cancelled or out
  of budget, without a bundle, a tools/call message for an allowed tool is still sent to the upstream
  server once a decision that approves arrives: the wait ends with the HTTP request's context,
  not with the run's.
\<close>

theorem halted_run_still_calls_tools:
  assumes "read_limited maxBody r = Some body" "MW_decode w body = Some req"
    and "JR_Method req = ''tools/call''"
    and "header_get (RQ_Header r) HeaderRunID = rid" "rid \<noteq> ''''" "get_run rid (mc_runs s) = Some a"
    and "mirrors (mc_runs s)" "m_store (mc_runs s) = Some d" "\<not> is_key AR_ID (MW_approvalID w) (db_approvals d)"
    and "Halted (rn_gov (run_at (mc_runs s) a))" "rn_PolicyRef (run_at (mc_runs s) a) = ''''"
    and "matchAllow (MG_allow g) (fst (MW_params w (JR_Params req)))" "MW_url_ok w"
    and "\<forall>waiting. gt_waiters (fst (MW_blocked w waiting)) (MW_approvalID w) = Some (Some dec) \<and>
           \<not> snd (MW_blocked w waiting)" "D_Approved dec"
  shows "mc_sent (fst (handle w g r s)) = mc_sent s @ [upstream_request g r body]"
  by (rule approved_call_sent [OF assms(1-9,11-15)])

text \<open>
  A failed lookup drops the bundle. When the store fails the lookup of a run's policy bundle,
  a tool on the read-only list is forwarded under an open global allowlist, whatever the
  bundle's allowlist and approval rules say of it.
\<close>

theorem failed_lookup_drops_bundle:
  assumes "read_limited maxBody r = Some body" "MW_decode w body = Some req"
    and "JR_Method req = ''tools/call''"
    and "header_get (RQ_Header r) HeaderRunID = rid" "rid \<noteq> ''''" "get_run rid (mc_runs s) = Some a"
    and "m_store (mc_runs s) = Some d" "db_faults d = True # faults" "MG_allow g = []"
    and "fst (MW_params w (JR_Params req)) \<in> set (MG_readonly g)" "MW_url_ok w"
  shows "mc_sent (fst (handle w g r s)) = mc_sent s @ [upstream_request g r body]"
proof -
  obtain s3 run bnd v where r: "ruling w g r req s = (s3, run, bnd, v)" by (metis prod_cases4)
  note h = handle_call [OF assms(1-3)] handleCall_ruling [OF r]
  have "snd (runPolicy (run_at (mc_runs s) a) s) = None"
    using assms(7,8) by (simp add: runPolicy_def on_store_def GetPolicy_def query_def statement_def Let_def)
  then have "v = Approved"
    using r assms(9,10) resolveRun_known [OF assms(4-6), of w]
    by (auto simp: ruling_def Let_def case_prod_beta allowedFor_def verdict_def needsApproval_def sideEffect_def
        split: if_splits)
  then show ?thesis using ruling_sel(2) [OF r] assms(11) by (simp add: h Let_def)
qed

section \<open>The properties at work\<close>

definition sample_rpc :: "string \<Rightarrow> rpc_request" where
  "sample_rpc b = \<lparr>JR_ID = ''1'', JR_Method = ''tools/call'', JR_Params = b\<rparr>"

definition sample_world :: mcp_world where
  "sample_world = \<lparr>MW_decode = \<lambda>b. Some (sample_rpc b),
     MW_params = \<lambda>p. (p, []), MW_url_ok = True,
     MW_do = \<lambda>q. Answered \<lparr>UP_Status = 200, UP_Header = [], UP_Body = ''ok''\<rparr>,
     MW_blocked = \<lambda>g. (g\<lparr>gt_waiters := (gt_waiters g)(''n1'' \<mapsto> Some (yes_by ''bob''))\<rparr>, False),
     MW_runID = ''r2'', MW_approvalID = ''n1'', MW_callID = ''t1'', MW_now = 5\<rparr>"

definition sample_mcp :: "string list \<Rightarrow> mcp_config" where
  "sample_mcp readonly = mcp_New ''http://up/'' [] readonly 0"

definition sample_post :: "string \<Rightarrow> http_request" where
  "sample_post tool = \<lparr>RQ_Header = [(''X-Riskkernel-Run-Id'', ''r9'')], RQ_Body = Some tool\<rparr>"

definition sample_mcp_state :: "manager \<Rightarrow> mcp_state" where
  "sample_mcp_state m = \<lparr>mc_runs = m, mc_gate = NewGate None safe_policy False, mc_spans = [], mc_sent = []\<rparr>"

lemma sample_key [simp]: "same_key ''X-Riskkernel-Run-Id'' HeaderRunID"
  by code_simp

lemma sample_sel [simp]:
  "read_limited maxBody (sample_post tool) = Some (take maxBody tool)"
  "MW_decode sample_world b = Some (sample_rpc b)" "JR_Method (sample_rpc b) = ''tools/call''"
  "JR_Params (sample_rpc b) = b"
  "MW_params sample_world p = (p, [])" "MW_url_ok sample_world" "MW_approvalID sample_world = ''n1''"
  "header_get (RQ_Header (sample_post tool)) HeaderRunID = ''r9''"
  "mc_runs (sample_mcp_state m) = m" "mc_sent (sample_mcp_state m) = []"
  "MG_readonly (sample_mcp ts) = ts" "MG_allow (sample_mcp ts) = []"
  "AP_DefaultSafe (gt_policy (mc_gate (sample_mcp_state m)))"
  "MW_callID sample_world = ''t1''"
  by (simp_all add: sample_post_def read_limited_def sample_world_def sample_rpc_def sample_mcp_state_def sample_mcp_def mcp_New_def NewGate_def safe_policy_def)

lemma take_maxBody [simp]: "take maxBody ''rm'' = ''rm''"
  by (simp add: maxBody_def)

lemma sample_blocked:
  "gt_waiters (fst (MW_blocked sample_world waiting)) ''n1'' = Some (Some (yes_by ''bob'')) \<and>
     \<not> snd (MW_blocked sample_world waiting)"
  "works_meanwhile (MW_callID sample_world) (MW_blocked sample_world)"
  by (simp_all add: sample_world_def works_meanwhile_def others_wrote_def)

lemma sample_sent:
  "mc_sent (fst (handle sample_world (sample_mcp []) (sample_post ''rm'') (sample_mcp_state sample_manager))) =
     [upstream_request (sample_mcp []) (sample_post ''rm'') ''rm'']"
  by (subst approved_call_sent [where rid = "''r9''" and a = 0 and dec = "yes_by ''bob''" and req = "sample_rpc ''rm''"
        and body = "''rm''" and d = "empty_db\<lparr>db_runs := [run_rec (newRun ''r9'' ''agent'' (token_cap 100) [] 0)]\<rparr>"])
     (use sample_manager_run sample_blocked in \<open>simp_all add: empty_db_def is_key_def newRun_def yes_by_def\<close>)

lemma side_effects_need_approval_witness:
  "OT_Status (last (mc_spans (fst (handle sample_world (sample_mcp []) (sample_post ''rm'')
     (sample_mcp_state sample_manager))))) = ''approved''"
proof -
  obtain s' reply where h: "handle sample_world (sample_mcp []) (sample_post ''rm'') (sample_mcp_state sample_manager) = (s', reply)"
    by force
  then have "mc_sent s' \<noteq> mc_sent (sample_mcp_state sample_manager)" using sample_sent by auto
  from side_effects_need_approval [OF _ _ _ _ _ _ h this, of "''rm''" "sample_rpc ''rm''" "''rm''"] h show ?thesis by simp
qed

lemma governed_call_recorded_once_witness:
  "\<exists>d' rec. m_store (mc_runs (fst (handle sample_world (sample_mcp []) (sample_post ''rm'')
       (sample_mcp_state sample_manager)))) = Some d' \<and>
     last (db_tool_calls d') = rec \<and> TC_RunID rec = ''r9'' \<and> TC_Tool rec = ''rm'' \<and> TC_Status rec = ''approved''"
proof -
  obtain s' reply where h: "handle sample_world (sample_mcp []) (sample_post ''rm'') (sample_mcp_state sample_manager) = (s', reply)"
    by force
  note S = sample_manager_run
  show ?thesis
    using governed_call_recorded_once [OF _ _ _ _ _ _ _ _ sample_blocked(2) _ h, of "''rm''" "sample_rpc ''rm''" "''r9''" 0
        "empty_db\<lparr>db_runs := [run_rec (newRun ''r9'' ''agent'' (token_cap 100) [] 0)]\<rparr>"]
      sample_sent h S by (auto simp: empty_db_def is_key_def)
qed

lemma halted_run_still_calls_tools_witness:
  "mc_sent (fst (handle sample_world (sample_mcp []) (sample_post ''rm'')
     (sample_mcp_state (run_Cancel 0 1 sample_manager)))) = [upstream_request (sample_mcp []) (sample_post ''rm'') ''rm'']"
proof -
  note S = sample_manager_run
  from mirrorsD [OF S(3,2)] obtain d where d: "m_store sample_manager = Some d" "db_faults d = []"
    "0 < length (m_heap sample_manager)" "storable (run_at sample_manager 0)" by metis
  from run_Cancel_effect [OF d(3,1,2,4)] have e: "run_effect 0 sample_manager (run_Cancel 0 1 sample_manager)" .
  from effect_mirrors [OF S(3,2) e] have m: "mirrors (run_Cancel 0 1 sample_manager)" .
  have g: "get_run ''r9'' (run_Cancel 0 1 sample_manager) = Some 0"
    using e S(2) by (auto simp: run_effect_def get_run_def)
  have r: "run_at (run_Cancel 0 1 sample_manager) 0 =
      (run_at sample_manager 0)\<lparr>rn_gov := gov_Cancel (rn_gov (run_at sample_manager 0)), rn_updatedAt := 1\<rparr>"
    using d(3) by (simp add: run_Cancel_def touch_def set_gov_def persistRun_def)
  obtain d' where d': "m_store (run_Cancel 0 1 sample_manager) = Some d'" "db_approvals d' = []"
    using S(4) by (auto simp: run_Cancel_def touch_def set_gov_def persistRun_def empty_db_def UpsertRun_def statement_def)
  show ?thesis
    by (subst halted_run_still_calls_tools [where rid = "''r9''" and a = 0 and dec = "yes_by ''bob''" and d = d'
        and req = "sample_rpc ''rm''" and body = "''rm''"])
       (use m g r d' S(1) sample_blocked in \<open>simp_all add: is_key_def newRun_def gov_New_fresh gov_Cancel_def
          haltLocked_def gov_Close_def Let_def Halted_def yes_by_def\<close>)
qed

lemma failed_lookup_drops_bundle_witness:
  "mc_sent (fst (handle sample_world (sample_mcp [''rm'']) (sample_post ''rm'')
     (sample_mcp_state (sample_manager\<lparr>m_store := Some (empty_db\<lparr>db_faults := [True]\<rparr>)\<rparr>)))) =
     [upstream_request (sample_mcp [''rm'']) (sample_post ''rm'') ''rm'']"
  by (subst failed_lookup_drops_bundle [where rid = "''r9''" and a = 0 and req = "sample_rpc ''rm''"
        and body = "''rm''" and faults = "[]" and d = "empty_db\<lparr>db_faults := [True]\<rparr>"])
     (use sample_manager_run(2) in \<open>simp_all add: get_run_def empty_db_def\<close>)

end
