(* ===== verification/Utf8.thy ===== *)
theory Utf8
  imports GoPrelude
begin

text \<open>
  UTF-8 as package unicode/utf8 reads it: well-formed text, the size of the rune at the start
  of a byte string (0 for a byte that starts none, which Go decodes as U+FFFD of size 1), and
  the encoding of a code point.
\<close>

definition utf8_tail :: "nat \<Rightarrow> bool" where
  "utf8_tail n \<longleftrightarrow> 128 \<le> n \<and> n \<le> 191"

text \<open>Well-formed UTF-8: no overlong form, no surrogate, nothing above U+10FFFF.\<close>

fun utf8_ok :: "nat list \<Rightarrow> bool" where
  "utf8_ok [] = True"
| "utf8_ok (a # s) =
     (if a < 128 then utf8_ok s
      else if 194 \<le> a \<and> a \<le> 223 then
        (case s of b # t \<Rightarrow> utf8_tail b \<and> utf8_ok t | [] \<Rightarrow> False)
      else if 224 \<le> a \<and> a \<le> 239 then
        (case s of b # c # t \<Rightarrow> utf8_tail b \<and> utf8_tail c \<and> (a = 224 \<longrightarrow> 160 \<le> b) \<and>
             (a = 237 \<longrightarrow> b \<le> 159) \<and> utf8_ok t
         | _ \<Rightarrow> False)
      else if 240 \<le> a \<and> a \<le> 244 then
        (case s of b # c # d # t \<Rightarrow> utf8_tail b \<and> utf8_tail c \<and> utf8_tail d \<and>
             (a = 240 \<longrightarrow> 144 \<le> b) \<and> (a = 244 \<longrightarrow> b \<le> 143) \<and> utf8_ok t
         | _ \<Rightarrow> False)
      else False)"

definition byte_of :: "char \<Rightarrow> nat" where
  "byte_of c = of_char c"

definition valid_text :: "string \<Rightarrow> bool" where
  "valid_text s \<longleftrightarrow> utf8_ok (map of_char s)"

fun rune_size :: "string \<Rightarrow> nat" where
  "rune_size [] = 0"
| "rune_size (x # s) =
     (let a = byte_of x in
      if a < 128 then 1
      else if 194 \<le> a \<and> a \<le> 223 then
        (case s of y # _ \<Rightarrow> if utf8_tail (byte_of y) then 2 else 0 | [] \<Rightarrow> 0)
      else if 224 \<le> a \<and> a \<le> 239 then
        (case s of y # z # _ \<Rightarrow>
           if utf8_tail (byte_of y) \<and> utf8_tail (byte_of z) \<and> (a = 224 \<longrightarrow> 160 \<le> byte_of y) \<and>
              (a = 237 \<longrightarrow> byte_of y \<le> 159) then 3 else 0
         | _ \<Rightarrow> 0)
      else if 240 \<le> a \<and> a \<le> 244 then
        (case s of y # z # w # _ \<Rightarrow>
           if utf8_tail (byte_of y) \<and> utf8_tail (byte_of z) \<and> utf8_tail (byte_of w) \<and>
              (a = 240 \<longrightarrow> 144 \<le> byte_of y) \<and> (a = 244 \<longrightarrow> byte_of y \<le> 143) then 4 else 0
         | _ \<Rightarrow> 0)
      else 0)"

text \<open>\<open>utf8.AppendRune\<close> on a code point that is not a surrogate.\<close>

definition rune_text :: "nat \<Rightarrow> string" where
  "rune_text r =
     (if r < 128 then [char_of r]
      else if r < 2048 then [char_of (192 + r div 64), char_of (128 + r mod 64)]
      else if r < 65536 then
        [char_of (224 + r div 4096), char_of (128 + r div 64 mod 64), char_of (128 + r mod 64)]
      else [char_of (240 + r div 262144), char_of (128 + r div 4096 mod 64),
            char_of (128 + r div 64 mod 64), char_of (128 + r mod 64)])"

definition rune_error :: string where
  "rune_error = [CHR 0xEF, CHR 0xBF, CHR 0xBD]"

text \<open>Well-formed text is a list of runes, none of them broken.\<close>

lemma valid_text_Nil [simp]: "valid_text []"
  by (simp add: valid_text_def)

lemma rune_size_valid:
  assumes "valid_text (c # s)"
  shows "0 < rune_size (c # s)" "rune_size (c # s) \<le> length (c # s)" "valid_text (drop (rune_size (c # s)) (c # s))"
  using assms by (auto simp: valid_text_def byte_of_def Let_def split: if_splits list.splits)

lemma rune_size_ascii: "byte_of c < 128 \<Longrightarrow> rune_size (c # s) = 1"
  by simp

lemma rune_size_wide: "\<not> byte_of c < 128 \<Longrightarrow> rune_size (c # s) \<noteq> 1"
  by (auto simp: Let_def split: list.splits)

text \<open>What follows a whole rune does not change its size.\<close>

lemma rune_size_append:
  assumes "0 < rune_size s"
  shows "rune_size (s @ t) = rune_size s"
  using assms by (cases s) (auto simp: Let_def split: list.splits if_splits)

lemma rune_size_take:
  assumes "0 < rune_size s"
  shows "rune_size (take (rune_size s) s @ t) = rune_size s"
  using assms by (cases s) (auto simp: Let_def split: list.splits if_splits)

text \<open>Every byte of a rune but the first is a continuation: none is ASCII.\<close>

lemma rune_bytes_wide:
  assumes "\<not> byte_of c < 128" "x \<in> set (take (rune_size (c # s)) (c # s))"
  shows "\<not> byte_of x < 128"
  using assms by (auto simp: Let_def utf8_tail_def split: list.splits if_splits)

end
