(* ===== verification/Postgres.thy ===== *)
theory Postgres
  imports Storage Utf8
begin

text \<open>
  The Postgres store (\<open>internal/storage/postgres.go\<close>): the same methods on the same tables
  (the record \<open>db\<close>) in another dialect. What differs is the backend. A TEXT parameter must
  be valid UTF-8 without a NUL byte, or the statement fails, reads included. A DOUBLE
  PRECISION column takes a NaN, which sorts above every number. Text compares by the
  collation of the database: the argument \<open>le\<close>. Without a deciding ORDER BY key the rows
  come in the order of the scan: the argument \<open>ord\<close>, a list of row numbers. \<open>SUM\<close> of a
  BIGINT is an exact numeric that fails to scan when it leaves the int64 range; \<open>SUM\<close> of a
  DOUBLE PRECISION is the argument \<open>fsum\<close>, None where Postgres reports an overflow.
\<close>

section \<open>Parameters and rows\<close>

definition text_param :: "string \<Rightarrow> bool" where
  "text_param s \<longleftrightarrow> list_all (\<lambda>c. of_char c \<noteq> (0 :: nat)) s \<and> utf8_ok (map of_char s)"

text \<open>A statement with its TEXT parameters bound.\<close>

definition pg_exec :: "string list \<Rightarrow> (db \<Rightarrow> 'a db_result) \<Rightarrow> db \<Rightarrow> 'a db_result" where
  "pg_exec params f = statement (\<lambda>d. if list_all text_param params then f d else (d, Inl ErrDB))"

definition pg_query :: "string list \<Rightarrow> (db \<Rightarrow> store_error + 'a) \<Rightarrow> db \<Rightarrow> 'a db_result" where
  "pg_query params q = pg_exec params (\<lambda>d. (d, q d))"

text \<open>The rows as the scan returns them.\<close>

definition scanned :: "nat list \<Rightarrow> 'r list \<Rightarrow> 'r list" where
  "scanned ord rows = (if sort ord = [0..<length rows] then map (\<lambda>i. rows ! i) ord else rows)"

definition pg_newest_first ::
    "(string \<Rightarrow> string \<Rightarrow> bool) \<Rightarrow> nat list \<Rightarrow> ('r \<Rightarrow> time) \<Rightarrow> 'r list \<Rightarrow> 'r list" where
  "pg_newest_first le ord stamp rows =
     sort_by (\<lambda>x y. le (fmtTime (stamp y)) (fmtTime (stamp x))) (scanned ord rows)"

section \<open>Runs\<close>

definition pg_UpsertRun :: "run_record \<Rightarrow> db \<Rightarrow> unit db_result" where
  "pg_UpsertRun r =
     pg_exec [RR_ID r, RR_Name r, RR_Status r, RR_HaltReason r, RR_PolicyRef r] (\<lambda>d.
       (d\<lparr>db_runs := upsert RR_ID merge_run r (db_runs d)\<rparr>, Inr ()))"

definition pg_GetRun :: "string \<Rightarrow> db \<Rightarrow> run_record db_result" where
  "pg_GetRun rid = pg_query [rid] (\<lambda>d. case lookup RR_ID rid (db_runs d) of
     None \<Rightarrow> Inl ErrNotFound | Some r \<Rightarrow> Inr r)"

definition pg_ListRuns ::
    "(string \<Rightarrow> string \<Rightarrow> bool) \<Rightarrow> nat list \<Rightarrow> db \<Rightarrow> run_record list db_result" where
  "pg_ListRuns le ord = pg_query [] (\<lambda>d. Inr (pg_newest_first le ord RR_CreatedAt (db_runs d)))"

definition pg_ListRunsByStatus ::
    "(string \<Rightarrow> string \<Rightarrow> bool) \<Rightarrow> nat list \<Rightarrow> string \<Rightarrow> db \<Rightarrow> run_record list db_result" where
  "pg_ListRunsByStatus le ord status = pg_query [status] (\<lambda>d.
     Inr (pg_newest_first le ord RR_CreatedAt (filter (\<lambda>r. RR_Status r = status) (db_runs d))))"

section \<open>Steps\<close>

definition pg_UpsertStep :: "step_record \<Rightarrow> db \<Rightarrow> unit db_result" where
  "pg_UpsertStep s = pg_exec [SR_RunID s, SR_Status s] (\<lambda>d.
     if has_run d (SR_RunID s)
     then (d\<lparr>db_steps := upsert step_key merge_step s (db_steps d)\<rparr>, Inr ()) else (d, Inl ErrDB))"

definition pg_ListSteps :: "nat list \<Rightarrow> string \<Rightarrow> db \<Rightarrow> step_record list db_result" where
  "pg_ListSteps ord runID = pg_query [runID] (\<lambda>d. Inr (sort_by (\<lambda>x y. SR_Index x \<le>s SR_Index y)
     (scanned ord (filter (\<lambda>s. SR_RunID s = runID) (db_steps d)))))"

section \<open>The cost ledger\<close>

definition pg_AppendLedger :: "ledger_entry \<Rightarrow> db \<Rightarrow> unit db_result" where
  "pg_AppendLedger e = pg_exec [LE_RunID e, LE_Provider e, LE_Model e, LE_ResponseID e] (\<lambda>d.
     if has_run d (LE_RunID e)
     then (d\<lparr>db_ledger := db_ledger d @ [e]\<rparr>, Inr ()) else (d, Inl ErrDB))"

definition pg_LedgerForRun :: "string \<Rightarrow> db \<Rightarrow> ledger_entry list db_result" where
  "pg_LedgerForRun runID = pg_query [runID] (\<lambda>d. Inr (ledger_of runID d))"

text \<open>\<open>SUM\<close> of a BIGINT column, scanned into an int64.\<close>

definition pg_sum :: "int64 list \<Rightarrow> int64 option" where
  "pg_sum xs = (let t = sum_list (map sint xs) in
     if - (2 ^ 63) \<le> t \<and> t < 2 ^ 63 then Some (word_of_int t) else None)"

definition pg_fsum :: "(float64 list \<Rightarrow> float64 option) \<Rightarrow> float64 list \<Rightarrow> float64 option" where
  "pg_fsum fsum xs = (if xs = [] then Some fzero else fsum xs)"

definition pg_Totals ::
    "(float64 list \<Rightarrow> float64 option) \<Rightarrow> nat list \<Rightarrow> string \<Rightarrow> db \<Rightarrow> ledger_totals db_result" where
  "pg_Totals fsum ord runID = pg_query [runID] (\<lambda>d.
     let es = ledger_of runID d in
     case (pg_sum (map LE_PromptTokens es), pg_sum (map LE_CompletionTokens es),
           pg_fsum fsum (map LE_Dollars (scanned ord es))) of
       (Some p, Some c, Some x) \<Rightarrow>
         Inr \<lparr>LT_RunID = runID, LT_Calls = of_nat (length es), LT_PromptTokens = p,
              LT_CompletionTokens = c, LT_Dollars = x\<rparr>
     | _ \<Rightarrow> Inl ErrDB)"

text \<open>\<open>r.metadata::jsonb\<close> refuses a document with an escaped NUL.\<close>

definition jsonb_castable :: "run_record \<Rightarrow> bool" where
  "jsonb_castable r \<longleftrightarrow> list_all (\<lambda>(k, v). list_all (\<lambda>c. of_char c \<noteq> (0 :: nat)) (k @ v)) (RR_Metadata r)"

definition metadata_key :: "string \<Rightarrow> string option" where
  "metadata_key by =
     (if by \<in> {''provider'', ''model'', ''day'', ''name''} \<or> \<not> HasPrefix by ''metadata.'' then None
      else Some (TrimPrefix by ''metadata.''))"

definition pg_in_range :: "(string \<Rightarrow> string \<Rightarrow> bool) \<Rightarrow> summarize_options \<Rightarrow> ledger_entry \<Rightarrow> bool" where
  "pg_in_range le opts e \<longleftrightarrow>
     (case SO_Since opts of None \<Rightarrow> True | Some t \<Rightarrow> le (fmtTime t) (fmtTime (LE_CreatedAt e))) \<and>
     (case SO_Until opts of None \<Rightarrow> True | Some t \<Rightarrow> \<not> le (fmtTime t) (fmtTime (LE_CreatedAt e)))"

definition pg_make_group ::
    "(float64 list \<Rightarrow> float64 option) \<Rightarrow> string \<Rightarrow> ledger_entry list \<Rightarrow> usage_group option" where
  "pg_make_group fsum k es =
     (case (pg_sum (map LE_PromptTokens es), pg_sum (map LE_CompletionTokens es),
            pg_fsum fsum (map LE_Dollars es)) of
        (Some p, Some c, Some x) \<Rightarrow>
          Some \<lparr>UG_Key = k, UG_Calls = of_nat (length es), UG_PromptTokens = p,
                UG_CompletionTokens = c, UG_Dollars = x\<rparr>
      | _ \<Rightarrow> None)"

text \<open>\<open>ORDER BY SUM(l.dollars) DESC, k ASC\<close>, with a NaN above every number.\<close>

definition pg_flt :: "float64 \<Rightarrow> float64 \<Rightarrow> bool" where
  "pg_flt x y \<longleftrightarrow> x \<noteq> NaN \<and> y = NaN \<or> flt x y"

definition pg_group_le :: "(string \<Rightarrow> string \<Rightarrow> bool) \<Rightarrow> usage_group \<Rightarrow> usage_group \<Rightarrow> bool" where
  "pg_group_le le g h \<longleftrightarrow> pg_flt (UG_Dollars h) (UG_Dollars g) \<or>
     \<not> pg_flt (UG_Dollars g) (UG_Dollars h) \<and> le (UG_Key g) (UG_Key h)"

definition pg_SummarizeLedger ::
    "(string \<Rightarrow> string \<Rightarrow> bool) \<Rightarrow> (float64 list \<Rightarrow> float64 option) \<Rightarrow> nat list \<Rightarrow>
     summarize_options \<Rightarrow> db \<Rightarrow> usage_summary db_result" where
  "pg_SummarizeLedger le fsum ord opts d =
     (case group_expr (SO_By opts) of
        None \<Rightarrow> (d, Inl (ErrInvalid (SO_By opts)))
      | Some key \<Rightarrow> pg_query [] (\<lambda>d.
          let rows = filter (\<lambda>e. pg_in_range le opts e \<and> key d e \<noteq> None) (scanned ord (db_ledger d));
              ks = remdups (map (\<lambda>e. the (key d e)) rows);
              cast = (metadata_key (SO_By opts) = None \<or> list_all (\<lambda>e.
                case lookup RR_ID (LE_RunID e) (db_runs d) of None \<Rightarrow> True | Some r \<Rightarrow> jsonb_castable r) rows)
          in if \<not> cast then Inl ErrDB
             else (case all_some (map (\<lambda>k. pg_make_group fsum k (filter (\<lambda>e. key d e = Some k) rows)) ks) of
               None \<Rightarrow> Inl ErrDB
             | Some gs \<Rightarrow>
                 (let gs = sort_by (pg_group_le le) gs
                  in Inr \<lparr>US_By = SO_By opts, US_Groups = gs, US_Total = fold add_group gs zero_group\<rparr>))) d)"

section \<open>Tool calls\<close>

definition pg_AppendToolCall :: "tool_call_record \<Rightarrow> db \<Rightarrow> unit db_result" where
  "pg_AppendToolCall t = pg_exec [TC_ID t, TC_RunID t, TC_Tool t, TC_SideEffect t, TC_Status t] (\<lambda>d.
     if has_run d (TC_RunID t) \<and> \<not> is_key TC_ID (TC_ID t) (db_tool_calls d)
     then (d\<lparr>db_tool_calls := db_tool_calls d @ [t]\<rparr>, Inr ()) else (d, Inl ErrDB))"

definition pg_tool_call_le ::
    "(string \<Rightarrow> string \<Rightarrow> bool) \<Rightarrow> tool_call_record \<Rightarrow> tool_call_record \<Rightarrow> bool" where
  "pg_tool_call_le le x y \<longleftrightarrow>
     (if TC_StepIndex x \<noteq> TC_StepIndex y then TC_StepIndex x <s TC_StepIndex y
      else if fmtTime (TC_CreatedAt x) \<noteq> fmtTime (TC_CreatedAt y)
        then le (fmtTime (TC_CreatedAt x)) (fmtTime (TC_CreatedAt y))
      else le (TC_ID x) (TC_ID y))"

definition pg_ListToolCalls ::
    "(string \<Rightarrow> string \<Rightarrow> bool) \<Rightarrow> nat list \<Rightarrow> string \<Rightarrow> db \<Rightarrow> tool_call_record list db_result" where
  "pg_ListToolCalls le ord runID = pg_query [runID] (\<lambda>d. Inr (sort_by (pg_tool_call_le le)
     (scanned ord (filter (\<lambda>t. TC_RunID t = runID) (db_tool_calls d)))))"

section \<open>Facts\<close>

definition pg_PutFact :: "fact \<Rightarrow> db \<Rightarrow> unit db_result" where
  "pg_PutFact f = pg_exec [F_Namespace f, F_Key f, F_Value f, F_RunID f] (\<lambda>d.
     (d\<lparr>db_facts := upsert fact_key merge_fact f (db_facts d)\<rparr>, Inr ()))"

definition pg_GetFact :: "string \<Rightarrow> string \<Rightarrow> db \<Rightarrow> fact db_result" where
  "pg_GetFact ns key = pg_query [ns, key] (\<lambda>d. case lookup fact_key (ns, key) (db_facts d) of
     None \<Rightarrow> Inl ErrNotFound | Some f \<Rightarrow> Inr f)"

definition pg_ListFacts ::
    "(string \<Rightarrow> string \<Rightarrow> bool) \<Rightarrow> nat list \<Rightarrow> string \<Rightarrow> db \<Rightarrow> fact list db_result" where
  "pg_ListFacts le ord ns = pg_query [ns] (\<lambda>d. Inr (sort_by (\<lambda>x y. le (F_Key x) (F_Key y))
     (scanned ord (filter (\<lambda>f. F_Namespace f = ns) (db_facts d)))))"

section \<open>Approvals\<close>

definition pg_CreateApproval :: "approval_record \<Rightarrow> db \<Rightarrow> unit db_result" where
  "pg_CreateApproval a =
     pg_exec [AR_ID a, AR_RunID a, AR_Tool a, AR_SideEffect a, AR_Status a, AR_Reason a, AR_DecidedBy a] (\<lambda>d.
       if has_run d (AR_RunID a) \<and> \<not> is_key AR_ID (AR_ID a) (db_approvals d)
       then (d\<lparr>db_approvals := db_approvals d @ [a]\<rparr>, Inr ()) else (d, Inl ErrDB))"

definition pg_GetApproval :: "string \<Rightarrow> db \<Rightarrow> approval_record db_result" where
  "pg_GetApproval aid = pg_query [aid] (\<lambda>d. case lookup AR_ID aid (db_approvals d) of
     None \<Rightarrow> Inl ErrNotFound | Some a \<Rightarrow> Inr a)"

definition pg_ResolveApproval ::
    "string \<Rightarrow> string \<Rightarrow> string \<Rightarrow> string \<Rightarrow> time \<Rightarrow> db \<Rightarrow> unit db_result" where
  "pg_ResolveApproval aid status reason decidedBy decidedAt =
     pg_exec [status, reason, decidedBy, aid] (\<lambda>d.
       (d\<lparr>db_approvals := map (\<lambda>a. if AR_ID a = aid \<and> AR_Status a = ApprovalPending
            then a\<lparr>AR_Status := status, AR_Reason := reason, AR_DecidedBy := decidedBy,
                   AR_DecidedAt := Some decidedAt\<rparr> else a) (db_approvals d)\<rparr>,
        if list_ex (\<lambda>a. AR_ID a = aid \<and> AR_Status a = ApprovalPending) (db_approvals d)
        then Inr () else Inl ErrNotFound))"

definition pg_ListApprovals ::
    "(string \<Rightarrow> string \<Rightarrow> bool) \<Rightarrow> nat list \<Rightarrow> string \<Rightarrow> db \<Rightarrow> approval_record list db_result" where
  "pg_ListApprovals le ord status =
     pg_query (if status = '''' then [] else [status]) (\<lambda>d. Inr (pg_newest_first le ord AR_CreatedAt
       (if status = '''' then db_approvals d
        else filter (\<lambda>a. AR_Status a = status) (db_approvals d))))"

section \<open>Policies\<close>

definition pg_UpsertPolicy :: "policy_record \<Rightarrow> db \<Rightarrow> unit db_result" where
  "pg_UpsertPolicy p = pg_exec [PR_Name p] (\<lambda>d.
     (d\<lparr>db_policies := upsert PR_Name merge_policy p (db_policies d)\<rparr>, Inr ()))"

definition pg_GetPolicy :: "string \<Rightarrow> db \<Rightarrow> policy_record db_result" where
  "pg_GetPolicy name = pg_query [name] (\<lambda>d. case lookup PR_Name name (db_policies d) of
     None \<Rightarrow> Inl ErrNotFound | Some p \<Rightarrow> Inr p)"

definition pg_ListPolicies ::
    "(string \<Rightarrow> string \<Rightarrow> bool) \<Rightarrow> nat list \<Rightarrow> db \<Rightarrow> policy_record list db_result" where
  "pg_ListPolicies le ord = pg_query [] (\<lambda>d. Inr (pg_newest_first le ord PR_CreatedAt (db_policies d)))"

section \<open>Checkpoints\<close>

definition pg_SaveCheckpoint :: "checkpoint_record \<Rightarrow> db \<Rightarrow> unit db_result" where
  "pg_SaveCheckpoint c = pg_exec [CP_RunID c, CP_Name c] (\<lambda>d.
     if has_run d (CP_RunID c)
     then (d\<lparr>db_checkpoints := db_checkpoints d @ [c]\<rparr>, Inr ()) else (d, Inl ErrDB))"

definition pg_LatestCheckpoint :: "string \<Rightarrow> db \<Rightarrow> checkpoint_record db_result" where
  "pg_LatestCheckpoint runID = pg_query [runID] (\<lambda>d. case rev (checkpoints_of runID d) of
     [] \<Rightarrow> Inl ErrNotFound | c # _ \<Rightarrow> Inr c)"

definition pg_ListCheckpoints :: "string \<Rightarrow> db \<Rightarrow> checkpoint_record list db_result" where
  "pg_ListCheckpoints runID = pg_query [runID] (\<lambda>d. Inr (checkpoints_of runID d))"

section \<open>Schema version\<close>

text \<open>The same downgrade check as SQLite's, over the embedded Postgres migrations.\<close>

definition pg_migrate :: "string list \<Rightarrow> int option \<Rightarrow> 'a option \<Rightarrow> migrate_error + 'a" where
  "pg_migrate names on_disk up = migrate names on_disk up"

end
