(* ===== verification/PostgresLaws.thy ===== *)
theory PostgresLaws
  imports Postgres StorageLaws
begin

text \<open>
  What the Postgres store guarantees, and how it relates to the SQLite store: on writes both
  can represent the two backends are the same machine; a read whose order the statement
  decides does not depend on the scan; the references hold under any writes and failures;
  and a run whose id or name Postgres cannot store leaves no record at all.
\<close>

section \<open>Statements\<close>

lemma pg_exec_cases:
  obtains (failed) bs where "pg_exec ps f d = (d\<lparr>db_faults := bs\<rparr>, Inl ErrDB)"
    | (ran) bs where "list_all text_param ps" "pg_exec ps f d = f (d\<lparr>db_faults := bs\<rparr>)"
proof (cases rule: statement_cases [of "\<lambda>d. if list_all text_param ps then f d else (d, Inl ErrDB)" d])
  case (failed bs)
  then show ?thesis using that(1) [of bs] by (simp add: pg_exec_def)
next
  case (ran bs)
  then show ?thesis using that(1) [of bs] that(2) [of bs]
    by (cases "list_all text_param ps") (simp_all add: pg_exec_def)
qed

lemma pg_exec_ok [simp]: "list_all text_param ps \<Longrightarrow> pg_exec ps f = statement f"
  by (simp add: pg_exec_def)

lemma pg_query_ok [simp]: "list_all text_param ps \<Longrightarrow> pg_query ps q = query q"
  by (simp add: pg_query_def query_def)

lemma pg_exec_keeps:
  assumes "P d" "\<And>d bs. P d \<Longrightarrow> P (d\<lparr>db_faults := bs\<rparr>)"
    "\<And>d. list_all text_param ps \<Longrightarrow> P d \<Longrightarrow> P (fst (f d))"
  shows "P (fst (pg_exec ps f d))"
  by (cases rule: pg_exec_cases [of ps f d]) (simp_all add: assms)

lemma mset_scanned [simp]: "mset (scanned ord rows) = mset rows"
proof (cases "sort ord = [0..<length rows]")
  case True
  then have "mset ord = mset [0..<length rows]" by (metis mset_sort)
  then have "mset (map (\<lambda>i. rows ! i) ord) = mset (map (\<lambda>i. rows ! i) [0..<length rows])" by simp
  with True show ?thesis by (simp add: scanned_def map_nth)
qed (simp add: scanned_def)

lemma set_scanned [simp]: "set (scanned ord rows) = set rows"
  by (metis mset_scanned set_mset_mset)

section \<open>Writes as events\<close>

fun pg_step :: "db \<Rightarrow> store_event \<Rightarrow> db \<times> (store_error + unit)" where
  "pg_step d (SUpsertRun r) = pg_UpsertRun r d"
| "pg_step d (SUpsertStep s) = pg_UpsertStep s d"
| "pg_step d (SAppendLedger e) = pg_AppendLedger e d"
| "pg_step d (SAppendToolCall t) = pg_AppendToolCall t d"
| "pg_step d (SCreateApproval a) = pg_CreateApproval a d"
| "pg_step d (SResolveApproval i st re de t) = pg_ResolveApproval i st re de t d"
| "pg_step d (SSaveCheckpoint c) = pg_SaveCheckpoint c d"
| "pg_step d (SUpsertPolicy p) = pg_UpsertPolicy p d"
| "pg_step d (SPutFact f) = pg_PutFact f d"

lemmas pg_write_defs = pg_UpsertRun_def pg_UpsertStep_def pg_AppendLedger_def pg_AppendToolCall_def
  pg_CreateApproval_def pg_ResolveApproval_def pg_SaveCheckpoint_def pg_UpsertPolicy_def pg_PutFact_def

text \<open>A write both backends can represent: legal text, and no NaN.\<close>

fun portable :: "store_event \<Rightarrow> bool" where
  "portable (SUpsertRun r) \<longleftrightarrow>
     list_all text_param [RR_ID r, RR_Name r, RR_Status r, RR_HaltReason r, RR_PolicyRef r] \<and>
     real_ok (RR_BudgetDollars r) \<and> real_ok (RR_UsageDollars r)"
| "portable (SUpsertStep s) \<longleftrightarrow> list_all text_param [SR_RunID s, SR_Status s] \<and> real_ok (SR_Dollars s)"
| "portable (SAppendLedger e) \<longleftrightarrow>
     list_all text_param [LE_RunID e, LE_Provider e, LE_Model e, LE_ResponseID e] \<and> real_ok (LE_Dollars e)"
| "portable (SAppendToolCall t) \<longleftrightarrow>
     list_all text_param [TC_ID t, TC_RunID t, TC_Tool t, TC_SideEffect t, TC_Status t]"
| "portable (SCreateApproval a) \<longleftrightarrow> list_all text_param
     [AR_ID a, AR_RunID a, AR_Tool a, AR_SideEffect a, AR_Status a, AR_Reason a, AR_DecidedBy a]"
| "portable (SResolveApproval i st re de t) \<longleftrightarrow> list_all text_param [st, re, de, i]"
| "portable (SSaveCheckpoint c) \<longleftrightarrow> list_all text_param [CP_RunID c, CP_Name c] \<and> real_ok (CP_UsageDollars c)"
| "portable (SUpsertPolicy p) \<longleftrightarrow> text_param (PR_Name p) \<and> real_ok (PR_BudgetDollars p)"
| "portable (SPutFact f) \<longleftrightarrow> list_all text_param [F_Namespace f, F_Key f, F_Value f, F_RunID f]"

lemma portable_step: "portable e \<Longrightarrow> pg_step d e = store_step d e"
  by (cases e) (simp_all add: pg_write_defs write_defs resolvable_def [abs_def])

section \<open>Integrity\<close>

text \<open>Primary keys are unique and every reference to a run has its run.\<close>

definition pg_ok :: "db \<Rightarrow> bool" where
  "pg_ok d \<longleftrightarrow>
     distinct (map RR_ID (db_runs d)) \<and> distinct (map step_key (db_steps d)) \<and>
     distinct (map TC_ID (db_tool_calls d)) \<and> distinct (map AR_ID (db_approvals d)) \<and>
     distinct (map PR_Name (db_policies d)) \<and> distinct (map fact_key (db_facts d)) \<and>
     list_all (\<lambda>s. has_run d (SR_RunID s)) (db_steps d) \<and>
     list_all (\<lambda>e. has_run d (LE_RunID e)) (db_ledger d) \<and>
     list_all (\<lambda>t. has_run d (TC_RunID t)) (db_tool_calls d) \<and>
     list_all (\<lambda>a. has_run d (AR_RunID a)) (db_approvals d) \<and>
     list_all (\<lambda>c. has_run d (CP_RunID c)) (db_checkpoints d)"

lemma pg_ok_faults [simp]: "pg_ok (d\<lparr>db_faults := bs\<rparr>) = pg_ok d"
  by (simp add: pg_ok_def)

lemma pg_ok_run: "pg_ok d \<Longrightarrow> pg_ok (d\<lparr>db_runs := upsert RR_ID merge_run r (db_runs d)\<rparr>)"
  unfolding pg_ok_def has_run_upsert by (simp add: distinct_upsert merges_keep_keys list_all_or)

lemma pg_ok_step: "pg_ok d \<Longrightarrow> has_run d (SR_RunID s) \<Longrightarrow>
    pg_ok (d\<lparr>db_steps := upsert step_key merge_step s (db_steps d)\<rparr>)"
  by (simp add: pg_ok_def distinct_upsert merges_keep_keys list_all_upsert merge_step_def)

lemma pg_ok_resolve: "pg_ok d \<Longrightarrow> pg_ok (d\<lparr>db_approvals := map (\<lambda>a. if P a
    then a\<lparr>AR_Status := st, AR_Reason := re, AR_DecidedBy := de, AR_DecidedAt := t\<rparr> else a) (db_approvals d)\<rparr>)"
  by (simp add: pg_ok_def list.pred_map o_def if_distrib [of AR_ID] if_distrib [of AR_RunID] cong: if_cong)

lemma pg_step_ok: "pg_ok d \<Longrightarrow> pg_ok (fst (pg_step d e))"
proof (cases e)
  case (SUpsertRun r)
  assume "pg_ok d"
  then show ?thesis unfolding SUpsertRun pg_step.simps pg_UpsertRun_def
    by (rule pg_exec_keeps) (simp_all add: pg_ok_run)
next
  case (SUpsertStep s)
  assume "pg_ok d"
  then show ?thesis unfolding SUpsertStep pg_step.simps pg_UpsertStep_def
    by (rule pg_exec_keeps) (simp_all add: pg_ok_step)
next
  case (SResolveApproval i st re de t)
  assume "pg_ok d"
  then show ?thesis unfolding SResolveApproval pg_step.simps pg_ResolveApproval_def
    by (rule pg_exec_keeps) (simp_all add: pg_ok_resolve)
qed (simp_all only: pg_step.simps pg_write_defs,
     (erule pg_exec_keeps; simp add: pg_ok_def is_key_iff distinct_upsert merges_keep_keys)+)

interpretation pg_store: invariant_machine pg_step pg_ok "\<lambda>_. True"
  by unfold_locales (rule pg_step_ok)

section \<open>Approvals\<close>

lemma pg_refused: "\<not> list_all text_param ps \<Longrightarrow> \<exists>bs. pg_exec ps f d = (d\<lparr>db_faults := bs\<rparr>, Inl ErrDB)"
  by (cases rule: pg_exec_cases [of ps f d]) auto

lemma pg_exec_approvals:
  "(\<And>d. db_approvals (fst (f d)) = db_approvals d) \<Longrightarrow> db_approvals (fst (pg_exec ps f d)) = db_approvals d"
  by (rule pg_exec_keeps [where P = "\<lambda>x. db_approvals x = db_approvals d"]) simp_all

lemma pg_step_cases:
  "pg_step d e = store_step d e \<or> (\<exists>bs. pg_step d e = (d\<lparr>db_faults := bs\<rparr>, Inl ErrDB)) \<or>
     db_approvals (fst (pg_step d e)) = db_approvals d \<and> (\<forall>i st re de t. e \<noteq> SResolveApproval i st re de t)"
proof (cases e)
  case (SCreateApproval a)
  have "\<exists>bs. pg_step d e = (d\<lparr>db_faults := bs\<rparr>, Inl ErrDB)" if "\<not> portable e"
    using that pg_refused unfolding SCreateApproval pg_step.simps pg_CreateApproval_def portable.simps by blast
  then show ?thesis using portable_step by blast
next
  case (SResolveApproval i st re de t)
  have "\<exists>bs. pg_step d e = (d\<lparr>db_faults := bs\<rparr>, Inl ErrDB)" if "\<not> portable e"
    using that pg_refused unfolding SResolveApproval pg_step.simps pg_ResolveApproval_def portable.simps by blast
  then show ?thesis using portable_step by blast
qed (simp_all only: pg_step.simps pg_write_defs, (intro disjI2 conjI pg_exec_approvals; simp)+)

lemma decided_faults [simp]: "decided aid (d\<lparr>db_faults := bs\<rparr>) = decided aid d"
  by (simp add: decided_def)

lemma pg_decided_step:
  assumes "decided aid d"
  shows "decided aid (fst (pg_step d e)) \<and>
    lookup AR_ID aid (db_approvals (fst (pg_step d e))) = lookup AR_ID aid (db_approvals d)"
  using pg_step_cases [of d e]
proof (elim disjE conjE exE)
  assume "pg_step d e = store_step d e"
  then show ?thesis using decided_step [OF assms, of e] by simp
next
  assume "db_approvals (fst (pg_step d e)) = db_approvals d"
  then show ?thesis using assms by (simp add: decided_def)
qed (use assms in simp)

interpretation pg_approval: refusing_latch pg_step "decided aid"
  "\<lambda>d. lookup AR_ID aid (db_approvals d)" "\<lambda>e _. resolve_refused aid e" for aid
proof
  fix s e assume c: "decided aid s"
  then show "decided aid (fst (pg_step s e))"
    "lookup AR_ID aid (db_approvals (fst (pg_step s e))) = lookup AR_ID aid (db_approvals s)"
    by (simp_all add: pg_decided_step)
  have "resolve_refused aid e (snd (store_step s e))" by (rule approval.refusal [OF c])
  then show "resolve_refused aid e (snd (pg_step s e))"
    using pg_step_cases [of s e] by (cases e) auto
qed

section \<open>Reads\<close>

lemma query_cong:
  assumes "\<And>bs. q (d\<lparr>db_faults := bs\<rparr>) = q' (d\<lparr>db_faults := bs\<rparr>)"
  shows "query q d = query q' d"
proof -
  have "q d = q' d" using assms [of "db_faults d"] by simp
  then show ?thesis using assms by (auto simp: query_def statement_def split: list.split)
qed

interpretation step_order: preference "\<lambda>x y. SR_Index x \<le>s SR_Index y"
  by unfold_locales (auto simp: word_sle_eq)

interpretation fact_order: preference "\<lambda>x y. text_le (F_Key x) (F_Key y)"
  by (rule preference_key [of text_le F_Key]) (rule bytes_asc.preference_axioms)

lemma text_le_antisym: "text_le x y \<Longrightarrow> text_le y x \<Longrightarrow> x = y"
  using text_less_linear [of x y] by (auto simp: text_le_def)

lemma text_le_less: "x \<noteq> y \<Longrightarrow> text_le x y = text_less x y"
  using text_less_linear [of x y] text_less_trans [of x y x] by (auto simp: text_le_def)

lemma pg_tool_call_le_bytes: "pg_tool_call_le text_le = tool_call_le"
  by (intro ext) (simp add: pg_tool_call_le_def tool_call_le_def text_le_less)

lemma tool_call_le_iff: "tool_call_le x y \<longleftrightarrow>
  sint (TC_StepIndex x) < sint (TC_StepIndex y) \<or> sint (TC_StepIndex x) = sint (TC_StepIndex y) \<and>
    (text_less (fmtTime (TC_CreatedAt x)) (fmtTime (TC_CreatedAt y)) \<or>
     fmtTime (TC_CreatedAt x) = fmtTime (TC_CreatedAt y) \<and> text_le (TC_ID x) (TC_ID y))"
  by (cases "TC_StepIndex x = TC_StepIndex y"; cases "fmtTime (TC_CreatedAt x) = fmtTime (TC_CreatedAt y)")
     (auto simp: tool_call_le_def word_sless_alt dest: signed_word_eqI)

interpretation call_order: preference tool_call_le
proof
  fix x y z :: tool_call_record
  show "tool_call_le x y \<or> tool_call_le y x"
    using text_less_linear [of "fmtTime (TC_CreatedAt x)" "fmtTime (TC_CreatedAt y)"]
      text_le_total [of "TC_ID x" "TC_ID y"] unfolding tool_call_le_iff by auto
  assume "tool_call_le x y" "tool_call_le y z"
  then show "tool_call_le x z"
    using text_less_trans [of "fmtTime (TC_CreatedAt x)" "fmtTime (TC_CreatedAt y)" "fmtTime (TC_CreatedAt z)"]
      text_le_trans [of "TC_ID x" "TC_ID y" "TC_ID z"] unfolding tool_call_le_iff by auto
qed

lemma call_order_antisym: "tool_call_le x y \<Longrightarrow> tool_call_le y x \<Longrightarrow> TC_ID x = TC_ID y"
  using text_less_trans [of "fmtTime (TC_CreatedAt x)" "fmtTime (TC_CreatedAt y)" "fmtTime (TC_CreatedAt x)"]
  unfolding tool_call_le_iff by (auto dest: text_le_antisym)

text \<open>Rows with unique keys that the order tells apart come back in one order.\<close>

context preference begin

lemma sorted_scan:
  assumes "distinct (map key rows)"
    and "\<And>x y. x \<in> set rows \<Longrightarrow> y \<in> set rows \<Longrightarrow> le x y \<Longrightarrow> le y x \<Longrightarrow> key x = key y"
  shows "sort_by le (scanned ord rows) = sort_by le rows"
proof (rule sort_by_perm)
  show "x = y" if "x \<in> set (scanned ord rows)" "y \<in> set (scanned ord rows)" "le x y" "le y x" for x y
    using assms(1) assms(2) [of x y] that by (auto simp: distinct_map dest: inj_onD)
qed simp

end

text \<open>
  C30. The two backends accept the same writes. For any sequence of writes whose text
  Postgres can store (valid UTF-8 without a NUL) and whose amounts are not NaN, with any
  failures of the backend, the Postgres store ends with the tables of the SQLite store and
  answers each write as it does.
\<close>

theorem backends_agree_on_writes:
  assumes "list_all portable es"
  shows "run_events pg_step d es = run_events store_step d es"
  using assms by (induction es arbitrary: d) (simp_all add: portable_step prod_eq_iff)

text \<open>
  C31. The two backends give the same reads. On any tables the writes can leave, for ids
  Postgres can store, the lists whose order the statement decides do not depend on the order
  of the Postgres scan and are SQLite's lists: steps under any collation, tool calls and
  facts under the byte order, the ledger and the checkpoints by row id.
\<close>

theorem backends_agree_on_reads:
  assumes "pg_ok d" "text_param rid" "text_param ns"
  shows "pg_ListSteps ord rid d = ListSteps rid d \<and>
    pg_ListToolCalls text_le ord rid d = ListToolCalls rid d \<and>
    pg_ListFacts text_le ord ns d = ListFacts ns d \<and>
    pg_LedgerForRun rid d = LedgerForRun rid d \<and> pg_GetRun rid d = GetRun rid d \<and>
    pg_LatestCheckpoint rid d = LatestCheckpoint rid d \<and>
    pg_ListCheckpoints rid d = ListCheckpoints rid d"
proof (intro conjI)
  have d: "distinct (map step_key (db_steps d))" "distinct (map TC_ID (db_tool_calls d))"
    "distinct (map fact_key (db_facts d))" using assms(1) by (simp_all add: pg_ok_def)
  have "sort_by tool_call_le (scanned ord (filter P (db_tool_calls d))) =
      sort_by tool_call_le (filter P (db_tool_calls d))" for P
    by (rule call_order.sorted_scan [where key = TC_ID]) (rule distinct_map_filter [OF d(2)], rule call_order_antisym)
  then show "pg_ListToolCalls text_le ord rid d = ListToolCalls rid d"
    unfolding pg_ListToolCalls_def ListToolCalls_def pg_tool_call_le_bytes
    by (simp add: assms) (rule query_cong; simp)
  have "sort_by (\<lambda>x y. SR_Index x \<le>s SR_Index y) (scanned ord (filter (\<lambda>s. SR_RunID s = rid) (db_steps d))) =
      sort_by (\<lambda>x y. SR_Index x \<le>s SR_Index y) (filter (\<lambda>s. SR_RunID s = rid) (db_steps d))"
    by (rule step_order.sorted_scan [where key = step_key])
       (auto simp: d distinct_map_filter step_key_def word_sle_eq dest: signed_word_eqI)
  then show "pg_ListSteps ord rid d = ListSteps rid d"
    unfolding pg_ListSteps_def ListSteps_def by (simp add: assms) (rule query_cong; simp)
  have "sort_by (\<lambda>x y. text_le (F_Key x) (F_Key y)) (scanned ord (filter (\<lambda>f. F_Namespace f = ns) (db_facts d))) =
      sort_by (\<lambda>x y. text_le (F_Key x) (F_Key y)) (filter (\<lambda>f. F_Namespace f = ns) (db_facts d))"
    by (rule fact_order.sorted_scan [where key = fact_key])
       (auto simp: d distinct_map_filter fact_key_def dest: text_le_antisym)
  then show "pg_ListFacts text_le ord ns d = ListFacts ns d"
    unfolding pg_ListFacts_def ListFacts_def by (simp add: assms) (rule query_cong; simp)
qed (simp_all add: assms pg_LedgerForRun_def LedgerForRun_def pg_GetRun_def GetRun_def
      pg_LatestCheckpoint_def LatestCheckpoint_def pg_ListCheckpoints_def ListCheckpoints_def)

section \<open>Runs Postgres cannot store\<close>

text \<open>Every write of the run carries text that Postgres refuses.\<close>

fun misnamed :: "string \<Rightarrow> store_event \<Rightarrow> bool" where
  "misnamed rid (SUpsertRun r) \<longleftrightarrow> RR_ID r \<noteq> rid \<or> \<not> list_all text_param [RR_ID r, RR_Name r]"
| "misnamed rid _ \<longleftrightarrow> True"

lemma pg_exec_runs:
  "(\<And>d. db_runs (fst (f d)) = db_runs d) \<Longrightarrow> db_runs (fst (pg_exec ps f d)) = db_runs d"
  by (rule pg_exec_keeps [where P = "\<lambda>x. db_runs x = db_runs d"]) simp_all

lemma pg_step_runs:
  "(case e of SUpsertRun r \<Rightarrow> True | _ \<Rightarrow> db_runs (fst (pg_step d e)) = db_runs d)"
  by (cases e) (simp_all only: pg_step.simps pg_write_defs store_event.case TrueI, (rule pg_exec_runs; simp)+)

lemma unstored_step:
  assumes "\<not> has_run d rid" "misnamed rid e"
  shows "\<not> has_run (fst (pg_step d e)) rid"
proof (cases e)
  case (SUpsertRun r)
  show ?thesis
    unfolding SUpsertRun pg_step.simps pg_UpsertRun_def
    by (rule pg_exec_keeps [where P = "\<lambda>x. \<not> has_run x rid"])
       (use assms in \<open>auto simp: SUpsertRun\<close>)
qed (use assms pg_step_runs [of d e] in \<open>simp_all add: has_run_def del: pg_step.simps\<close>)

interpretation unstored: invariant_machine pg_step "\<lambda>d. \<not> has_run d rid" "misnamed rid" for rid
  by unfold_locales (rule unstored_step)

text \<open>
  On Postgres a run with an illegal name leaves no record. If the id or the name of a
  run holds a NUL or is not valid UTF-8, then whatever is written about it and whichever
  statements fail, the store ends with no run row, and with no step, ledger entry, tool
  call, approval or checkpoint of the run: its spending is not durable and a restart forgets
  it. The SQLite store keeps such a run.
\<close>

theorem misnamed_run_leaves_no_record:
  fixes faults :: "bool list"
  assumes "list_all (misnamed rid) es"
  defines "d \<equiv> final_state pg_step (empty_db\<lparr>db_faults := faults\<rparr>) es"
  shows "\<not> has_run d rid \<and> (\<forall>s \<in> set (db_steps d). SR_RunID s \<noteq> rid) \<and> ledger_of rid d = [] \<and>
    (\<forall>t \<in> set (db_tool_calls d). TC_RunID t \<noteq> rid) \<and>
    (\<forall>a \<in> set (db_approvals d). AR_RunID a \<noteq> rid) \<and> checkpoints_of rid d = []"
proof -
  have n: "\<not> has_run d rid" unfolding d_def
    by (rule unstored.run_inv) (simp_all add: assms has_run_def empty_db_def is_key_def)
  have "pg_ok d" unfolding d_def
    by (rule pg_store.run_inv) (simp_all add: pg_ok_def empty_db_def list.pred_True)
  then show ?thesis using n
    by (auto simp: pg_ok_def list_all_iff ledger_of_def checkpoints_of_def filter_empty_conv)
qed

definition nul_run :: run_record where
  "nul_run = (sample_run ''r'')\<lparr>RR_Name := [CHR 0x00]\<rparr>"

definition nul_entry :: ledger_entry where
  "nul_entry = \<lparr>LE_RunID = ''r'', LE_StepIndex = 1, LE_Provider = ''p'', LE_Model = ''m'',
     LE_PromptTokens = 5, LE_CompletionTokens = 5, LE_Dollars = fzero, LE_Priced = True,
     LE_ResponseID = '''', LE_CreatedAt = 0\<rparr>"

lemma misnamed_run_leaves_no_record_witness:
  "ledger_of ''r'' (final_state pg_step (empty_db\<lparr>db_faults := []\<rparr>) [SUpsertRun nul_run, SAppendLedger nul_entry]) = [] \<and>
   ledger_of ''r'' (final_state store_step (empty_db\<lparr>db_faults := []\<rparr>) [SUpsertRun nul_run, SAppendLedger nul_entry]) =
     [nul_entry]"
proof -
  have "list_all (misnamed ''r'') [SUpsertRun nul_run, SAppendLedger nul_entry]"
    by (simp add: nul_run_def text_param_def)
  from misnamed_run_leaves_no_record [OF this, of "[]"] show ?thesis
    by (simp add: write_defs ledger_of_def nul_run_def nul_entry_def sample_run_def real_ok_def
        empty_db_def has_run_def is_key_def)
qed

lemma backends_agree_on_writes_witness:
  "run_events pg_step empty_db [SUpsertRun (sample_run ''r''), SAppendLedger nul_entry] =
   run_events store_step empty_db [SUpsertRun (sample_run ''r''), SAppendLedger nul_entry]"
  by (rule backends_agree_on_writes)
     (simp add: sample_run_def nul_entry_def text_param_def real_ok_def)

lemma backends_agree_on_reads_witness:
  "pg_LedgerForRun ''r1'' sample_db = LedgerForRun ''r1'' sample_db"
proof -
  have "pg_ok sample_db" using sample_db_ok by (simp add: db_ok_def pg_ok_def sample_db_def empty_db_def)
  from backends_agree_on_reads [OF this, of "''r1''" "''n''"] show ?thesis by (simp add: text_param_def)
qed

end
