(* ===== verification/Compliance.thy ===== *)
theory Compliance
  imports Storage "HOL-Library.Multiset"
begin

text \<open>
  The compliance export (\<open>internal/audit/compliance.go\<close>): the report of a run, its event log
  chained by hashes, and the auditor's check of the chain. The digest \<open>H\<close> (SHA-256 in hex)
  and \<open>marshal\<close> (package json on the struct of an event, None for its error, which the code
  drops) are arguments.
\<close>

section \<open>Data\<close>

text \<open>The values the code puts under \<open>any\<close>.\<close>

datatype audit_value =
    VInt int
  | VFloat float64
  | VStr string
  | VBool bool
  | VTime time
  | VMap "(string \<times> audit_value) list"
  | VList "audit_value list"

type_synonym detail = "(string \<times> audit_value) list"

record audit_data =
  AD_Run :: run_record
  AD_Ledger :: "ledger_entry list"
  AD_Totals :: ledger_totals
  AD_ToolCalls :: "tool_call_record list"
  AD_Approvals :: "approval_record list"

record audit_run_view =
  AV_ID :: string
  AV_Name :: string
  AV_Status :: string
  AV_HaltReason :: string
  AV_Budget :: detail
  AV_Usage :: detail
  AV_CreatedAt :: time

record control =
  CT_Control :: string
  CT_Statement :: string
  CT_OWASP :: "string list"
  CT_EUAIAct :: "string list"
  CT_Evidence :: detail

record event_body =
  EB_Seq :: nat
  EB_Type :: string
  EB_At :: time
  EB_Detail :: detail

record event = event_body +
  EV_Hash :: string

record integrity =
  IN_Algo :: string
  IN_Events :: nat
  IN_ChainHead :: string
  IN_HowToVerify :: string

record audit_report =
  RP_Report :: string
  RP_Version :: int
  RP_GeneratedAt :: time
  RP_Disclaimer :: string
  RP_Run :: audit_run_view
  RP_Controls :: "control list"
  RP_Events :: "event list"
  RP_Integrity :: integrity

section \<open>The hash chain\<close>

type_synonym digest = "string \<Rightarrow> string"
type_synonym marshaller = "event_body \<Rightarrow> string option"

definition canonical :: "marshaller \<Rightarrow> event_body \<Rightarrow> string" where
  "canonical marshal b = (case marshal b of None \<Rightarrow> '''' | Some c \<Rightarrow> c)"

definition chainHash :: "digest \<Rightarrow> marshaller \<Rightarrow> string \<Rightarrow> event_body \<Rightarrow> string" where
  "chainHash H marshal prev b = H (prev @ canonical marshal b)"

definition body :: "event \<Rightarrow> event_body" where
  "body ev = \<lparr>EB_Seq = EB_Seq ev, EB_Type = EB_Type ev, EB_At = EB_At ev, EB_Detail = EB_Detail ev\<rparr>"

datatype chain_error = HashMismatch nat | HeadMismatch

fun verify_from :: "digest \<Rightarrow> marshaller \<Rightarrow> nat \<Rightarrow> string \<Rightarrow> event list \<Rightarrow> string \<Rightarrow> chain_error option" where
  "verify_from H marshal i prev [] head = (if prev \<noteq> head then Some HeadMismatch else None)"
| "verify_from H marshal i prev (ev # evs) head =
     (if chainHash H marshal prev (body ev) \<noteq> EV_Hash ev then Some (HashMismatch i)
      else verify_from H marshal (Suc i) (EV_Hash ev) evs head)"

definition VerifyChain :: "digest \<Rightarrow> marshaller \<Rightarrow> event list \<Rightarrow> string \<Rightarrow> chain_error option" where
  "VerifyChain H marshal events head = verify_from H marshal 0 '''' events head"

section \<open>Events\<close>

type_synonym raw_event = "time \<times> string \<times> detail"

definition ledger_raw :: "ledger_entry \<Rightarrow> raw_event" where
  "ledger_raw e = (LE_CreatedAt e, ''model_call'',
     [(''step'', VInt (sint (LE_StepIndex e))), (''provider'', VStr (LE_Provider e)), (''model'', VStr (LE_Model e)),
      (''promptTokens'', VInt (sint (LE_PromptTokens e))), (''completionTokens'', VInt (sint (LE_CompletionTokens e))),
      (''dollars'', VFloat (LE_Dollars e))])"

definition tool_call_raw :: "tool_call_record \<Rightarrow> raw_event" where
  "tool_call_raw t = (TC_CreatedAt t, ''tool_call'',
     [(''step'', VInt (sint (TC_StepIndex t))), (''tool'', VStr (TC_Tool t)),
      (''sideEffect'', VStr (TC_SideEffect t)), (''status'', VStr (TC_Status t))])"

definition approval_raw :: "approval_record \<Rightarrow> raw_event" where
  "approval_raw a =
     (case AR_DecidedAt a of None \<Rightarrow> AR_CreatedAt a | Some t \<Rightarrow> t, ''approval'',
      [(''tool'', VStr (AR_Tool a)), (''sideEffect'', VStr (AR_SideEffect a)),
       (''status'', VStr (AR_Status a)), (''decidedBy'', VStr (AR_DecidedBy a))])"

definition raw_events :: "audit_data \<Rightarrow> raw_event list" where
  "raw_events d = map ledger_raw (AD_Ledger d) @ map tool_call_raw (AD_ToolCalls d) @ map approval_raw (AD_Approvals d)"

text \<open>The comparison of the stable sort: by time, then by type.\<close>

definition raw_le :: "raw_event \<Rightarrow> raw_event \<Rightarrow> bool" where
  "raw_le x y \<longleftrightarrow> (if fst x \<noteq> fst y then fst x < fst y else text_le (fst (snd x)) (fst (snd y)))"

fun chain_from :: "digest \<Rightarrow> marshaller \<Rightarrow> nat \<Rightarrow> string \<Rightarrow> raw_event list \<Rightarrow> event list" where
  "chain_from H marshal i prev [] = []"
| "chain_from H marshal i prev ((at0, typ, dtl) # rs) =
     (let b = \<lparr>EB_Seq = i, EB_Type = typ, EB_At = at0, EB_Detail = dtl\<rparr>;
          h = chainHash H marshal prev b
      in \<lparr>EB_Seq = i, EB_Type = typ, EB_At = at0, EB_Detail = dtl, EV_Hash = h\<rparr> #
           chain_from H marshal (Suc i) h rs)"

definition buildEvents :: "digest \<Rightarrow> marshaller \<Rightarrow> audit_data \<Rightarrow> event list" where
  "buildEvents H marshal d = chain_from H marshal 0 '''' (sort_by raw_le (raw_events d))"

section \<open>The report\<close>

text \<open>The em dash of the references, in UTF-8, and the apostrophe.\<close>

definition emdash :: string where
  "emdash = [CHR 0xE2, CHR 0x80, CHR 0x94]"

definition Disclaimer :: string where
  "Disclaimer = ''Evidence export of RiskKernel'' @ [CHR 0x27] @
     ''s recorded deterministic controls mapped to the referenced frameworks. Not a legal compliance determination; an auditor evaluates sufficiency.''"

definition budget_map :: "run_record \<Rightarrow> detail" where
  "budget_map r = [(''tokens'', VInt (sint (RR_BudgetTokens r))), (''dollars'', VFloat (RR_BudgetDollars r)),
     (''loops'', VInt (sint (RR_BudgetLoops r))), (''seconds'', VInt (sint (RR_BudgetSeconds r)))]"

definition usage_map :: "run_record \<Rightarrow> detail" where
  "usage_map r = [(''tokens'', VInt (sint (RR_UsagePromptTokens r + RR_UsageCompletionTokens r))),
     (''dollars'', VFloat (RR_UsageDollars r)), (''loops'', VInt (sint (RR_UsageLoops r)))]"

definition blocked_calls :: "tool_call_record list \<Rightarrow> nat" where
  "blocked_calls ts = length (filter (\<lambda>t. TC_Status t = ''blocked'') ts)"

definition gated_calls :: "tool_call_record list \<Rightarrow> nat" where
  "gated_calls ts = length (filter (\<lambda>t. TC_Status t = ''approved'' \<or> TC_Status t = ''denied'') ts)"

definition approval_evidence :: "approval_record \<Rightarrow> audit_value" where
  "approval_evidence a = VMap [(''tool'', VStr (AR_Tool a)), (''sideEffect'', VStr (AR_SideEffect a)),
     (''status'', VStr (AR_Status a)), (''decidedBy'', VStr (AR_DecidedBy a)), (''createdAt'', VTime (AR_CreatedAt a))]"

definition buildControls :: "audit_data \<Rightarrow> control list" where
  "buildControls d =
     (let r = AD_Run d
      in [\<lparr>CT_Control = ''budget_enforcement'',
           CT_Statement = ''Hard per-run cost, token, loop, and time ceilings enforced deterministically; the run is halted on breach.'',
           CT_OWASP = [''OWASP LLM Top 10 (2025) '' @ emdash @ '' LLM10: Unbounded Consumption'',
             ''OWASP Agentic Threats '' @ emdash @ '' Resource Overload''],
           CT_EUAIAct = [''Art. 15 '' @ emdash @ '' Accuracy, robustness and cybersecurity''],
           CT_Evidence = [(''budget'', VMap (budget_map r)), (''usage'', VMap (usage_map r)),
             (''halted'', VBool (RR_Status r = ''halted'')), (''haltReason'', VStr (RR_HaltReason r))]\<rparr>,
          \<lparr>CT_Control = ''human_oversight'',
           CT_Statement = ''Side-effecting actions can be gated on human approval; every decision records who decided, what, and when.'',
           CT_OWASP = [''OWASP LLM Top 10 (2025) '' @ emdash @ '' LLM08: Excessive Agency'',
             ''OWASP Agentic Threats '' @ emdash @ '' Insufficient human-in-the-loop''],
           CT_EUAIAct = [''Art. 14 '' @ emdash @ '' Human oversight''],
           CT_Evidence = [(''approvals'', VList (map approval_evidence (AD_Approvals d))),
             (''count'', VInt (int (length (AD_Approvals d))))]\<rparr>,
          \<lparr>CT_Control = ''tool_governance'',
           CT_Statement = ''Tool calls are governed against an allowlist and recorded; disallowed calls are blocked.'',
           CT_OWASP = [''OWASP LLM Top 10 (2025) '' @ emdash @ '' LLM08: Excessive Agency'',
             ''OWASP Agentic Threats '' @ emdash @ '' Tool Misuse''],
           CT_EUAIAct = [''Art. 15 '' @ emdash @ '' Accuracy, robustness and cybersecurity''],
           CT_Evidence = [(''toolCalls'', VInt (int (length (AD_ToolCalls d)))),
             (''gated'', VInt (int (gated_calls (AD_ToolCalls d)))),
             (''blocked'', VInt (int (blocked_calls (AD_ToolCalls d))))]\<rparr>,
          \<lparr>CT_Control = ''record_keeping'',
           CT_Statement = ''An append-only cost ledger and a hash-chained event log provide a tamper-evident record of the run.'',
           CT_OWASP = [''OWASP Agentic Threats '' @ emdash @ '' Repudiation''],
           CT_EUAIAct = [''Art. 12 '' @ emdash @ '' Record-keeping (automatic logging of events)''],
           CT_Evidence = [(''ledgerEntries'', VInt (int (length (AD_Ledger d)))),
             (''toolCalls'', VInt (int (length (AD_ToolCalls d)))),
             (''approvals'', VInt (int (length (AD_Approvals d))))]\<rparr>])"

definition BuildReport :: "digest \<Rightarrow> marshaller \<Rightarrow> audit_data \<Rightarrow> time \<Rightarrow> audit_report" where
  "BuildReport H marshal d now =
     (let r = AD_Run d;
          rv = \<lparr>AV_ID = RR_ID r, AV_Name = RR_Name r, AV_Status = RR_Status r, AV_HaltReason = RR_HaltReason r,
                AV_Budget = budget_map r,
                AV_Usage = usage_map r @ [(''calls'', VInt (sint (LT_Calls (AD_Totals d))))],
                AV_CreatedAt = RR_CreatedAt r\<rparr>;
          events = buildEvents H marshal d;
          chainHead = (if events \<noteq> [] then EV_Hash (last events) else [])
      in \<lparr>RP_Report = ''riskkernel-compliance'', RP_Version = 1, RP_GeneratedAt = now,
          RP_Disclaimer = Disclaimer, RP_Run = rv, RP_Controls = buildControls d, RP_Events = events,
          RP_Integrity = \<lparr>IN_Algo = ''sha256'', IN_Events = length events, IN_ChainHead = chainHead,
            IN_HowToVerify = ''For each event in order: hash = sha256(prevHash + canonicalJSON({seq,type,at,detail})), hex; prevHash starts empty. The last hash must equal chainHead.''\<rparr>\<rparr>)"

end
