(* ===== verification/ComplianceLaws.thy ===== *)
theory ComplianceLaws
  imports Compliance
begin

text \<open>
  What the compliance export guarantees: its own chain passes the auditor's check, every
  record of the run is in the log exactly once and in order, and two logs with one head have
  the same content. What it does not protect: an event that package json cannot encode.
\<close>

section \<open>Chains\<close>

lemma body_sel [simp]:
  "EB_Seq (body ev) = EB_Seq ev" "EB_Type (body ev) = EB_Type ev" "EB_At (body ev) = EB_At ev"
  "EB_Detail (body ev) = EB_Detail ev"
  by (simp_all add: body_def)

definition tail_hash :: "string \<Rightarrow> event list \<Rightarrow> string" where
  "tail_hash prev evs = (if evs = [] then prev else EV_Hash (last evs))"

lemma tail_hash_simps [simp]:
  "tail_hash prev [] = prev" "tail_hash prev (ev # evs) = tail_hash (EV_Hash ev) evs"
  "tail_hash prev (evs @ [ev]) = EV_Hash ev"
  by (simp_all add: tail_hash_def)

fun chained :: "digest \<Rightarrow> marshaller \<Rightarrow> string \<Rightarrow> event list \<Rightarrow> bool" where
  "chained H marshal prev [] = True"
| "chained H marshal prev (ev # evs) =
     (EV_Hash ev = chainHash H marshal prev (body ev) \<and> chained H marshal (EV_Hash ev) evs)"

lemma verify_from_None:
  "verify_from H marshal i prev evs head = None \<longleftrightarrow> chained H marshal prev evs \<and> tail_hash prev evs = head"
  by (induction evs arbitrary: i prev) auto

lemma VerifyChain_None:
  "VerifyChain H marshal evs head = None \<longleftrightarrow> chained H marshal '''' evs \<and> tail_hash '''' evs = head"
  by (simp add: VerifyChain_def verify_from_None)

lemma chained_append:
  "chained H marshal prev (xs @ ys) \<longleftrightarrow> chained H marshal prev xs \<and> chained H marshal (tail_hash prev xs) ys"
  by (induction xs arbitrary: prev) auto

lemma chain_from_chained: "chained H marshal prev (chain_from H marshal i prev rs)"
proof (induction rs arbitrary: i prev)
  case (Cons r rs)
  then show ?case by (cases r) (simp add: Let_def body_def)
qed simp

definition raw_of :: "event \<Rightarrow> raw_event" where
  "raw_of ev = (EB_At ev, EB_Type ev, EB_Detail ev)"

lemma chain_from_raw:
  "map raw_of (chain_from H marshal i prev rs) = rs \<and>
   map EB_Seq (chain_from H marshal i prev rs) = [i ..< i + length rs]"
proof (induction rs arbitrary: i prev)
  case (Cons r rs)
  then show ?case by (cases r) (simp add: Let_def raw_of_def upt_conv_Cons del: upt_Suc)
qed simp

lemma raw_order: "preference raw_le"
proof (unfold_locales)
  fix x y z :: raw_event
  show "raw_le x y \<or> raw_le y x" using text_le_total by (auto simp: raw_le_def)
  assume "raw_le x y" "raw_le y z"
  then show "raw_le x z" using text_le_trans by (auto simp: raw_le_def split: if_splits)
qed

interpretation log_order: preference raw_le
  by (rule raw_order)

section \<open>Properties of the export\<close>

text \<open>
  The export verifies. For any recorded data, the report's events pass \<open>VerifyChain\<close>
  against the report's own chain head.
\<close>

theorem export_verifies:
  "VerifyChain H marshal (RP_Events (BuildReport H marshal d now))
     (IN_ChainHead (RP_Integrity (BuildReport H marshal d now))) = None"
  using chain_from_chained [of H marshal "''''"]
  by (simp add: VerifyChain_None BuildReport_def buildEvents_def Let_def tail_hash_def)

text \<open>
  C25. The log is complete and ordered. The events are, with their multiplicity, exactly the
  run's ledger entries, tool calls and approvals; they are numbered from 0, ordered by time
  and then by type, and events of one time and type keep the order of the records.
\<close>

theorem export_complete:
  "let evs = buildEvents H marshal d
   in mset (map raw_of evs) = mset (map ledger_raw (AD_Ledger d)) + mset (map tool_call_raw (AD_ToolCalls d)) +
        mset (map approval_raw (AD_Approvals d)) \<and>
      map EB_Seq evs = [0 ..< length (AD_Ledger d) + length (AD_ToolCalls d) + length (AD_Approvals d)] \<and>
      sorted_wrt raw_le (map raw_of evs) \<and>
      filter (\<lambda>x. fst x = t \<and> fst (snd x) = ty) (map raw_of evs) =
        filter (\<lambda>x. fst x = t \<and> fst (snd x) = ty) (raw_events d)"
proof -
  have "filter (\<lambda>x. fst x = t \<and> fst (snd x) = ty) (sort_by raw_le (raw_events d)) =
      filter (\<lambda>x. fst x = t \<and> fst (snd x) = ty) (raw_events d)"
    using text_le_total [of ty ty] by (intro log_order.sort_by_stable) (auto simp: raw_le_def)
  moreover have "map raw_of (buildEvents H marshal d) = sort_by raw_le (raw_events d)"
    "map EB_Seq (buildEvents H marshal d) = [0 ..< length (raw_events d)]"
    by (simp_all add: buildEvents_def chain_from_raw)
  moreover have "mset (raw_events d) = mset (map ledger_raw (AD_Ledger d)) + mset (map tool_call_raw (AD_ToolCalls d)) +
      mset (map approval_raw (AD_Approvals d))" by (simp add: raw_events_def)
  moreover have "length (raw_events d) = length (AD_Ledger d) + length (AD_ToolCalls d) + length (AD_Approvals d)"
    by (simp add: raw_events_def)
  ultimately show ?thesis
    using log_order.sort_by_sorted [of "raw_events d"] mset_sort_by [of raw_le "raw_events d"]
    unfolding Let_def by (simp del: mset_map)
qed

text \<open>
  The inputs that are hashed along a chain, and what a digest and an encoder have to do for
  them: a digest in hex is not empty and has no brace, an encoded struct begins with one.
\<close>

fun hashed :: "marshaller \<Rightarrow> string \<Rightarrow> event list \<Rightarrow> string list" where
  "hashed marshal prev [] = []"
| "hashed marshal prev (ev # evs) = (prev @ canonical marshal (body ev)) # hashed marshal (EV_Hash ev) evs"

definition hex_digest :: "digest \<Rightarrow> bool" where
  "hex_digest H \<longleftrightarrow> (\<forall>x. H x \<noteq> '''' \<and> CHR ''{'' \<notin> set (H x))"

definition braced :: "marshaller \<Rightarrow> event \<Rightarrow> bool" where
  "braced marshal ev \<longleftrightarrow> (case marshal (body ev) of None \<Rightarrow> False | Some c \<Rightarrow> c \<noteq> [] \<and> hd c = CHR ''{'')"

lemma hashed_append:
  "hashed marshal prev (xs @ ys) = hashed marshal prev xs @ hashed marshal (tail_hash prev xs) ys"
  by (induction xs arbitrary: prev) simp_all

lemma split_at_brace:
  assumes "CHR ''{'' \<notin> set p" "CHR ''{'' \<notin> set q" "c \<noteq> []" "hd c = CHR ''{''" "e \<noteq> []" "hd e = CHR ''{''" "p @ c = q @ e"
  shows "p = q \<and> c = e"
proof -
  have t: "takeWhile (\<lambda>x. x \<noteq> CHR ''{'') (r @ f) = r" if "CHR ''{'' \<notin> set r" "f \<noteq> []" "hd f = CHR ''{''" for r f :: string
    using that by (cases f) (simp_all, induction r, auto)
  from t [OF assms(1,3,4)] t [OF assms(2,5,6)] assms(7) have "p = q" by simp
  with assms(7) show ?thesis by simp
qed

lemma chained_hash_hex:
  assumes "chained H marshal '''' evs" "hex_digest H"
  shows "CHR ''{'' \<notin> set (tail_hash '''' evs)" "evs \<noteq> [] \<Longrightarrow> tail_hash '''' evs \<noteq> ''''"
  using assms
  by (cases evs rule: rev_cases; simp add: chained_append chainHash_def hex_digest_def)+

text \<open>
  C22. The log is tamper evident. If two logs pass the check against one head, and the digest
  does not collide on the inputs hashed in them, then the two logs have the same length, the
  same encoded events in the same order and the same hashes: no event was altered, reordered,
  dropped or added. Every event must be one that package json encodes.
\<close>

theorem log_tamper_evident:
  assumes "VerifyChain H marshal es head = None" "VerifyChain H marshal es' head = None"
    and "hex_digest H" "list_all (braced marshal) es" "list_all (braced marshal) es'"
    and "inj_on H (set (hashed marshal '''' es) \<union> set (hashed marshal '''' es'))"
  shows "map (\<lambda>ev. (marshal (body ev), EV_Hash ev)) es = map (\<lambda>ev. (marshal (body ev), EV_Hash ev)) es'"
  using assms
proof (induction es arbitrary: es' head rule: rev_induct)
  case Nil
  then show ?case using chained_hash_hex(2) [of H marshal es'] by (auto simp: VerifyChain_None)
next
  case (snoc ev es)
  then have c: "chained H marshal '''' (es @ [ev])" "EV_Hash ev = head" by (simp_all add: VerifyChain_None)
  from snoc.prems(2) have c': "chained H marshal '''' es'" "tail_hash '''' es' = head" by (simp_all add: VerifyChain_None)
  have "head \<noteq> ''''" using chained_hash_hex(2) [OF c(1) snoc.prems(3)] c(2) by simp
  then obtain fs f where es': "es' = fs @ [f]" using c'(2) by (cases es' rule: rev_cases) auto
  let ?p = "tail_hash '''' es" and ?q = "tail_hash '''' fs"
  have h: "EV_Hash ev = H (?p @ canonical marshal (body ev))" "EV_Hash f = H (?q @ canonical marshal (body f))"
    "EV_Hash f = head" "chained H marshal '''' es" "chained H marshal '''' fs"
    using c c' by (simp_all add: es' chained_append chainHash_def)
  have "?p @ canonical marshal (body ev) = ?q @ canonical marshal (body f)"
  proof (rule inj_onD [OF snoc.prems(6)])
    show "H (?p @ canonical marshal (body ev)) = H (?q @ canonical marshal (body f))"
      using h(1-3) c(2) by simp
  qed (simp_all add: es' hashed_append)
  moreover have b: "braced marshal ev" "braced marshal f" using snoc.prems(4,5) by (simp_all add: es')
  ultimately have eq: "?p = ?q" "canonical marshal (body ev) = canonical marshal (body f)"
    using split_at_brace [of ?p ?q "canonical marshal (body ev)" "canonical marshal (body f)"]
      chained_hash_hex(1) [OF h(4) snoc.prems(3)] chained_hash_hex(1) [OF h(5) snoc.prems(3)]
    by (auto simp: braced_def canonical_def split: option.splits)
  have "map (\<lambda>ev. (marshal (body ev), EV_Hash ev)) es = map (\<lambda>ev. (marshal (body ev), EV_Hash ev)) fs"
  proof (rule snoc.IH [of ?p])
    show "VerifyChain H marshal es ?p = None" "VerifyChain H marshal fs ?p = None"
      using h eq(1) by (simp_all add: VerifyChain_None)
    show "inj_on H (set (hashed marshal '''' es) \<union> set (hashed marshal '''' fs))"
      using snoc.prems(6) by (rule inj_on_subset) (auto simp: es' hashed_append)
  qed (use snoc.prems in \<open>simp_all add: es'\<close>)
  moreover have "marshal (body ev) = marshal (body f)"
    using eq(2) b by (auto simp: braced_def canonical_def split: option.splits)
  ultimately show ?case using c(2) h(3) by (simp add: es')
qed

text \<open>
  An event without an encoding is not protected. Package json has no encoding for an
  infinite cost, and the code drops that error and hashes nothing in its place: two events
  that cannot be encoded can be exchanged in a log without the check noticing.
\<close>

theorem unencodable_event_unprotected:
  assumes "marshal (body ev) = None" "marshal (body ev') = None" "EV_Hash ev' = EV_Hash ev"
  shows "VerifyChain H marshal (xs @ ev' # ys) head = VerifyChain H marshal (xs @ ev # ys) head"
proof -
  have "verify_from H marshal i prev (xs @ ev' # ys) head = verify_from H marshal i prev (xs @ ev # ys) head" for i prev
    using assms by (induction xs arbitrary: i prev) (simp_all add: chainHash_def canonical_def)
  then show ?thesis by (simp add: VerifyChain_def)
qed

section \<open>The properties at work\<close>

definition toy_digest :: digest where
  "toy_digest x = CHR ''h'' # map (\<lambda>c. if c = CHR ''{'' then CHR ''('' else c) x"

definition toy_marshal :: marshaller where
  "toy_marshal b = (if list_ex (\<lambda>(k, v). v = VFloat PosInf) (EB_Detail b) then None
     else Some (CHR ''{'' # EB_Type b))"

definition sample_event :: "string \<Rightarrow> string \<Rightarrow> event" where
  "sample_event ty h = \<lparr>EB_Seq = 0, EB_Type = ty, EB_At = 0, EB_Detail = [(''step'', VInt 1)], EV_Hash = h\<rparr>"

lemma log_tamper_evident_witness:
  "\<exists>H marshal es. length es = 2 \<and> VerifyChain H marshal es (EV_Hash (last es)) = None \<and>
     (\<forall>es'. length es' = 2 \<and> list_all (braced marshal) es' \<and> inj_on H (set (hashed marshal '''' es) \<union> set (hashed marshal '''' es')) \<and>
        VerifyChain H marshal es' (EV_Hash (last es)) = None \<longrightarrow> map EV_Hash es' = map EV_Hash es)"
proof -
  let ?es = "[sample_event ''a'' ''h(a'', sample_event ''b'' ''hh(a(b'']"
  have hex: "hex_digest toy_digest" by (auto simp: hex_digest_def toy_digest_def)
  have ok: "VerifyChain toy_digest toy_marshal ?es ''hh(a(b'' = None"
    by (simp add: VerifyChain_def chainHash_def canonical_def toy_marshal_def toy_digest_def sample_event_def body_def)
  have br: "list_all (braced toy_marshal) ?es"
    by (simp add: braced_def toy_marshal_def sample_event_def body_def)
  have "map EV_Hash es' = map EV_Hash ?es"
    if "list_all (braced toy_marshal) es'" "VerifyChain toy_digest toy_marshal es' ''hh(a(b'' = None"
      "inj_on toy_digest (set (hashed toy_marshal '''' ?es) \<union> set (hashed toy_marshal '''' es'))" for es'
    using arg_cong [OF log_tamper_evident [OF ok that(2) hex br that(1,3)], of "map snd"] by simp
  then show ?thesis using ok
    by (intro exI [of _ toy_digest] exI [of _ toy_marshal] exI [of _ ?es]) (auto simp: sample_event_def)
qed

lemma unencodable_event_unprotected_witness:
  "let ev = (\<lambda>m. \<lparr>EB_Seq = 0, EB_Type = ''model_call'', EB_At = 0,
       EB_Detail = [(''model'', VStr m), (''dollars'', VFloat PosInf)], EV_Hash = toy_digest ''''\<rparr>)
   in VerifyChain toy_digest toy_marshal [ev ''gpt-4o''] (toy_digest '''') = None \<and>
      VerifyChain toy_digest toy_marshal [ev ''other''] (toy_digest '''') = None"
  using unencodable_event_unprotected [of toy_marshal
      "\<lparr>EB_Seq = 0, EB_Type = ''model_call'', EB_At = 0, EB_Detail = [(''model'', VStr ''gpt-4o''), (''dollars'', VFloat PosInf)], EV_Hash = toy_digest ''''\<rparr>"
      "\<lparr>EB_Seq = 0, EB_Type = ''model_call'', EB_At = 0, EB_Detail = [(''model'', VStr ''other''), (''dollars'', VFloat PosInf)], EV_Hash = toy_digest ''''\<rparr>"
      toy_digest "[]" "[]" "toy_digest ''''"]
  by (simp add: Let_def VerifyChain_def chainHash_def canonical_def toy_marshal_def body_def)

end
