(* ===== verification/Provider.thy ===== *)
theory Provider
  imports GoPrelude Float64 Timestamp "HOL-Library.AList"
begin

text \<open>
  The provider abstraction (\<open>internal/provider/provider.go\<close>, \<open>stream.go\<close>) and the registry
  (\<open>registry.go\<close>). A \<open>Provider\<close> value is a record of its methods: what a call answers is a
  function of the request, an error or a response. An open stream is the list of what its
  \<open>Recv\<close> calls answer, up to and with the first that reports an error, and the accounting
  after a number of them.
\<close>

section \<open>Text of numbers\<close>

definition FormatInt :: "int \<Rightarrow> string" where
  "FormatInt n = (if n < 0 then CHR ''-'' # decimal (- n) else decimal n)"

text \<open>\<open>%q\<close> of a name without characters that need an escape.\<close>

definition quoted :: "string \<Rightarrow> string" where
  "quoted s = CHR 0x22 # s @ [CHR 0x22]"

section \<open>Calls\<close>

definition RoleSystem :: string where "RoleSystem = ''system''"
definition RoleUser :: string where "RoleUser = ''user''"
definition RoleAssistant :: string where "RoleAssistant = ''assistant''"

record chat_message =
  CM_Role :: string
  CM_Content :: string

record chat_request =
  CR_Model :: string
  CR_System :: string
  CR_Messages :: "chat_message list"
  CR_MaxTokens :: int64
  CR_Temperature :: "float64 option"

record token_usage =
  TU_PromptTokens :: int64
  TU_CompletionTokens :: int64

definition usage_Total :: "token_usage \<Rightarrow> int64" where
  "usage_Total u = TU_PromptTokens u + TU_CompletionTokens u"

definition no_usage :: token_usage where
  "no_usage = \<lparr>TU_PromptTokens = 0, TU_CompletionTokens = 0\<rparr>"

record chat_response =
  RS_ID :: string
  RS_Model :: string
  RS_Content :: string
  RS_FinishReason :: string
  RS_Usage :: token_usage

record chat_stream =
  CS_Recv :: "(string \<times> string option) list"
  CS_Usage :: "nat \<Rightarrow> token_usage"
  CS_Model :: "nat \<Rightarrow> string"

record provider =
  PV_Name :: string
  PV_Chat :: "chat_request \<Rightarrow> string + chat_response"
  PV_Stream :: "(chat_request \<Rightarrow> string + chat_stream) option"

section \<open>The registry\<close>

record registry =
  RG_providers :: "(string \<times> provider) list"
  RG_def :: string

fun register_all :: "provider option list \<Rightarrow> (string \<times> provider) list \<Rightarrow> (string \<times> provider) list" where
  "register_all [] m = m"
| "register_all (None # ps) m = register_all ps m"
| "register_all (Some p # ps) m = register_all ps (AList.update (PV_Name p) p m)"

definition NewRegistry :: "string \<Rightarrow> provider option list \<Rightarrow> string + registry" where
  "NewRegistry defaultName ps =
     (let m = register_all ps []
      in case map_of m defaultName of
           None \<Rightarrow> Inl (''provider registry: default provider '' @ quoted defaultName @ '' is not registered'')
         | Some _ \<Rightarrow> Inr \<lparr>RG_providers = m, RG_def = defaultName\<rparr>)"

definition registry_Get :: "registry \<Rightarrow> string \<Rightarrow> string + provider" where
  "registry_Get r name =
     (let name = (if name = '''' then RG_def r else name)
      in case map_of (RG_providers r) name of
           None \<Rightarrow> Inl (''provider '' @ quoted name @ '' is not configured'')
         | Some p \<Rightarrow> Inr p)"

definition registry_Default :: "registry \<Rightarrow> provider option" where
  "registry_Default r = map_of (RG_providers r) (RG_def r)"

definition registry_Names :: "registry \<Rightarrow> string list" where
  "registry_Names r = map fst (RG_providers r)"

text \<open>A registry that was built answers the empty name with its default provider.\<close>

lemma register_all_get:
  "map_of (register_all ps m) k =
     (case filter (\<lambda>p. PV_Name p = k) (List.map_filter id ps) of [] \<Rightarrow> map_of m k | xs \<Rightarrow> Some (last xs))"
proof (induction ps m rule: register_all.induct)
  case (3 p ps m)
  then show ?case
    by (auto simp: map_filter_simps update_conv' split: list.split)
qed (simp_all add: map_filter_simps)

lemma NewRegistry_default:
  "NewRegistry name ps = Inr r \<Longrightarrow> \<exists>p. registry_Get r '''' = Inr p \<and> registry_Default r = Some p"
  by (auto simp: NewRegistry_def registry_Get_def registry_Default_def Let_def split: option.splits)

end
