(* ===== verification/Gateway.thy ===== *)
theory Gateway
  imports Http Telemetry Provider Pricing Runs RunsLaws
begin

text \<open>
  The model gateway (\<open>internal/gateway\<close>: \<open>gateway.go\<close>, \<open>openai.go\<close>, \<open>anthropic.go\<close>). One
  governed call is: begin the step, check the ceilings, route by model, ask the provider,
  price, record. While the provider works other requests use known runs: they are the events
  \<open>GW_during\<close> of the run manager. Package json's decoders are fields of \<open>gw_world\<close>.
\<close>

section \<open>State\<close>

record gateway =
  GW_providers :: registry
  GW_prices :: price_table

record gw_state =
  gw_runs :: manager
  gw_tracer :: tracer
  gw_asked :: "(string \<times> chat_request) list"

text \<open>A decoded chat request of either wire format; \<open>WQ_System\<close> is Anthropic's.\<close>

record wire_request =
  WQ_Model :: string
  WQ_MaxTokens :: int64
  WQ_System :: string
  WQ_Messages :: "(string \<times> string) list"
  WQ_Temperature :: "float64 option"
  WQ_Stream :: bool

record gw_world =
  GW_decode :: "string \<Rightarrow> string + wire_request"
  GW_string :: "string \<Rightarrow> string option"
  GW_blocks :: "string \<Rightarrow> (string \<times> string) list option"
  GW_tBegin :: time
  GW_tProceed :: time
  GW_tRecord :: time
  GW_during :: "run_event list"
  GW_client :: "nat \<Rightarrow> bool"
  GW_flusher :: bool
  GW_newID :: string
  GW_unix :: int64

record gw_error =
  GE_status :: int
  GE_code :: string
  GE_message :: string

record call_meta =
  ME_step :: int32
  ME_cost :: float64
  ME_priced :: bool
  ME_halt :: halt_reason

record oai_chat_response =
  OA_ID :: string
  OA_Object :: string
  OA_Created :: int64
  OA_Model :: string
  OA_Index :: int
  OA_Role :: string
  OA_Content :: string
  OA_FinishReason :: string
  OA_PromptTokens :: int64
  OA_CompletionTokens :: int64
  OA_TotalTokens :: int64

record ant_messages_response =
  AM_ID :: string
  AM_Type :: string
  AM_Role :: string
  AM_Model :: string
  AM_Content :: "(string \<times> string) list"
  AM_StopReason :: string
  AM_InputTokens :: int64
  AM_OutputTokens :: int64

datatype gw_reply =
    ErrorReply gw_error
  | OpenAIReply header oai_chat_response
  | AnthropicReply header ant_messages_response
  | StreamReply header "string list"

definition headerStep :: string where "headerStep = ''X-RiskKernel-Step''"
definition headerCostUSD :: string where "headerCostUSD = ''X-RiskKernel-Cost-Usd''"
definition headerTokens :: string where "headerTokens = ''X-RiskKernel-Tokens''"
definition headerHaltReason :: string where "headerHaltReason = ''X-RiskKernel-Halt-Reason''"
definition gwHeaderRunID :: string where "gwHeaderRunID = ''X-RiskKernel-Run-Id''"
definition maxBodyBytes :: nat where "maxBodyBytes = 10 * 1024 * 1024"

definition gateway_New :: "registry \<Rightarrow> manager \<Rightarrow> price_table \<Rightarrow> tracer option \<Rightarrow> gateway \<times> gw_state" where
  "gateway_New providers mgr prices tr =
     (\<lparr>GW_providers = providers, GW_prices = prices\<rparr>,
      \<lparr>gw_runs = mgr, gw_tracer = (case tr of None \<Rightarrow> Disabled | Some t \<Rightarrow> t), gw_asked = []\<rparr>)"

section \<open>Routing and errors\<close>

definition routeModel :: "string \<Rightarrow> string" where
  "routeModel model =
     (let m = ToLower model
      in if HasPrefix m ''claude'' then ''anthropic''
         else if HasPrefix m ''gpt'' \<or> HasPrefix m ''o1'' \<or> HasPrefix m ''o3'' then ''openai''
         else '''')"

definition gwErr :: "int \<Rightarrow> string \<Rightarrow> string \<Rightarrow> gw_error" where
  "gwErr status code message = \<lparr>GE_status = status, GE_code = code, GE_message = message\<rparr>"

definition haltReasonOf :: "halt_error option \<Rightarrow> halt_reason" where
  "haltReasonOf err = (case err of Some e \<Rightarrow> he_Reason e | None \<Rightarrow> HaltNone)"

definition haltGWError :: "halt_reason \<Rightarrow> gw_error" where
  "haltGWError reason =
     (if reason = HaltNone then gwErr 500 ''internal_error'' ''run not runnable''
      else gwErr 402 reason (''run halted: '' @ reason))"

definition budgetError :: "halt_error \<Rightarrow> gw_error" where
  "budgetError e = haltGWError (haltReasonOf (Some e))"

definition max64 :: "int64 \<Rightarrow> int64 \<Rightarrow> int64" where
  "max64 a b = (if b <s a then a else b)"

definition maxF :: "float64 \<Rightarrow> float64 \<Rightarrow> float64" where
  "maxF a b = (if flt b a then a else b)"

section \<open>A governed call\<close>

definition emitCallSpan ::
    "addr \<Rightarrow> int32 \<Rightarrow> string \<Rightarrow> chat_request \<Rightarrow> chat_response \<Rightarrow> float64 \<Rightarrow> bool \<Rightarrow> halt_reason \<Rightarrow>
     gw_state \<Rightarrow> gw_state" where
  "emitCallSpan a step providerName preq resp cost known halt s =
     (if \<not> TR_enabled (gw_tracer s) then s
      else
        (let v = run_View (run_at (gw_runs s) a); b = VW_Budget v; u = VW_Usage v;
             tl = (0 <s B_Tokens b); dl = flt fzero (B_Dollars b)
         in s\<lparr>gw_tracer := tracer_RecordCall
           \<lparr>SP_RunID = VW_ID v, SP_RunName = VW_Name v, SP_Metadata = VW_Metadata v, SP_StepIndex = step,
            SP_Provider = providerName, SP_Operation = ''chat'', SP_RequestModel = CR_Model preq,
            SP_ResponseModel = RS_Model resp, SP_MaxTokens = CR_MaxTokens preq,
            SP_Temperature = CR_Temperature preq, SP_PromptTokens = TU_PromptTokens (RS_Usage resp),
            SP_OutputTokens = TU_CompletionTokens (RS_Usage resp), SP_CostUSD = cost, SP_Priced = known,
            SP_FinishReason = RS_FinishReason resp, SP_ResponseID = RS_ID resp,
            SP_BudgetTokensLimit = (if tl then B_Tokens b else 0),
            SP_BudgetTokensRemaining = (if tl then max64 0 (B_Tokens b - Tokens u) else 0),
            SP_BudgetDollarsLimit = (if dl then B_Dollars b else fzero),
            SP_BudgetDollarsRemaining = (if dl then maxF fzero (fsub (B_Dollars b) (U_Dollars u)) else fzero),
            SP_HaltReason = halt, SP_Err = None\<rparr> (gw_tracer s)\<rparr>))"

definition error_span :: "run_obj \<Rightarrow> int32 \<Rightarrow> string \<Rightarrow> chat_request \<Rightarrow> string \<Rightarrow> call_span" where
  "error_span r step providerName preq err =
     \<lparr>SP_RunID = rn_ID r, SP_RunName = '''', SP_Metadata = [], SP_StepIndex = step,
      SP_Provider = providerName, SP_Operation = ''chat'', SP_RequestModel = CR_Model preq,
      SP_ResponseModel = '''', SP_MaxTokens = CR_MaxTokens preq, SP_Temperature = CR_Temperature preq,
      SP_PromptTokens = 0, SP_OutputTokens = 0, SP_CostUSD = fzero, SP_Priced = False,
      SP_FinishReason = '''', SP_ResponseID = '''', SP_BudgetTokensLimit = 0,
      SP_BudgetTokensRemaining = 0, SP_BudgetDollarsLimit = fzero, SP_BudgetDollarsRemaining = fzero,
      SP_HaltReason = '''', SP_Err = Some err\<rparr>"

text \<open>The two guards both paths begin with.\<close>

definition admit :: "gw_world \<Rightarrow> addr \<Rightarrow> manager \<Rightarrow> manager \<times> (halt_error + int32)" where
  "admit w a m =
     (let (m, b) = BeginStep a (GW_tBegin w) m
      in case b of
           Inl e \<Rightarrow> (m, Inl e)
         | Inr step \<Rightarrow>
             (let (m, err) = run_CanProceed a (GW_tProceed w) m
              in (m, case err of Some e \<Rightarrow> Inl e | None \<Rightarrow> Inr step)))"

text \<open>What other requests did by the time the provider answered.\<close>

definition meanwhile :: "gw_world \<Rightarrow> manager \<Rightarrow> manager" where
  "meanwhile w m = final_state run_step m (GW_during w)"

definition made_call :: "int32 \<Rightarrow> string \<Rightarrow> string \<Rightarrow> token_usage \<Rightarrow> float64 \<Rightarrow> bool \<Rightarrow> string \<Rightarrow> call" where
  "made_call step providerName model u cost known rid =
     \<lparr>CL_StepIndex = step, CL_Provider = providerName, CL_Model = model,
      CL_PromptTokens = TU_PromptTokens u, CL_CompletionTokens = TU_CompletionTokens u,
      CL_Dollars = cost, CL_Priced = known, CL_ResponseID = rid\<rparr>"

definition governedCall ::
    "gw_world \<Rightarrow> gateway \<Rightarrow> addr \<Rightarrow> chat_request \<Rightarrow> gw_state \<Rightarrow> gw_state \<times> (gw_error + chat_response \<times> call_meta)" where
  "governedCall w g a preq s =
     (let (m, b) = admit w a (gw_runs s); s = s\<lparr>gw_runs := m\<rparr>
      in case b of
           Inl e \<Rightarrow> (s, Inl (budgetError e))
         | Inr step \<Rightarrow>
         (case registry_Get (GW_providers g) (routeModel (CR_Model preq)) of
            Inl e \<Rightarrow> (s, Inl (gwErr 400 ''unknown_provider'' e))
          | Inr prov \<Rightarrow>
            (let s = s\<lparr>gw_asked := gw_asked s @ [(PV_Name prov, preq)], gw_runs := meanwhile w m\<rparr>
             in case PV_Chat prov preq of
                  Inl e \<Rightarrow>
                    (let r = run_at (gw_runs s) a;
                         s = s\<lparr>gw_tracer := tracer_RecordCall (error_span r step (PV_Name prov) preq e) (gw_tracer s)\<rparr>
                     in (s, Inl (if Halted (rn_gov r) then haltGWError (g_halted (rn_gov r))
                                 else gwErr 502 ''provider_error'' e)))
                | Inr resp \<Rightarrow>
                    (let u = RS_Usage resp;
                         (cost, known) = Cost (GW_prices g) (RS_Model resp) (TU_PromptTokens u) (TU_CompletionTokens u);
                         (m, recErr) = RecordCall a (made_call step (PV_Name prov) (RS_Model resp) u cost known (RS_ID resp))
                           (GW_tRecord w) (gw_runs s);
                         meta = \<lparr>ME_step = step, ME_cost = cost, ME_priced = known, ME_halt = haltReasonOf recErr\<rparr>;
                         s = emitCallSpan a step (PV_Name prov) preq resp cost known (ME_halt meta) (s\<lparr>gw_runs := m\<rparr>)
                     in (s, Inr (resp, meta))))))"

section \<open>A streamed call\<close>

text \<open>
  The loop that relays chunks: what the client received, and how often \<open>Recv\<close> was called.
  \<open>GW_client w n\<close> says whether a write of chunk \<open>n\<close> reaches the client.
\<close>

fun relay :: "(nat \<Rightarrow> bool) \<Rightarrow> nat \<Rightarrow> (string \<times> string option) list \<Rightarrow> string list \<times> nat" where
  "relay client n [] = ([], n)"
| "relay client n ((chunk, rerr) # rs) =
     (if chunk \<noteq> '''' \<and> \<not> client n then ([], Suc n)
      else (let out = (if chunk \<noteq> '''' then [chunk] else [])
            in if rerr \<noteq> None then (out, Suc n)
               else (let (outs, k) = relay client (Suc n) rs in (out @ outs, k))))"

definition streamCall ::
    "gw_world \<Rightarrow> gateway \<Rightarrow> addr \<Rightarrow> chat_request \<Rightarrow> gw_state \<Rightarrow> gw_state \<times> gw_reply" where
  "streamCall w g a preq s =
     (let (m, b) = admit w a (gw_runs s); s = s\<lparr>gw_runs := m\<rparr>
      in case b of
           Inl e \<Rightarrow> (s, ErrorReply (budgetError e))
         | Inr step \<Rightarrow>
         (case registry_Get (GW_providers g) (routeModel (CR_Model preq)) of
            Inl e \<Rightarrow> (s, ErrorReply (gwErr 400 ''unknown_provider'' e))
          | Inr prov \<Rightarrow>
            (case PV_Stream prov of
               None \<Rightarrow> (s, ErrorReply (gwErr 501 ''streaming_unsupported''
                     (''streaming is not supported for provider '' @ PV_Name prov @ ''; set stream:false'')))
             | Some ChatStream \<Rightarrow>
               if \<not> GW_flusher w
               then (s, ErrorReply (gwErr 500 ''internal_error'' ''response writer does not support streaming''))
               else
               (let s = s\<lparr>gw_asked := gw_asked s @ [(PV_Name prov, preq)], gw_runs := meanwhile w m\<rparr>;
                    r = run_at (gw_runs s) a
                in case ChatStream preq of
                     Inl e \<Rightarrow> (s, ErrorReply (if Halted (rn_gov r) then haltGWError (g_halted (rn_gov r))
                                              else gwErr 502 ''provider_error'' e))
                   | Inr strm \<Rightarrow>
                     (let h = fold (\<lambda>(k, v) h. header_set h k v)
                            [(''Content-Type'', ''text/event-stream''), (''Cache-Control'', ''no-cache''),
                             (''Connection'', ''keep-alive''), (gwHeaderRunID, rn_ID r),
                             (headerStep, FormatInt (sint step))] [];
                          (out, n) = relay (GW_client w) 0 (CS_Recv strm);
                          model = (if CS_Model strm n = '''' then CR_Model preq else CS_Model strm n);
                          u = CS_Usage strm n;
                          (cost, known) = Cost (GW_prices g) model (TU_PromptTokens u) (TU_CompletionTokens u);
                          (m, _) = RecordCall a (made_call step (PV_Name prov) model u cost known '''')
                            (GW_tRecord w) (gw_runs s);
                          s = s\<lparr>gw_runs := m\<rparr>;
                          s = emitCallSpan a step (PV_Name prov) preq
                            \<lparr>RS_ID = '''', RS_Model = model, RS_Content = '''', RS_FinishReason = '''', RS_Usage = u\<rparr>
                            cost known (g_halted (rn_gov (run_at m a))) s
                      in (s, StreamReply h out))))))"

section \<open>Handlers\<close>

text \<open>\<open>strconv.FormatFloat(x, 'f', 6, 64)\<close>: the exact value to six places, half to even.\<close>

definition FormatF6 :: "float64 \<Rightarrow> string" where
  "FormatF6 x =
     (case x of NaN \<Rightarrow> ''NaN'' | PosInf \<Rightarrow> ''+Inf'' | NegInf \<Rightarrow> ''-Inf''
      | Fin q \<Rightarrow> (let n = rne (\<bar>q\<bar> * 1000000); s = decimal (n div 1000000) @ ''.'' @ pad 6 (n mod 1000000)
                 in if q < 0 then CHR ''-'' # s else s))"

definition stampHeaders :: "run_obj \<Rightarrow> chat_response \<Rightarrow> call_meta \<Rightarrow> header" where
  "stampHeaders r resp meta =
     (let h = fold (\<lambda>(k, v) h. header_set h k v)
            [(gwHeaderRunID, rn_ID r), (headerStep, FormatInt (sint (ME_step meta))),
             (headerCostUSD, FormatF6 (ME_cost meta)),
             (headerTokens, FormatInt (sint (usage_Total (RS_Usage resp))))] []
      in if ME_halt meta \<noteq> HaltNone then header_set h headerHaltReason (ME_halt meta) else h)"

definition gw_resolveRun :: "gw_world \<Rightarrow> http_request \<Rightarrow> gw_state \<Rightarrow> gw_state \<times> addr" where
  "gw_resolveRun w r s =
     (let rid = header_get (RQ_Header r) gwHeaderRunID;
          (m, a) = (if rid \<noteq> '''' then GetOrCreate rid (GW_tBegin w) (gw_runs s)
                    else run_Create \<lparr>CO_ID = '''', CO_Name = ''proxy'', CO_Budget = None,
                           CO_PolicyRef = '''', CO_Metadata = []\<rparr> (GW_newID w) (GW_tBegin w) (gw_runs s))
      in (s\<lparr>gw_runs := m\<rparr>, a))"

definition decodeContent :: "gw_world \<Rightarrow> string \<Rightarrow> string" where
  "decodeContent w raw =
     (if raw = '''' then ''''
      else (case GW_string w raw of
              Some s \<Rightarrow> s
            | None \<Rightarrow> (case GW_blocks w raw of Some bs \<Rightarrow> concat (map snd bs) | None \<Rightarrow> '''')))"

definition readBody :: "http_request \<Rightarrow> string option" where
  "readBody r = read_limited maxBodyBytes r"

text \<open>The decoded request of a handler, or its 400.\<close>

definition accept_request :: "gw_world \<Rightarrow> http_request \<Rightarrow> gw_error + wire_request" where
  "accept_request w r =
     (case readBody r of
        None \<Rightarrow> Inl (gwErr 400 ''bad_request'' ''could not read request body'')
      | Some body \<Rightarrow>
          (case GW_decode w body of
             Inl e \<Rightarrow> Inl (gwErr 400 ''bad_request'' (''invalid JSON: '' @ e))
           | Inr req \<Rightarrow>
               if WQ_Model req = '''' \<or> WQ_Messages req = []
               then Inl (gwErr 400 ''bad_request'' ''model and messages are required'')
               else Inr req))"

definition openAIFinishReason :: "string \<Rightarrow> string" where
  "openAIFinishReason r =
     (if r = ''end_turn'' \<or> r = ''stop_sequence'' \<or> r = ''stop'' then ''stop''
      else if r = ''max_tokens'' \<or> r = ''length'' then ''length''
      else if r = ''tool_use'' \<or> r = ''tool_calls'' then ''tool_calls''
      else if r = '''' then ''stop''
      else r)"

definition oai_request :: "gw_world \<Rightarrow> wire_request \<Rightarrow> chat_request" where
  "oai_request w req =
     \<lparr>CR_Model = WQ_Model req, CR_System = '''',
      CR_Messages = map (\<lambda>(role, raw). \<lparr>CM_Role = role, CM_Content = decodeContent w raw\<rparr>) (WQ_Messages req),
      CR_MaxTokens = WQ_MaxTokens req, CR_Temperature = WQ_Temperature req\<rparr>"

definition oai_response :: "gw_world \<Rightarrow> chat_response \<Rightarrow> oai_chat_response" where
  "oai_response w resp =
     \<lparr>OA_ID = ''chatcmpl-'' @ RS_ID resp, OA_Object = ''chat.completion'', OA_Created = GW_unix w,
      OA_Model = RS_Model resp, OA_Index = 0, OA_Role = ''assistant'', OA_Content = RS_Content resp,
      OA_FinishReason = openAIFinishReason (RS_FinishReason resp),
      OA_PromptTokens = TU_PromptTokens (RS_Usage resp),
      OA_CompletionTokens = TU_CompletionTokens (RS_Usage resp),
      OA_TotalTokens = usage_Total (RS_Usage resp)\<rparr>"

definition handleChatCompletions :: "gw_world \<Rightarrow> gateway \<Rightarrow> http_request \<Rightarrow> gw_state \<Rightarrow> gw_state \<times> gw_reply" where
  "handleChatCompletions w g r s =
     (case accept_request w r of
        Inl e \<Rightarrow> (s, ErrorReply e)
      | Inr req \<Rightarrow>
          (let preq = oai_request w req; (s, a) = gw_resolveRun w r s
           in if WQ_Stream req then streamCall w g a preq s
              else (let (s, res) = governedCall w g a preq s
                    in case res of
                         Inl e \<Rightarrow> (s, ErrorReply e)
                       | Inr (resp, meta) \<Rightarrow>
                           (s, OpenAIReply (stampHeaders (run_at (gw_runs s) a) resp meta) (oai_response w resp)))))"

definition defaultStr :: "string \<Rightarrow> string \<Rightarrow> string" where
  "defaultStr s def = (if s = '''' then def else s)"

definition ant_request :: "gw_world \<Rightarrow> wire_request \<Rightarrow> chat_request" where
  "ant_request w req =
     \<lparr>CR_Model = WQ_Model req, CR_System = decodeContent w (WQ_System req),
      CR_Messages = map (\<lambda>(role, raw). \<lparr>CM_Role = role, CM_Content = decodeContent w raw\<rparr>) (WQ_Messages req),
      CR_MaxTokens = WQ_MaxTokens req, CR_Temperature = WQ_Temperature req\<rparr>"

definition ant_response :: "chat_response \<Rightarrow> ant_messages_response" where
  "ant_response resp =
     \<lparr>AM_ID = RS_ID resp, AM_Type = ''message'', AM_Role = ''assistant'', AM_Model = RS_Model resp,
      AM_Content = [(''text'', RS_Content resp)],
      AM_StopReason = defaultStr (RS_FinishReason resp) ''end_turn'',
      AM_InputTokens = TU_PromptTokens (RS_Usage resp),
      AM_OutputTokens = TU_CompletionTokens (RS_Usage resp)\<rparr>"

definition handleMessages :: "gw_world \<Rightarrow> gateway \<Rightarrow> http_request \<Rightarrow> gw_state \<Rightarrow> gw_state \<times> gw_reply" where
  "handleMessages w g r s =
     (case accept_request w r of
        Inl e \<Rightarrow> (s, ErrorReply e)
      | Inr req \<Rightarrow>
          (let preq = ant_request w req; (s, a) = gw_resolveRun w r s
           in if WQ_Stream req then streamCall w g a preq s
              else (let (s, res) = governedCall w g a preq s
                    in case res of
                         Inl e \<Rightarrow> (s, ErrorReply e)
                       | Inr (resp, meta) \<Rightarrow>
                           (s, AnthropicReply (stampHeaders (run_at (gw_runs s) a) resp meta) (ant_response resp)))))"

end
