(* ===== verification/GatewayLaws.thy ===== *)
theory GatewayLaws
  imports Gateway
begin

text \<open>
  What the model gateway guarantees: a run that is over gets a 402 and reaches no provider,
  the loop budget bounds the provider calls of a run, every answered call is charged with
  what the provider reported, and what a client that goes away early is charged.
\<close>

section \<open>A governed call as events of the run manager\<close>

fun gov_event_of :: "run_event \<Rightarrow> gov_event" where
  "gov_event_of (RBeginStep _ now) = EPreStep now"
| "gov_event_of (RCanProceed _ now) = ECanProceed now"
| "gov_event_of (RRecordCall _ c now) = ERecordUsage now (CL_PromptTokens c) (CL_CompletionTokens c) (CL_Dollars c)"
| "gov_event_of (RCancel _ now) = ECancel"

text \<open>A method of the run at \<open>a\<close> changes that run only, and its governor as one event does.\<close>

definition acts_on :: "addr \<Rightarrow> gov_event \<Rightarrow> manager \<Rightarrow> manager \<Rightarrow> bool" where
  "acts_on a e m m' \<longleftrightarrow> m_runs m' = m_runs m \<and> length (m_heap m') = length (m_heap m) \<and>
     (\<forall>b. b \<noteq> a \<longrightarrow> run_at m' b = run_at m b) \<and> rn_ID (run_at m' a) = rn_ID (run_at m a) \<and>
     rn_gov (run_at m' a) = fst (gov_step (rn_gov (run_at m a)) e)"

lemma persistRun_sel [simp]:
  "m_runs (persistRun a m) = m_runs m" "m_heap (persistRun a m) = m_heap m" "run_at (persistRun a m) b = run_at m b"
  by (simp_all add: persistRun_def)

lemma fold_store_write_sel [simp]:
  "m_runs (fold store_write es m) = m_runs m" "m_heap (fold store_write es m) = m_heap m"
  "run_at (fold store_write es m) b = run_at m b"
  by (induction es arbitrary: m) simp_all

lemma BeginStep_acts: "a < length (m_heap m) \<Longrightarrow> acts_on a (EPreStep now) m (fst (BeginStep a now m))"
  by (auto simp: BeginStep_def acts_on_def case_prod_beta Let_def set_gov_def persistHalt_def touch_def
      persistStepStart_def split: option.split)

lemma CanProceed_acts: "a < length (m_heap m) \<Longrightarrow> acts_on a (ECanProceed now) m (fst (run_CanProceed a now m))"
  by (auto simp: run_CanProceed_def acts_on_def case_prod_beta Let_def set_gov_def persistHalt_def touch_def
      split: option.split)

lemma RecordCall_acts:
  "a < length (m_heap m) \<Longrightarrow>
     acts_on a (ERecordUsage now (CL_PromptTokens c) (CL_CompletionTokens c) (CL_Dollars c)) m (fst (RecordCall a c now m))"
  by (auto simp: RecordCall_def acts_on_def case_prod_beta Let_def set_gov_def touch_def persistCall_def)

lemma Cancel_acts: "a < length (m_heap m) \<Longrightarrow> acts_on a ECancel m (run_Cancel a now m)"
  by (auto simp: run_Cancel_def acts_on_def set_gov_def touch_def)

lemma on_run_acts: "a < length (m_heap m) \<Longrightarrow> acts_on a (gov_event_of e) m (fst (on_run a e m))"
  by (cases e) (simp_all add: BeginStep_acts CanProceed_acts RecordCall_acts Cancel_acts)

text \<open>The run table is sound: an id leads to a run of that id.\<close>

definition addressed :: "manager \<Rightarrow> bool" where
  "addressed m \<longleftrightarrow> (\<forall>rid a. get_run rid m = Some a \<longrightarrow> a < length (m_heap m) \<and> rn_ID (run_at m a) = rid)"

lemma mirrors_addressed: "mirrors m \<Longrightarrow> addressed m"
  by (auto simp: mirrors_def addressed_def)

lemma acts_on_get: "acts_on a e m m' \<Longrightarrow> get_run rid m' = get_run rid m"
  by (simp add: acts_on_def get_run_def)

lemma acts_on_addressed: "addressed m \<Longrightarrow> acts_on a e m m' \<Longrightarrow> addressed m'"
  by (fastforce simp: addressed_def acts_on_def get_run_def)

lemma run_step_addressed: "addressed m \<Longrightarrow> addressed (fst (run_step m e)) \<and> get_run rid (fst (run_step m e)) = get_run rid m"
proof (cases "get_run (event_run e) m")
  case None
  assume "addressed m"
  with None show ?thesis by (simp add: run_step_def)
next
  case (Some b)
  assume ad: "addressed m"
  with Some have "acts_on b (gov_event_of e) m (fst (run_step m e))"
    by (simp add: run_step_def addressed_def on_run_acts)
  with acts_on_addressed [OF ad this] acts_on_get [OF this] show ?thesis by simp
qed

lemma run_events_addressed:
  "addressed m \<Longrightarrow> addressed (final_state run_step m es) \<and> get_run rid (final_state run_step m es) = get_run rid m"
proof (induction es arbitrary: m)
  case (Cons e es)
  then show ?case using run_step_addressed [of m e rid] by simp
qed simp

text \<open>The governor of one run under the events of all runs.\<close>

lemma run_step_gov:
  assumes "addressed m" "get_run rid m = Some a"
  shows "\<exists>es. rn_gov (run_at (fst (run_step m e)) a) = final_state gov_step (rn_gov (run_at m a)) es"
proof (cases "get_run (event_run e) m")
  case None
  then show ?thesis by (intro exI [of _ "[]"]) (simp add: run_step_def)
next
  case (Some b)
  with assms(1) have "acts_on b (gov_event_of e) m (fst (run_step m e))"
    by (simp add: run_step_def addressed_def on_run_acts)
  then show ?thesis
    by (cases "a = b") (auto simp: acts_on_def intro: exI [of _ "[gov_event_of e]"] exI [of _ "[]"])
qed

lemma run_events_gov:
  assumes "addressed m" "get_run rid m = Some a"
  shows "\<exists>gs. rn_gov (run_at (final_state run_step m es) a) = final_state gov_step (rn_gov (run_at m a)) gs"
  using assms
proof (induction es arbitrary: m)
  case Nil
  then show ?case by (intro exI [of _ "[]"]) simp
next
  case (Cons e es)
  note step = run_step_addressed [OF Cons.prems(1), of e rid]
  from Cons.IH [of "fst (run_step m e)"] step Cons.prems(2) obtain gs where
    "rn_gov (run_at (final_state run_step (fst (run_step m e)) es) a) =
      final_state gov_step (rn_gov (run_at (fst (run_step m e)) a)) gs" by auto
  moreover from run_step_gov [OF Cons.prems, of e] obtain hs where
    "rn_gov (run_at (fst (run_step m e)) a) = final_state gov_step (rn_gov (run_at m a)) hs" by blast
  ultimately have "rn_gov (run_at (final_state run_step m (e # es)) a) =
      final_state gov_step (rn_gov (run_at m a)) (hs @ gs)"
    by (simp add: final_state_append)
  then show ?case by blast
qed

lemma emitCallSpan_sel [simp]:
  "gw_runs (emitCallSpan a step n preq resp cost known halt s) = gw_runs s"
  "gw_asked (emitCallSpan a step n preq resp cost known halt s) = gw_asked s"
  by (simp_all add: emitCallSpan_def Let_def)

text \<open>
  What a request on the run at \<open>a\<close> does, whatever happens meanwhile: its governor goes through
  the step guard and some more events, and at most one provider is asked, after the guard
  admitted the step.
\<close>

definition extends :: "addr \<Rightarrow> manager \<Rightarrow> manager \<Rightarrow> bool" where
  "extends a m m' \<longleftrightarrow> addressed m' \<and> (\<forall>rid. get_run rid m' = get_run rid m) \<and>
     (\<exists>gs. rn_gov (run_at m' a) = final_state gov_step (rn_gov (run_at m a)) gs)"

lemma extends_trans: "extends a m m' \<Longrightarrow> extends a m' m'' \<Longrightarrow> extends a m m''"
  unfolding extends_def by (metis final_state_append)

lemma extends_refl: "addressed m \<Longrightarrow> extends a m m"
  unfolding extends_def by (intro conjI allI refl exI [of _ "[]"]) simp_all

lemma acts_on_extends: "addressed m \<Longrightarrow> acts_on a e m m' \<Longrightarrow> extends a m m'"
  using acts_on_addressed acts_on_get unfolding extends_def acts_on_def
  by (auto intro!: exI [of _ "[e]"])

lemma meanwhile_extends: "addressed m \<Longrightarrow> get_run rid m = Some a \<Longrightarrow> extends a m (meanwhile w m)"
  using run_events_addressed run_events_gov by (simp add: extends_def meanwhile_def)

lemma admit_cases:
  fixes w :: gw_world and a :: addr and m :: manager
  defines "g0 \<equiv> rn_gov (run_at m a)"
  assumes "addressed m" "get_run rid m = Some a" "admit w a m = (m', b)"
  shows "addressed m'" "get_run k m' = get_run k m"
    "\<exists>gs. rn_gov (run_at m' a) = final_state gov_step g0 (EPreStep (GW_tBegin w) # gs)"
    "b = Inr step \<Longrightarrow> admitted (EPreStep (GW_tBegin w)) (snd (gov_step g0 (EPreStep (GW_tBegin w))))"
proof -
  have len: "a < length (m_heap m)" using assms(2,3) by (simp add: addressed_def)
  let ?m1 = "fst (BeginStep a (GW_tBegin w) m)"
  note B = BeginStep_acts [OF len, of "GW_tBegin w"]
  have ad1: "addressed ?m1" "get_run k ?m1 = get_run k m" using acts_on_addressed [OF assms(2) B] acts_on_get [OF B] by simp_all
  have len1: "a < length (m_heap ?m1)" using B len by (simp add: acts_on_def)
  note C = CanProceed_acts [OF len1, of "GW_tProceed w"]
  have ad2: "addressed (fst (run_CanProceed a (GW_tProceed w) ?m1))"
    "get_run k (fst (run_CanProceed a (GW_tProceed w) ?m1)) = get_run k m"
    using acts_on_addressed [OF ad1(1) C] acts_on_get [OF C] ad1(2) by simp_all
  have g: "rn_gov (run_at ?m1 a) = final_state gov_step g0 [EPreStep (GW_tBegin w)]"
    "rn_gov (run_at (fst (run_CanProceed a (GW_tProceed w) ?m1)) a) =
       final_state gov_step g0 (EPreStep (GW_tBegin w) # [ECanProceed (GW_tProceed w)])"
    using B C by (simp_all add: acts_on_def g0_def)
  show "addressed m'" "get_run k m' = get_run k m"
    using assms(4) ad1 ad2 by (auto simp: admit_def case_prod_beta Let_def split: sum.splits)
  show "\<exists>gs. rn_gov (run_at m' a) = final_state gov_step g0 (EPreStep (GW_tBegin w) # gs)"
    using assms(4) g by (auto simp: admit_def case_prod_beta Let_def split: sum.splits intro: exI [of _ "[]"]
        simp del: final_state_Cons)
  assume "b = Inr step"
  then have "snd (PreStep (GW_tBegin w) g0) = None"
    using assms(4) by (auto simp: admit_def BeginStep_def g0_def case_prod_beta Let_def split: sum.splits option.splits)
  then show "admitted (EPreStep (GW_tBegin w)) (snd (gov_step g0 (EPreStep (GW_tBegin w))))" by simp
qed

definition served :: "addr \<Rightarrow> gw_state \<Rightarrow> gw_state \<Rightarrow> bool" where
  "served a s s' \<longleftrightarrow> addressed (gw_runs s') \<and> (\<forall>rid. get_run rid (gw_runs s') = get_run rid (gw_runs s)) \<and>
     (\<exists>now gs asked. rn_gov (run_at (gw_runs s') a) =
        final_state gov_step (rn_gov (run_at (gw_runs s) a)) (EPreStep now # gs) \<and>
      gw_asked s' = gw_asked s @ asked \<and> length asked \<le> 1 \<and>
      (asked \<noteq> [] \<longrightarrow> admitted (EPreStep now) (snd (gov_step (rn_gov (run_at (gw_runs s) a)) (EPreStep now)))))"

lemma servedI:
  assumes "addressed (gw_runs s)" "get_run rid (gw_runs s) = Some a" "admit w a (gw_runs s) = (m, b)"
    and "extends a m (gw_runs s')" "gw_asked s' = gw_asked s @ asked" "length asked \<le> 1"
    and "asked \<noteq> [] \<Longrightarrow> \<exists>step. b = Inr step"
  shows "served a s s'"
proof -
  note A = admit_cases [OF assms(1-3)]
  from A(3) assms(4) obtain gs where g: "rn_gov (run_at (gw_runs s') a) =
      final_state gov_step (rn_gov (run_at (gw_runs s) a)) (EPreStep (GW_tBegin w) # gs)"
    unfolding extends_def by (metis append_Cons final_state_append)
  have "get_run k (gw_runs s') = get_run k (gw_runs s)" for k
    using assms(4) A(2) by (simp add: extends_def)
  moreover have "addressed (gw_runs s')" using assms(4) by (simp add: extends_def)
  ultimately show ?thesis unfolding served_def using g assms(5-7) A(4) by blast
qed

text \<open>The provider's turn and the charge after it.\<close>

lemma after_provider:
  assumes "addressed m" "get_run rid m = Some a"
  shows "extends a m (meanwhile w m)"
    "extends a m (fst (RecordCall a c now (meanwhile w m)))"
proof -
  from meanwhile_extends [OF assms] show 1: "extends a m (meanwhile w m)" .
  then have "addressed (meanwhile w m)" "get_run rid (meanwhile w m) = Some a" using assms by (simp_all add: extends_def)
  moreover from this have "a < length (m_heap (meanwhile w m))" by (auto simp: addressed_def)
  ultimately show "extends a m (fst (RecordCall a c now (meanwhile w m)))"
    using extends_trans [OF 1] acts_on_extends RecordCall_acts by blast
qed

lemma governedCall_served:
  assumes "addressed (gw_runs s)" "get_run rid (gw_runs s) = Some a"
  shows "served a s (fst (governedCall w g a preq s))"
proof -
  obtain m b where ad: "admit w a (gw_runs s) = (m, b)" by force
  note A = admit_cases [OF assms ad]
  have m: "addressed m" "get_run rid m = Some a" using A(1,2) assms by simp_all
  note P = after_provider [OF m, where w = w]
  show ?thesis
  proof (cases b)
    case (Inl e)
    then have "fst (governedCall w g a preq s) = s\<lparr>gw_runs := m\<rparr>" by (simp add: governedCall_def ad)
    then show ?thesis using extends_refl [OF m(1)] by (intro servedI [OF assms ad, where asked = "[]"]) simp_all
  next
    case (Inr step)
    show ?thesis
    proof (cases "registry_Get (GW_providers g) (routeModel (CR_Model preq))")
      case (Inl e)
      then have "fst (governedCall w g a preq s) = s\<lparr>gw_runs := m\<rparr>" using Inr by (simp add: governedCall_def ad)
      then show ?thesis using extends_refl [OF m(1)] by (intro servedI [OF assms ad, where asked = "[]"]) simp_all
    next
      case prov: (Inr prov)
      have "gw_asked (fst (governedCall w g a preq s)) = gw_asked s @ [(PV_Name prov, preq)]"
        using Inr prov by (auto simp: governedCall_def ad Let_def case_prod_beta split: sum.split)
      moreover have "extends a m (gw_runs (fst (governedCall w g a preq s)))"
        using Inr prov P by (auto simp: governedCall_def ad Let_def case_prod_beta split: sum.split)
      ultimately show ?thesis using Inr
        by (intro servedI [OF assms ad, where asked = "[(PV_Name prov, preq)]"]) simp_all
    qed
  qed
qed

lemma streamCall_served:
  assumes "addressed (gw_runs s)" "get_run rid (gw_runs s) = Some a"
  shows "served a s (fst (streamCall w g a preq s))"
proof -
  obtain m b where ad: "admit w a (gw_runs s) = (m, b)" by force
  note A = admit_cases [OF assms ad]
  have m: "addressed m" "get_run rid m = Some a" using A(1,2) assms by simp_all
  note P = after_provider [OF m, where w = w] and R = extends_refl [OF m(1)]
  have "extends a m (gw_runs (fst (streamCall w g a preq s)))"
    using P R by (auto simp: streamCall_def ad Let_def case_prod_beta split: sum.split option.split)
  moreover have "\<exists>asked. gw_asked (fst (streamCall w g a preq s)) = gw_asked s @ asked \<and> length asked \<le> 1 \<and>
      (asked \<noteq> [] \<longrightarrow> (\<exists>step. b = Inr step))"
    by (auto simp: streamCall_def ad Let_def case_prod_beta split: sum.split option.split)
  ultimately show ?thesis using servedI [OF assms ad] by blast
qed

section \<open>Properties of the gateway\<close>

text \<open>A client's request for a run: plain or streamed, each in a world of its own.\<close>

datatype gw_call = Plain gw_world chat_request | Streamed gw_world chat_request

fun serve :: "gateway \<Rightarrow> addr \<Rightarrow> gw_state \<Rightarrow> gw_call \<Rightarrow> gw_state" where
  "serve g a s (Plain w preq) = fst (governedCall w g a preq s)"
| "serve g a s (Streamed w preq) = fst (streamCall w g a preq s)"

lemma serve_served:
  "addressed (gw_runs s) \<Longrightarrow> get_run rid (gw_runs s) = Some a \<Longrightarrow> served a s (serve g a s c)"
  by (cases c) (simp_all add: governedCall_served streamCall_served)

lemma served_loops:
  assumes "served a s s'" "loops_within (rn_gov (run_at (gw_runs s) a))"
  shows "loops_within (rn_gov (run_at (gw_runs s') a)) \<and>
    sint (U_Loops (g_usage (rn_gov (run_at (gw_runs s) a)))) + int (length (gw_asked s')) \<le>
      sint (U_Loops (g_usage (rn_gov (run_at (gw_runs s') a)))) + int (length (gw_asked s)) \<and>
    g_budget (rn_gov (run_at (gw_runs s') a)) = g_budget (rn_gov (run_at (gw_runs s) a))"
proof -
  let ?g = "rn_gov (run_at (gw_runs s) a)"
  from assms(1) obtain now gs asked where g: "rn_gov (run_at (gw_runs s') a) = final_state gov_step ?g (EPreStep now # gs)"
    and q: "gw_asked s' = gw_asked s @ asked" "length asked \<le> 1"
      "asked \<noteq> [] \<longrightarrow> admitted (EPreStep now) (snd (gov_step ?g (EPreStep now)))"
    unfolding served_def by blast
  have "loops_within (final_state gov_step ?g (EPreStep now # gs))"
    by (intro loops.run_inv assms(2)) (simp add: list.pred_True)
  moreover have "int (length asked) \<le> int (admissions ?g (EPreStep now # gs))"
    using q(2,3) by (cases asked) auto
  ultimately show ?thesis
    using admissions_count [OF assms(2), of "EPreStep now # gs"] unfolding g q(1)
    by (simp del: gov_step.simps admissions_simps final_state_Cons)
qed

text \<open>
  C4. The loop budget bounds the calls. For a run with a positive loop budget (below the
  largest int32), the provider is asked at most as often as loops were left, over any
  sequence of plain and streamed requests for the run, whatever the providers answer and
  whatever other requests do meanwhile.
\<close>

theorem loop_budget_bounds_provider_calls:
  assumes "addressed (gw_runs s)" "get_run rid (gw_runs s) = Some a"
    and "loops_within (rn_gov (run_at (gw_runs s) a))"
  shows "int (length (gw_asked (fold (\<lambda>c s. serve g a s c) cs s))) \<le> int (length (gw_asked s)) +
     (sint (B_Loops (g_budget (rn_gov (run_at (gw_runs s) a)))) - sint (U_Loops (g_usage (rn_gov (run_at (gw_runs s) a)))))"
  using assms
proof (induction cs arbitrary: s)
  case Nil
  then show ?case by (simp add: loops_within_def)
next
  case (Cons c cs)
  note S = serve_served [OF Cons.prems(1,2), of g c]
  note L = served_loops [OF S Cons.prems(3)]
  from S Cons.prems(2) have "addressed (gw_runs (serve g a s c))" "get_run rid (gw_runs (serve g a s c)) = Some a"
    by (simp_all add: served_def)
  from Cons.IH [OF this] L show ?case by simp
qed

text \<open>
  C6. A run that is over reaches no provider. For a halted run both entrypoints answer 402
  with the halt reason as the error code, and no provider is asked.
\<close>

theorem halted_run_gets_402:
  assumes "addressed (gw_runs s)" "get_run rid (gw_runs s) = Some a" "Halted (rn_gov (run_at (gw_runs s) a))"
  shows "let reason = g_halted (rn_gov (run_at (gw_runs s) a));
      e = \<lparr>GE_status = 402, GE_code = reason, GE_message = ''run halted: '' @ reason\<rparr>
    in snd (governedCall w g a preq s) = Inl e \<and> snd (streamCall w g a preq s) = ErrorReply e \<and>
       gw_asked (fst (governedCall w g a preq s)) = gw_asked s \<and> gw_asked (fst (streamCall w g a preq s)) = gw_asked s"
proof -
  let ?r = "rn_gov (run_at (gw_runs s) a)"
  have "snd (BeginStep a (GW_tBegin w) (gw_runs s)) = Inl (haltErrLocked ?r)"
    using assms(3) by (simp add: BeginStep_def PreStep_halted Halted_def Let_def)
  then have "snd (admit w a (gw_runs s)) = Inl (haltErrLocked ?r)"
    by (simp add: admit_def case_prod_beta Let_def)
  then show ?thesis
    using assms(3) by (simp add: governedCall_def streamCall_def case_prod_beta Let_def budgetError_def
        haltReasonOf_def haltGWError_def gwErr_def Halted_def)
qed

lemma admit_events:
  assumes "get_run rid m = Some a" "addressed m"
  shows "\<exists>es. fst (admit w a m) = final_state run_step m es \<and> list_all priced_call es"
proof -
  have b: "fst (run_step m (RBeginStep rid (GW_tBegin w))) = fst (BeginStep a (GW_tBegin w) m)"
    using assms(1) by (simp add: run_step_def)
  have g: "get_run rid (fst (BeginStep a (GW_tBegin w) m)) = Some a"
    using run_step_addressed [OF assms(2), of "RBeginStep rid (GW_tBegin w)" rid] b assms(1) by simp
  have p: "fst (run_step (fst (BeginStep a (GW_tBegin w) m)) (RCanProceed rid (GW_tProceed w))) =
      fst (run_CanProceed a (GW_tProceed w) (fst (BeginStep a (GW_tBegin w) m)))"
    using g by (simp add: run_step_def)
  show ?thesis
  proof (cases "snd (BeginStep a (GW_tBegin w) m)")
    case (Inl e)
    then show ?thesis
      using b by (intro exI [of _ "[RBeginStep rid (GW_tBegin w)]"]) (simp add: admit_def case_prod_beta Let_def)
  next
    case (Inr step)
    then show ?thesis
      using b p by (intro exI [of _ "[RBeginStep rid (GW_tBegin w), RCanProceed rid (GW_tProceed w)]"])
        (simp add: admit_def case_prod_beta Let_def)
  qed
qed

lemma provider_turn_mirrors:
  assumes "mirrors m" "get_run rid m = Some a" "list_all priced_call (GW_during w)"
  shows "mirrors (meanwhile w (fst (admit w a m)))" "get_run rid (meanwhile w (fst (admit w a m))) = Some a"
proof -
  from admit_events [OF assms(2) mirrors_addressed [OF assms(1)], of w] obtain es where
    es: "fst (admit w a m) = final_state run_step m es" "list_all priced_call es" by blast
  have e: "meanwhile w (fst (admit w a m)) = final_state run_step m (es @ GW_during w)"
    by (simp add: meanwhile_def es(1))
  have p: "list_all priced_call (es @ GW_during w)" using es(2) assms(3) by simp
  show "mirrors (meanwhile w (fst (admit w a m)))" unfolding e by (rule mirror.run_inv [OF assms(1) p])
  show "get_run rid (meanwhile w (fst (admit w a m))) = Some a"
    unfolding e using run_events_get [OF assms(1) p] assms(2) by simp
qed

lemma RecordCall_ledger:
  assumes "mirrors m" "get_run rid m = Some a" "m_store m = Some d"
    and "representable (CL_Dollars c)" "fle fzero (CL_Dollars c)"
  shows "\<exists>d' r. m_store (fst (RecordCall a c now m)) = Some d' \<and> rn_ID r = rid \<and>
    ledger_of rid d' = ledger_of rid d @ [call_entry r c now]"
proof -
  from mirrorsD [OF assms(1,2)] assms(3) have M: "db_faults d = []" "rn_ID (run_at m a) = rid"
    "storable (run_at m a)" "lookup RR_ID rid (db_runs d) = Some (run_rec (run_at m a))"
    "a < length (m_heap m)" by (metis option.inject)+
  let ?res = "RecordUsage now (CL_PromptTokens c) (CL_CompletionTokens c) (CL_Dollars c) (rn_gov (run_at m a))"
  let ?r = "(run_at m a)\<lparr>rn_gov := fst ?res, rn_updatedAt := now\<rparr>"
  let ?ws = "call_writes ?r c (snd ?res \<noteq> None) now"
  have st: "storable ?r"
    using storable_step [OF M(3), of "ERecordUsage now (CL_PromptTokens c) (CL_CompletionTokens c) (CL_Dollars c)"]
      assms(4,5) by simp
  have same: "same_run (run_at m a) ?r" by (simp add: same_run_def)
  have id: "rn_ID ?r = rid" using M(2) by simp
  have l: "lookup RR_ID (rn_ID ?r) (db_runs d) = Some (run_rec (run_at m a))" using M(4) id by simp
  have has: "has_run d (rn_ID ?r)" using l by (simp add: has_run_def is_key_lookup)
  note C = crash_in_call_db [OF M(1) has l st same refl assms(5), where n = 3 and halted = "snd ?res \<noteq> None" and now = now]
  have w: "?ws = take 3 ?ws @ [SSaveCheckpoint (checkpoint_rec rid (CL_StepIndex c) '''' (fst (gov_Status (rn_gov ?r))) [] now)]"
    using id by (simp add: call_writes_def)
  have "ledger_of rid (final_state store_step d ?ws) = ledger_of rid d @ [call_entry ?r c now]"
    by (subst w) (use C(1,2) id in \<open>simp add: store_step_ledger del: store_step.simps\<close>)
  moreover have "m_store (fst (RecordCall a c now m)) = Some (final_state store_step d ?ws)"
    using fold_store_write [of "set_run a ?r m" d ?ws] M(5) assms(3)
    by (simp add: RecordCall_def case_prod_beta Let_def touch_def set_gov_def persistCall_def)
  ultimately show ?thesis using id by blast
qed

text \<open>
  C5. Every answered call is charged. When the store works and the prices are sound, a call
  that returns a provider's response has added exactly one ledger entry to the run, with the
  tokens the provider reported and their price, and exactly these to the run's usage; its
  halt header is set exactly when the run is over after it.
\<close>

theorem answered_call_is_charged:
  assumes "mirrors (gw_runs s)" "get_run rid (gw_runs s) = Some a" "list_all priced_call (GW_during w)"
    and "sound_table (GW_prices g)" "governedCall w g a preq s = (s', Inr (resp, meta))"
    and "0 \<le> sint (TU_PromptTokens (RS_Usage resp))" "0 \<le> sint (TU_CompletionTokens (RS_Usage resp))"
  shows "let m1 = meanwhile w (fst (admit w a (gw_runs s))); p = TU_PromptTokens (RS_Usage resp);
      c = TU_CompletionTokens (RS_Usage resp); price = Cost (GW_prices g) (RS_Model resp) p c
    in \<exists>d1 d' e. m_store m1 = Some d1 \<and> m_store (gw_runs s') = Some d' \<and>
      ledger_of rid d' = ledger_of rid d1 @ [e] \<and> LE_RunID e = rid \<and> LE_Model e = RS_Model resp \<and>
      LE_PromptTokens e = p \<and> LE_CompletionTokens e = c \<and> LE_Dollars e = fst price \<and>
      g_usage (rn_gov (run_at (gw_runs s') a)) = add_usage p c (fst price) (g_usage (rn_gov (run_at m1 a))) \<and>
      (ME_halt meta \<noteq> HaltNone) = Halted (rn_gov (run_at (gw_runs s') a))"
proof -
  let ?m1 = "meanwhile w (fst (admit w a (gw_runs s)))"
  let ?p = "TU_PromptTokens (RS_Usage resp)" and ?c = "TU_CompletionTokens (RS_Usage resp)"
  let ?price = "Cost (GW_prices g) (RS_Model resp) ?p ?c"
  note T = provider_turn_mirrors [OF assms(1-3)]
  obtain step n where c: "gw_runs s' = fst (RecordCall a (made_call step n (RS_Model resp) (RS_Usage resp)
        (fst ?price) (snd ?price) (RS_ID resp)) (GW_tRecord w) ?m1)"
    and halt: "ME_halt meta = haltReasonOf (snd (RecordCall a (made_call step n (RS_Model resp) (RS_Usage resp)
        (fst ?price) (snd ?price) (RS_ID resp)) (GW_tRecord w) ?m1))"
    using assms(5) by (auto simp: governedCall_def Let_def case_prod_beta split: sum.splits)
  let ?call = "made_call step n (RS_Model resp) (RS_Usage resp) (fst ?price) (snd ?price) (RS_ID resp)"
  from T obtain d1 where d1: "m_store ?m1 = Some d1" by (auto simp: mirrors_def)
  have sound: "representable (CL_Dollars ?call)" "fle fzero (CL_Dollars ?call)"
    using Cost_sound [OF assms(4,6,7), of "RS_Model resp"] by (simp_all add: made_call_def)
  from RecordCall_ledger [OF T d1 sound, of "GW_tRecord w"] obtain d' r where
    d': "m_store (gw_runs s') = Some d'" "rn_ID r = rid"
      "ledger_of rid d' = ledger_of rid d1 @ [call_entry r ?call (GW_tRecord w)]"
    unfolding c by blast
  have "acts_on a (ERecordUsage (GW_tRecord w) ?p ?c (fst ?price)) ?m1 (gw_runs s')"
    unfolding c using RecordCall_acts [of a ?m1 "GW_tRecord w" ?call] mirrors_addressed [OF T(1)] T(2)
    by (simp add: made_call_def addressed_def)
  then have g: "rn_gov (run_at (gw_runs s') a) =
      fst (RecordUsage (GW_tRecord w) ?p ?c (fst ?price) (rn_gov (run_at ?m1 a)))" by (simp add: acts_on_def)
  have "snd (RecordCall a ?call (GW_tRecord w) ?m1) =
      snd (RecordUsage (GW_tRecord w) ?p ?c (fst ?price) (rn_gov (run_at ?m1 a)))"
    by (simp add: RecordCall_def case_prod_beta Let_def made_call_def)
  then have "(ME_halt meta \<noteq> HaltNone) = Halted (rn_gov (run_at (gw_runs s') a))"
    unfolding g halt RecordUsage_def
    by (cases rule: checkLocked_cases [of "GW_tRecord w" "(rn_gov (run_at ?m1 a))\<lparr>g_usage := add_usage ?p ?c (fst ?price)
          (g_usage (rn_gov (run_at ?m1 a)))\<rparr>"]) (simp_all add: haltReasonOf_def Halted_def)
  moreover have "g_usage (rn_gov (run_at (gw_runs s') a)) = add_usage ?p ?c (fst ?price) (g_usage (rn_gov (run_at ?m1 a)))"
    unfolding g by (simp add: RecordUsage_def)
  ultimately show ?thesis
    using d1 d' unfolding Let_def
    by (intro exI [of _ d1] exI [of _ d'] exI [of _ "call_entry r ?call (GW_tRecord w)"])
       (simp add: call_entry_def made_call_def)
qed

lemma admit_tokens:
  assumes "addressed m" "get_run rid m = Some a" "admit w a m = (m', Inr step)"
  shows "U_PromptTokens (g_usage (rn_gov (run_at m' a))) = U_PromptTokens (g_usage (rn_gov (run_at m a)))"
    "U_CompletionTokens (g_usage (rn_gov (run_at m' a))) = U_CompletionTokens (g_usage (rn_gov (run_at m a)))"
proof -
  have len: "a < length (m_heap m)" using assms(1,2) by (simp add: addressed_def)
  note B = BeginStep_acts [OF len, of "GW_tBegin w"]
  have "a < length (m_heap (fst (BeginStep a (GW_tBegin w) m)))" using B len by (simp add: acts_on_def)
  note C = CanProceed_acts [OF this, of "GW_tProceed w"]
  have "m' = fst (run_CanProceed a (GW_tProceed w) (fst (BeginStep a (GW_tBegin w) m)))"
    using assms(3) by (auto simp: admit_def case_prod_beta Let_def split: sum.splits)
  with B C show "U_PromptTokens (g_usage (rn_gov (run_at m' a))) = U_PromptTokens (g_usage (rn_gov (run_at m a)))"
    "U_CompletionTokens (g_usage (rn_gov (run_at m' a))) = U_CompletionTokens (g_usage (rn_gov (run_at m a)))"
    by (auto simp: acts_on_def CanProceed_def PreStep_def split: if_splits)
qed

text \<open>
  A client that goes away early pays nothing. When the client of a stream is gone at the
  first chunk and the provider reports usage only later, the call is recorded with no tokens:
  the run's token usage is what it was, although the provider was asked.
\<close>

theorem early_disconnect_is_free:
  assumes "addressed (gw_runs s)" "get_run rid (gw_runs s) = Some a" "admit w a (gw_runs s) = (m, Inr step)"
    and "registry_Get (GW_providers g) (routeModel (CR_Model preq)) = Inr prov" "PV_Stream prov = Some chat"
    and "chat preq = Inr strm" "CS_Recv strm = (chunk, None) # rest" "chunk \<noteq> ''''" "CS_Usage strm 1 = no_usage"
    and "GW_flusher w" "\<not> GW_client w 0" "GW_during w = []"
  shows "let s' = fst (streamCall w g a preq s); u = (\<lambda>s. g_usage (rn_gov (run_at (gw_runs s) a)))
    in gw_asked s' = gw_asked s @ [(PV_Name prov, preq)] \<and> Tokens (u s') = Tokens (u s)"
proof -
  note A = admit_cases [OF assms(1-3)] admit_tokens [OF assms(1-3)]
  have "a < length (m_heap m)" using A(1,2) assms(2) by (simp add: addressed_def)
  from RecordCall_acts [OF this] have r: "rn_gov (run_at (fst (RecordCall a c now m)) a) =
      fst (RecordUsage now (CL_PromptTokens c) (CL_CompletionTokens c) (CL_Dollars c) (rn_gov (run_at m a)))" for c now
    by (simp add: acts_on_def)
  obtain c where c: "gw_runs (fst (streamCall w g a preq s)) = fst (RecordCall a c (GW_tRecord w) m)"
    "CL_PromptTokens c = 0" "CL_CompletionTokens c = 0"
    using assms(3-12) by (auto simp: streamCall_def meanwhile_def case_prod_beta Let_def made_call_def no_usage_def)
  have "gw_asked (fst (streamCall w g a preq s)) = gw_asked s @ [(PV_Name prov, preq)]"
    using assms(3-12) by (simp add: streamCall_def case_prod_beta Let_def)
  then show ?thesis
    using A(5,6) by (simp add: Let_def c r RecordUsage_def Tokens_def add_usage_def)
qed

section \<open>The properties at work\<close>

definition sample_provider :: provider where
  "sample_provider = \<lparr>PV_Name = ''openai'',
     PV_Chat = \<lambda>q. Inr \<lparr>RS_ID = ''x1'', RS_Model = ''gpt-4o'', RS_Content = ''hi'', RS_FinishReason = ''stop'',
        RS_Usage = \<lparr>TU_PromptTokens = 7, TU_CompletionTokens = 6\<rparr>\<rparr>,
     PV_Stream = Some (\<lambda>q. Inr \<lparr>CS_Recv = [(''data'', None), (''end'', Some ''EOF'')],
        CS_Usage = \<lambda>n. if n < 2 then no_usage else \<lparr>TU_PromptTokens = 7, TU_CompletionTokens = 6\<rparr>,
        CS_Model = \<lambda>n. ''gpt-4o''\<rparr>)\<rparr>"

definition sample_gateway :: gateway where
  "sample_gateway = \<lparr>GW_providers = \<lparr>RG_providers = [(''openai'', sample_provider)], RG_def = ''openai''\<rparr>,
     GW_prices = NewTable []\<rparr>"

definition sample_gw_world :: gw_world where
  "sample_gw_world = \<lparr>GW_decode = \<lambda>b. Inl ''no'', GW_string = \<lambda>b. None, GW_blocks = \<lambda>b. None, GW_tBegin = 1,
     GW_tProceed = 1, GW_tRecord = 2, GW_during = [], GW_client = \<lambda>n. False, GW_flusher = True,
     GW_newID = ''r2'', GW_unix = 0\<rparr>"

definition sample_chat :: chat_request where
  "sample_chat = \<lparr>CR_Model = ''m'', CR_System = '''', CR_Messages = [], CR_MaxTokens = 0, CR_Temperature = None\<rparr>"

definition sample_gw_state :: "manager \<Rightarrow> gw_state" where
  "sample_gw_state m = \<lparr>gw_runs = m, gw_tracer = Disabled, gw_asked = []\<rparr>"

lemma sample_route: "registry_Get (GW_providers sample_gateway) (routeModel (CR_Model sample_chat)) = Inr sample_provider"
proof -
  have "routeModel ''m'' = ''''" by code_simp
  then show ?thesis by (simp add: sample_gateway_def sample_chat_def registry_Get_def)
qed

lemma sample_admit:
  "\<exists>m. admit sample_gw_world 0 sample_manager = (m, Inr 1) \<and>
     rn_gov (run_at m 0) = (rn_gov (run_at sample_manager 0))\<lparr>g_usage := zero_usage\<lparr>U_Loops := 1\<rparr>\<rparr>"
proof -
  note S = sample_manager_run
  let ?m = "fst (BeginStep 0 1 sample_manager)"
  have len: "0 < length (m_heap sample_manager)" by (rule mirrorsD [OF S(3,2)]) simp
  note b = BeginStep_admitted(1) [OF len sample_step(1)]
  have len': "0 < length (m_heap ?m)" using BeginStep_acts [OF len, of 1] len by (simp add: acts_on_def)
  have g: "rn_gov (run_at ?m 0) = (rn_gov (run_at sample_manager 0))\<lparr>g_usage := zero_usage\<lparr>U_Loops := 1\<rparr>\<rparr>"
    using b S(1) by (simp add: newRun_def gov_New_fresh zero_usage_def)
  have c: "CanProceed 1 (rn_gov (run_at ?m 0)) = (rn_gov (run_at ?m 0), None)"
    by (simp add: g S(1) newRun_def gov_New_fresh CanProceed_def checkLocked_def expiredLocked_def token_cap_def
        zero_usage_def Tokens_def word_sle_eq)
  have "admit sample_gw_world 0 sample_manager = (set_run 0 (run_at ?m 0) ?m, Inr 1)"
    using sample_step(1) c by (simp add: admit_def sample_gw_world_def run_CanProceed_def case_prod_beta Let_def set_gov_def)
  then show ?thesis using g len' by simp
qed

lemma early_disconnect_is_free_witness:
  "let s' = fst (streamCall sample_gw_world sample_gateway 0 sample_chat (sample_gw_state sample_manager))
   in gw_asked s' = [(''openai'', sample_chat)] \<and> Tokens (g_usage (rn_gov (run_at (gw_runs s') 0))) = 0"
proof -
  note S = sample_manager_run
  obtain m where m: "admit sample_gw_world 0 sample_manager = (m, Inr 1)" using sample_admit by blast
  have ad: "addressed sample_manager" by (rule mirrors_addressed [OF S(3)])
  obtain chat where chat: "PV_Stream sample_provider = Some chat" "chat sample_chat = Inr \<lparr>CS_Recv = [(''data'', None), (''end'', Some ''EOF'')],
        CS_Usage = \<lambda>n. if n < 2 then no_usage else \<lparr>TU_PromptTokens = 7, TU_CompletionTokens = 6\<rparr>,
        CS_Model = \<lambda>n. ''gpt-4o''\<rparr>" by (simp add: sample_provider_def)
  have s: "gw_runs (sample_gw_state sample_manager) = sample_manager" "gw_asked (sample_gw_state sample_manager) = []"
    by (simp_all add: sample_gw_state_def)
  have w: "GW_flusher sample_gw_world" "\<not> GW_client sample_gw_world 0" "GW_during sample_gw_world = []"
    by (simp_all add: sample_gw_world_def)
  have n: "PV_Name sample_provider = ''openai''" by (simp add: sample_provider_def)
  have t: "Tokens (g_usage (rn_gov (run_at sample_manager 0))) = 0"
    by (simp add: S(1) newRun_def gov_New_fresh zero_usage_def Tokens_def)
  from early_disconnect_is_free [of "sample_gw_state sample_manager", unfolded s, OF ad S(2) m sample_route chat _ _ _ w]
  show ?thesis by (simp add: n t s Let_def)
qed

lemma halted_run_gets_402_witness:
  "snd (governedCall sample_gw_world sample_gateway 0 sample_chat (sample_gw_state (run_Cancel 0 1 sample_manager))) =
     Inl \<lparr>GE_status = 402, GE_code = ''cancelled'', GE_message = ''run halted: cancelled''\<rparr>"
proof -
  note S = sample_manager_run
  have len: "0 < length (m_heap sample_manager)" by (rule mirrorsD [OF S(3,2)]) simp
  note C = Cancel_acts [OF len, of 1]
  have g: "rn_gov (run_at (run_Cancel 0 1 sample_manager) 0) = gov_Cancel (gov_New Background (token_cap 100) [] 0)"
    using C by (simp add: acts_on_def S(1) newRun_def)
  have h: "g_halted (gov_Cancel (gov_New Background (token_cap 100) [] 0)) = ''cancelled''"
    by (simp add: gov_Cancel_def gov_New_fresh HaltCancelled_def)
  have ad: "addressed (run_Cancel 0 1 sample_manager)" "get_run ''r9'' (run_Cancel 0 1 sample_manager) = Some 0"
    using acts_on_addressed [OF mirrors_addressed [OF S(3)] C] acts_on_get [OF C] S(2) by simp_all
  have s: "gw_runs (sample_gw_state m) = m" for m by (simp add: sample_gw_state_def)
  from halted_run_gets_402 [of "sample_gw_state (run_Cancel 0 1 sample_manager)", unfolded s, OF ad]
  show ?thesis by (simp add: g h Halted_def HaltNone_def Let_def)
qed

lemma loop_budget_bounds_provider_calls_witness:
  "\<exists>m a. length (gw_asked (fold (\<lambda>c s. serve sample_gateway a s c)
      (replicate 5 (Plain sample_gw_world sample_chat)) (sample_gw_state m))) \<le> 2"
proof -
  let ?b = "loop_cap_of 2"
  let ?m = "fst (run_Create (sample_create ?b) ''r9'' 0 (restart (token_cap 0) empty_db))"
  let ?a = "snd (run_Create (sample_create ?b) ''r9'' 0 (restart (token_cap 0) empty_db))"
  have m: "m_store (restart (token_cap 0) empty_db) = Some empty_db" "get_run ''r9'' (restart (token_cap 0) empty_db) = None"
    by (simp_all add: restart_def WithStore_def NewManager_def get_run_def)
  note new = run_Create_new [where m = "restart (token_cap 0) empty_db" and now = 0 and newID = "''r9''"
      and opts = "sample_create ?b", OF mirrors_restart _ _ m(1) _ m(2)]
  have N: "mirrors ?m" "get_run ''r9'' ?m = Some ?a" "rn_gov (run_at ?m ?a) = gov_New Background ?b [] 0"
    using new by (simp_all add: empty_db_def sample_create_def loop_cap_of_def real_ok_def newRun_def)
  have s: "gw_runs (sample_gw_state ?m) = ?m" "gw_asked (sample_gw_state ?m) = []" by (simp_all add: sample_gw_state_def)
  have l: "loops_within (rn_gov (run_at ?m ?a))"
    unfolding N(3) by (simp add: loops_within_def gov_New_fresh loop_cap_of_def zero_usage_def)
  from loop_budget_bounds_provider_calls [of "sample_gw_state ?m", unfolded s, OF mirrors_addressed [OF N(1)] N(2) l,
      of sample_gateway "replicate 5 (Plain sample_gw_world sample_chat)"]
  have "length (gw_asked (fold (\<lambda>c s. serve sample_gateway ?a s c)
      (replicate 5 (Plain sample_gw_world sample_chat)) (sample_gw_state ?m))) \<le> 2"
    unfolding N(3) by (simp add: gov_New_fresh loop_cap_of_def zero_usage_def)
  then show ?thesis by blast
qed

lemma answered_call_is_charged_witness:
  "\<exists>s' resp meta d'. governedCall sample_gw_world sample_gateway 0 sample_chat (sample_gw_state sample_manager) =
       (s', Inr (resp, meta)) \<and> m_store (gw_runs s') = Some d' \<and> ledger_of ''r9'' d' \<noteq> [] \<and>
     LE_PromptTokens (last (ledger_of ''r9'' d')) = 7 \<and> LE_CompletionTokens (last (ledger_of ''r9'' d')) = 6"
proof -
  note S = sample_manager_run
  obtain m where m: "admit sample_gw_world 0 sample_manager = (m, Inr 1)" using sample_admit by blast
  have s: "gw_runs (sample_gw_state sample_manager) = sample_manager" by (simp add: sample_gw_state_def)
  define resp where "resp = \<lparr>RS_ID = ''x1'', RS_Model = ''gpt-4o'', RS_Content = ''hi'', RS_FinishReason = ''stop'',
        RS_Usage = \<lparr>TU_PromptTokens = 7, TU_CompletionTokens = 6\<rparr>\<rparr>"
  have c: "PV_Chat sample_provider sample_chat = Inr resp" by (simp add: sample_provider_def resp_def)
  obtain s' meta where g: "governedCall sample_gw_world sample_gateway 0 sample_chat (sample_gw_state sample_manager) =
      (s', Inr (resp, meta))"
    by (simp add: governedCall_def m sample_route c s case_prod_beta Let_def)
  have w: "list_all priced_call (GW_during sample_gw_world)" by (simp add: sample_gw_world_def)
  have t: "sound_table (GW_prices sample_gateway)" unfolding sample_gateway_def by (simp, rule NewTable_sound, simp)
  have u: "0 \<le> sint (TU_PromptTokens (RS_Usage resp))" "0 \<le> sint (TU_CompletionTokens (RS_Usage resp))"
    by (simp_all add: resp_def)
  have mw: "meanwhile sample_gw_world x = x" for x by (simp add: meanwhile_def sample_gw_world_def)
  obtain d1 d' e where D: "m_store m = Some d1" "m_store (gw_runs s') = Some d'" "ledger_of ''r9'' d' = ledger_of ''r9'' d1 @ [e]"
    "LE_PromptTokens e = 7" "LE_CompletionTokens e = 6"
    using answered_call_is_charged [of "sample_gw_state sample_manager", unfolded s, OF S(3,2) w t g u]
    unfolding Let_def m fst_conv mw by (auto simp: resp_def)
  with g D show ?thesis by auto
qed

end
