(* ===== verification/Identifiers.thy ===== *)
theory Identifiers
  imports GoPrelude
begin

unbundle bit_operations_syntax

text \<open>
  Identifiers (\<open>internal/id/id.go\<close>): the version 4 UUID laid over sixteen random bytes. What
  \<open>crypto/rand\<close> answers is the argument: None is its error, on which the code panics.
\<close>

type_synonym byte = "8 word"

definition hex_char :: "byte \<Rightarrow> char" where
  "hex_char n = ''0123456789abcdef'' ! unat n"

definition hexEncode :: "byte list \<Rightarrow> string" where
  "hexEncode bs = concat (map (\<lambda>b. [hex_char (drop_bit 4 b), hex_char (b AND 0x0f)]) bs)"

text \<open>Version 4 in byte 6, the variant in byte 8.\<close>

definition stamp_bits :: "byte list \<Rightarrow> byte list" where
  "stamp_bits b = (let b = b[6 := (b ! 6 AND 0x0f) OR 0x40] in b[8 := (b ! 8 AND 0x3f) OR 0x80])"

definition NewUUID :: "byte list option \<Rightarrow> string option" where
  "NewUUID random = map_option (\<lambda>b.
     let b = stamp_bits b
     in hexEncode (take 4 b) @ ''-'' @ hexEncode (take 2 (drop 4 b)) @ ''-'' @
        hexEncode (take 2 (drop 6 b)) @ ''-'' @ hexEncode (take 2 (drop 8 b)) @ ''-'' @
        hexEncode (take 6 (drop 10 b))) random"

section \<open>Bytes\<close>

lemma low_nibble: "b AND 0x0f = take_bit 4 b" for b :: byte
  by (simp add: take_bit_eq_mask mask_eq_exp_minus_1)

lemma low_pair: "b AND 3 = take_bit 2 b" for b :: byte
  by (simp add: take_bit_eq_mask mask_eq_exp_minus_1)

lemma low_nibble_bound: "unat (b AND 0x0f) < 16" for b :: byte
  using take_bit_nat_less_exp [of 4 "unat b"] by (simp add: low_nibble unsigned_take_bit_eq)

lemma high_nibble_bound: "unat (drop_bit 4 b) < 16" for b :: byte
  using unsigned_less [of b, where ?'a = nat] unfolding unsigned_drop_bit_eq
  by (simp add: take_bit_eq_mod drop_bit_eq_div)

lemma byte_nibbles: "push_bit 4 (drop_bit 4 b) + (b AND 0x0f) = b" for b :: byte
  unfolding low_nibble by (rule bits_ident)

lemma two_bits: "b AND 3 \<in> {0, 1, 2, 3}" for b :: byte
proof -
  have "unat (b AND 3) < 4" using take_bit_nat_less_exp [of 2 "unat b"] by (simp add: low_pair unsigned_take_bit_eq)
  then have "unat (b AND 3) = 0 \<or> unat (b AND 3) = 1 \<or> unat (b AND 3) = 2 \<or> unat (b AND 3) = 3" by linarith
  moreover have k: "b AND 3 = word_of_nat n" if "unat (b AND 3) = n" for n
    using that by auto
  ultimately show ?thesis using k [of 0] k [of 1] k [of 2] k [of 3] by auto
qed

lemma variant_bits: "drop_bit 4 ((b AND 0x3f) OR 0x80) \<in> {8, 9, 10, 11 :: byte}"
  using two_bits [of "drop_bit 4 b"] by (auto simp: drop_bit_and drop_bit_or)

lemma version_bits: "drop_bit 4 ((b AND 0x0f) OR 0x40) = (4 :: byte)"
  "((b AND 0x0f) OR 0x40) AND 0x0f = (b AND 0x0f :: byte)"
  by (simp_all add: drop_bit_and drop_bit_or bit.conj_disj_distrib2 and.assoc)

lemma variant_low: "((b AND 0x3f) OR 0x80) AND 0x3f = (b AND 0x3f :: byte)"
  by (simp add: bit.conj_disj_distrib2 and.assoc)

lemmas nibble_bounds = low_nibble_bound high_nibble_bound

section \<open>Hexadecimal text\<close>

definition hex_digits :: string where "hex_digits = ''0123456789abcdef''"

lemma hex_char_inj: "unat m < 16 \<Longrightarrow> unat n < 16 \<Longrightarrow> hex_char m = hex_char n \<longleftrightarrow> m = n"
  by (simp add: hex_char_def nth_eq_iff_index_eq) (metis unsigned_word_eqI)

lemma hex_char_digit: "unat n < 16 \<Longrightarrow> hex_char n \<in> set hex_digits"
  by (simp add: hex_char_def hex_digits_def del: set_simps)

lemma hexEncode_simps [simp]:
  "hexEncode [] = []"
  "hexEncode (b # bs) = hex_char (drop_bit 4 b) # hex_char (b AND 0x0f) # hexEncode bs"
  by (simp_all add: hexEncode_def)

lemma length_hexEncode [simp]: "length (hexEncode bs) = 2 * length bs"
  by (induction bs) simp_all

lemma set_hexEncode: "set (hexEncode bs) \<subseteq> set hex_digits"
  by (induction bs) (simp_all add: hex_char_digit nibble_bounds)

lemma hexEncode_inj [simp]: "hexEncode bs = hexEncode cs \<longleftrightarrow> bs = cs"
proof (induction bs arbitrary: cs)
  case Nil
  then show ?case by (cases cs) simp_all
next
  case (Cons b bs)
  have "b = c" if "drop_bit 4 b = drop_bit 4 c" "b AND 0x0f = c AND 0x0f" for c :: byte
    using byte_nibbles [of b] byte_nibbles [of c] that by metis
  with Cons show ?case by (cases cs) (auto simp: hex_char_inj nibble_bounds)
qed

section \<open>Properties\<close>

text \<open>Five groups of digits, put together.\<close>

lemma groups_nth:
  fixes x :: char
  assumes "length A = 8" "length B = 4" "length C = 4" "length D = 4" "length E = 12"
    and "set (A @ B @ C @ D @ E) \<subseteq> H"
  defines "u \<equiv> A @ x # B @ x # C @ x # D @ x # E"
  shows "length u = 36" "u ! 8 = x" "u ! 13 = x" "u ! 18 = x" "u ! 23 = x" "u ! 14 = C ! 0" "u ! 19 = D ! 0"
    "i < 36 \<Longrightarrow> i \<notin> {8, 13, 18, 23} \<Longrightarrow> u ! i \<in> H"
proof -
  note n = nth_append nth_Cons' assms(1-5)
  show "length u = 36" "u ! 8 = x" "u ! 13 = x" "u ! 18 = x" "u ! 23 = x" "u ! 14 = C ! 0" "u ! 19 = D ! 0"
    by (simp_all add: u_def n)
  assume "i < 36" "i \<notin> {8, 13, 18, 23}"
  then consider "i < 8" | "8 < i" "i < 13" | "13 < i" "i < 18" | "18 < i" "i < 23" | "23 < i" "i < 36"
    by fastforce
  then have "u ! i \<in> set (A @ B @ C @ D @ E)"
  proof cases
    case 1
    then have "u ! i = A ! i" by (simp add: u_def n)
    with 1 show ?thesis using assms(1) by simp
  next
    case 2
    then have "i - 9 < 4" by simp
    with 2 have "u ! i = B ! (i - 9)" by (auto simp: u_def n diff_diff_left)
    with 2 show ?thesis using assms(2) by simp
  next
    case 3
    then have "i - 14 < 4" by simp
    with 3 have "u ! i = C ! (i - 14)" by (auto simp: u_def n diff_diff_left)
    with 3 show ?thesis using assms(3) by simp
  next
    case 4
    then have "i - 19 < 4" by simp
    with 4 have "u ! i = D ! (i - 19)" by (auto simp: u_def n diff_diff_left)
    with 4 show ?thesis using assms(4) by simp
  next
    case 5
    then have "i - 24 < 12" by simp
    with 5 have "u ! i = E ! (i - 24)" by (auto simp: u_def n diff_diff_left)
    with 5 show ?thesis using assms(5) by simp
  qed
  with assms(6) show "u ! i \<in> H" by blast
qed

lemma sixteen_bytes:
  assumes "length b = 16"
  obtains b0 b1 b2 b3 b4 b5 b6 b7 b8 b9 b10 b11 b12 b13 b14 b15
  where "b = [b0, b1, b2, b3, b4, b5, b6, b7, b8, b9, b10, b11, b12, b13, b14, b15]"
  using assms by (auto simp: numeral_eq_Suc length_Suc_conv)

text \<open>
  Identifiers are well formed. For any sixteen random bytes \<open>NewUUID\<close> answers 36
  characters: hyphens at 8, 13, 18 and 23, lowercase hexadecimal digits elsewhere, a 4 as
  the version digit and one of 8, 9, a, b as the variant digit.
\<close>

theorem uuid_format:
  assumes "length b = 16"
  shows "case NewUUID (Some b) of None \<Rightarrow> False | Some u \<Rightarrow>
    length u = 36 \<and> (\<forall>i \<in> {8, 13, 18, 23}. u ! i = CHR ''-'') \<and>
    (\<forall>i < 36. i \<notin> {8, 13, 18, 23} \<longrightarrow> u ! i \<in> set hex_digits) \<and>
    u ! 14 = CHR ''4'' \<and> u ! 19 \<in> set ''89ab''"
proof -
  define c where "c = stamp_bits b"
  have l: "length c = 16" using assms by (simp add: c_def stamp_bits_def)
  then obtain c0 c1 c2 c3 c4 c5 c6 c7 c8 c9 c10 c11 c12 c13 c14 c15
    where c: "c = [c0, c1, c2, c3, c4, c5, c6, c7, c8, c9, c10, c11, c12, c13, c14, c15]"
    by (rule sixteen_bytes)
  have "drop_bit 4 (c ! 6) = 4" "drop_bit 4 (c ! 8) \<in> {8, 9, 10, 11}"
    using assms variant_bits [of "b ! 8"] by (simp_all add: c_def stamp_bits_def version_bits)
  then have v: "hex_char (drop_bit 4 c6) = CHR ''4''" "hex_char (drop_bit 4 c8) \<in> set ''89ab''"
    by (auto simp: c hex_char_def)
  have s: "set (hexEncode [c0, c1, c2, c3] @ hexEncode [c4, c5] @ hexEncode [c6, c7] @ hexEncode [c8, c9] @
      hexEncode [c10, c11, c12, c13, c14, c15]) \<subseteq> set hex_digits"
    using set_hexEncode by (simp only: set_append Un_subset_iff)
  have u: "NewUUID (Some b) = Some (hexEncode [c0, c1, c2, c3] @ CHR ''-'' # hexEncode [c4, c5] @
      CHR ''-'' # hexEncode [c6, c7] @ CHR ''-'' # hexEncode [c8, c9] @ CHR ''-'' #
      hexEncode [c10, c11, c12, c13, c14, c15])"
    by (simp add: NewUUID_def flip: c_def) (simp add: c)
  note g = groups_nth [OF _ _ _ _ _ s, where x = "CHR ''-''", unfolded length_hexEncode, simplified list.size]
  have d: "hexEncode [c6, c7] ! 0 = CHR ''4''" "hexEncode [c8, c9] ! 0 \<in> set ''89ab''"
    using v by simp_all
  show ?thesis unfolding u option.case using g d by (simp del: hexEncode_simps)
qed

lemma stamp_bits_nth: "length d = 16 \<Longrightarrow> i < 16 \<Longrightarrow> stamp_bits d ! i =
    (if i = 6 then (d ! 6 AND 0x0f) OR 0x40 else if i = 8 then (d ! 8 AND 0x3f) OR 0x80 else d ! i)"
  by (simp add: stamp_bits_def nth_list_update)

lemma except_two:
  "(\<forall>i < 16. (if i = 6 then x else if i = 8 then y else p i) = (if i = 6 then x' else if i = 8 then y' else q i)) \<longleftrightarrow>
    (\<forall>i < (16 :: nat). i \<notin> {6, 8} \<longrightarrow> p i = q i) \<and> x = x' \<and> y = y'" (is "?l \<longleftrightarrow> ?r")
proof
  assume l: ?l
  show ?r using l [THEN spec, of 6] l [THEN spec, of 8]
  proof (intro conjI allI impI)
    fix i :: nat assume "i < 16" "i \<notin> {6, 8}"
    then show "p i = q i" using l [THEN spec, of i] by simp
  qed simp_all
next
  assume r: ?r
  show ?l
  proof (intro allI impI)
    fix i :: nat assume "i < 16"
    with r [THEN conjunct1, THEN spec, of i] r [THEN conjunct2]
    show "(if i = 6 then x else if i = 8 then y else p i) = (if i = 6 then x' else if i = 8 then y' else q i)"
      by (cases "i = 6"; cases "i = 8") simp_all
  qed
qed

text \<open>
  Two identifiers are equal only when the random bits agree. For sixteen random bytes
  each, the identifiers are the same exactly when the bytes agree outside the six fixed
  bits: 122 of the 128 random bits reach the text.
\<close>

theorem uuid_keeps_122_bits:
  assumes "length b = 16" "length c = 16"
  shows "NewUUID (Some b) = NewUUID (Some c) \<longleftrightarrow>
    (\<forall>i < 16. i \<notin> {6, 8} \<longrightarrow> b ! i = c ! i) \<and>
    b ! 6 AND 0x0f = c ! 6 AND 0x0f \<and> b ! 8 AND 0x3f = c ! 8 AND 0x3f"
proof -
  have masks: "(x AND 0x0f) OR 0x40 = (y AND 0x0f) OR 0x40 \<longleftrightarrow> x AND 0x0f = y AND 0x0f"
    "(x AND 0x3f) OR 0x80 = (y AND 0x3f) OR 0x80 \<longleftrightarrow> x AND 0x3f = y AND 0x3f" for x y :: byte
    by (metis version_bits(2), metis variant_low)
  have l: "length (stamp_bits b) = 16" "length (stamp_bits c) = 16"
    using assms by (simp_all add: stamp_bits_def)
  define stamped where "stamped d i = (if i = 6 then (d ! 6 AND 0x0f) OR 0x40
      else if i = 8 then (d ! 8 AND 0x3f) OR 0x80 else d ! i)" for d :: "byte list" and i
  have parts: "d = take 4 d @ take 2 (drop 4 d) @ take 2 (drop 6 d) @ take 2 (drop 8 d) @ take 6 (drop 10 d)"
    if "length d = 16" for d :: "byte list"
    using that by (rule sixteen_bytes) simp
  have "NewUUID (Some b) = NewUUID (Some c) \<longleftrightarrow> stamp_bits b = stamp_bits c"
  proof
    assume e: "NewUUID (Some b) = NewUUID (Some c)"
    then have "take 4 (stamp_bits b) = take 4 (stamp_bits c)"
      "take 2 (drop 4 (stamp_bits b)) = take 2 (drop 4 (stamp_bits c))"
      "take 2 (drop 6 (stamp_bits b)) = take 2 (drop 6 (stamp_bits c))"
      "take 2 (drop 8 (stamp_bits b)) = take 2 (drop 8 (stamp_bits c))"
      "take 6 (drop 10 (stamp_bits b)) = take 6 (drop 10 (stamp_bits c))"
      using l by (simp_all add: NewUUID_def Let_def)
    with parts [OF l(1)] parts [OF l(2)] show "stamp_bits b = stamp_bits c" by metis
  qed (simp add: NewUUID_def)
  also have "\<dots> \<longleftrightarrow> (\<forall>i < 16. stamp_bits b ! i = stamp_bits c ! i)"
    using l by (auto simp: list_eq_iff_nth_eq)
  also have "\<dots> \<longleftrightarrow> (\<forall>i < 16. stamped b i = stamped c i)"
    using assms by (simp add: stamped_def stamp_bits_nth cong: imp_cong)
  also have "\<dots> \<longleftrightarrow> (\<forall>i < 16. i \<notin> {6, 8} \<longrightarrow> b ! i = c ! i) \<and>
      (b ! 6 AND 0x0f) OR 0x40 = (c ! 6 AND 0x0f) OR 0x40 \<and>
      (b ! 8 AND 0x3f) OR 0x80 = (c ! 8 AND 0x3f) OR 0x80"
    unfolding stamped_def by (rule except_two)
  finally show ?thesis by (simp only: masks)
qed

definition zero_bytes :: "byte list" where "zero_bytes = replicate 16 0"

lemma uuid_format_witness:
  "case NewUUID (Some zero_bytes) of None \<Rightarrow> False | Some u \<Rightarrow> length u = 36 \<and> u ! 14 = CHR ''4''"
  using uuid_format [of zero_bytes] by (simp add: zero_bytes_def split: option.splits)

lemma uuid_keeps_122_bits_witness:
  "NewUUID (Some zero_bytes) = NewUUID (Some (zero_bytes[6 := 0x50])) \<and>
   NewUUID (Some zero_bytes) \<noteq> NewUUID (Some (zero_bytes[7 := 1]))"
  using uuid_keeps_122_bits [of zero_bytes "zero_bytes[6 := 0x50]"]
    uuid_keeps_122_bits [of zero_bytes "zero_bytes[7 := 1]"]
  by (auto simp: zero_bytes_def nth_list_update)

end
