(* ===== verification/Config.thy ===== *)
theory Config
  imports Strconv
begin

text \<open>
  The daemon's configuration (\<open>internal/config/config.go\<close>): the process environment, the .env
  file that may add to it, and what \<open>Load\<close> makes of both. The environment is a map from
  names to values; a Go \<open>int\<close> parsed by \<open>Atoi\<close> is an int. What the file system answers for
  .env is the argument \<open>file\<close>.
\<close>

section \<open>The configuration\<close>

record budget_config =
  BC_Tokens :: int64
  BC_Dollars :: float64
  BC_Loops :: int32
  BC_Seconds :: int32
  BC_Defaulted :: bool

record otel_config =
  OC_Endpoint :: string
  OC_Protocol :: string
  OC_Insecure :: bool
  OC_ServiceName :: string
  OC_Headers :: "(string \<times> string) list"
  OC_IngressEnabled :: bool

record approval_config =
  AC_DefaultSafe :: bool
  AC_WebhookURL :: string
  AC_SlackBotToken :: string
  AC_SlackChannel :: string
  AC_SlackSigningSecret :: string

record mcp_settings =
  MC_Upstream :: string
  MC_Allowlist :: "string list"
  MC_ReadOnly :: "string list"
  MC_ApprovalTimeoutSeconds :: int

record memory_config =
  MM_Dir :: string
  MM_Embeddings :: bool

record config =
  C_Port :: int
  C_DataDir :: string
  C_DatabaseURL :: string
  C_APIToken :: string
  C_DefaultProvider :: string
  C_AnthropicAPIKey :: string
  C_OpenAIAPIKey :: string
  C_AnthropicBaseURL :: string
  C_OpenAIBaseURL :: string
  C_OllamaBaseURL :: string
  C_BedrockBaseURL :: string
  C_AWSAccessKeyID :: string
  C_AWSSecretAccessKey :: string
  C_AWSSessionToken :: string
  C_AWSRegion :: string
  C_DefaultBudget :: budget_config
  C_PricingFile :: string
  C_PolicyFile :: string
  C_OTel :: otel_config
  C_Approval :: approval_config
  C_MCP :: mcp_settings
  C_Memory :: memory_config

datatype config_error =
    NotKeyValue nat
  | EmptyKey nat
  | SetenvError
  | DotEnvUnreadable
  | BadPort string
  | BadInteger string string
  | BadNumber string string

definition DefaultPort :: int where "DefaultPort = 7070"
definition SafeDefaultDollars :: float64 where "SafeDefaultDollars = Fin 5"
definition SafeDefaultLoops :: int32 where "SafeDefaultLoops = 100"
definition SafeDefaultSeconds :: int32 where "SafeDefaultSeconds = 3600"

section \<open>The environment\<close>

type_synonym env = "string \<Rightarrow> string option"

definition Getenv :: "env \<Rightarrow> string \<Rightarrow> string" where
  "Getenv e k = (case e k of None \<Rightarrow> '''' | Some v \<Rightarrow> v)"

definition getenvDefault :: "env \<Rightarrow> string \<Rightarrow> string \<Rightarrow> string" where
  "getenvDefault e k d = (if Getenv e k \<noteq> '''' then Getenv e k else d)"

text \<open>\<open>os.Setenv\<close> refuses an empty name, a name with \<open>=\<close> and a NUL byte.\<close>

definition Setenv :: "env \<Rightarrow> string \<Rightarrow> string \<Rightarrow> env option" where
  "Setenv e k v =
     (if k = '''' \<or> CHR ''='' \<in> set k \<or> CHR 0x00 \<in> set k \<or> CHR 0x00 \<in> set v then None
      else Some (e(k \<mapsto> v)))"

section \<open>The .env file\<close>

text \<open>A missing file, one that cannot be opened, or its text and whether the read reached the end.\<close>

datatype dotenv_file = NoFile | OpenFails | Contents string bool

text \<open>
  \<open>bufio.Scanner\<close>: lines without their line feed and one carriage return before it. A line
  that fills the 64 KiB buffer ends the scan with an error.
\<close>

definition raw_lines :: "string \<Rightarrow> string list" where
  "raw_lines s = (let ls = Split1 (CHR 0x0A) s in if last ls = [] then butlast ls else ls)"

definition dropCR :: "string \<Rightarrow> string" where
  "dropCR l = (if l \<noteq> [] \<and> last l = CHR 0x0D then butlast l else l)"

definition line_limit :: nat where "line_limit = 65536"

definition fits_line :: "string \<Rightarrow> bool" where
  "fits_line l \<longleftrightarrow> length l < line_limit"

definition unquote :: "string \<Rightarrow> string" where
  "unquote s =
     (if 2 \<le> length s \<and> (hd s = CHR 0x22 \<and> last s = CHR 0x22 \<or> hd s = CHR 0x27 \<and> last s = CHR 0x27)
      then butlast (tl s) else s)"

definition dotenv_line :: "nat \<Rightarrow> string \<Rightarrow> env \<Rightarrow> config_error + env" where
  "dotenv_line n raw e =
     (let line = TrimSpace raw in
      if line = '''' \<or> HasPrefix line ''#'' then Inr e
      else (case Cut (TrimPrefix line ''export '') ''='' of
          None \<Rightarrow> Inl (NotKeyValue n)
        | Some (k, v) \<Rightarrow>
            (let key = TrimSpace k; val = unquote (TrimSpace v) in
             if key = '''' then Inl (EmptyKey n)
             else if e key \<noteq> None then Inr e
             else (case Setenv e key val of None \<Rightarrow> Inl SetenvError | Some e' \<Rightarrow> Inr e'))))"

fun dotenv_lines :: "nat \<Rightarrow> string list \<Rightarrow> env \<Rightarrow> config_error + env" where
  "dotenv_lines n [] e = Inr e"
| "dotenv_lines n (l # ls) e =
     (case dotenv_line n l e of Inl err \<Rightarrow> Inl err | Inr e' \<Rightarrow> dotenv_lines (n + 1) ls e')"

definition loadDotEnv :: "dotenv_file \<Rightarrow> env \<Rightarrow> config_error + env" where
  "loadDotEnv file e =
     (case file of
        NoFile \<Rightarrow> Inr e
      | OpenFails \<Rightarrow> Inl DotEnvUnreadable
      | Contents s whole \<Rightarrow>
          (let raw = raw_lines s; ok = takeWhile fits_line raw in
           case dotenv_lines 1 (map dropCR ok) e of
             Inl err \<Rightarrow> Inl err
           | Inr e' \<Rightarrow> if ok = raw \<and> whole then Inr e' else Inl DotEnvUnreadable))"

section \<open>Values\<close>

definition splitList :: "string \<Rightarrow> string list" where
  "splitList v = (if TrimSpace v = '''' then []
     else filter (\<lambda>p. p \<noteq> '''') (map TrimSpace (Split1 (CHR '','') v)))"

definition envIntDefault :: "env \<Rightarrow> string \<Rightarrow> int \<Rightarrow> int" where
  "envIntDefault e k d =
     (let v = TrimSpace (Getenv e k) in
      if v = '''' then d
      else (case ParseInt64 v of None \<Rightarrow> d | Some n \<Rightarrow> if n < 0 then d else n))"

definition envBoolDefault :: "env \<Rightarrow> string \<Rightarrow> bool \<Rightarrow> bool" where
  "envBoolDefault e k d =
     (let v = ToLower (TrimSpace (Getenv e k)) in
      if v = '''' then d else v \<in> {''true'', ''1'', ''yes''})"

text \<open>The map as an association list; the empty list is nil.\<close>

definition put_header :: "string \<times> string \<Rightarrow> (string \<times> string) list \<Rightarrow> (string \<times> string) list" where
  "put_header kv m = filter (\<lambda>(k, _). k \<noteq> fst kv) m @ [kv]"

definition header_pair :: "string \<Rightarrow> (string \<times> string) option" where
  "header_pair pair =
     (case Cut pair ''='' of
        None \<Rightarrow> None
      | Some (k, v) \<Rightarrow> if TrimSpace k = '''' then None else Some (TrimSpace k, TrimSpace v))"

definition parseOTLPHeaders :: "string \<Rightarrow> (string \<times> string) list" where
  "parseOTLPHeaders s =
     (let s = TrimSpace s in
      if s = '''' then []
      else fold put_header (List.map_filter header_pair (Split1 (CHR '','') s)) [])"

definition loadOTel :: "env \<Rightarrow> otel_config" where
  "loadOTel e =
     (let endpoint = (let v = Getenv e ''OTEL_EXPORTER_OTLP_TRACES_ENDPOINT'' in
            if v = '''' then Getenv e ''OTEL_EXPORTER_OTLP_ENDPOINT'' else v);
          headers = (let v = Getenv e ''OTEL_EXPORTER_OTLP_TRACES_HEADERS'' in
            if v = '''' then Getenv e ''OTEL_EXPORTER_OTLP_HEADERS'' else v)
      in \<lparr>OC_Endpoint = endpoint,
          OC_Protocol = getenvDefault e ''OTEL_EXPORTER_OTLP_PROTOCOL'' ''grpc'',
          OC_Insecure = (ToLower (Getenv e ''OTEL_EXPORTER_OTLP_INSECURE'') = ''true'' \<or>
            HasPrefix endpoint ''http://''),
          OC_ServiceName = getenvDefault e ''OTEL_SERVICE_NAME'' ''riskkernel'',
          OC_Headers = parseOTLPHeaders headers,
          OC_IngressEnabled = envBoolDefault e ''RISKKERNEL_OTEL_INGRESS_ENABLED'' False\<rparr>)"

section \<open>The default budget\<close>

definition clampInt32 :: "int \<Rightarrow> int32" where
  "clampInt32 v = (if 2147483647 < v then 2147483647 else word_of_int v)"

definition envInt64 :: "env \<Rightarrow> string \<Rightarrow> config_error + int" where
  "envInt64 e k =
     (let v = Getenv e k in
      if v = '''' then Inr 0
      else (case ParseInt64 v of
          None \<Rightarrow> Inl (BadInteger k v)
        | Some n \<Rightarrow> if n < 0 then Inl (BadInteger k v) else Inr n))"

definition envFloat :: "env \<Rightarrow> string \<Rightarrow> config_error + float64" where
  "envFloat e k =
     (let v = Getenv e k in
      if v = '''' then Inr fzero
      else (case ParseFloat64 v of
          None \<Rightarrow> Inl (BadNumber k v)
        | Some x \<Rightarrow> if flt x fzero then Inl (BadNumber k v) else Inr x))"

definition budget_vars :: "string list" where
  "budget_vars = [''RISKKERNEL_DEFAULT_TOKENS'', ''RISKKERNEL_DEFAULT_DOLLARS'',
     ''RISKKERNEL_DEFAULT_LOOPS'', ''RISKKERNEL_DEFAULT_SECONDS'']"

definition anyBudgetEnvSet :: "env \<Rightarrow> bool" where
  "anyBudgetEnvSet e \<longleftrightarrow> list_ex (\<lambda>k. Getenv e k \<noteq> '''') budget_vars"

definition loadBudget :: "env \<Rightarrow> config_error + budget_config" where
  "loadBudget e =
     (if \<not> anyBudgetEnvSet e then
        Inr \<lparr>BC_Tokens = 0, BC_Dollars = SafeDefaultDollars, BC_Loops = SafeDefaultLoops,
             BC_Seconds = SafeDefaultSeconds, BC_Defaulted = True\<rparr>
      else (case envInt64 e ''RISKKERNEL_DEFAULT_TOKENS'' of Inl err \<Rightarrow> Inl err | Inr tokens \<Rightarrow>
           (case envFloat e ''RISKKERNEL_DEFAULT_DOLLARS'' of Inl err \<Rightarrow> Inl err | Inr dollars \<Rightarrow>
           (case envInt64 e ''RISKKERNEL_DEFAULT_LOOPS'' of Inl err \<Rightarrow> Inl err | Inr loops \<Rightarrow>
           (case envInt64 e ''RISKKERNEL_DEFAULT_SECONDS'' of Inl err \<Rightarrow> Inl err | Inr secs \<Rightarrow>
              Inr \<lparr>BC_Tokens = word_of_int tokens, BC_Dollars = dollars, BC_Loops = clampInt32 loops,
                   BC_Seconds = clampInt32 secs, BC_Defaulted = False\<rparr>)))))"

section \<open>Load\<close>

definition loadPort :: "env \<Rightarrow> config_error + int" where
  "loadPort e =
     (let v = Getenv e ''RISKKERNEL_PORT'' in
      if v = '''' then Inr DefaultPort
      else (case ParseInt64 v of
          None \<Rightarrow> Inl (BadPort v)
        | Some p \<Rightarrow> if p < 1 \<or> 65535 < p then Inl (BadPort v) else Inr p))"

definition read_config :: "env \<Rightarrow> int \<Rightarrow> budget_config \<Rightarrow> config" where
  "read_config e port budget =
     \<lparr>C_Port = port,
      C_DataDir = getenvDefault e ''RISKKERNEL_DATA_DIR'' ''./data'',
      C_DatabaseURL = Getenv e ''RISKKERNEL_DATABASE_URL'',
      C_APIToken = Getenv e ''RISKKERNEL_API_TOKEN'',
      C_DefaultProvider = getenvDefault e ''RISKKERNEL_DEFAULT_PROVIDER'' ''anthropic'',
      C_AnthropicAPIKey = Getenv e ''ANTHROPIC_API_KEY'',
      C_OpenAIAPIKey = Getenv e ''OPENAI_API_KEY'',
      C_AnthropicBaseURL = Getenv e ''RISKKERNEL_ANTHROPIC_BASE_URL'',
      C_OpenAIBaseURL = Getenv e ''RISKKERNEL_OPENAI_BASE_URL'',
      C_OllamaBaseURL = Getenv e ''RISKKERNEL_OLLAMA_BASE_URL'',
      C_BedrockBaseURL = Getenv e ''RISKKERNEL_BEDROCK_BASE_URL'',
      C_AWSAccessKeyID = Getenv e ''AWS_ACCESS_KEY_ID'',
      C_AWSSecretAccessKey = Getenv e ''AWS_SECRET_ACCESS_KEY'',
      C_AWSSessionToken = Getenv e ''AWS_SESSION_TOKEN'',
      C_AWSRegion = getenvDefault e ''AWS_REGION'' (Getenv e ''AWS_DEFAULT_REGION''),
      C_DefaultBudget = budget,
      C_PricingFile = Getenv e ''RISKKERNEL_PRICING_FILE'',
      C_PolicyFile = Getenv e ''RISKKERNEL_POLICY_FILE'',
      C_OTel = loadOTel e,
      C_Approval = \<lparr>AC_DefaultSafe = envBoolDefault e ''RISKKERNEL_APPROVAL_DEFAULT_SAFE'' True,
        AC_WebhookURL = Getenv e ''RISKKERNEL_APPROVAL_WEBHOOK'',
        AC_SlackBotToken = Getenv e ''RISKKERNEL_APPROVAL_SLACK_BOT_TOKEN'',
        AC_SlackChannel = Getenv e ''RISKKERNEL_APPROVAL_SLACK_CHANNEL'',
        AC_SlackSigningSecret = Getenv e ''RISKKERNEL_APPROVAL_SLACK_SIGNING_SECRET''\<rparr>,
      C_MCP = \<lparr>MC_Upstream = Getenv e ''RISKKERNEL_MCP_UPSTREAM'',
        MC_Allowlist = splitList (Getenv e ''RISKKERNEL_MCP_ALLOWLIST''),
        MC_ReadOnly = splitList (Getenv e ''RISKKERNEL_MCP_READONLY''),
        MC_ApprovalTimeoutSeconds = envIntDefault e ''RISKKERNEL_MCP_APPROVAL_TIMEOUT'' 110\<rparr>,
      C_Memory = \<lparr>MM_Dir = getenvDefault e ''RISKKERNEL_MEMORY_DIR'' ''./memory'',
        MM_Embeddings = envBoolDefault e ''RISKKERNEL_MEMORY_EMBEDDINGS'' False\<rparr>\<rparr>"

definition Load :: "dotenv_file \<Rightarrow> env \<Rightarrow> config_error + config" where
  "Load file e =
     (case loadDotEnv file e of
        Inl err \<Rightarrow> Inl err
      | Inr e' \<Rightarrow>
          (case loadPort e' of
             Inl err \<Rightarrow> Inl err
           | Inr port \<Rightarrow>
               (case loadBudget e' of
                  Inl err \<Rightarrow> Inl err
                | Inr budget \<Rightarrow> Inr (read_config e' port budget))))"

end
