(* ===== verification/ConfigLaws.thy ===== *)
theory ConfigLaws
  imports Config
begin

text \<open>
  What a configuration that loads guarantees: its numbers are in range, the environment of
  the process wins over the .env file, an unconfigured daemon gets the safe budget; and
  which values are accepted that should not be.
\<close>

section \<open>The .env file\<close>

definition extends_env :: "env \<Rightarrow> env \<Rightarrow> bool" where
  "extends_env e e' \<longleftrightarrow> (\<forall>k v. e k = Some v \<longrightarrow> e' k = Some v)"

lemma extends_env_refl [simp]: "extends_env e e"
  by (simp add: extends_env_def)

lemma extends_env_trans: "extends_env e f \<Longrightarrow> extends_env f g \<Longrightarrow> extends_env e g"
  by (simp add: extends_env_def)

lemma dotenv_line_extends: "dotenv_line n l e = Inr e' \<Longrightarrow> extends_env e e'"
  by (auto simp: dotenv_line_def Setenv_def extends_env_def Let_def split: if_splits option.splits prod.splits)

lemma dotenv_lines_extends: "dotenv_lines n ls e = Inr e' \<Longrightarrow> extends_env e e'"
proof (induction ls arbitrary: n e)
  case (Cons l ls)
  then obtain f where "dotenv_line n l e = Inr f" "dotenv_lines (n + 1) ls f = Inr e'"
    by (auto split: sum.splits)
  with Cons.IH dotenv_line_extends extends_env_trans show ?case by blast
qed simp

lemma loadDotEnv_extends: "loadDotEnv file e = Inr e' \<Longrightarrow> extends_env e e'"
  by (auto simp: loadDotEnv_def Let_def split: dotenv_file.splits sum.splits if_splits dest: dotenv_lines_extends)

section \<open>Budgets\<close>

lemma envInt64_range: "envInt64 e k = Inr n \<Longrightarrow> 0 \<le> n \<and> n < 2 ^ 63"
  by (auto simp: envInt64_def ParseInt64_def Let_def split: if_splits option.splits prod.splits)

lemma envFloat_range: "envFloat e k = Inr x \<Longrightarrow> \<not> flt x fzero"
  by (auto simp: envFloat_def Let_def split: if_splits option.splits)

lemma clampInt32_range:
  assumes "0 \<le> n"
  shows "sint (clampInt32 n) = min n (2 ^ 31 - 1)"
proof (cases "2147483647 < n")
  case False
  then show ?thesis using assms
    by (simp add: clampInt32_def sint_sbintrunc' signed_take_bit_int_eq_self)
qed (simp add: clampInt32_def)

lemma loadBudget_cases:
  assumes "loadBudget e = Inr b"
  obtains (safe) "\<not> anyBudgetEnvSet e"
      "b = \<lparr>BC_Tokens = 0, BC_Dollars = SafeDefaultDollars, BC_Loops = SafeDefaultLoops,
            BC_Seconds = SafeDefaultSeconds, BC_Defaulted = True\<rparr>"
    | (chosen) t x l s where "anyBudgetEnvSet e" "envInt64 e ''RISKKERNEL_DEFAULT_TOKENS'' = Inr t"
      "envFloat e ''RISKKERNEL_DEFAULT_DOLLARS'' = Inr x"
      "envInt64 e ''RISKKERNEL_DEFAULT_LOOPS'' = Inr l" "envInt64 e ''RISKKERNEL_DEFAULT_SECONDS'' = Inr s"
      "b = \<lparr>BC_Tokens = word_of_int t, BC_Dollars = x, BC_Loops = clampInt32 l,
            BC_Seconds = clampInt32 s, BC_Defaulted = False\<rparr>"
  using assms by (auto simp: loadBudget_def split: if_splits sum.splits)

definition budget_in_range :: "budget_config \<Rightarrow> bool" where
  "budget_in_range b \<longleftrightarrow> 0 \<le> sint (BC_Tokens b) \<and> \<not> flt (BC_Dollars b) fzero \<and>
     0 \<le> sint (BC_Loops b) \<and> 0 \<le> sint (BC_Seconds b)"

lemma loadBudget_range: "loadBudget e = Inr b \<Longrightarrow> budget_in_range b"
proof (erule loadBudget_cases)
  fix t x l s
  assume "envInt64 e ''RISKKERNEL_DEFAULT_TOKENS'' = Inr t"
    "envFloat e ''RISKKERNEL_DEFAULT_DOLLARS'' = Inr x"
    "envInt64 e ''RISKKERNEL_DEFAULT_LOOPS'' = Inr l" "envInt64 e ''RISKKERNEL_DEFAULT_SECONDS'' = Inr s"
    and b: "b = \<lparr>BC_Tokens = word_of_int t, BC_Dollars = x, BC_Loops = clampInt32 l,
            BC_Seconds = clampInt32 s, BC_Defaulted = False\<rparr>"
  then have "0 \<le> t" "t < 2 ^ 63" "\<not> flt x fzero" "0 \<le> l" "0 \<le> s"
    by (auto dest: envInt64_range envFloat_range)
  then show "budget_in_range b"
    unfolding b budget_in_range_def
    by (simp add: clampInt32_range sint_sbintrunc' signed_take_bit_int_eq_self)
qed (simp add: budget_in_range_def SafeDefaultDollars_def SafeDefaultLoops_def SafeDefaultSeconds_def)

section \<open>Properties\<close>

lemma Load_cases:
  assumes "Load file e = Inr c"
  obtains e' port b where "loadDotEnv file e = Inr e'" "loadPort e' = Inr port" "loadBudget e' = Inr b"
    "c = read_config e' port b"
  using assms by (auto simp: Load_def split: sum.splits)

lemma put_header_keys:
  "distinct (map fst m) \<Longrightarrow> distinct (map fst (put_header kv m)) \<and>
     fst ` set (put_header kv m) \<subseteq> insert (fst kv) (fst ` set m)"
  by (cases kv) (auto simp: put_header_def distinct_map_filter)

lemma fold_put_header_keys:
  assumes "distinct (map fst m)"
  shows "distinct (map fst (fold put_header kvs m)) \<and>
    fst ` set (fold put_header kvs m) \<subseteq> fst ` set kvs \<union> fst ` set m"
  using assms
proof (induction kvs arbitrary: m)
  case (Cons kv kvs)
  from put_header_keys [OF Cons.prems, of kv] Cons.IH [of "put_header kv m"]
  have "distinct (map fst (fold put_header kvs (put_header kv m)))"
    "fst ` set (fold put_header kvs (put_header kv m)) \<subseteq> fst ` set kvs \<union> insert (fst kv) (fst ` set m)"
    by blast+
  then show ?case by simp
qed simp

lemma headers_keyed: "distinct (map fst (parseOTLPHeaders s)) \<and> '''' \<notin> fst ` set (parseOTLPHeaders s)"
proof -
  have "'''' \<notin> fst ` set (List.map_filter header_pair ps)" for ps
  proof (induction ps)
    case (Cons p ps)
    then show ?case
      by (cases "header_pair p") (auto simp: List.map_filter_simps header_pair_def split: option.splits if_splits)
  qed (simp add: List.map_filter_simps)
  then show ?thesis
    using fold_put_header_keys [of "[]" "List.map_filter header_pair (Split1 (CHR '','') (TrimSpace s))"]
    unfolding parseOTLPHeaders_def Let_def
    by (cases "TrimSpace s = ''''") (simp, simp only: if_False list.map distinct.simps list.set image_empty Un_empty_right, blast)
qed

text \<open>
  C32. A configuration that loads is in range. Whatever the environment and the .env file
  hold, if \<open>Load\<close> succeeds then the port is 1 to 65535, no default budget is negative, the
  approval timeout is not negative, no entry of the tool lists is empty, and the export
  headers have distinct, non-empty names.
\<close>

theorem loaded_config_in_range:
  assumes "Load file e = Inr c"
  shows "1 \<le> C_Port c \<and> C_Port c \<le> 65535 \<and> budget_in_range (C_DefaultBudget c) \<and>
    0 \<le> MC_ApprovalTimeoutSeconds (C_MCP c) \<and>
    '''' \<notin> set (MC_Allowlist (C_MCP c)) \<union> set (MC_ReadOnly (C_MCP c)) \<and>
    distinct (map fst (OC_Headers (C_OTel c))) \<and> '''' \<notin> fst ` set (OC_Headers (C_OTel c))"
proof -
  from assms obtain e' port b where c: "loadPort e' = Inr port" "loadBudget e' = Inr b"
    "c = read_config e' port b" by (rule Load_cases)
  have p: "1 \<le> port \<and> port \<le> 65535"
    using c(1) by (auto simp: loadPort_def Let_def DefaultPort_def split: if_splits option.splits)
  have t: "0 \<le> envIntDefault e' k 110" for k
    by (simp add: envIntDefault_def Let_def split: option.split)
  have s: "'''' \<notin> set (splitList v)" for v by (auto simp: splitList_def)
  have h: "distinct (map fst (OC_Headers (loadOTel e'))) \<and> '''' \<notin> fst ` set (OC_Headers (loadOTel e'))"
    unfolding loadOTel_def Let_def otel_config.simps by (rule headers_keyed)
  from p t s h loadBudget_range [OF c(2)] show ?thesis
    unfolding c(3) read_config_def by simp
qed

text \<open>
  The environment wins. Loading the .env file never changes a variable the process
  already has, so no setting of the file can override the operator's environment.
\<close>

theorem environment_wins:
  assumes "loadDotEnv file e = Inr e'" "e k = Some v"
  shows "e' k = Some v"
  using loadDotEnv_extends [OF assms(1)] assms(2) by (simp add: extends_env_def)

text \<open>
  A misspelt switch turns the gate off. When RISKKERNEL_APPROVAL_DEFAULT_SAFE holds
  anything but an empty value, \<open>true\<close>, \<open>1\<close> or \<open>yes\<close> - \<open>on\<close>, say, or a typing error - the
  configuration still loads, and the default that asks a human before every side effect is off.
\<close>

theorem misspelt_switch_disables_default_safe:
  assumes "Load file e = Inr c" "e ''RISKKERNEL_APPROVAL_DEFAULT_SAFE'' = Some v"
    and "ToLower (TrimSpace v) \<notin> {'''', ''true'', ''1'', ''yes''}"
  shows "\<not> AC_DefaultSafe (C_Approval c)"
proof -
  from assms(1) obtain e' port b where c: "loadDotEnv file e = Inr e'" "c = read_config e' port b"
    by (rule Load_cases)
  from loadDotEnv_extends [OF c(1)] assms(2) have "e' ''RISKKERNEL_APPROVAL_DEFAULT_SAFE'' = Some v"
    by (simp add: extends_env_def)
  with assms(3) show ?thesis unfolding c(2) read_config_def
    by (simp add: envBoolDefault_def Getenv_def Let_def)
qed

text \<open>A dollar limit that is not a number loads.\<close>

lemma nan_default_budget_loads:
  "loadBudget [''RISKKERNEL_DEFAULT_DOLLARS'' \<mapsto> ''NaN''] =
     Inr \<lparr>BC_Tokens = 0, BC_Dollars = NaN, BC_Loops = 0, BC_Seconds = 0, BC_Defaulted = False\<rparr>"
proof -
  have "ParseFloat64 ''NaN'' = Some NaN" by code_simp
  then show ?thesis
    by (simp add: loadBudget_def anyBudgetEnvSet_def budget_vars_def Getenv_def envInt64_def envFloat_def
        clampInt32_def)
qed

definition sample_env :: env where
  "sample_env = [''RISKKERNEL_APPROVAL_DEFAULT_SAFE'' \<mapsto> ''on'', ''RISKKERNEL_PORT'' \<mapsto> ''8080'']"

lemma sample_port: "ParseInt64 ''8080'' = Some 8080"
  by code_simp

lemma sample_load: "\<exists>c. Load NoFile sample_env = Inr c \<and> C_Port c = 8080"
  by (simp add: Load_def loadDotEnv_def loadPort_def sample_env_def Getenv_def sample_port
      loadBudget_def anyBudgetEnvSet_def budget_vars_def read_config_def)

lemma loaded_config_in_range_witness:
  "\<exists>c. Load NoFile sample_env = Inr c \<and> C_Port c = 8080 \<and> budget_in_range (C_DefaultBudget c)"
  using sample_load loaded_config_in_range [of NoFile sample_env] by blast

lemma environment_wins_witness:
  "\<exists>e'. loadDotEnv (Contents ''A=2'' True) [''A'' \<mapsto> ''1''] = Inr e' \<and> e' ''A'' = Some ''1''"
proof -
  have "\<not> isl (loadDotEnv (Contents ''A=2'' True) [''A'' \<mapsto> ''1''])"
    by (simp add: loadDotEnv_def raw_lines_def fits_line_def line_limit_def dropCR_def dotenv_line_def
        TrimSpace_def is_space_def HasPrefix_def TrimPrefix_def unquote_def)
  then obtain e' where "loadDotEnv (Contents ''A=2'' True) [''A'' \<mapsto> ''1''] = Inr e'"
    by (cases "loadDotEnv (Contents ''A=2'' True) [''A'' \<mapsto> ''1'']") simp_all
  then show ?thesis using environment_wins [of "Contents ''A=2'' True" "[''A'' \<mapsto> ''1'']" e' "''A''" "''1''"] by simp
qed

lemma misspelt_switch_disables_default_safe_witness:
  "\<exists>c. Load NoFile sample_env = Inr c \<and> \<not> AC_DefaultSafe (C_Approval c)"
proof -
  have "ToLower (TrimSpace ''on'') = ''on''" by code_simp
  then show ?thesis
    using sample_load misspelt_switch_disables_default_safe [of NoFile sample_env _ "''on''"]
    by (force simp: sample_env_def)
qed

end
