(* ===== verification/Paths.thy ===== *)
theory Paths
  imports GoPrelude
begin

text \<open>
  Package path/filepath on Unix: \<open>Clean\<close>, \<open>Join\<close>, \<open>IsLocal\<close>, \<open>Base\<close>, \<open>Ext\<close>, \<open>Rel\<close> below a
  base, \<open>Abs\<close>. A path is a string; the lemmas work on its elements between slashes.
\<close>

definition slash :: char where "slash = CHR ''/''"

definition IsAbs :: "string \<Rightarrow> bool" where
  "IsAbs p \<longleftrightarrow> HasPrefix p [slash]"

text \<open>The elements kept so far are on a stack: \<open>..\<close> takes one off, or stays where none is left.\<close>

fun clean_elems :: "bool \<Rightarrow> string list \<Rightarrow> string list \<Rightarrow> string list" where
  "clean_elems rooted st [] = rev st"
| "clean_elems rooted st (e # es) =
     (if e = '''' \<or> e = ''.'' then clean_elems rooted st es
      else if e = ''..'' then
        (case st of
           [] \<Rightarrow> clean_elems rooted (if rooted then [] else [''..'']) es
         | t # ts \<Rightarrow> clean_elems rooted (if t = ''..'' then ''..'' # st else ts) es)
      else clean_elems rooted (e # st) es)"

definition elems :: "string \<Rightarrow> string list" where
  "elems p = clean_elems (IsAbs p) [] (Split1 slash p)"

definition render :: "bool \<Rightarrow> string list \<Rightarrow> string" where
  "render rooted es = (if rooted then slash # Join [slash] es
     else if es = [] then ''.'' else Join [slash] es)"

definition Clean :: "string \<Rightarrow> string" where
  "Clean p = render (IsAbs p) (elems p)"

definition Join2 :: "string \<Rightarrow> string \<Rightarrow> string" where
  "Join2 a b = (if a \<noteq> '''' then Clean (a @ [slash] @ b) else if b \<noteq> '''' then Clean b else '''')"

definition IsLocal :: "string \<Rightarrow> bool" where
  "IsLocal p \<longleftrightarrow> p \<noteq> '''' \<and> \<not> IsAbs p \<and>
     (let q = (if list_ex (\<lambda>e. e = ''.'' \<or> e = ''..'') (Split1 slash p) then Clean p else p)
      in q \<noteq> ''..'' \<and> \<not> HasPrefix q ''../'')"

definition Ext :: "string \<Rightarrow> string" where
  "Ext p = (let r = takeWhile (\<lambda>c. c \<noteq> slash) (rev p) in
     if CHR ''.'' \<in> set r then CHR ''.'' # rev (takeWhile (\<lambda>c. c \<noteq> CHR ''.'') r) else '''')"

definition Base :: "string \<Rightarrow> string" where
  "Base p =
     (if p = '''' then ''.''
      else let q = dropWhile (\<lambda>c. c = slash) (rev p);
               b = rev (takeWhile (\<lambda>c. c \<noteq> slash) q)
           in if b = '''' then [slash] else b)"

text \<open>\<open>Rel\<close> of a clean path at or below the clean path \<open>base\<close>.\<close>

definition Rel :: "string \<Rightarrow> string \<Rightarrow> string" where
  "Rel base p =
     (if p = base then ''.''
      else if base = ''.'' then p
      else TrimPrefix (TrimPrefix p base) [slash])"

text \<open>\<open>Abs\<close>; the working directory is None when the system does not tell it.\<close>

definition Abs_path :: "string option \<Rightarrow> string \<Rightarrow> string option" where
  "Abs_path cwd p = (if IsAbs p then Some (Clean p) else map_option (\<lambda>wd. Join2 wd p) cwd)"

section \<open>Elements\<close>

text \<open>An element that names something below a directory.\<close>

definition plain :: "string \<Rightarrow> bool" where
  "plain e \<longleftrightarrow> e \<noteq> '''' \<and> e \<noteq> ''.'' \<and> e \<noteq> ''..'' \<and> slash \<notin> set e"

lemma Split1_nonempty [simp]: "Split1 sep s \<noteq> []"
  by (cases s) (auto split: list.splits)

lemma Split1_no_sep: "e \<in> set (Split1 sep s) \<Longrightarrow> sep \<notin> set e"
  by (induction s arbitrary: e) (auto split: if_splits list.splits)

lemma Split1_append: "Split1 sep (a @ sep # b) = Split1 sep a @ Split1 sep b"
proof (induction a)
  case (Cons c a)
  then show ?case by (cases "Split1 sep a") auto
qed simp

lemma Split1_single: "sep \<notin> set w \<Longrightarrow> Split1 sep w = [w]"
  by (induction w) auto

lemma Split1_Join: "ws \<noteq> [] \<Longrightarrow> \<forall>w \<in> set ws. sep \<notin> set w \<Longrightarrow> Split1 sep (Join [sep] ws) = ws"
proof (induction ws)
  case (Cons w ws)
  then show ?case by (cases ws) (simp_all add: Split1_single Split1_append)
qed simp

lemma clean_elems_plain: "\<forall>e \<in> set es. plain e \<Longrightarrow> clean_elems rooted st es = rev st @ es"
  by (induction es arbitrary: st) (auto simp: plain_def)

lemma clean_elems_append:
  "\<forall>e \<in> set fs. plain e \<Longrightarrow> clean_elems rooted st (es @ fs) = clean_elems rooted st es @ fs"
  by (induction rooted st es rule: clean_elems.induct)
     (auto simp: clean_elems_plain split: list.splits)

text \<open>What is left of a path: climbing elements first, then plain ones; none climbs from the root.\<close>

definition clean_stack :: "bool \<Rightarrow> string list \<Rightarrow> bool" where
  "clean_stack rooted es \<longleftrightarrow>
     (\<exists>n ps. es = replicate n ''..'' @ ps \<and> (\<forall>p \<in> set ps. plain p) \<and> (rooted \<longrightarrow> n = 0))"

lemma plain_elem: "plain e \<Longrightarrow> e \<noteq> '''' \<and> e \<noteq> ''.'' \<and> slash \<notin> set e"
  by (simp add: plain_def)

lemma climb_elem: "slash \<notin> set ''..''"
  by (simp add: slash_def)

lemma clean_stack_elem:
  assumes "clean_stack rooted es" "e \<in> set es"
  shows "e \<noteq> '''' \<and> e \<noteq> ''.'' \<and> slash \<notin> set e"
proof -
  from assms have "e = ''..'' \<or> plain e" unfolding clean_stack_def by auto
  then show ?thesis using plain_elem climb_elem by blast
qed

lemma clean_stack_slash_free: "clean_stack rooted es \<Longrightarrow> \<forall>e \<in> set es. slash \<notin> set e"
  using clean_stack_elem by blast

lemma clean_elems_stack:
  assumes "\<forall>e \<in> set es. slash \<notin> set e" "clean_stack rooted (rev st)"
  shows "clean_stack rooted (clean_elems rooted st es)"
  using assms
proof (induction rooted st es rule: clean_elems.induct)
  case (2 rooted st e es)
  have push: "clean_stack rooted (rev (e # st))" if "e \<noteq> ''''" "e \<noteq> ''.''" "e \<noteq> ''..''"
  proof -
    obtain n ps where "rev st = replicate n ''..'' @ ps" "\<forall>p \<in> set ps. plain p" "rooted \<longrightarrow> n = 0"
      using "2.prems"(2) by (auto simp: clean_stack_def)
    with that "2.prems"(1) show ?thesis unfolding clean_stack_def
      by (intro exI [of _ n] exI [of _ "ps @ [e]"]) (auto simp: plain_def)
  qed
  have climb: "clean_stack rooted (rev (if rooted then [] else [''..'']))"
    unfolding clean_stack_def by (intro exI [of _ "if rooted then 0 else 1"] exI [of _ "[]"]) auto
  have pop: "clean_stack rooted (rev (if t = ''..'' then ''..'' # st else ts))" if "st = t # ts" for t ts
  proof -
    have "clean_stack rooted (rev ts @ [t])" using "2.prems"(2) unfolding that by simp
    then obtain n ps where s: "rev ts @ [t] = replicate n ''..'' @ ps" "\<forall>p \<in> set ps. plain p" "rooted \<longrightarrow> n = 0"
      unfolding clean_stack_def by blast
    show ?thesis
    proof (cases ps rule: rev_cases)
      case Nil
      with s obtain m where n: "n = Suc m" by (cases n) auto
      with s(1) Nil have "rev ts @ [t] = replicate m ''..'' @ [''..'']"
        by (simp add: replicate_append_same)
      then have "rev ts = replicate m ''..''" "t = ''..''" by auto
      with n s(3) that show ?thesis unfolding clean_stack_def
        by (intro exI [of _ "Suc n"] exI [of _ "[]"]) (simp add: replicate_append_same)
    next
      case (snoc qs q)
      with s that show ?thesis unfolding clean_stack_def
        by (intro exI [of _ n] exI [of _ qs]) (auto simp: plain_def)
    qed
  qed
  show ?case using 2 push climb pop by (auto split: list.splits)
qed simp

lemma elems_clean: "clean_stack (IsAbs p) (elems p)"
  unfolding elems_def
  by (rule clean_elems_stack) (auto dest: Split1_no_sep simp: clean_stack_def intro: exI [of _ "0 :: nat"])

lemma clean_elems_clean: "clean_stack rooted es \<Longrightarrow> clean_elems rooted [] es = es"
proof -
  assume "clean_stack rooted es"
  then obtain n ps where es: "es = replicate n ''..'' @ ps" "\<forall>p \<in> set ps. plain p" "rooted \<longrightarrow> n = 0"
    by (auto simp: clean_stack_def)
  have climbs: "clean_elems False (replicate m ''..'') (replicate n ''..'') = replicate (m + n) ''..''" for m n
  proof (induction n arbitrary: m)
    case (Suc n)
    have "clean_elems False (replicate m ''..'') (replicate (Suc n) ''..'') =
        clean_elems False (replicate (Suc m) ''..'') (replicate n ''..'')"
      by (cases m) simp_all
    then show ?case unfolding Suc by simp
  qed simp
  show ?thesis
  proof (cases rooted)
    case True
    with es show ?thesis by (simp add: clean_elems_plain)
  next
    case False
    with es climbs [of 0 n] show ?thesis by (simp add: clean_elems_append)
  qed
qed

lemma IsAbs_Cons [simp]: "IsAbs (c # p) \<longleftrightarrow> c = slash"
  by (auto simp: IsAbs_def HasPrefix_def)

lemma IsAbs_Nil [simp]: "\<not> IsAbs ''''"
  by (simp add: IsAbs_def HasPrefix_def)

lemma Join_Cons: "es \<noteq> [] \<Longrightarrow> Join sep (e # es) = e @ sep @ Join sep es"
  by (cases es) simp_all

lemma Join_append: "es \<noteq> [] \<Longrightarrow> fs \<noteq> [] \<Longrightarrow> Join sep (es @ fs) = Join sep es @ sep @ Join sep fs"
proof (induction es)
  case (Cons e es)
  then show ?case by (cases "es = []") (simp_all add: Join_Cons)
qed simp

lemma IsAbs_Join:
  assumes "clean_stack rooted es" "es \<noteq> []"
  shows "\<not> IsAbs (Join [slash] es)" "Join [slash] es \<noteq> ''''"
proof -
  from assms(2) obtain e fs where es: "es = e # fs" by (cases es) auto
  with clean_stack_elem [OF assms(1), of e] obtain c w where "e = c # w" "c \<noteq> slash" by (cases e) auto
  then show "\<not> IsAbs (Join [slash] es)" "Join [slash] es \<noteq> ''''" by (cases fs; simp add: es)+
qed

text \<open>A clean path has the elements it was put together from.\<close>

lemma render_abs: "clean_stack rooted es \<Longrightarrow> IsAbs (render rooted es) = rooted"
  using IsAbs_Join [of rooted es] by (auto simp: render_def slash_def)

lemma elems_render:
  assumes "clean_stack rooted es"
  shows "elems (render rooted es) = es"
proof (cases "es = []")
  case True
  then show ?thesis by (cases rooted) (simp_all add: elems_def render_def slash_def)
next
  case False
  from Split1_Join [OF False clean_stack_slash_free [OF assms]] clean_elems_clean [OF assms]
  show ?thesis using IsAbs_Join [OF assms False] False
    by (cases rooted) (simp_all add: elems_def render_def)
qed

lemma Clean_render: "clean_stack rooted es \<Longrightarrow> Clean (render rooted es) = render rooted es"
  by (simp add: Clean_def elems_render render_abs)

lemma Clean_idem: "Clean (Clean p) = Clean p"
  using Clean_render [OF elems_clean] by (simp add: Clean_def)

end
