(* ===== verification/Memory.thy ===== *)
theory Memory
  imports Paths
begin

text \<open>
  The memory reader (\<open>internal/memory/reader.go\<close>): the user's markdown, YAML and text files
  under one root. The file system is the record \<open>files\<close>: what \<open>os.Stat\<close> and \<open>os.ReadFile\<close>
  answer for a path, and the calls \<open>filepath.WalkDir\<close> makes of its callback below a
  directory, in order, each with the path.
\<close>

section \<open>Files\<close>

datatype file_node = DirNode | FileNode int time

datatype read_result = ReadOk string | ReadMissing | ReadFails

datatype walk_call =
    WalkMissing
  | WalkFails
  | WalkDirectory string
  | WalkFile string "(int \<times> time) option"

record files =
  FS_stat :: "string \<Rightarrow> file_node option"
  FS_read :: "string \<Rightarrow> read_result"
  FS_walk :: "string \<Rightarrow> walk_call list"

record mem_entry =
  ME_Namespace :: string
  ME_Name :: string
  ME_Title :: string
  ME_Description :: string
  ME_Format :: string
  ME_Size :: int
  ME_ModTime :: "time option"

datatype memory_error = ErrNoEntry | ErrUnsafePath | ErrList string | ErrRead

definition memoryExts :: "(string \<times> string) list" where
  "memoryExts = [(''.md'', ''markdown''), (''.markdown'', ''markdown''), (''.yaml'', ''yaml''),
     (''.yml'', ''yaml''), (''.txt'', ''text'')]"

definition extOrder :: "string list" where
  "extOrder = [''.md'', ''.markdown'', ''.yaml'', ''.yml'', ''.txt'']"

text \<open>\<open>memoryExts[strings.ToLower(filepath.Ext(name))]\<close>.\<close>

definition mem_format :: "string \<Rightarrow> string option" where
  "mem_format name = map_of memoryExts (ToLower (Ext name))"

section \<open>Titles\<close>

definition trim_quotes :: "string \<Rightarrow> string" where
  "trim_quotes s =
     (let q = (\<lambda>c. c = CHR 0x22 \<or> c = CHR 0x27)
      in rev (dropWhile q (rev (dropWhile q s))))"

text \<open>The map of the front matter, the latest assignment first.\<close>

fun frontmatter_lines :: "(string \<times> string) list \<Rightarrow> string list \<Rightarrow> (string \<times> string) list" where
  "frontmatter_lines m [] = m"
| "frontmatter_lines m (line # ls) =
     (if TrimSpace line = ''---'' then m
      else (case Cut line '':'' of
          None \<Rightarrow> frontmatter_lines m ls
        | Some (key, val) \<Rightarrow> frontmatter_lines ((TrimSpace key, trim_quotes (TrimSpace val)) # m) ls))"

definition frontmatter :: "string \<Rightarrow> (string \<times> string) list" where
  "frontmatter content =
     (if \<not> HasPrefix content ''---'' then []
      else (case Split1 (CHR 0x0A) content of
          [] \<Rightarrow> []
        | l # ls \<Rightarrow> if TrimSpace l \<noteq> ''---'' then [] else frontmatter_lines [] ls))"

definition fm_get :: "(string \<times> string) list \<Rightarrow> string \<Rightarrow> string" where
  "fm_get m k = (case map_of m k of None \<Rightarrow> '''' | Some v \<Rightarrow> v)"

definition firstHeading :: "string \<Rightarrow> string" where
  "firstHeading content =
     (case List.find (\<lambda>l. HasPrefix l ''# '') (Split1 (CHR 0x0A) content) of
        None \<Rightarrow> '''' | Some l \<Rightarrow> TrimSpace (drop 2 l))"

definition defaultTitle :: "string \<Rightarrow> string" where
  "defaultTitle name = (let b = Base name in TrimSuffix b (Ext b))"

definition titleFrom :: "string \<Rightarrow> string \<Rightarrow> string \<Rightarrow> string \<times> string" where
  "titleFrom content name format =
     (if format = ''markdown'' then
        (let fm = frontmatter content in
         (if fm_get fm ''title'' \<noteq> '''' then fm_get fm ''title''
          else if fm_get fm ''name'' \<noteq> '''' then fm_get fm ''name''
          else if firstHeading content \<noteq> '''' then firstHeading content
          else defaultTitle name,
          fm_get fm ''description''))
      else (defaultTitle name, ''''))"

definition metadata :: "files \<Rightarrow> string \<Rightarrow> string \<Rightarrow> string \<Rightarrow> string \<times> string" where
  "metadata fs path name format =
     (case FS_read fs path of
        ReadOk data \<Rightarrow> titleFrom data name format
      | _ \<Rightarrow> (defaultTitle name, ''''))"

section \<open>Safe paths\<close>

definition NewReader :: "string option \<Rightarrow> string \<Rightarrow> string" where
  "NewReader cwd dir = Clean (case Abs_path cwd dir of Some p \<Rightarrow> p | None \<Rightarrow> dir)"

definition safeJoin :: "string \<Rightarrow> string \<Rightarrow> memory_error + string" where
  "safeJoin root rel =
     (let clean = Clean rel in
      if clean = ''.'' then Inr root
      else if \<not> IsLocal clean then Inl ErrUnsafePath
      else (let joined = Join2 root clean in
            if joined \<noteq> root \<and> \<not> HasPrefix joined (root @ [slash]) then Inl ErrUnsafePath
            else Inr joined))"

definition resolveDir :: "string \<Rightarrow> string \<Rightarrow> memory_error + string" where
  "resolveDir root namespace = safeJoin root namespace"

definition resolveFile :: "string \<Rightarrow> string \<Rightarrow> string \<Rightarrow> memory_error + string" where
  "resolveFile root namespace name = safeJoin root (Join2 namespace name)"

definition is_file :: "files \<Rightarrow> string \<Rightarrow> bool" where
  "is_file fs p = (case FS_stat fs p of Some (FileNode _ _) \<Rightarrow> True | _ \<Rightarrow> False)"

text \<open>The first extension under which the file exists.\<close>

fun try_exts :: "files \<Rightarrow> string \<Rightarrow> string \<Rightarrow> string \<Rightarrow> string list \<Rightarrow> memory_error + string \<times> string" where
  "try_exts fs root namespace name [] = Inl ErrNoEntry"
| "try_exts fs root namespace name (ext # exts) =
     (case resolveFile root namespace (name @ ext) of
        Inl _ \<Rightarrow> try_exts fs root namespace name exts
      | Inr cp \<Rightarrow> if is_file fs cp then Inr (cp, name @ ext)
                 else try_exts fs root namespace name exts)"

definition resolveReadable :: "files \<Rightarrow> string \<Rightarrow> string \<Rightarrow> string \<Rightarrow> memory_error + string \<times> string" where
  "resolveReadable fs root namespace name =
     (case resolveFile root namespace name of
        Inl err \<Rightarrow> Inl err
      | Inr p \<Rightarrow>
          if is_file fs p then Inr (p, name)
          else if mem_format name \<noteq> None then Inl ErrNoEntry
          else try_exts fs root namespace name extOrder)"

section \<open>List, Read, Search\<close>

definition node_size :: "file_node option \<Rightarrow> int" where
  "node_size n = (case n of Some (FileNode s _) \<Rightarrow> s | _ \<Rightarrow> 0)"

definition node_time :: "file_node option \<Rightarrow> time option" where
  "node_time n = (case n of Some (FileNode _ t) \<Rightarrow> Some t | _ \<Rightarrow> None)"

definition list_entry ::
    "files \<Rightarrow> string \<Rightarrow> string \<Rightarrow> string \<Rightarrow> (int \<times> time) option \<Rightarrow> mem_entry option" where
  "list_entry fs namespace base path info =
     (case mem_format (Base path) of
        None \<Rightarrow> None
      | Some format \<Rightarrow>
          (let name = Rel base path; (title, desc) = metadata fs path name format
           in Some \<lparr>ME_Namespace = namespace, ME_Name = name, ME_Title = title, ME_Description = desc,
                    ME_Format = format, ME_Size = (case info of None \<Rightarrow> 0 | Some (s, _) \<Rightarrow> s),
                    ME_ModTime = map_option snd info\<rparr>))"

text \<open>The callback: a path that is gone ends the walk quietly, another error ends it as an error.\<close>

fun list_walk ::
    "files \<Rightarrow> string \<Rightarrow> string \<Rightarrow> mem_entry list \<Rightarrow> walk_call list \<Rightarrow> memory_error + mem_entry list" where
  "list_walk fs namespace base out [] = Inr out"
| "list_walk fs namespace base out (c # cs) =
     (case c of
        WalkMissing \<Rightarrow> Inr out
      | WalkFails \<Rightarrow> Inl (ErrList namespace)
      | WalkDirectory _ \<Rightarrow> list_walk fs namespace base out cs
      | WalkFile path info \<Rightarrow>
          list_walk fs namespace base
            (case list_entry fs namespace base path info of None \<Rightarrow> out | Some e \<Rightarrow> out @ [e]) cs)"

definition memory_List :: "files \<Rightarrow> string \<Rightarrow> string \<Rightarrow> memory_error + mem_entry list" where
  "memory_List fs root namespace =
     (case resolveDir root namespace of
        Inl err \<Rightarrow> Inl err
      | Inr base \<Rightarrow> list_walk fs namespace base [] (FS_walk fs base))"

definition memory_Read :: "files \<Rightarrow> string \<Rightarrow> string \<Rightarrow> string \<Rightarrow> memory_error + string \<times> mem_entry" where
  "memory_Read fs root namespace name =
     (case resolveReadable fs root namespace name of
        Inl err \<Rightarrow> Inl err
      | Inr (p, resolved) \<Rightarrow>
          (case FS_read fs p of
             ReadMissing \<Rightarrow> Inl ErrNoEntry
           | ReadFails \<Rightarrow> Inl ErrRead
           | ReadOk data \<Rightarrow>
               (let format = (case mem_format p of None \<Rightarrow> ''text'' | Some f \<Rightarrow> f);
                    (title, desc) = titleFrom data resolved format
                in Inr (data, \<lparr>ME_Namespace = namespace, ME_Name = resolved, ME_Title = title,
                     ME_Description = desc, ME_Format = format, ME_Size = node_size (FS_stat fs p),
                     ME_ModTime = node_time (FS_stat fs p)\<rparr>))))"

definition entry_matches :: "files \<Rightarrow> string \<Rightarrow> string \<Rightarrow> string \<Rightarrow> mem_entry \<Rightarrow> bool" where
  "entry_matches fs root namespace q e \<longleftrightarrow>
     Contains (ToLower (ME_Name e)) q \<or> Contains (ToLower (ME_Title e)) q \<or>
     Contains (ToLower (ME_Description e)) q \<or>
     (case memory_Read fs root namespace (ME_Name e) of
        Inl _ \<Rightarrow> False | Inr (content, _) \<Rightarrow> Contains (ToLower content) q)"

definition memory_Search :: "files \<Rightarrow> string \<Rightarrow> string \<Rightarrow> string \<Rightarrow> memory_error + mem_entry list" where
  "memory_Search fs root namespace query =
     (case memory_List fs root namespace of
        Inl err \<Rightarrow> Inl err
      | Inr entries \<Rightarrow>
          if query = '''' then Inr entries
          else Inr (filter (entry_matches fs root namespace (ToLower query)) entries))"

end
