(* ===== verification/MemoryLaws.thy ===== *)
theory MemoryLaws
  imports Memory
begin

text \<open>
  What the memory reader guarantees: a request is turned down exactly when its path is
  absolute or climbs out, what is accepted lies below the root, so list, read and search
  depend on nothing outside it; and what search returns. The argument is about paths: a
  symbolic link inside the root is followed by the file system, not by these functions.
\<close>

section \<open>Containment\<close>

definition below :: "string \<Rightarrow> string \<Rightarrow> bool" where
  "below root p \<longleftrightarrow> p = root \<or>
     (\<exists>es. es \<noteq> [] \<and> (\<forall>e \<in> set es. plain e) \<and> p = root @ [slash] @ Join [slash] es)"

definition climbs :: "string \<Rightarrow> bool" where
  "climbs rel \<longleftrightarrow> IsAbs rel \<or> (elems rel \<noteq> [] \<and> hd (elems rel) = ''..'')"

definition extend_root :: "string \<Rightarrow> string list \<Rightarrow> string" where
  "extend_root root es = (if es = [] then root else root @ [slash] @ Join [slash] es)"

lemma plain_stack: "\<forall>e \<in> set es. plain e \<Longrightarrow> clean_stack rooted es"
  unfolding clean_stack_def by (intro exI [of _ 0] exI [of _ es]) simp

lemma stays_plain: "\<not> climbs rel \<Longrightarrow> \<forall>e \<in> set (elems rel). plain e"
proof -
  assume c: "\<not> climbs rel"
  obtain n ps where es: "elems rel = replicate n ''..'' @ ps" "\<forall>p \<in> set ps. plain p"
    using elems_clean [of rel] by (auto simp: clean_stack_def)
  with c have "n = 0" by (cases n) (auto simp: climbs_def)
  with es show ?thesis by simp
qed

lemma local_iff:
  assumes "Clean rel \<noteq> ''.''"
  shows "IsLocal (Clean rel) \<longleftrightarrow> \<not> climbs rel"
proof (cases "IsAbs rel")
  case True
  then have "IsAbs (Clean rel)" using render_abs [OF elems_clean [of rel]] by (simp add: Clean_def)
  with True show ?thesis by (simp add: IsLocal_def climbs_def)
next
  case False
  with assms have ne: "elems rel \<noteq> []" by (auto simp: Clean_def render_def)
  have st: "clean_stack False (elems rel)" using elems_clean [of rel] False by simp
  have cl: "Clean rel = Join [slash] (elems rel)" using False ne by (simp add: Clean_def render_def)
  have sp: "Split1 slash (Clean rel) = elems rel"
    unfolding cl by (rule Split1_Join [OF ne clean_stack_slash_free [OF st]])
  have dd: "Split1 slash ''..'' = [''..'']" by (simp add: slash_def)
  have "Clean rel = ''..'' \<or> HasPrefix (Clean rel) ''../'' \<longleftrightarrow> hd (elems rel) = ''..''"
  proof
    assume "Clean rel = ''..'' \<or> HasPrefix (Clean rel) ''../''"
    then consider "Clean rel = ''..''" | t where "Clean rel = ''..'' @ slash # t"
      by (auto simp: HasPrefix_iff slash_def)
    then show "hd (elems rel) = ''..''"
    proof cases
      case 1
      with sp dd show ?thesis by simp
    next
      case 2
      with sp dd show ?thesis by (metis Split1_append append_Cons append_Nil list.sel(1))
    qed
  next
    assume h: "hd (elems rel) = ''..''"
    with ne obtain fs where "elems rel = ''..'' # fs" by (cases "elems rel") auto
    then show "Clean rel = ''..'' \<or> HasPrefix (Clean rel) ''../''"
      by (cases "fs = []") (simp_all add: cl Join_Cons HasPrefix_def slash_def)
  qed
  moreover have "\<not> IsAbs (Clean rel)" "Clean rel \<noteq> ''''" using IsAbs_Join [OF st ne] by (simp_all add: cl)
  ultimately show ?thesis using False ne by (auto simp: IsLocal_def climbs_def Clean_idem)
qed

lemma join_plain:
  assumes "clean_stack rooted rs" "ps \<noteq> []" "\<forall>e \<in> set ps. plain e"
  shows "Join2 (render rooted rs) (Join [slash] ps) = render rooted (rs @ ps)"
proof -
  let ?r = "render rooted rs"
  have ne: "?r \<noteq> ''''" using IsAbs_Join [OF assms(1)] by (auto simp: render_def)
  then have abs: "IsAbs (?r @ t) = rooted" for t
    using render_abs [OF assms(1)] by (cases ?r) simp_all
  have "elems (?r @ slash # Join [slash] ps) = clean_elems rooted [] (Split1 slash ?r @ ps)"
    using assms(2,3) plain_elem by (simp add: elems_def abs Split1_append Split1_Join)
  also have "\<dots> = elems ?r @ ps"
    using assms(3) render_abs [OF assms(1)] by (simp add: clean_elems_append elems_def)
  finally show ?thesis using ne by (simp add: Join2_def Clean_def abs elems_render [OF assms(1)])
qed

lemma render_extend:
  assumes "clean_stack rooted rs" "rs \<noteq> []"
  shows "render rooted (rs @ ps) = extend_root (render rooted rs) ps"
  using assms by (cases "ps = []") (simp_all add: render_def extend_root_def Join_append)

text \<open>What \<open>safeJoin\<close> answers, in terms of the elements of the two paths.\<close>

lemma safeJoin_elems:
  assumes "clean_stack rooted rs" "root = render rooted rs"
  shows "safeJoin root rel =
    (if climbs rel then Inl ErrUnsafePath
     else if elems rel = [] then Inr root
     else let joined = render rooted (rs @ elems rel) in
       if joined \<noteq> root \<and> \<not> HasPrefix joined (root @ [slash]) then Inl ErrUnsafePath else Inr joined)"
proof (cases "Clean rel = ''.''")
  case True
  have "\<not> IsAbs rel"
  proof
    assume "IsAbs rel"
    with True have "IsAbs ''.''" using render_abs [OF elems_clean [of rel]] by (simp add: Clean_def)
    then show False by (simp add: slash_def)
  qed
  moreover have "elems rel = []"
  proof (rule ccontr)
    assume ne: "elems rel \<noteq> []"
    with True \<open>\<not> IsAbs rel\<close> have "Join [slash] (elems rel) = ''.''" by (simp add: Clean_def render_def)
    moreover have "Split1 slash (Join [slash] (elems rel)) = elems rel"
      by (rule Split1_Join [OF ne clean_stack_slash_free [OF elems_clean]])
    ultimately have "elems rel = [''.'']" by (simp add: slash_def)
    with clean_stack_elem [OF elems_clean, of "''.''" rel] show False by simp
  qed
  ultimately show ?thesis using True by (simp add: safeJoin_def climbs_def)
next
  case False
  note l = local_iff [OF False]
  show ?thesis
  proof (cases "climbs rel")
    case True
    with False l show ?thesis by (simp add: safeJoin_def)
  next
    case c: False
    then have "\<not> IsAbs rel" by (simp add: climbs_def)
    with False have ne: "elems rel \<noteq> []" by (auto simp: Clean_def render_def)
    then have "Clean rel = Join [slash] (elems rel)" using \<open>\<not> IsAbs rel\<close> by (simp add: Clean_def render_def)
    with False l c ne join_plain [OF assms(1) ne stays_plain [OF c]] show ?thesis
      by (simp add: safeJoin_def assms(2) Let_def)
  qed
qed

lemma extend_below: "\<forall>e \<in> set es. plain e \<Longrightarrow> below root (extend_root root es)"
  by (auto simp: below_def extend_root_def)

lemma safeJoin_below:
  assumes "safeJoin (NewReader cwd dir) rel = Inr p"
  shows "below (NewReader cwd dir) p"
proof -
  define d where "d = (case Abs_path cwd dir of Some p \<Rightarrow> p | None \<Rightarrow> dir)"
  define root where "root = NewReader cwd dir"
  have r: "root = render (IsAbs d) (elems d)" by (simp add: root_def NewReader_def d_def Clean_def)
  note st = elems_clean [of d]
  show ?thesis
  proof (cases "elems rel = []")
    case True
    with assms safeJoin_elems [OF st r, of rel] show ?thesis
      by (auto simp: below_def simp flip: root_def split: if_splits)
  next
    case False
    with assms safeJoin_elems [OF st r, of rel]
    have p: "p = render (IsAbs d) (elems d @ elems rel)" "\<not> climbs rel"
      "p = root \<or> HasPrefix p (root @ [slash])"
      by (auto simp: Let_def simp flip: root_def split: if_splits)
    note pl = stays_plain [OF p(2)]
    show ?thesis
    proof (cases "elems d = []")
      case False
      with p(1) r pl extend_below show ?thesis by (simp add: render_extend [OF st] flip: root_def)
    next
      case True
      from \<open>elems rel \<noteq> []\<close> obtain e fs where e: "elems rel = e # fs" by (cases "elems rel") auto
      with pl obtain c w where w: "e = c # w" "c \<noteq> slash" "e \<noteq> ''.''"
        by (cases e) (auto simp: plain_def)
      have "p = root"
      proof (rule ccontr)
        assume "p \<noteq> root"
        then have h: "HasPrefix p (root @ [slash])" using p(3) by simp
        have st': "clean_stack False (e # fs)" using plain_stack [OF pl] e by simp
        show False
        proof (cases "IsAbs d")
          case True
          with h p(1) r e w \<open>elems d = []\<close> show False
            by (cases fs) (auto simp: render_def HasPrefix_def)
        next
          case False
          with p(1) r e \<open>elems d = []\<close> have j: "p = Join [slash] (e # fs)" "root = ''.''"
            by (simp_all add: render_def)
          with h obtain t where "p = ''.'' @ slash # t" by (auto simp: HasPrefix_iff)
          then have "Split1 slash p = [''.''] @ Split1 slash t"
            by (simp only: Split1_append) (simp add: slash_def)
          moreover have "Split1 slash p = e # fs"
            unfolding j(1) by (rule Split1_Join [OF _ clean_stack_slash_free [OF st']]) simp
          ultimately have "e # fs = [''.''] @ Split1 slash t" by simp
          with w(3) show False by simp
        qed
      qed
      then show ?thesis by (simp add: below_def root_def)
    qed
  qed
qed

section \<open>What a request reads\<close>

text \<open>Two file systems with the same files below the root.\<close>

definition same_below :: "string \<Rightarrow> files \<Rightarrow> files \<Rightarrow> bool" where
  "same_below root fs fs' \<longleftrightarrow> (\<forall>p. below root p \<longrightarrow>
     FS_stat fs p = FS_stat fs' p \<and> FS_read fs p = FS_read fs' p \<and> FS_walk fs p = FS_walk fs' p)"

text \<open>A walk reports paths below the directory it starts from.\<close>

definition walks_below :: "string \<Rightarrow> files \<Rightarrow> bool" where
  "walks_below root fs \<longleftrightarrow> (\<forall>p. below root p \<longrightarrow>
     (\<forall>path info. WalkFile path info \<in> set (FS_walk fs p) \<longrightarrow> below root path))"

lemma resolveFile_below:
  "resolveFile (NewReader cwd dir) namespace name = Inr p \<Longrightarrow> below (NewReader cwd dir) p"
  unfolding resolveFile_def by (rule safeJoin_below)

lemma is_file_same: "same_below root fs fs' \<Longrightarrow> below root p \<Longrightarrow> is_file fs p = is_file fs' p"
  by (simp add: same_below_def is_file_def)

lemma try_exts_same:
  assumes "same_below (NewReader cwd dir) fs fs'"
  shows "try_exts fs (NewReader cwd dir) ns name exts = try_exts fs' (NewReader cwd dir) ns name exts \<and>
    (\<forall>p n. try_exts fs (NewReader cwd dir) ns name exts = Inr (p, n) \<longrightarrow> below (NewReader cwd dir) p)"
  by (induction exts)
     (auto split: sum.splits dest: resolveFile_below simp: is_file_same [OF assms resolveFile_below])

lemma resolveReadable_same:
  assumes "same_below (NewReader cwd dir) fs fs'"
  shows "resolveReadable fs (NewReader cwd dir) ns name = resolveReadable fs' (NewReader cwd dir) ns name \<and>
    (\<forall>p n. resolveReadable fs (NewReader cwd dir) ns name = Inr (p, n) \<longrightarrow> below (NewReader cwd dir) p)"
proof (cases "resolveFile (NewReader cwd dir) ns name")
  case (Inr p)
  note b = resolveFile_below [OF this]
  show ?thesis using try_exts_same [OF assms] is_file_same [OF assms b] b
    by (simp add: resolveReadable_def Inr)
qed (simp add: resolveReadable_def)

lemma memory_Read_same:
  assumes "same_below (NewReader cwd dir) fs fs'"
  shows "memory_Read fs (NewReader cwd dir) ns name = memory_Read fs' (NewReader cwd dir) ns name"
proof (cases "resolveReadable fs (NewReader cwd dir) ns name")
  case (Inl e)
  moreover from this have "resolveReadable fs' (NewReader cwd dir) ns name = Inl e"
    using resolveReadable_same [OF assms, of ns name] by metis
  ultimately show ?thesis by (simp add: memory_Read_def)
next
  case (Inr x)
  then obtain p n where x: "resolveReadable fs (NewReader cwd dir) ns name = Inr (p, n)" by (cases x) auto
  with resolveReadable_same [OF assms, of ns name] have "below (NewReader cwd dir) p"
    "resolveReadable fs' (NewReader cwd dir) ns name = Inr (p, n)" by auto
  with assms x show ?thesis by (simp add: memory_Read_def same_below_def split: read_result.split)
qed

lemma list_walk_same:
  assumes "same_below root fs fs'" "\<forall>path info. WalkFile path info \<in> set cs \<longrightarrow> below root path"
  shows "list_walk fs ns base out cs = list_walk fs' ns base out cs"
  using assms(2)
proof (induction cs arbitrary: out)
  case (Cons c cs)
  have "list_entry fs ns base path info = list_entry fs' ns base path info" if "c = WalkFile path info" for path info
  proof -
    have "FS_read fs path = FS_read fs' path" using Cons.prems assms(1) that by (simp add: same_below_def)
    then have "metadata fs path n f = metadata fs' path n f" for n f by (simp add: metadata_def)
    then show ?thesis by (simp add: list_entry_def split: option.split)
  qed
  moreover have "list_walk fs ns base o' cs = list_walk fs' ns base o' cs" for o'
    by (rule Cons.IH) (use Cons.prems in auto)
  ultimately show ?case by (cases c) simp_all
qed simp

lemma memory_List_same:
  assumes "same_below (NewReader cwd dir) fs fs'" "walks_below (NewReader cwd dir) fs"
  shows "memory_List fs (NewReader cwd dir) ns = memory_List fs' (NewReader cwd dir) ns"
proof (cases "resolveDir (NewReader cwd dir) ns")
  case (Inr base)
  then have b: "below (NewReader cwd dir) base" unfolding resolveDir_def by (rule safeJoin_below)
  with assms list_walk_same [OF assms(1), of "FS_walk fs base"] Inr show ?thesis
    by (simp add: memory_List_def walks_below_def same_below_def)
qed (simp add: memory_List_def)

section \<open>Properties\<close>

text \<open>
  Requests are confined, exactly. With an absolute memory directory other than the file
  system's root, a relative path is accepted exactly when it is not absolute and does not
  climb above the root after its dots are resolved, and then it names the file below the root
  that its elements spell out.
\<close>

theorem safeJoin_exact:
  assumes "IsAbs dir" "elems dir \<noteq> []"
  shows "safeJoin (NewReader cwd dir) rel =
    (if climbs rel then Inl ErrUnsafePath else Inr (extend_root (NewReader cwd dir) (elems rel)))"
proof -
  have r: "NewReader cwd dir = render True (elems dir)"
    using assms(1) by (simp add: NewReader_def Abs_path_def Clean_idem) (simp add: Clean_def)
  have st: "clean_stack True (elems dir)" using elems_clean [of dir] assms(1) by simp
  show ?thesis
    using safeJoin_elems [OF st r, of rel] render_extend [OF st assms(2), of "elems rel"]
    by (auto simp: Let_def r extend_root_def HasPrefix_iff)
qed

text \<open>
  C33. Nothing outside the root is read. Whatever the memory directory, the namespace, the
  name and the query, two file systems that agree on every path below the root give the same
  answers to list, read and search: no request reaches a path outside it.
\<close>

theorem requests_stay_below_root:
  fixes cwd dir
  defines "root \<equiv> NewReader cwd dir"
  assumes "same_below root fs fs'" "walks_below root fs"
  shows "memory_Read fs root ns name = memory_Read fs' root ns name \<and>
    memory_List fs root ns = memory_List fs' root ns \<and>
    memory_Search fs root ns query = memory_Search fs' root ns query"
proof -
  note same = assms(2) [unfolded root_def] and walks = assms(3) [unfolded root_def]
  have "entry_matches fs root ns q = entry_matches fs' root ns q" for q
    unfolding root_def by (intro ext) (simp add: entry_matches_def memory_Read_same [OF same])
  then show ?thesis
    using memory_Read_same [OF same] memory_List_same [OF same walks]
    by (simp add: memory_Search_def root_def split: sum.split)
qed

definition sample_files :: "string \<Rightarrow> files" where
  "sample_files secret = \<lparr>
     FS_stat = (\<lambda>p. if p = ''/m/a.md'' then Some (FileNode 5 0)
                    else if p = ''/etc'' then Some (FileNode 3 0) else None),
     FS_read = (\<lambda>p. if p = ''/m/a.md'' then ReadOk ''# Hi'' else if p = ''/etc'' then ReadOk secret else ReadMissing),
     FS_walk = (\<lambda>p. if p = ''/m'' then [WalkDirectory ''/m'', WalkFile ''/m/a.md'' None] else [WalkMissing])\<rparr>"

lemma sample_root: "NewReader None ''/m'' = ''/m''"
  by code_simp

lemma not_below_etc: "\<not> below ''/m'' ''/etc''"
  by (auto simp: below_def)

lemma requests_stay_below_root_witness:
  "memory_Search (sample_files ''key'') (NewReader None ''/m'') '''' ''e'' =
   memory_Search (sample_files ''word'') (NewReader None ''/m'') '''' ''e'' \<and>
   FS_read (sample_files ''key'') ''/etc'' \<noteq> FS_read (sample_files ''word'') ''/etc''"
proof -
  have "same_below (NewReader None ''/m'') (sample_files ''key'') (sample_files ''word'')"
    using not_below_etc by (auto simp: same_below_def sample_files_def sample_root)
  moreover have "below ''/m'' ''/m/a.md''" unfolding below_def
    by (intro disjI2 exI [of _ "[''a.md'']"]) (simp add: plain_def slash_def)
  then have "walks_below (NewReader None ''/m'') (sample_files ''key'')"
    by (auto simp: walks_below_def sample_files_def sample_root)
  ultimately have "memory_Search (sample_files ''key'') (NewReader None ''/m'') '''' ''e'' =
      memory_Search (sample_files ''word'') (NewReader None ''/m'') '''' ''e''"
    using requests_stay_below_root [of None "''/m''" "sample_files ''key''" "sample_files ''word''"] by blast
  then show ?thesis by (simp add: sample_files_def)
qed

lemma safeJoin_exact_witness:
  "safeJoin (NewReader None ''/m'') ''x/../../etc'' = Inl ErrUnsafePath \<and>
   safeJoin (NewReader None ''/m'') ''x/../a.md'' = Inr ''/m/a.md''"
proof -
  have d: "IsAbs ''/m''" "elems ''/m'' \<noteq> []" by code_simp+
  have e: "climbs ''x/../../etc''" "\<not> climbs ''x/../a.md''" "elems ''x/../a.md'' = [''a.md'']" by code_simp+
  show ?thesis
    using safeJoin_exact [OF d, of None "''x/../../etc''"] safeJoin_exact [OF d, of None "''x/../a.md''"] e
    by (simp add: extend_root_def sample_root slash_def)
qed

end
