(* ===== verification/Ingress.thy ===== *)
theory Ingress
  imports Telemetry Strconv Pricing Runs Http
begin

text \<open>
  The OTLP trace receiver (\<open>internal/otel/ingress.go\<close>): spans of calls the daemon did not
  proxy, metered against their runs. Decoding the protobuf or JSON body is the argument
  \<open>decode\<close>. A float64 outside the int64 range has no value the language fixes when it is
  converted; \<open>oor\<close> is what the machine answers.
\<close>

section \<open>Attributes\<close>

datatype any_value = AVString string | AVInt int64 | AVDouble float64 | AVOther

type_synonym otlp_attrs = "(string \<times> any_value option) list"

text \<open>The map of a list of key and value pairs, nil pairs dropped; the last value of a key counts.\<close>

definition otlpAttrMap :: "(string \<times> any_value option) option list \<Rightarrow> otlp_attrs" where
  "otlpAttrMap kvs = rev (List.map_filter id kvs)"

definition attr_value :: "otlp_attrs \<Rightarrow> string \<Rightarrow> any_value option" where
  "attr_value m key = (case map_of m key of Some (Some v) \<Rightarrow> Some v | _ \<Rightarrow> None)"

definition has_attr :: "otlp_attrs \<Rightarrow> string \<Rightarrow> bool" where
  "has_attr m key \<longleftrightarrow> map_of m key \<noteq> None"

definition otlpStringAttr :: "otlp_attrs \<Rightarrow> string \<Rightarrow> string" where
  "otlpStringAttr m key = (case attr_value m key of Some (AVString s) \<Rightarrow> s | _ \<Rightarrow> '''')"

text \<open>\<open>int64(v)\<close> cuts the fraction off.\<close>

definition int64_of_float :: "(float64 \<Rightarrow> int64) \<Rightarrow> float64 \<Rightarrow> int64" where
  "int64_of_float oor x =
     (case x of
        Fin q \<Rightarrow> (let t = (if 0 \<le> q then \<lfloor>q\<rfloor> else \<lceil>q\<rceil>)
                  in if - (2 ^ 63) \<le> t \<and> t < 2 ^ 63 then word_of_int t else oor x)
      | _ \<Rightarrow> oor x)"

text \<open>
  \<open>n, _ := strconv.ParseInt(s, 10, 64)\<close>: the error is dropped, and the value beside it is 0
  for a malformed number and the nearest int64 for one out of range.
\<close>

definition ParseInt64_value :: "string \<Rightarrow> int64" where
  "ParseInt64_value s =
     (case ParseInt64 s of
        Some n \<Rightarrow> word_of_int n
      | None \<Rightarrow>
          (let (neg, ds) = split_sign s
           in if ds = '''' \<or> digits_value 0 ds = None then 0
              else if neg then word_of_int (- (2 ^ 63)) else word_of_int (2 ^ 63 - 1)))"

definition otlpIntAttr :: "(float64 \<Rightarrow> int64) \<Rightarrow> otlp_attrs \<Rightarrow> string \<Rightarrow> int64" where
  "otlpIntAttr oor m key =
     (case attr_value m key of
        Some (AVInt n) \<Rightarrow> n
      | Some (AVDouble x) \<Rightarrow> int64_of_float oor x
      | Some (AVString s) \<Rightarrow> ParseInt64_value (TrimSpace s)
      | _ \<Rightarrow> 0)"

section \<open>Metering\<close>

record ingest_result =
  IR_metered :: nat
  IR_unattributed :: nat

text \<open>What the receiver holds besides the run manager.\<close>

record ingress =
  IG_prices :: price_table
  IG_oor :: "float64 \<Rightarrow> int64"

definition span_call :: "ingress \<Rightarrow> otlp_attrs \<Rightarrow> call" where
  "span_call ig attrs =
     (let model = (let m = otlpStringAttr attrs attrGenAIResponseModel in
            if m = '''' then otlpStringAttr attrs attrGenAIRequestModel else m);
          inTok = otlpIntAttr (IG_oor ig) attrs attrGenAIInputTokens;
          outTok = otlpIntAttr (IG_oor ig) attrs attrGenAIOutputTokens;
          (cost, prc) = Cost (IG_prices ig) model inTok outTok
      in \<lparr>CL_StepIndex = 0, CL_Provider = otlpStringAttr attrs attrGenAISystem, CL_Model = model,
          CL_PromptTokens = inTok, CL_CompletionTokens = outTok, CL_Dollars = cost, CL_Priced = prc,
          CL_ResponseID = otlpStringAttr attrs attrGenAIResponseID\<rparr>)"

definition meter :: "ingress \<Rightarrow> string \<Rightarrow> otlp_attrs \<Rightarrow> time \<Rightarrow> manager \<Rightarrow> manager" where
  "meter ig runID attrs now m =
     (let (m, a) = GetOrCreate runID now m in fst (RecordCall a (span_call ig attrs) now m))"

definition model_call_span :: "otlp_attrs \<Rightarrow> bool" where
  "model_call_span attrs \<longleftrightarrow> has_attr attrs attrGenAIInputTokens \<or> has_attr attrs attrGenAIOutputTokens"

definition span_run :: "otlp_attrs \<Rightarrow> otlp_attrs \<Rightarrow> string" where
  "span_run res_attrs attrs =
     (let r = otlpStringAttr attrs attrRunID in
      if r = '''' then otlpStringAttr res_attrs attrRunID else r)"

definition ingest_span ::
    "ingress \<Rightarrow> time \<Rightarrow> otlp_attrs \<Rightarrow> otlp_attrs \<Rightarrow> manager \<times> ingest_result \<Rightarrow> manager \<times> ingest_result" where
  "ingest_span ig now res_attrs attrs s =
     (if \<not> model_call_span attrs then s
      else if span_run res_attrs attrs = ''''
        then (fst s, (snd s)\<lparr>IR_unattributed := IR_unattributed (snd s) + 1\<rparr>)
      else (meter ig (span_run res_attrs attrs) attrs now (fst s),
            (snd s)\<lparr>IR_metered := IR_metered (snd s) + 1\<rparr>))"

text \<open>A decoded export: per resource its attributes, and per scope the attributes of its spans.\<close>

type_synonym raw_attrs = "(string \<times> any_value option) option list"
type_synonym export_request = "(raw_attrs \<times> raw_attrs list list) list"

text \<open>The spans in the order of the three loops, each with its resource's attributes.\<close>

definition export_spans :: "export_request \<Rightarrow> (otlp_attrs \<times> otlp_attrs) list" where
  "export_spans req =
     concat (map (\<lambda>(res, scopes). map (\<lambda>span. (otlpAttrMap res, otlpAttrMap span)) (concat scopes)) req)"

definition ingest :: "ingress \<Rightarrow> time \<Rightarrow> export_request \<Rightarrow> manager \<Rightarrow> manager \<times> ingest_result" where
  "ingest ig now req m =
     fold (\<lambda>(res, span). ingest_span ig now res span) (export_spans req)
       (m, \<lparr>IR_metered = 0, IR_unattributed = 0\<rparr>)"

section \<open>The handler\<close>

datatype traces_reply =
    TracesError int string
  | TracesOK bool "(int \<times> string) option"

definition maxTraceBodyBytes :: nat where "maxTraceBodyBytes = 8 * 2 ^ 20"

text \<open>
  \<open>http.MaxBytesReader\<close>: a body longer than the limit is an error. \<open>decode\<close> gets the encoding
  and the body.
\<close>

definition HandleTraces ::
    "(bool \<Rightarrow> string \<Rightarrow> string + export_request) \<Rightarrow> ingress \<Rightarrow> time \<Rightarrow> http_request \<Rightarrow> manager \<Rightarrow>
     manager \<times> traces_reply" where
  "HandleTraces decode ig now r m =
     (case RQ_Body r of
        None \<Rightarrow> (m, TracesError 400 ''could not read request body'')
      | Some body \<Rightarrow>
          if maxTraceBodyBytes < length body then (m, TracesError 400 ''could not read request body'')
          else
            (let isJSON = HasPrefix (header_get (RQ_Header r) ''Content-Type'') ''application/json''
             in case decode isJSON body of
                  Inl e \<Rightarrow> (m, TracesError 400 ((if isJSON then ''invalid OTLP JSON: ''
                                               else ''invalid OTLP protobuf: '') @ e))
                | Inr req \<Rightarrow>
                    (let (m, res) = ingest ig now req m
                     in (m, TracesOK isJSON
                           (if 0 < IR_unattributed res
                            then Some (int (IR_unattributed res),
                              ''GenAI spans without riskkernel.run.id were observed but not metered to a run'')
                            else None)))))"

end
