(* ===== verification/IngressLaws.thy ===== *)
theory IngressLaws
  imports Ingress GatewayLaws
begin

text \<open>
  What the trace receiver guarantees: every span with token usage is either metered once, in
  order, against the run it names, or counted as rejected; and what it trusts: the sign of
  the numbers on a span.
\<close>

section \<open>What an export says\<close>

text \<open>
  An export read without the code: of equal keys the last counts, a nil pair does not. A model
  call is a span that carries one of the two token counts, of whatever value; its run is the
  one it names, or else the one its resource names.
\<close>

definition last_value :: "raw_attrs \<Rightarrow> string \<Rightarrow> any_value option" where
  "last_value kvs key =
     (let xs = filter (\<lambda>kv. fst kv = key) (List.map_filter id kvs) in if xs = [] then None else snd (last xs))"

definition text_value :: "raw_attrs \<Rightarrow> string \<Rightarrow> string" where
  "text_value kvs key = (case last_value kvs key of Some (AVString s) \<Rightarrow> s | _ \<Rightarrow> '''')"

definition count_value :: "(float64 \<Rightarrow> int64) \<Rightarrow> raw_attrs \<Rightarrow> string \<Rightarrow> int64" where
  "count_value oor kvs key =
     (case last_value kvs key of
        Some (AVInt n) \<Rightarrow> n
      | Some (AVDouble x) \<Rightarrow> int64_of_float oor x
      | Some (AVString s) \<Rightarrow> ParseInt64_value (TrimSpace s)
      | _ \<Rightarrow> 0)"

definition first_text :: "string list \<Rightarrow> string" where
  "first_text ss = (case filter (\<lambda>s. s \<noteq> '''') ss of [] \<Rightarrow> '''' | s # _ \<Rightarrow> s)"

definition reports_tokens :: "raw_attrs \<Rightarrow> bool" where
  "reports_tokens sp \<longleftrightarrow>
     list_ex (\<lambda>kv. fst kv \<in> {''gen_ai.usage.input_tokens'', ''gen_ai.usage.output_tokens''}) (List.map_filter id sp)"

definition named_run :: "raw_attrs \<Rightarrow> raw_attrs \<Rightarrow> string" where
  "named_run res sp = first_text [text_value sp ''riskkernel.run.id'', text_value res ''riskkernel.run.id'']"

definition reported_call :: "ingress \<Rightarrow> raw_attrs \<Rightarrow> call" where
  "reported_call ig sp =
     (let model = first_text [text_value sp ''gen_ai.response.model'', text_value sp ''gen_ai.request.model''];
          p = count_value (IG_oor ig) sp ''gen_ai.usage.input_tokens'';
          c = count_value (IG_oor ig) sp ''gen_ai.usage.output_tokens''
      in \<lparr>CL_StepIndex = 0, CL_Provider = text_value sp ''gen_ai.system'', CL_Model = model, CL_PromptTokens = p,
          CL_CompletionTokens = c, CL_Dollars = fst (Cost (IG_prices ig) model p c),
          CL_Priced = snd (Cost (IG_prices ig) model p c), CL_ResponseID = text_value sp ''gen_ai.response.id''\<rparr>)"

definition all_spans :: "export_request \<Rightarrow> (raw_attrs \<times> raw_attrs) list" where
  "all_spans req = concat (map (\<lambda>(res, scopes). map (Pair res) (concat scopes)) req)"

text \<open>The charges of an export, in its order, and the number of calls that nobody can be charged for.\<close>

definition charges :: "ingress \<Rightarrow> export_request \<Rightarrow> (string \<times> call) list" where
  "charges ig req = map (\<lambda>(res, sp). (named_run res sp, reported_call ig sp))
     (filter (\<lambda>(res, sp). reports_tokens sp \<and> named_run res sp \<noteq> '''') (all_spans req))"

definition nobodys_calls :: "export_request \<Rightarrow> nat" where
  "nobodys_calls req = length (filter (\<lambda>(res, sp). reports_tokens sp \<and> named_run res sp = '''') (all_spans req))"

definition charge :: "time \<Rightarrow> string \<times> call \<Rightarrow> manager \<Rightarrow> manager" where
  "charge now rc m = (let (m', a) = GetOrCreate (fst rc) now m in fst (RecordCall a (snd rc) now m'))"

section \<open>What the code reads\<close>

lemma map_of_rev_last:
  "map_of (rev xs) key =
     (let ys = filter (\<lambda>kv. fst kv = key) xs in if ys = [] then None else Some (snd (last ys)))"
  by (induction xs rule: rev_induct) (auto simp: Let_def)

lemma attr_value_otlp: "attr_value (otlpAttrMap kvs) key = last_value kvs key"
  by (simp add: attr_value_def otlpAttrMap_def last_value_def map_of_rev_last Let_def split: option.split)

lemma otlpStringAttr_otlp: "otlpStringAttr (otlpAttrMap kvs) key = text_value kvs key"
  by (simp add: otlpStringAttr_def text_value_def attr_value_otlp)

lemma otlpIntAttr_otlp: "otlpIntAttr oor (otlpAttrMap kvs) key = count_value oor kvs key"
  by (simp add: otlpIntAttr_def count_value_def attr_value_otlp)

lemma has_attr_otlp: "has_attr (otlpAttrMap kvs) key \<longleftrightarrow> list_ex (\<lambda>kv. fst kv = key) (List.map_filter id kvs)"
  by (auto simp: has_attr_def otlpAttrMap_def map_of_eq_None_iff list_ex_iff)

lemma model_call_span_otlp: "model_call_span (otlpAttrMap sp) \<longleftrightarrow> reports_tokens sp"
  by (auto simp: model_call_span_def has_attr_otlp reports_tokens_def attr_keys list_ex_iff)

lemma span_run_otlp: "span_run (otlpAttrMap res) (otlpAttrMap sp) = named_run res sp"
  by (simp add: span_run_def Let_def otlpStringAttr_otlp named_run_def first_text_def attr_keys)

lemma meter_otlp: "meter ig rid (otlpAttrMap sp) now m = charge now (rid, reported_call ig sp) m"
  by (simp add: meter_def charge_def span_call_def reported_call_def Let_def case_prod_beta otlpStringAttr_otlp
      otlpIntAttr_otlp first_text_def attr_keys)

lemma export_spans_otlp: "export_spans req = map (\<lambda>(res, sp). (otlpAttrMap res, otlpAttrMap sp)) (all_spans req)"
  by (induction req) (auto simp: export_spans_def all_spans_def)

lemma ingest_span_otlp:
  "ingest_span ig now (otlpAttrMap res) (otlpAttrMap sp) (m, r) =
     (if \<not> reports_tokens sp then (m, r)
      else if named_run res sp = '''' then (m, r\<lparr>IR_unattributed := IR_unattributed r + 1\<rparr>)
      else (charge now (named_run res sp, reported_call ig sp) m, r\<lparr>IR_metered := IR_metered r + 1\<rparr>))"
  by (simp add: ingest_span_def model_call_span_otlp span_run_otlp meter_otlp)

lemma ingest_fold:
  "fold (\<lambda>(res, sp). ingest_span ig now res sp) (map (\<lambda>(res, sp). (otlpAttrMap res, otlpAttrMap sp)) ps) (m, r) =
     (fold (charge now) (map (\<lambda>(res, sp). (named_run res sp, reported_call ig sp))
        (filter (\<lambda>(res, sp). reports_tokens sp \<and> named_run res sp \<noteq> '''') ps)) m,
      \<lparr>IR_metered = IR_metered r + length (filter (\<lambda>(res, sp). reports_tokens sp \<and> named_run res sp \<noteq> '''') ps),
       IR_unattributed = IR_unattributed r +
         length (filter (\<lambda>(res, sp). reports_tokens sp \<and> named_run res sp = '''') ps)\<rparr>)"
proof (induction ps arbitrary: m r)
  case (Cons p ps)
  obtain res sp where p: "p = (res, sp)" by (cases p)
  show ?case
    by (simp add: p Cons.IH ingest_span_otlp)
qed simp

lemma ingest_charges:
  "ingest ig now req m =
     (fold (charge now) (charges ig req) m, \<lparr>IR_metered = length (charges ig req), IR_unattributed = nobodys_calls req\<rparr>)"
  by (simp add: ingest_def export_spans_otlp ingest_fold charges_def nobodys_calls_def)

section \<open>What the charges add up to\<close>

lemma restoreFromStore_heap:
  assumes "restoreFromStore rid now m = (m1, res)"
  shows "m_runs m1 = m_runs m"
    "res = None \<and> m_heap m1 = m_heap m \<or>
     res = Some (length (m_heap m)) \<and> (\<exists>r. m_heap m1 = m_heap m @ [r] \<and> rn_ID r = rid)"
proof -
  have id: "RR_ID rec = rid" if "snd (GetRun rid d) = Inr rec" for d rec
    using that by (auto simp: GetRun_def query_def statement_def split: list.splits if_splits option.splits dest: lookup_SomeD)
  have reload: "m_runs (fst (reloadRun rec now d m)) = m_runs m" "snd (reloadRun rec now d m) = length (m_heap m)"
    "\<exists>r. m_heap (fst (reloadRun rec now d m)) = m_heap m @ [r] \<and> rn_ID r = RR_ID rec" for rec d
    by (simp_all add: reloadRun_def Let_def case_prod_beta)
  from assms consider "res = None" "m_heap m1 = m_heap m" "m_runs m1 = m_runs m"
    | rec d d0 where "snd (GetRun rid d0) = Inr rec" "m1 = fst (reloadRun rec now d m)" "res = Some (snd (reloadRun rec now d m))"
    by (auto simp: restoreFromStore_def case_prod_beta Let_def apsnd_def map_prod_def split: option.splits sum.splits)
  then have "m_runs m1 = m_runs m \<and> (res = None \<and> m_heap m1 = m_heap m \<or>
     res = Some (length (m_heap m)) \<and> (\<exists>r. m_heap m1 = m_heap m @ [r] \<and> rn_ID r = rid))"
    by cases (use reload id in \<open>metis+\<close>)
  then show "m_runs m1 = m_runs m"
    "res = None \<and> m_heap m1 = m_heap m \<or>
     res = Some (length (m_heap m)) \<and> (\<exists>r. m_heap m1 = m_heap m @ [r] \<and> rn_ID r = rid)" by blast+
qed

text \<open>A lookup finds the run or adds one; the other runs stay.\<close>

lemma GetOrCreate_adds:
  assumes "addressed m" "GetOrCreate rid now m = (m', b)"
  shows "addressed m' \<and> get_run rid m' = Some b \<and> (\<forall>k. k \<noteq> rid \<longrightarrow> get_run k m' = get_run k m) \<and>
    (\<forall>a < length (m_heap m). run_at m' a = run_at m a) \<and> (\<forall>a. get_run rid m = Some a \<longrightarrow> b = a)"
proof (cases "get_run rid m")
  case (Some c)
  with assms show ?thesis by (auto simp: GetOrCreate_def)
next
  case None
  have new: ?thesis
    if "m_heap m' = m_heap m @ [r]" "rn_ID r = rid" "b = length (m_heap m)"
      "\<And>k. get_run k m' = (if k = rid then Some b else get_run k m)" for r
    using that assms(1) None by (auto simp: addressed_def run_at_def nth_append intro: less_SucI)
  obtain m1 res where r: "restoreFromStore rid now m = (m1, res)" by force
  note heap = restoreFromStore_heap [OF r]
  have get1: "get_run k m1 = get_run k m" for k using heap(1) by (simp add: get_run_def)
  from heap(2) consider (unknown) "res = None" "m_heap m1 = m_heap m"
    | (found) r0 where "res = Some (length (m_heap m))" "m_heap m1 = m_heap m @ [r0]" "rn_ID r0 = rid" by blast
  then show ?thesis
  proof cases
    case unknown
    let ?r = "newRun rid '''' (m_defaultBudget m1) [] now"
    have b: "b = length (m_heap m)" and m': "m' = persistRun b (put_run rid b (fst (alloc_run ?r m1)))"
      using assms(2) get1 [of rid] by (simp_all add: GetOrCreate_def publish_run_def r None unknown case_prod_beta Let_def)
        (auto simp: alloc_run_def)
    have "get_run k m' = get_run k (put_run rid b (fst (alloc_run ?r m1)))" for k
      by (simp add: m' get_run_def)
    then have get: "get_run k m' = (if k = rid then Some b else get_run k m)" for k by (simp add: get1)
    have heap': "m_heap m' = m_heap m @ [?r]" by (simp add: m' unknown(2))
    have id: "rn_ID ?r = rid" by (simp add: newRun_def)
    show ?thesis by (rule new [OF heap' id b get])
  next
    case found
    have "m' = put_run rid b m1" "b = length (m_heap m)"
      using assms(2) get1 [of rid] by (auto simp: GetOrCreate_def publish_run_def r None found(1))
    then show ?thesis using found(2,3) get1 by (intro new [of r0]) (simp_all only: put_run_sel get_run_put)
  qed
qed

definition add_call :: "call \<Rightarrow> usage \<Rightarrow> usage" where
  "add_call c = add_usage (CL_PromptTokens c) (CL_CompletionTokens c) (CL_Dollars c)"

lemma charge_usage:
  assumes "addressed m" "get_run rid m = Some a"
  shows "addressed (charge now (k, c) m)" "get_run rid (charge now (k, c) m) = Some a"
    "g_usage (rn_gov (run_at (charge now (k, c) m) a)) =
      (if k = rid then add_call c (g_usage (rn_gov (run_at m a))) else g_usage (rn_gov (run_at m a)))"
proof -
  obtain m' b where g: "GetOrCreate k now m = (m', b)" by force
  from GetOrCreate_adds [OF assms(1) g] have adds: "addressed m'" "get_run k m' = Some b"
    "\<And>i. i \<noteq> k \<Longrightarrow> get_run i m' = get_run i m" "\<And>i. i < length (m_heap m) \<Longrightarrow> run_at m' i = run_at m i"
    "\<And>i. get_run k m = Some i \<Longrightarrow> b = i" by blast+
  have a: "a < length (m_heap m)" using assms by (simp add: addressed_def)
  have b: "b < length (m_heap m')" using adds(1,2) by (simp add: addressed_def)
  have get: "get_run rid m' = Some a" using adds(2,3,5) assms(2) by (cases "k = rid") auto
  have ba: "b = a \<longleftrightarrow> k = rid" using adds(1,2) get by (metis addressed_def option.inject)
  note act = RecordCall_acts [OF b, of now c]
  have ch: "charge now (k, c) m = fst (RecordCall b c now m')" by (simp add: charge_def g)
  show "addressed (charge now (k, c) m)" unfolding ch by (rule acts_on_addressed [OF adds(1) act])
  show "get_run rid (charge now (k, c) m) = Some a" unfolding ch acts_on_get [OF act] by (rule get)
  show "g_usage (rn_gov (run_at (charge now (k, c) m) a)) =
      (if k = rid then add_call c (g_usage (rn_gov (run_at m a))) else g_usage (rn_gov (run_at m a)))"
    using act ba adds(4) [OF a] by (auto simp: ch acts_on_def RecordUsage_def checkLocked_sel add_call_def)
qed

lemma charges_usage:
  assumes "addressed m" "get_run rid m = Some a"
  shows "g_usage (rn_gov (run_at (fold (charge now) cs m) a)) =
    fold add_call (map snd (filter (\<lambda>rc. fst rc = rid) cs)) (g_usage (rn_gov (run_at m a)))"
  using assms
proof (induction cs arbitrary: m)
  case (Cons rc cs)
  obtain k c where rc: "rc = (k, c)" by (cases rc)
  note u = charge_usage [OF Cons.prems, of now k c]
  from Cons.IH [OF u(1,2)] u(3) show ?case by (simp add: rc)
qed simp

text \<open>
  C34. Every span is accounted for. An export that can be read, within the size limit, is
  answered with 200, and everything it says is charged or reported back: each span that
  carries a token count and names a run, itself or through its resource, is charged to that
  run once, in the order of the export, with the model, counts and price it reports; the spans
  with a count that name no run are the rejected ones of the answer, which has no such report
  when there are none. So the usage of each run that is live grows by exactly the calls of
  its own spans, whoever else the export names. Taken for granted: the table of live runs leads
  from an id to a run of that id.
\<close>

theorem every_span_is_accounted_for:
  fixes r :: http_request
  defines "json \<equiv> HasPrefix (header_get (RQ_Header r) ''Content-Type'') ''application/json''"
  assumes "RQ_Body r = Some body" "length body \<le> 8 * 2 ^ 20" "decode json body = Inr req"
    and "addressed m" "get_run rid m = Some a"
  shows "HandleTraces decode ig now r m =
      (fold (charge now) (charges ig req) m,
       TracesOK json (if nobodys_calls req = 0 then None
          else Some (int (nobodys_calls req),
            ''GenAI spans without riskkernel.run.id were observed but not metered to a run''))) \<and>
    length (charges ig req) + nobodys_calls req = length (filter (reports_tokens \<circ> snd) (all_spans req)) \<and>
    g_usage (rn_gov (run_at (fst (HandleTraces decode ig now r m)) a)) =
      fold add_call (map snd (filter (\<lambda>rc. fst rc = rid) (charges ig req))) (g_usage (rn_gov (run_at m a)))"
proof -
  have handled: "HandleTraces decode ig now r m =
      (fold (charge now) (charges ig req) m,
       TracesOK json (if nobodys_calls req = 0 then None
          else Some (int (nobodys_calls req),
            ''GenAI spans without riskkernel.run.id were observed but not metered to a run'')))"
    using assms(2-4) by (simp add: HandleTraces_def maxTraceBodyBytes_def ingest_charges Let_def json_def)
  have "length (filter (\<lambda>(res, sp). reports_tokens sp \<and> named_run res sp \<noteq> '''') ps) +
      length (filter (\<lambda>(res, sp). reports_tokens sp \<and> named_run res sp = '''') ps) =
      length (filter (reports_tokens \<circ> snd) ps)" for ps
    by (induction ps) auto
  with handled charges_usage [OF assms(5,6)] show ?thesis by (simp add: charges_def nobodys_calls_def)
qed

section \<open>What a span is trusted with\<close>

lemma meter_usage:
  assumes "get_run rid m = Some a" "a < length (m_heap m)"
  shows "g_usage (rn_gov (run_at (meter ig rid attrs now m) a)) =
    add_usage (CL_PromptTokens (span_call ig attrs)) (CL_CompletionTokens (span_call ig attrs))
      (CL_Dollars (span_call ig attrs)) (g_usage (rn_gov (run_at m a)))"
  using RecordCall_acts [OF assms(2), of now "span_call ig attrs"] assms(1)
  by (simp add: meter_def GetOrCreate_def acts_on_def RecordUsage_def checkLocked_sel)

text \<open>
  A span can give tokens back. Nothing checks the sign of a consumed span: one that
  reports a negative number of input tokens for a known run takes that many tokens off what
  the run has used, so whoever may send traces can undo the spending of a governed run.
\<close>

theorem negative_span_refunds_run:
  fixes k :: int64
  assumes "get_run rid m = Some a" "a < length (m_heap m)"
    and "attr_value attrs attrGenAIInputTokens = Some (AVInt (- k))"
    and "attr_value attrs attrGenAIOutputTokens = None"
  shows "Tokens (g_usage (rn_gov (run_at (meter ig rid attrs now m) a))) =
    Tokens (g_usage (rn_gov (run_at m a))) - k"
  using assms(3,4)
  by (simp add: meter_usage [OF assms(1,2)] span_call_def Let_def case_prod_beta otlpIntAttr_def
      add_usage_def Tokens_def)

definition refund_span :: otlp_attrs where
  "refund_span = [(attrGenAIInputTokens, Some (AVInt (- 5))), (attrRunID, Some (AVString ''r9''))]"

definition sample_ingress :: ingress where
  "sample_ingress = \<lparr>IG_prices = NewTable [], IG_oor = (\<lambda>_. 0)\<rparr>"

lemma negative_span_refunds_run_witness:
  "Tokens (g_usage (rn_gov (run_at (meter sample_ingress ''r9'' refund_span 1 sample_manager) 0))) =
    Tokens (g_usage (rn_gov (run_at sample_manager 0))) - 5"
proof (rule negative_span_refunds_run)
  show "get_run ''r9'' sample_manager = Some 0" by (rule sample_manager_run)
  from mirrorsD [OF sample_manager_run(3) this] show "0 < length (m_heap sample_manager)" by metis
qed (simp_all add: refund_span_def attr_value_def attr_keys)

text \<open>One call of the run, one of another run through its resource, one of nobody, and a tool's span.\<close>

definition sample_export :: export_request where
  "sample_export =
     [([Some (''riskkernel.run.id'', Some (AVString ''r9''))],
       [[[Some (''gen_ai.usage.input_tokens'', Some (AVInt 7)), Some (''gen_ai.usage.output_tokens'', Some (AVInt 5))],
         [Some (''gen_ai.tool.name'', Some (AVString ''rm''))],
         [Some (''gen_ai.usage.input_tokens'', Some (AVInt 4)), Some (''riskkernel.run.id'', Some (AVString ''r2''))]]]),
      ([], [[[None, Some (''gen_ai.usage.output_tokens'', Some (AVInt 3))]]])]"

lemma sample_export_charges:
  "nobodys_calls sample_export = 1"
  "map snd (filter (\<lambda>rc. fst rc = ''r9'') (charges sample_ingress sample_export)) =
     [reported_call sample_ingress
       [Some (''gen_ai.usage.input_tokens'', Some (AVInt 7)), Some (''gen_ai.usage.output_tokens'', Some (AVInt 5))]]"
  by (simp_all add: sample_export_def nobodys_calls_def charges_def all_spans_def reports_tokens_def named_run_def
      first_text_def text_value_def last_value_def map_filter_simps)

definition sample_traces :: http_request where
  "sample_traces = \<lparr>RQ_Header = [], RQ_Body = Some ''x''\<rparr>"

lemma every_span_is_accounted_for_witness:
  "snd (HandleTraces (\<lambda>_ _. Inr sample_export) sample_ingress 1 sample_traces sample_manager) =
     TracesOK (HasPrefix (header_get (RQ_Header sample_traces) ''Content-Type'') ''application/json'')
       (Some (1, ''GenAI spans without riskkernel.run.id were observed but not metered to a run'')) \<and>
   U_PromptTokens (g_usage (rn_gov (run_at (fst (HandleTraces (\<lambda>_ _. Inr sample_export) sample_ingress 1 sample_traces sample_manager)) 0))) =
     U_PromptTokens (g_usage (rn_gov (run_at sample_manager 0))) + 7"
proof -
  have "RQ_Body sample_traces = Some ''x''" "length ''x'' \<le> 8 * 2 ^ 20" by (simp_all add: sample_traces_def)
  note all = every_span_is_accounted_for [where decode = "\<lambda>_ _. Inr sample_export" and ig = sample_ingress and now = 1, OF this refl
      mirrors_addressed [OF sample_manager_run(3)] sample_manager_run(2)]
  have call: "U_PromptTokens (add_call (reported_call sample_ingress
       [Some (''gen_ai.usage.input_tokens'', Some (AVInt 7)), Some (''gen_ai.usage.output_tokens'', Some (AVInt 5))]) u) =
     U_PromptTokens u + 7" for u
    by (simp add: add_call_def add_usage_def reported_call_def Let_def count_value_def last_value_def map_filter_simps)
  show ?thesis
    unfolding all [THEN conjunct2, THEN conjunct2]
    by (simp add: all [THEN conjunct1] sample_export_charges call)
qed

end
