(* ===== verification/Notify.thy ===== *)
theory Notify
  imports Approval Http Identifiers Provider Strconv
begin

text \<open>
  The push channels of the approval gate (\<open>internal/approval/notifier.go\<close>, \<open>webhook.go\<close>,
  \<open>slack.go\<close>): which messages a pending approval sends and to whom, and the two checks on
  what Slack sends back, the request signature and the button. Sending is best effort and
  off the request path: a notification is the list of requests it starts. HMAC-SHA256,
  package json's encoder and decoder and the network are arguments.
\<close>

section \<open>Channels\<close>

record slack =
  SL_botToken :: string
  SL_channel :: string
  SL_signingSecret :: string
  SL_apiBase :: string

datatype notifier = WebhookNotifier string | SlackNotifier slack | MultiNotifier "notifier list"

definition slackAPIBase :: string where "slackAPIBase = ''https://slack.com/api''"

definition slackMaxSkew :: int where "slackMaxSkew = 300"

definition NewWebhookNotifier :: "string \<Rightarrow> notifier option" where
  "NewWebhookNotifier url = (if url = '''' then None else Some (WebhookNotifier url))"

definition NewSlackNotifier :: "string \<Rightarrow> string \<Rightarrow> string \<Rightarrow> slack option" where
  "NewSlackNotifier botToken channel signingSecret =
     (if botToken = '''' \<or> channel = '''' then None
      else Some \<lparr>SL_botToken = botToken, SL_channel = channel, SL_signingSecret = signingSecret,
                 SL_apiBase = slackAPIBase\<rparr>)"

text \<open>A nil channel, of either kind, is None.\<close>

definition CombineNotifiers :: "notifier option list \<Rightarrow> notifier option" where
  "CombineNotifiers ns =
     (case List.map_filter id ns of
        [] \<Rightarrow> None | [n] \<Rightarrow> Some n | live \<Rightarrow> Some (MultiNotifier live))"

section \<open>Messages\<close>

record webhook_payload =
  WP_Event :: string
  WP_ID :: string
  WP_RunID :: string
  WP_StepIndex :: int32
  WP_Tool :: string
  WP_SideEffect :: string
  WP_Arguments :: json_map
  WP_CreatedAt :: time

record button =
  BT_ActionID :: string
  BT_Style :: string
  BT_Text :: string
  BT_Value :: string

datatype block = Section string | Actions string "button list"

datatype slack_body =
    PostMessage string string "block list"
  | UpdateMessage string string string "block list"

datatype outgoing =
    WebhookPost string webhook_payload
  | SlackPost string string slack_body

definition slackApproveAction :: string where "slackApproveAction = ''riskkernel_approve''"
definition slackDenyAction :: string where "slackDenyAction = ''riskkernel_deny''"

definition newline :: string where "newline = [CHR 0x0A]"
definition backquoted :: "string \<Rightarrow> string" where "backquoted s = CHR 0x60 # s @ [CHR 0x60]"

definition webhook_message :: "approval_record \<Rightarrow> webhook_payload" where
  "webhook_message a =
     \<lparr>WP_Event = ''approval.pending'', WP_ID = AR_ID a, WP_RunID = AR_RunID a,
      WP_StepIndex = AR_StepIndex a, WP_Tool = AR_Tool a, WP_SideEffect = AR_SideEffect a,
      WP_Arguments = AR_Arguments a, WP_CreatedAt = AR_CreatedAt a\<rparr>"

text \<open>\<open>indent\<close> is \<open>json.MarshalIndent\<close>, None for its error.\<close>

definition pendingBlocks :: "(json_map \<Rightarrow> string option) \<Rightarrow> approval_record \<Rightarrow> block list" where
  "pendingBlocks indent a =
     (let header = ''*Approval required*'' @ newline @ ''*Tool:* '' @ backquoted (AR_Tool a) @
            (if AR_SideEffect a \<noteq> '''' then ''   *Side effect:* '' @ backquoted (AR_SideEffect a) else '''') @
            newline @ ''*Run:* '' @ backquoted (AR_RunID a) @ ''   *Step:* '' @ FormatInt (sint (AR_StepIndex a));
          args = (if AR_Arguments a = [] then []
            else (case indent (AR_Arguments a) of
                None \<Rightarrow> []
              | Some t \<Rightarrow> [Section (''*Arguments:*'' @ newline @ replicate 3 (CHR 0x60) @ t @ replicate 3 (CHR 0x60))]))
      in Section header # args @
         [Actions (AR_ID a)
           [\<lparr>BT_ActionID = slackApproveAction, BT_Style = ''primary'', BT_Text = ''Approve'', BT_Value = AR_ID a\<rparr>,
            \<lparr>BT_ActionID = slackDenyAction, BT_Style = ''danger'', BT_Text = ''Deny'', BT_Value = AR_ID a\<rparr>]])"

definition slack_request :: "slack \<Rightarrow> string \<Rightarrow> slack_body \<Rightarrow> outgoing" where
  "slack_request s method body = SlackPost (SL_apiBase s @ ''/'' @ method) (SL_botToken s) body"

definition slack_Notify :: "(json_map \<Rightarrow> string option) \<Rightarrow> slack \<Rightarrow> approval_record \<Rightarrow> outgoing" where
  "slack_Notify indent s a =
     slack_request s ''chat.postMessage'' (PostMessage (SL_channel s)
       (''Approval required: '' @ AR_Tool a @ '' on run '' @ AR_RunID a) (pendingBlocks indent a))"

text \<open>\<open>encodable\<close> says whether \<open>json.Marshal\<close> takes the arguments; a payload it refuses is not sent.\<close>

fun Notify ::
    "(json_map \<Rightarrow> bool) \<Rightarrow> (json_map \<Rightarrow> string option) \<Rightarrow> notifier \<Rightarrow> approval_record \<Rightarrow> outgoing list" where
  "Notify encodable indent (WebhookNotifier url) a =
     (if encodable (AR_Arguments a) then [WebhookPost url (webhook_message a)] else [])"
| "Notify encodable indent (SlackNotifier s) a = [slack_Notify indent s a]"
| "Notify encodable indent (MultiNotifier ns) a = concat (map (\<lambda>n. Notify encodable indent n a) ns)"

text \<open>
  The answer of a Slack call: Slack reports errors in the body of a 200. \<open>decode\<close> reads the
  envelope: None for malformed JSON, else whether \<open>ok\<close> is true and the error's text.
\<close>

definition slack_call_error ::
    "(string \<Rightarrow> (bool \<times> string) option) \<Rightarrow> string \<Rightarrow> do_result \<Rightarrow> string option" where
  "slack_call_error decode method result =
     (case result of
        DoError e _ \<Rightarrow> Some e
      | Answered resp \<Rightarrow>
          (case decode (UP_Body resp) of
             None \<Rightarrow> Some (''slack '' @ method @ '': decode response'')
           | Some (ok, err) \<Rightarrow> if ok then None else Some (''slack '' @ method @ '': '' @ err)))"

section \<open>What Slack sends back\<close>

text \<open>\<open>now\<close> is \<open>time.Now().Unix()\<close>; the difference is an int64.\<close>

definition VerifySignature ::
    "(string \<Rightarrow> string \<Rightarrow> byte list) \<Rightarrow> slack \<Rightarrow> int64 \<Rightarrow> string \<Rightarrow> string \<Rightarrow> string \<Rightarrow> bool" where
  "VerifySignature hmac s now timestamp signature body =
     (if SL_signingSecret s = '''' then False
      else (case ParseInt64 (TrimSpace timestamp) of
          None \<Rightarrow> False
        | Some ts \<Rightarrow>
            (let d = now - word_of_int ts in
             if word_of_int slackMaxSkew <s d \<or> d <s word_of_int (- slackMaxSkew) then False
             else signature = ''v0='' @ hexEncode (hmac (SL_signingSecret s) (''v0:'' @ timestamp @ '':'' @ body)))))"

record slack_payload =
  SP_Type :: string
  SP_UserID :: string
  SP_Username :: string
  SP_UserName :: string
  SP_Channel :: string
  SP_MessageTS :: string
  SP_Actions :: "(string \<times> string) list"

record slack_action =
  SA_ApprovalID :: string
  SA_Approve :: bool
  SA_By :: string
  SA_Channel :: string
  SA_MessageTS :: string

definition ParseInteraction :: "(string \<Rightarrow> slack_payload option) \<Rightarrow> string \<Rightarrow> slack_action option" where
  "ParseInteraction decode payload =
     (case decode payload of
        None \<Rightarrow> None
      | Some p \<Rightarrow>
          if SP_Type p \<noteq> ''block_actions'' then None
          else (case SP_Actions p of
              [] \<Rightarrow> None
            | (action, val) # _ \<Rightarrow>
                if action \<noteq> slackApproveAction \<and> action \<noteq> slackDenyAction then None
                else
                  (let by' = (if SP_Username p \<noteq> '''' then SP_Username p
                              else if SP_UserName p \<noteq> '''' then SP_UserName p else SP_UserID p)
                   in Some \<lparr>SA_ApprovalID = val, SA_Approve = (action = slackApproveAction),
                        SA_By = ''slack:'' @ by', SA_Channel = SP_Channel p, SA_MessageTS = SP_MessageTS p\<rparr>)))"

text \<open>The decision's words as the bytes of their UTF-8 text.\<close>

definition denied_text :: string where
  "denied_text = [CHR 0xF0, CHR 0x9F, CHR 0x9B, CHR 0x91] @ '' Denied''"

definition approved_text :: string where
  "approved_text = [CHR 0xE2, CHR 0x9C, CHR 0x85] @ '' Approved''"

definition UpdateResolved :: "slack \<Rightarrow> slack_action \<Rightarrow> approval_record \<Rightarrow> outgoing list" where
  "UpdateResolved s act a =
     (if SA_Channel act = '''' \<or> SA_MessageTS act = '''' then []
      else
        (let t = (if SA_Approve act then approved_text else denied_text) @ '' by '' @ SA_By act @
               '' '' @ [CHR 0xE2, CHR 0x80, CHR 0x94] @ '' '' @ backquoted (AR_Tool a) @ '' on run '' @
               backquoted (AR_RunID a)
         in [slack_request s ''chat.update'' (UpdateMessage (SA_Channel act) (SA_MessageTS act) t [Section t])]))"

end
