(* ===== verification/NotifyLaws.thy ===== *)
theory NotifyLaws
  imports Notify
begin

text \<open>
  The two checks that stand between Slack and an approval: the signature of a request, exact
  in spite of the wrap-around of its age, and the buttons, which lead back to the approval
  they were drawn for.
\<close>

section \<open>Signed requests\<close>

lemma ParseInt64_range:
  assumes "ParseInt64 s = Some t"
  shows "- (2 ^ 63) \<le> t" "t < 2 ^ 63"
proof -
  have "- (2 ^ 63) \<le> t \<and> t < 2 ^ 63"
    using assms unfolding ParseInt64_def
    by (auto simp: Let_def split: list.splits if_splits option.splits prod.splits)
  then show "- (2 ^ 63) \<le> t" "t < 2 ^ 63" by simp_all
qed

text \<open>The age of a request, an int64 difference that may wrap for a timestamp far in the past.\<close>

lemma skew_exact:
  fixes now :: int64
  assumes "0 \<le> sint now" "sint now < 2 ^ 63 - 300" "- (2 ^ 63) \<le> t" "t < 2 ^ 63"
  shows "(word_of_int 300 <s now - word_of_int t \<or> now - word_of_int t <s word_of_int (- 300)) \<longleftrightarrow>
    300 < \<bar>sint now - t\<bar>"
proof -
  have t: "sint (word_of_int t :: int64) = t"
    using assms(3,4) by (simp add: sint_sbintrunc' signed_take_bit_int_eq_self)
  have d: "sint (now - word_of_int t) =
      (if sint now - t < 2 ^ 63 then sint now - t else sint now - t - 2 ^ 64)"
  proof (cases "sint now - t < 2 ^ 63")
    case True
    then show ?thesis
      using assms by (simp add: sint_word_ariths t signed_take_bit_int_eq_self)
  next
    case False
    have "signed_take_bit 63 (sint now - t) = signed_take_bit 63 (sint now - t - 2 ^ 64)"
      by (rule signed_take_bit_eq_iff_take_bit_eq [THEN iffD2]) (simp add: take_bit_eq_mod)
    also have "\<dots> = sint now - t - 2 ^ 64"
      using False assms by (intro signed_take_bit_int_eq_self) simp_all
    finally show ?thesis using False by (simp add: sint_word_ariths t)
  qed
  have c: "sint (word_of_int 300 :: int64) = 300" "sint (word_of_int (- 300) :: int64) = - 300"
    by simp_all
  show ?thesis
    unfolding word_sless_alt c d using assms by (auto split: if_splits)
qed

text \<open>
  C35. A Slack request is let in exactly when it is signed and recent: a signing secret is
  configured, the timestamp reads as an integer at most five minutes from the clock on either
  side (also where the int64 difference wraps), and the signature is the one of that
  timestamp and that body. Without a secret nothing is let in.
\<close>

theorem slack_signature_exact:
  assumes "0 \<le> sint now" "sint now < 2 ^ 63 - 300"
  shows "VerifySignature hmac s now ts sig body \<longleftrightarrow>
    SL_signingSecret s \<noteq> '''' \<and>
    (\<exists>t. ParseInt64 (TrimSpace ts) = Some t \<and> \<bar>sint now - t\<bar> \<le> 300) \<and>
    sig = ''v0='' @ hexEncode (hmac (SL_signingSecret s) (''v0:'' @ ts @ '':'' @ body))"
proof (cases "ParseInt64 (TrimSpace ts)")
  case None
  then show ?thesis by (simp add: VerifySignature_def)
next
  case (Some t)
  note skew = skew_exact [OF assms ParseInt64_range [OF Some]]
  show ?thesis
    unfolding VerifySignature_def Some slackMaxSkew_def Let_def option.case skew by auto
qed

definition sample_slack :: slack where
  "sample_slack = \<lparr>SL_botToken = ''b'', SL_channel = ''c'', SL_signingSecret = ''k'',
     SL_apiBase = slackAPIBase\<rparr>"

lemma slack_signature_exact_witness:
  "VerifySignature (\<lambda>k b. [171]) sample_slack 1000 ''700'' ''v0=ab'' ''x''"
proof -
  have "ParseInt64 (TrimSpace ''700'') = Some 700" by code_simp
  moreover have "''v0='' @ hexEncode [171] = ''v0=ab''" by code_simp
  ultimately show ?thesis
    by (simp add: slack_signature_exact sample_slack_def)
qed

section \<open>Buttons\<close>

text \<open>The payload Slack sends for a click on a button: its action id and its value.\<close>

definition click :: "string \<Rightarrow> string \<Rightarrow> string \<Rightarrow> button \<Rightarrow> slack_payload" where
  "click user chan ts b =
     \<lparr>SP_Type = ''block_actions'', SP_UserID = '''', SP_Username = user, SP_UserName = '''',
      SP_Channel = chan, SP_MessageTS = ts, SP_Actions = [(BT_ActionID b, BT_Value b)]\<rparr>"

definition buttons :: "block list \<Rightarrow> button list" where
  "buttons bs = concat (map (\<lambda>b. case b of Actions _ xs \<Rightarrow> xs | Section _ \<Rightarrow> []) bs)"

text \<open>
  A click on a message's button comes back as the decision it shows. For every button of
  the message posted for an approval, the payload of a click on it reads as a decision on
  that approval, an approval exactly on the button that says so; and the message has both.
\<close>

theorem button_round_trip:
  assumes "\<forall>b \<in> set (buttons (pendingBlocks indent a)). decode (payload b) = Some (click user chan ts b)"
  shows "(\<forall>b \<in> set (buttons (pendingBlocks indent a)). \<exists>act.
      ParseInteraction decode (payload b) = Some act \<and> SA_ApprovalID act = AR_ID a \<and>
      (SA_Approve act \<longleftrightarrow> BT_Text b = ''Approve'') \<and> SA_Channel act = chan \<and> SA_MessageTS act = ts) \<and>
    map BT_Text (buttons (pendingBlocks indent a)) = [''Approve'', ''Deny'']"
  using assms
  by (auto simp: pendingBlocks_def buttons_def click_def ParseInteraction_def Let_def
      slackApproveAction_def slackDenyAction_def split: option.splits)

definition sample_pending :: approval_record where
  "sample_pending =
     \<lparr>AR_ID = ''ap1'', AR_RunID = ''r1'', AR_StepIndex = 2, AR_Tool = ''shell'', AR_SideEffect = ''write'',
      AR_Arguments = [], AR_Status = ''pending'', AR_Reason = '''', AR_DecidedBy = '''', AR_CreatedAt = 1,
      AR_DecidedAt = None\<rparr>"

definition sample_decode :: "string \<Rightarrow> slack_payload option" where
  "sample_decode p = Some (click ''ann'' ''C1'' ''12.5''
     \<lparr>BT_ActionID = p, BT_Style = '''', BT_Text = '''', BT_Value = ''ap1''\<rparr>)"

lemma button_round_trip_witness:
  "(\<forall>b \<in> set (buttons (pendingBlocks (\<lambda>_. None) sample_pending)). \<exists>act.
      ParseInteraction sample_decode (BT_ActionID b) = Some act \<and> SA_ApprovalID act = AR_ID sample_pending \<and>
      (SA_Approve act \<longleftrightarrow> BT_Text b = ''Approve'') \<and> SA_Channel act = ''C1'' \<and> SA_MessageTS act = ''12.5'') \<and>
    map BT_Text (buttons (pendingBlocks (\<lambda>_. None) sample_pending)) = [''Approve'', ''Deny'']"
  by (rule button_round_trip [where user = "''ann''"])
    (simp add: buttons_def pendingBlocks_def sample_decode_def click_def sample_pending_def Let_def)

end
