(* ===== verification/Url.thy ===== *)
theory Url
  imports GoPrelude
begin

text \<open>
  What the code uses of package net/url: unescaping and \<open>ParseQuery\<close>. Text is a list of bytes.
\<close>

definition unhex :: "char \<Rightarrow> int option" where
  "unhex c = (let n = of_char c :: int in
     if 48 \<le> n \<and> n \<le> 57 then Some (n - 48)
     else if 97 \<le> n \<and> n \<le> 102 then Some (n - 87)
     else if 65 \<le> n \<and> n \<le> 70 then Some (n - 55) else None)"

text \<open>\<open>QueryUnescape\<close> reads a plus as a space, \<open>PathUnescape\<close> as itself; None for a bad escape.\<close>

fun url_unescape :: "bool \<Rightarrow> string \<Rightarrow> string option" where
  "url_unescape sp [] = Some []"
| "url_unescape sp (c # s) =
     (if c = CHR ''%'' then
        (case s of
           a # b # t \<Rightarrow>
             (case (unhex a, unhex b, url_unescape sp t) of
                (Some x, Some y, Some u) \<Rightarrow> Some (char_of (16 * x + y) # u)
              | _ \<Rightarrow> None)
         | _ \<Rightarrow> None)
      else map_option (\<lambda>u. (if sp \<and> c = CHR ''+'' then CHR '' '' else c) # u) (url_unescape sp s))"

definition QueryUnescape :: "string \<Rightarrow> string option" where
  "QueryUnescape s = url_unescape True s"

definition PathUnescape :: "string \<Rightarrow> string option" where
  "PathUnescape s = url_unescape False s"

text \<open>\<open>url.ParseQuery\<close>: per segment a pair, None for one it rejects; empty segments are skipped.\<close>

definition query_pair :: "string \<Rightarrow> (string \<times> string) option" where
  "query_pair seg =
     (if CHR '';'' \<in> set seg then None
      else (let (k, v) = (case Cut seg ''='' of Some p \<Rightarrow> p | None \<Rightarrow> (seg, ''''))
            in case (QueryUnescape k, QueryUnescape v) of
                 (Some k, Some v) \<Rightarrow> Some (k, v) | _ \<Rightarrow> None))"

definition query_pairs :: "string \<Rightarrow> (string \<times> string) option list" where
  "query_pairs s = map query_pair (filter (\<lambda>seg. seg \<noteq> []) (Split1 (CHR ''&'') s))"

text \<open>The pairs, None when a segment was rejected.\<close>

definition ParseQuery :: "string \<Rightarrow> (string \<times> string) list option" where
  "ParseQuery s = those (query_pairs s)"

text \<open>\<open>URL.Query()\<close> drops what it cannot read; \<open>Get\<close> is the first value.\<close>

definition URL_Query :: "string \<Rightarrow> (string \<times> string) list" where
  "URL_Query s = List.map_filter id (query_pairs s)"

definition values_Get :: "(string \<times> string) list \<Rightarrow> string \<Rightarrow> string" where
  "values_Get vs k = (case map_of vs k of None \<Rightarrow> '''' | Some v \<Rightarrow> v)"

end
