(* ===== verification/TimeText.thy ===== *)
theory TimeText
  imports Timestamp Strconv
begin

text \<open>
  Reading a time back: \<open>time.Parse\<close> on the layouts the program uses, and \<open>parseTime\<close> in
  \<open>internal/storage/sqlite.go\<close>, which reads what \<open>fmtTime\<close> wrote into a column. The lemmas
  show that the calendar of the writer and that of the reader agree, and that every piece of
  the text is read as it was written.
\<close>

section \<open>The reader\<close>

text \<open>
  The pieces of \<open>time.Parse\<close>: \<open>atoi\<close> on a fixed number of digits, and \<open>getnum\<close>, which reads
  one digit where only one is there unless two are required.
\<close>

definition take_digits :: "nat \<Rightarrow> string \<Rightarrow> (int \<times> string) option" where
  "take_digits n s =
     (if length s < n then None else map_option (\<lambda>v. (v, drop n s)) (digits_value 0 (take n s)))"

definition getnum :: "bool \<Rightarrow> string \<Rightarrow> (int \<times> string) option" where
  "getnum fixed s =
     (case take_digits 2 s of
        Some r \<Rightarrow> Some r
      | None \<Rightarrow> if fixed then None else take_digits 1 s)"

definition expect :: "char \<Rightarrow> string \<Rightarrow> string option" where
  "expect c s = (case s of [] \<Rightarrow> None | d # t \<Rightarrow> if d = c then Some t else None)"

definition leap_year :: "int \<Rightarrow> bool" where
  "leap_year y \<longleftrightarrow> y mod 4 = 0 \<and> (y mod 100 \<noteq> 0 \<or> y mod 400 = 0)"

definition days_in :: "int \<Rightarrow> int \<Rightarrow> int" where
  "days_in m y = (if m = 2 then if leap_year y then 29 else 28 else if m \<in> {4, 6, 9, 11} then 30 else 31)"

text \<open>The day number of a date: the inverse of \<open>civil\<close>.\<close>

definition day_number :: "int \<Rightarrow> int \<Rightarrow> int \<Rightarrow> int" where
  "day_number y m d =
     (let y = (if m \<le> 2 then y - 1 else y);
          era = y div 400;
          yoe = y - era * 400;
          doy = (153 * (if m > 2 then m - 3 else m + 9) + 2) div 5 + d - 1;
          doe = yoe * 365 + yoe div 4 - yoe div 100 + doy
      in era * 146097 + doe - 719468)"

text \<open>\<open>2006-01-02\<close>: the day number of the date and what follows it.\<close>

definition parse_date :: "string \<Rightarrow> (int \<times> string) option" where
  "parse_date s =
     (case take_digits 4 s of None \<Rightarrow> None | Some (y, s) \<Rightarrow>
      (case expect (CHR ''-'') s of None \<Rightarrow> None | Some s \<Rightarrow>
      (case getnum True s of None \<Rightarrow> None | Some (m, s) \<Rightarrow>
       if m < 1 \<or> 12 < m then None else
      (case expect (CHR ''-'') s of None \<Rightarrow> None | Some s \<Rightarrow>
      (case getnum True s of None \<Rightarrow> None | Some (d, s) \<Rightarrow>
       if d < 1 \<or> days_in m y < d then None else Some (day_number y m d, s))))))"

text \<open>A fraction after the seconds is read although the layout has none; past nine digits it is cut.\<close>

definition parse_fraction :: "string \<Rightarrow> int \<times> string" where
  "parse_fraction s =
     (case s of
        c # t \<Rightarrow>
          (let ds = takeWhile (\<lambda>d. digit d \<noteq> None) t in
           if (c = CHR ''.'' \<or> c = CHR '','') \<and> ds \<noteq> []
           then ((case digits_value 0 (take 9 ds) of None \<Rightarrow> 0 | Some v \<Rightarrow> v * 10 ^ (9 - length (take 9 ds))),
                 drop (length ds) t)
           else (0, s))
      | [] \<Rightarrow> (0, s))"

definition parse_clock :: "string \<Rightarrow> (int \<times> string) option" where
  "parse_clock s =
     (case getnum False s of None \<Rightarrow> None | Some (h, s) \<Rightarrow>
       if 24 \<le> h then None else
      (case expect (CHR '':'') s of None \<Rightarrow> None | Some s \<Rightarrow>
      (case getnum True s of None \<Rightarrow> None | Some (m, s) \<Rightarrow>
       if 60 \<le> m then None else
      (case expect (CHR '':'') s of None \<Rightarrow> None | Some s \<Rightarrow>
      (case getnum True s of None \<Rightarrow> None | Some (sec, s) \<Rightarrow>
       if 60 \<le> sec then None else
       (case parse_fraction s of (ns, s) \<Rightarrow> Some ((3600 * h + 60 * m + sec) * 1000000000 + ns, s)))))))"

text \<open>\<open>Z07:00\<close>, in seconds east of UTC; hours up to 24 and minutes up to 60 are taken.\<close>

definition parse_zone :: "string \<Rightarrow> (int \<times> string) option" where
  "parse_zone s =
     (case s of
        [] \<Rightarrow> None
      | c # t \<Rightarrow>
          if c = CHR ''Z'' then Some (0, t)
          else if c \<noteq> CHR ''+'' \<and> c \<noteq> CHR ''-'' then None
          else (case getnum True t of None \<Rightarrow> None | Some (h, t) \<Rightarrow>
               (case expect (CHR '':'') t of None \<Rightarrow> None | Some t \<Rightarrow>
               (case getnum True t of None \<Rightarrow> None | Some (m, t) \<Rightarrow>
                if 24 < h \<or> 60 < m then None
                else Some ((if c = CHR ''-'' then -1 else 1) * (3600 * h + 60 * m), t)))))"

definition day_ns :: int where "day_ns = 86400000000000"

definition parse_RFC3339 :: "string \<Rightarrow> time option" where
  "parse_RFC3339 s =
     (case parse_date s of None \<Rightarrow> None | Some (day, s) \<Rightarrow>
      (case expect (CHR ''T'') s of None \<Rightarrow> None | Some s \<Rightarrow>
      (case parse_clock s of None \<Rightarrow> None | Some (tod, s) \<Rightarrow>
      (case parse_zone s of None \<Rightarrow> None | Some (east, s) \<Rightarrow>
       if s = '''' then Some (day * day_ns + tod - east * 1000000000) else None))))"

text \<open>\<open>parseTime\<close>: what cannot be read is the zero time.\<close>

definition parseTime :: "string \<Rightarrow> time" where
  "parseTime s = (case parse_RFC3339 s of None \<Rightarrow> zero_time | Some t \<Rightarrow> t)"

section \<open>Digits are read as they were written\<close>

lemma digit_char [simp]: "0 \<le> k \<Longrightarrow> k < 10 \<Longrightarrow> digit (char_of (48 + k :: int)) = Some k"
  by (simp add: digit_def Let_def)

lemma digits_value_append:
  "digits_value acc (s @ t) =
     (case digits_value acc s of None \<Rightarrow> None | Some v \<Rightarrow> digits_value v t)"
  by (induction s arbitrary: acc) (auto split: option.splits)

lemma digits_value_zeros: "digits_value acc (replicate k CHR ''0'') = Some (acc * 10 ^ k)"
  by (induction k arbitrary: acc) (simp_all add: digit_def)

lemma decimal_digits:
  assumes "0 \<le> n"
  shows "digits_value acc (decimal n) = Some (acc * 10 ^ length (decimal n) + n)"
  using assms
proof (induction n arbitrary: acc rule: decimal.induct)
  case (1 n)
  show ?case
  proof (cases "n < 10")
    case True
    with 1(2) show ?thesis by (simp add: decimal.simps [of n])
  next
    case False
    with 1(1) have "digits_value acc (decimal (n div 10)) =
        Some (acc * 10 ^ length (decimal (n div 10)) + n div 10)" by simp
    with False show ?thesis
      by (simp add: decimal.simps [of n] digits_value_append algebra_simps)
  qed
qed

lemma length_decimal_le:
  assumes "0 \<le> n" "n < 10 ^ w" "0 < w"
  shows "length (decimal n) \<le> w"
  using assms
proof (induction w arbitrary: n)
  case (Suc w)
  show ?case
  proof (cases "n < 10")
    case True
    then show ?thesis by (simp add: decimal.simps [of n])
  next
    case False
    with Suc.prems have "0 < w" by (cases w) simp_all
    moreover have "n div 10 < 10 ^ w" using Suc.prems by simp
    ultimately have "length (decimal (n div 10)) \<le> w" using Suc.IH Suc.prems(1) by simp
    with False show ?thesis by (simp add: decimal.simps [of n])
  qed
qed simp

lemma length_pad: "0 \<le> n \<Longrightarrow> n < 10 ^ w \<Longrightarrow> 0 < w \<Longrightarrow> length (pad w n) = w"
  using length_decimal_le [of n w] by (simp add: pad_def Let_def)

lemma pad_value: "0 \<le> n \<Longrightarrow> digits_value 0 (pad w n) = Some n"
  by (simp add: pad_def Let_def digits_value_append digits_value_zeros decimal_digits)

lemma take_digits_pad:
  assumes "0 \<le> n" "n < 10 ^ w" "0 < w"
  shows "take_digits w (pad w n @ s) = Some (n, s)"
  using length_pad [OF assms] pad_value [OF assms(1), of w] by (simp add: take_digits_def)

lemma getnum_pad: "0 \<le> n \<Longrightarrow> n < 100 \<Longrightarrow> getnum fixed (pad 2 n @ s) = Some (n, s)"
  using take_digits_pad [of n 2 s] by (simp add: getnum_def)

lemma expect_Cons [simp]: "expect c (c # s) = Some s"
  by (simp add: expect_def)

text \<open>The fraction of a second loses its trailing zeros and is read back whole.\<close>

lemma digits_value_SomeD: "digits_value acc s = Some v \<Longrightarrow> \<forall>c \<in> set s. digit c \<noteq> None"
  by (induction s arbitrary: acc) (auto split: option.splits)

lemma digit_Z [simp]: "digit CHR ''Z'' = None"
  by (simp add: digit_def)

lemma parse_fraction_none [simp]: "parse_fraction ''Z'' = (0, ''Z'')"
  by (simp add: parse_fraction_def)

lemma strip_zeros:
  obtains k where "s = rev (dropWhile (\<lambda>c. c = CHR ''0'') (rev s)) @ replicate k CHR ''0''"
proof -
  define z where "z = takeWhile (\<lambda>c. c = CHR ''0'') (rev s)"
  have "\<forall>c \<in> set z. c = CHR ''0''" by (auto simp: z_def dest: set_takeWhileD)
  then have "z = replicate (length z) CHR ''0''" by (simp add: replicate_length_same)
  moreover have "s = rev (dropWhile (\<lambda>c. c = CHR ''0'') (rev s)) @ rev z"
    by (metis z_def rev_append rev_rev_ident takeWhile_dropWhile_id)
  ultimately show ?thesis using that by (metis rev_replicate)
qed

lemma parse_fraction_text:
  assumes "0 \<le> ns" "ns < 1000000000"
  shows "parse_fraction (frac_text ns @ ''Z'') = (ns, ''Z'')"
proof (cases "ns = 0")
  case True
  then show ?thesis by (simp add: frac_text_def)
next
  case False
  define ds where "ds = rev (dropWhile (\<lambda>c. c = CHR ''0'') (rev (pad 9 ns)))"
  obtain k where k: "pad 9 ns = ds @ replicate k CHR ''0''" unfolding ds_def by (rule strip_zeros)
  have len: "length ds + k = 9"
    using length_pad [of ns 9] assms arg_cong [OF k, of length] by simp
  have "digits_value 0 (ds @ replicate k CHR ''0'') = Some ns"
    using pad_value [of ns 9] assms(1) k by simp
  then obtain v where v: "digits_value 0 ds = Some v" "v * 10 ^ k = ns"
    by (auto simp: digits_value_append digits_value_zeros split: option.splits)
  from v False have "ds \<noteq> []" by (cases ds) auto
  moreover have "takeWhile (\<lambda>d. digit d \<noteq> None) (ds @ ''Z'') = ds"
    using digits_value_SomeD [OF v(1)] by (simp add: takeWhile_append2)
  moreover have "k = 9 - length ds" "take 9 ds = ds" using len by simp_all
  ultimately show ?thesis
    using v False by (simp add: frac_text_def parse_fraction_def Let_def ds_def [symmetric])
qed

section \<open>The two calendars agree\<close>

text \<open>
  A day of an era of 400 years (0 to 146096) is a century \<open>c\<close>, a year \<open>j\<close> of it and a day
  \<open>doy\<close> of that year, which starts in March; only a year that ends with a leap day has a
  day 365.
\<close>

lemma div_eqI: "q * b \<le> a \<Longrightarrow> a < (q + 1) * b \<Longrightarrow> 0 < b \<Longrightarrow> a div b = (q :: int)"
  by (rule int_div_pos_eq [of _ _ _ "a - q * b"]) (simp_all add: algebra_simps)
lemma div_bounds: "0 < b \<Longrightarrow> b * (a div b) \<le> a \<and> a < b * (a div b) + (b :: int)"
  using mult_div_mod_eq [of b a] pos_mod_sign [of b a] pos_mod_bound [of b a] by linarith
lemma century:
  fixes c r :: int
  assumes cr: "0 \<le> c" "c \<le> 3" "0 \<le> r" "r < 36524"
  defines "k \<equiv> (24 * c + r) div 1460"
  defines "j \<equiv> (r - k) div 365"
  shows "0 \<le> j" "j \<le> 99" "0 \<le> r - 365 * j - j div 4" "r - 365 * j - j div 4 \<le> 365"
    "r - 365 * j - j div 4 = 365 \<Longrightarrow> j mod 4 = 3 \<and> j \<noteq> 99"
    "0 \<le> k" "k \<le> 25"
proof -
  define a b where "a = j div 4" and "b = j mod 4"
  have ab: "j = 4 * a + b" "0 \<le> b" "b \<le> 3" by (simp_all add: a_def b_def)
  have k: "1460 * k \<le> 24 * c + r" "24 * c + r < 1460 * k + 1460"
    using div_bounds [of 1460 "24 * c + r"] by (simp_all add: k_def)
  have j: "365 * j \<le> r - k" "r - k < 365 * j + 365"
    using div_bounds [of 365 "r - k"] by (simp_all add: j_def)
  show "0 \<le> k" "k \<le> 25" using k cr by linarith+
  then show "0 \<le> j" using j k cr by (cases "k = 0") linarith+
  show "j \<le> 99" using j k cr by linarith
  have ka: "a \<le> k" using j k cr ab by linarith
  have ak: "k \<le> a + 1" using j k cr ab by linarith
  show "0 \<le> r - 365 * j - j div 4" using j ka by (simp add: a_def [symmetric])
  show "r - 365 * j - j div 4 \<le> 365" using j ak by (simp add: a_def [symmetric])
  assume "r - 365 * j - j div 4 = 365"
  then have e: "r = 365 * j + a + 365" by (simp add: a_def [symmetric])
  with j ak have "k = a + 1" by linarith
  with e k cr ab have "b = 3" by linarith
  moreover have "j \<noteq> 99" using e cr by (auto simp: a_def)
  ultimately show "j mod 4 = 3 \<and> j \<noteq> 99" by (simp add: b_def)
qed
definition year_of_era :: "int \<Rightarrow> int" where
  "year_of_era doe = (doe - doe div 1460 + doe div 36524 - doe div 146096) div 365"

definition day_of_year :: "int \<Rightarrow> int" where
  "day_of_year doe =
     (let yoe = year_of_era doe in doe - (365 * yoe + yoe div 4 - yoe div 100))"

lemma day_of_era:
  assumes "0 \<le> doe" "doe < 146097"
  shows "0 \<le> year_of_era doe \<and> year_of_era doe \<le> 399 \<and> 0 \<le> day_of_year doe \<and> day_of_year doe \<le> 365 \<and>
    (day_of_year doe = 365 \<longrightarrow> leap_year (year_of_era doe + 1))"
proof (cases "doe = 146096")
  case True
  then show ?thesis by (simp add: year_of_era_def day_of_year_def leap_year_def)
next
  case False
  define c r where "c = doe div 36524" and "r = doe mod 36524"
  have doe: "doe = 36524 * c + r" and r: "0 \<le> r" "r < 36524" by (simp_all add: c_def r_def)
  with assms False have c: "0 \<le> c" "c \<le> 3" by linarith+
  define k where "k = (24 * c + r) div 1460"
  define j where "j = (r - k) div 365"
  note b = century [OF c r, folded k_def, folded j_def]
  have "doe div 1460 = 25 * c + k"
    using div_bounds [of 1460 "24 * c + r"] by (intro div_eqI) (simp_all add: doe k_def)
  moreover have "doe div 146096 = 0" using assms False by simp
  ultimately have "doe - doe div 1460 + doe div 36524 - doe div 146096 = r - k + 365 * (100 * c)"
    using doe c_def by linarith
  then have y: "year_of_era doe = 100 * c + j" unfolding year_of_era_def j_def by simp
  have q4: "(100 * c + j) div 4 = 25 * c + j div 4" by simp
  have q100: "(100 * c + j) div 100 = c" using b by simp
  have d: "day_of_year doe = r - 365 * j - j div 4"
    by (simp only: day_of_year_def Let_def y q4 q100) (simp add: doe)
  have "leap_year (100 * c + j + 1)" if "j mod 4 = 3" "j \<noteq> 99"
  proof -
    have "(100 * c + j + 1) mod 4 = 0" using that(1) by presburger
    moreover have "(100 * c + (j + 1)) mod 100 = j + 1" using b that(2) by simp
    then have "(100 * c + j + 1) mod 100 \<noteq> 0" using b by (simp add: add.assoc)
    ultimately show ?thesis by (simp add: leap_year_def)
  qed
  with b c y d show ?thesis by auto
qed

lemma month_of_day:
  assumes "0 \<le> doy" "doy \<le> (365 :: int)"
  defines "mp \<equiv> (5 * doy + 2) div 153"
  defines "d \<equiv> doy - (153 * mp + 2) div 5 + 1"
  shows "0 \<le> mp \<and> mp \<le> 11 \<and> 1 \<le> d \<and> d \<le> (if mp = 11 then if doy = 365 then 29 else 28
    else if mp \<in> {1, 3, 6, 8} then 30 else 31) \<and> (10 \<le> mp \<longleftrightarrow> 306 \<le> doy)"
proof -
  have m: "153 * mp \<le> 5 * doy + 2" "5 * doy + 2 < 153 * mp + 153"
    using div_bounds [of 153 "5 * doy + 2"] by (simp_all add: mp_def)
  then have r: "0 \<le> mp" "mp \<le> 11" using assms by linarith+
  then have "mp = 0 \<or> mp = 1 \<or> mp = 2 \<or> mp = 3 \<or> mp = 4 \<or> mp = 5 \<or> mp = 6 \<or> mp = 7 \<or> mp = 8 \<or>
      mp = 9 \<or> mp = 10 \<or> mp = 11" by arith
  then show ?thesis by (elim disjE) (use m assms(1,2) in \<open>auto simp: d_def\<close>)
qed

lemma leap_year_era: "leap_year (y + e * 400) \<longleftrightarrow> leap_year y"
proof -
  have "(y + e * 400) mod 4 = y mod 4" "(y + e * 400) mod 100 = y mod 100"
    using mod_mult_self1 [of y "100 * e" 4] mod_mult_self1 [of y "4 * e" 100] by (simp_all add: mult.commute)
  then show ?thesis by (simp add: leap_year_def)
qed

text \<open>The date of a day is a date of the calendar, and its day number is that day.\<close>

lemma civil_date:
  assumes "civil n = (y, m, d)"
  shows "1 \<le> m" "m \<le> 12" "1 \<le> d" "d \<le> days_in m y" "day_number y m d = n"
    "- 719528 \<le> n \<Longrightarrow> n < 2932897 \<Longrightarrow> 0 \<le> y \<and> y \<le> 9999"
proof -
  define z where "z = n + 719468"
  define era where "era = z div 146097"
  define doe where "doe = z - era * 146097"
  define yoe where "yoe = year_of_era doe"
  define doy where "doy = day_of_year doe"
  define mp where "mp = (5 * doy + 2) div 153"
  have doe: "0 \<le> doe" "doe < 146097"
    using div_bounds [of 146097 z] by (simp_all add: doe_def era_def)
  from day_of_era [OF this] have yd: "0 \<le> yoe" "yoe \<le> 399" "0 \<le> doy" "doy \<le> 365"
    and leap: "doy = 365 \<Longrightarrow> leap_year (yoe + 1)"
    by (simp_all add: yoe_def doy_def)
  have split: "doe = 365 * yoe + yoe div 4 - yoe div 100 + doy"
    by (simp add: doy_def day_of_year_def Let_def yoe_def)
  have dy: "doe - (365 * yoe + yoe div 4 - yoe div 100) = doy"
    by (simp only: doy_def day_of_year_def Let_def yoe_def)
  define mon where "mon = (if mp < 10 then mp + 3 else mp - 9)"
  have "civil n = (yoe + era * 400 + (if mon \<le> 2 then 1 else 0), mon, doy - (153 * mp + 2) div 5 + 1)"
    unfolding civil_def Let_def z_def [symmetric] era_def [symmetric] doe_def [symmetric]
      year_of_era_def [symmetric] yoe_def [symmetric] dy mp_def [symmetric] mon_def [symmetric] by (rule refl)
  then have "(y, m, d) = (yoe + era * 400 + (if mon \<le> 2 then 1 else 0), mon, doy - (153 * mp + 2) div 5 + 1)"
    by (simp only: assms)
  then have "m = mon" "y = yoe + era * 400 + (if mon \<le> 2 then 1 else 0)"
    "d = doy - (153 * mp + 2) div 5 + 1" by blast+
  then have ymd: "y = yoe + era * 400 + (if m \<le> 2 then 1 else 0)"
    "m = (if mp < 10 then mp + 3 else mp - 9)" "d = doy - (153 * mp + 2) div 5 + 1"
    by (simp_all only: mon_def)
  have mp: "0 \<le> mp" "mp \<le> 11" and d1: "1 \<le> d" and m306: "10 \<le> mp \<longleftrightarrow> 306 \<le> doy"
    and dm: "d \<le> (if mp = 11 then if doy = 365 then 29 else 28 else if mp \<in> {1, 3, 6, 8} then 30 else 31)"
    using month_of_day [OF yd(3,4), folded mp_def, folded ymd(3)] by blast+
  show "1 \<le> d" by (rule d1)
  show m: "1 \<le> m" "m \<le> 12" using mp by (simp_all add: ymd(2))
  have m2: "m \<le> 2 \<longleftrightarrow> 10 \<le> mp" using mp by (simp add: ymd(2))
  have ly: "leap_year (yoe + 1 + era * 400) \<longleftrightarrow> leap_year (yoe + 1)"
    by (rule leap_year_era)
  show "d \<le> days_in m y"
  proof (cases "mp = 11")
    case True
    then have "m = 2" by (simp add: ymd(2))
    moreover from this have "y = yoe + 1 + era * 400" by (simp add: ymd(1))
    ultimately show ?thesis using True dm leap ly by (simp add: days_in_def split: if_splits)
  next
    case False
    then have "m \<noteq> 2" using mp by (simp add: ymd(2))
    moreover have "mp \<in> {1, 3, 6, 8} \<longleftrightarrow> m \<in> {4, 6, 9, 11}" using False mp by (auto simp: ymd(2))
    ultimately show ?thesis using False dm by (simp add: days_in_def)
  qed
  have ya: "(if m \<le> 2 then y - 1 else y) = yoe + era * 400" by (simp add: ymd(1))
  have mpa: "(if m > 2 then m - 3 else m + 9) = mp" using mp by (simp add: ymd(2))
  have ye: "(yoe + era * 400) div 400 = era" using yd by simp
  have "(153 * mp + 2) div 5 + d - 1 = doy" by (simp add: ymd(3))
  then show "day_number y m d = n"
    unfolding day_number_def Let_def ya mpa ye using split by (simp add: doe_def z_def algebra_simps)
  assume n: "- 719528 \<le> n" "n < 2932897"
  have z: "z = era * 146097 + doe" by (simp add: doe_def)
  have y4: "4 * (yoe div 4) \<le> yoe" "yoe < 4 * (yoe div 4) + 4"
    and y100: "100 * (yoe div 100) \<le> yoe" "yoe < 100 * (yoe div 100) + 100"
    using div_bounds [of 4 yoe] div_bounds [of 100 yoe] by simp_all
  have "- 1 \<le> era" "era \<le> 24" using n z doe by (simp_all add: z_def)
  have lo: "yoe = 399 \<and> 306 \<le> doy" if "era = - 1"
  proof -
    have "146037 \<le> doe" using n z that by (simp add: z_def)
    with split yd y4 y100 have "yoe = 399" by linarith
    with split \<open>146037 \<le> doe\<close> show ?thesis by simp
  qed
  have hi: "yoe < 399 \<or> doy < 306" if "era = 24"
  proof -
    have "doe < 146037" using n z that by (simp add: z_def)
    with split yd show ?thesis by (cases "yoe = 399") auto
  qed
  show "0 \<le> y \<and> y \<le> 9999"
    using lo hi m2 m306 yd \<open>- 1 \<le> era\<close> \<open>era \<le> 24\<close> unfolding ymd(1)
    by (cases "era = - 1"; cases "era = 24") auto
qed

section \<open>The whole text\<close>

text \<open>The times a four-digit year can write: the years 0 to 9999.\<close>

definition text_range :: "time \<Rightarrow> bool" where
  "text_range t \<longleftrightarrow> - 719528 * day_ns \<le> t \<and> t < 2932897 * day_ns"

lemma parse_date_text:
  assumes "text_range t"
  shows "parse_date (date_text t @ s) = Some (t div day_ns, s)"
proof -
  obtain y m d where c: "civil (t div day_ns) = (y, m, d)" by (cases "civil (t div day_ns)") auto
  have "- 719528 \<le> t div day_ns" "t div day_ns < 2932897"
    using assms div_bounds [of day_ns t] by (simp_all add: text_range_def day_ns_def)
  with civil_date [OF c] have y: "0 \<le> y" "y < 10 ^ 4" and md: "1 \<le> m" "m \<le> 12" "1 \<le> d" "d \<le> days_in m y"
    and n: "day_number y m d = t div day_ns" by auto
  have "d \<le> 31" using md(4) by (auto simp: days_in_def split: if_splits)
  moreover have "date_text t @ s = pad 4 y @ CHR ''-'' # pad 2 m @ CHR ''-'' # pad 2 d @ s"
    using c by (simp add: date_text_def day_ns_def)
  ultimately show ?thesis
    using y md n by (simp add: parse_date_def take_digits_pad getnum_pad)
qed

lemma parse_clock_text:
  assumes "0 \<le> s" "s < 86400" "0 \<le> ns" "ns < 1000000000"
  shows "parse_clock (pad 2 (s div 3600) @ CHR '':'' # pad 2 (s div 60 mod 60) @ CHR '':'' #
      pad 2 (s mod 60) @ frac_text ns @ ''Z'') = Some (s * 1000000000 + ns, ''Z'')"
proof -
  have "3600 * (s div 3600) + 60 * (s div 60 mod 60) + s mod 60 = s"
  proof -
    have "s div 60 div 60 = s div 3600" by (simp add: zdiv_zmult2_eq [symmetric])
    with mult_div_mod_eq [of 60 "s div 60"] mult_div_mod_eq [of 60 s] show ?thesis by linarith
  qed
  moreover have "0 \<le> s div 3600" "s div 3600 < 24" using assms by simp_all
  moreover have "s div 60 mod 60 < 100" "s mod 60 < 100"
    using pos_mod_bound [of 60 "s div 60"] pos_mod_bound [of 60 s] by linarith+
  ultimately show ?thesis
    using assms by (simp add: parse_clock_def getnum_pad parse_fraction_text not_le)
qed

lemma parse_fmtTime:
  assumes "text_range t"
  shows "parse_RFC3339 (fmtTime t) = Some t"
proof -
  define tod where "tod = t mod day_ns"
  define s where "s = tod div 1000000000"
  have tod: "0 \<le> tod" "tod < day_ns" by (simp_all add: tod_def day_ns_def)
  then have s: "0 \<le> s" "s < 86400" by (simp_all add: s_def day_ns_def)
  have "fmtTime t = date_text t @ CHR ''T'' # pad 2 (s div 3600) @ CHR '':'' # pad 2 (s div 60 mod 60) @
      CHR '':'' # pad 2 (s mod 60) @ frac_text (tod mod 1000000000) @ ''Z''"
    by (simp add: fmtTime_def Let_def s_def tod_def day_ns_def)
  moreover have "s * 1000000000 + tod mod 1000000000 = tod" by (simp add: s_def)
  moreover have "t div day_ns * day_ns + tod = t" by (simp add: tod_def)
  ultimately show ?thesis
    using assms s by (simp add: parse_RFC3339_def parse_date_text parse_clock_text parse_zone_def)
qed

lemma parseTime_fmtTime: "text_range t \<Longrightarrow> parseTime (fmtTime t) = t"
  by (simp add: parseTime_def parse_fmtTime)

end
