(* ===== verification/Api.thy ===== *)
theory Api
  imports Mcp Memory Notify Runs Url TimeText
begin

text \<open>
  The handlers of the public API (\<open>internal/httpapi\<close>): runs, steps, checkpoints, approvals,
  policies, memory and facts, and the Slack callback. A handler works on the state the MCP
  gateway has (the run manager with the shared store, and the gate) and runs to its end
  before the next one starts. Package json, the clock, the file system, HMAC-SHA256 and the
  source of identifiers are fields of \<open>api_world\<close>; a decoder gets the bytes it can read and
  whether reading then fails. A nil map and an empty one are not told apart.
\<close>

section \<open>Replies\<close>

datatype api_value =
    XStr string
  | XInt int
  | XFloat float64
  | XBool bool
  | XTime time
  | XSecond time
  | XJson json_map
  | XList "api_value list"
  | XMap "(string \<times> api_value) list"

text \<open>\<open>XSecond\<close> is a time in RFC 3339 without its fraction. Package json refuses NaN and infinities.\<close>

fun encodable :: "api_value \<Rightarrow> bool" where
  "encodable (XFloat v) = (case v of Fin _ \<Rightarrow> True | _ \<Rightarrow> False)"
| "encodable (XList xs) = list_all encodable xs"
| "encodable (XMap kvs) = list_all (\<lambda>(_, v). encodable v) kvs"
| "encodable _ = True"

text \<open>
  A reply: a status with a JSON body (None when encoding it failed: the status line is out
  by then), a plain text error, a status alone, the embedded page, the metrics, a panic on its
  way to the recoverer, a handler that never answers.
\<close>

datatype api_reply =
    JSONReply int "api_value option"
  | PlainError int string
  | StatusOnly int
  | ApprovalsPage
  | MetricsText string
  | Panicked
  | Hangs

definition WriteJSON :: "int \<Rightarrow> api_value \<Rightarrow> api_reply" where
  "WriteJSON status v = JSONReply status (if encodable v then Some v else None)"

definition WriteError :: "int \<Rightarrow> string \<Rightarrow> string \<Rightarrow> api_reply" where
  "WriteError status code message =
     WriteJSON status (XMap [(''code'', XStr code), (''message'', XStr message)])"

section \<open>Requests\<close>

type_synonym 'a decoder = "string \<Rightarrow> bool \<Rightarrow> string + 'a"

definition maxJSONBody :: nat where "maxJSONBody = 2 ^ 20"

text \<open>The JSON decoder on \<open>http.MaxBytesReader\<close>; a body that cannot be read has no bytes.\<close>

definition decodeJSON :: "'a decoder \<Rightarrow> http_request \<Rightarrow> string + 'a" where
  "decodeJSON dec r =
     (let res = (case RQ_Body r of None \<Rightarrow> dec [] True
                 | Some b \<Rightarrow> dec (take maxJSONBody b) (maxJSONBody < length b))
      in case res of Inl e \<Rightarrow> Inl (''invalid JSON: '' @ e) | Inr v \<Rightarrow> Inr v)"

record budget_body =
  BB_Tokens :: int64
  BB_Dollars :: float64
  BB_Loops :: int32
  BB_Seconds :: int32

record create_body =
  CB_Name :: string
  CB_Budget :: "budget_body option"
  CB_PolicyRef :: string
  CB_Metadata :: "(string \<times> string) list"

record tool_approval_body =
  TB_Tool :: string
  TB_SideEffect :: string
  TB_StepIndex :: int32
  TB_Arguments :: json_map

record approval_decision =
  AD_ApprovalID :: string
  AD_Decision :: string
  AD_Reason :: string
  AD_DecidedBy :: string

record policy_body =
  PB_Name :: string
  PB_Budget :: "budget_body option"
  PB_ToolAllowlist :: "string list"
  PB_ApprovalPolicy :: "(string \<times> string) list option"

record fact_body =
  FB_Namespace :: string
  FB_Key :: string
  FB_Value :: string
  FB_RunID :: string

record api_world =
  XW_create :: "create_body decoder"
  XW_checkpoint :: "(string \<times> json_map) decoder"
  XW_tool :: "tool_approval_body decoder"
  XW_decision :: "approval_decision decoder"
  XW_policy :: "policy_body decoder"
  XW_fact :: "fact_body decoder"
  XW_slack :: "string \<Rightarrow> slack_payload option"
  XW_hmac :: "string \<Rightarrow> string \<Rightarrow> byte list"
  XW_error :: "store_error \<Rightarrow> string"
  XW_memErr :: "memory_error \<Rightarrow> string"
  XW_files :: files
  XW_newID :: string
  XW_now :: time
  XW_unix :: int64

definition internal_error :: "string \<Rightarrow> api_reply" where
  "internal_error e = WriteError 500 ''internal_error'' e"

definition no_store :: api_reply where
  "no_store = WriteError 503 ''no_store'' ''no durable store configured''"

section \<open>Views\<close>

definition usage_view :: "int64 \<Rightarrow> int64 \<Rightarrow> float64 \<Rightarrow> int32 \<Rightarrow> api_value" where
  "usage_view pt ct dollars loops =
     XMap [(''promptTokens'', XInt (sint pt)), (''completionTokens'', XInt (sint ct)),
       (''tokens'', XInt (sint (pt + ct))), (''dollars'', XFloat dollars), (''loops'', XInt (sint loops))]"

definition budget_view :: "int64 \<Rightarrow> float64 \<Rightarrow> int32 \<Rightarrow> int32 \<Rightarrow> api_value" where
  "budget_view tokens dollars loops seconds =
     XMap [(''tokens'', XInt (sint tokens)), (''dollars'', XFloat dollars),
       (''loops'', XInt (sint loops)), (''seconds'', XInt (sint seconds))]"

definition approvalView :: "approval_record \<Rightarrow> api_value" where
  "approvalView a =
     XMap ([(''id'', XStr (AR_ID a)), (''runId'', XStr (AR_RunID a)),
        (''stepIndex'', XInt (sint (AR_StepIndex a))), (''tool'', XStr (AR_Tool a)),
        (''sideEffect'', XStr (AR_SideEffect a)), (''arguments'', XJson (AR_Arguments a)),
        (''status'', XStr (AR_Status a)), (''createdAt'', XTime (AR_CreatedAt a))] @
       (if AR_Reason a \<noteq> '''' then [(''reason'', XStr (AR_Reason a))] else []) @
       (if AR_DecidedBy a \<noteq> '''' then [(''decidedBy'', XStr (AR_DecidedBy a))] else []) @
       (case AR_DecidedAt a of None \<Rightarrow> [] | Some t \<Rightarrow> [(''decidedAt'', XSecond t)]))"

definition toolCallView :: "tool_call_record \<Rightarrow> api_value" where
  "toolCallView t =
     XMap [(''id'', XStr (TC_ID t)), (''runId'', XStr (TC_RunID t)),
       (''stepIndex'', XInt (sint (TC_StepIndex t))), (''tool'', XStr (TC_Tool t)),
       (''sideEffect'', XStr (TC_SideEffect t)), (''arguments'', XJson (TC_Arguments t)),
       (''status'', XStr (TC_Status t)), (''createdAt'', XTime (TC_CreatedAt t))]"

definition runViewFromManager :: "run_obj \<Rightarrow> api_value" where
  "runViewFromManager r =
     (let v = run_View r; u = VW_Usage v; b = VW_Budget v
      in XMap [(''id'', XStr (VW_ID v)), (''name'', XStr (VW_Name v)), (''status'', XStr (VW_Status v)),
           (''haltReason'', XStr (VW_HaltReason v)),
           (''budget'', budget_view (B_Tokens b) (B_Dollars b) (B_Loops b) (B_Seconds b)),
           (''usage'', usage_view (U_PromptTokens u) (U_CompletionTokens u) (U_Dollars u) (U_Loops u)),
           (''createdAt'', XTime (VW_CreatedAt v)), (''updatedAt'', XTime (VW_UpdatedAt v))])"

definition checkpoint_view :: "checkpoint_record \<Rightarrow> api_value" where
  "checkpoint_view cp =
     XMap [(''runId'', XStr (CP_RunID cp)), (''stepIndex'', XInt (sint (CP_StepIndex cp))),
       (''usage'', usage_view (CP_UsagePromptTokens cp) (CP_UsageCompletionTokens cp)
          (CP_UsageDollars cp) (CP_UsageLoops cp)),
       (''payload'', XJson (CP_Payload cp)), (''createdAt'', XTime (CP_CreatedAt cp))]"

definition policyView :: "policy_record \<Rightarrow> api_value" where
  "policyView p =
     XMap [(''name'', XStr (PR_Name p)),
       (''budget'', budget_view (PR_BudgetTokens p) (PR_BudgetDollars p) (PR_BudgetLoops p) (PR_BudgetSeconds p)),
       (''toolAllowlist'', XList (map XStr (PR_ToolAllowlist p))),
       (''approvalPolicy'', XMap [(''requireFor'', XList (map (\<lambda>r.
          XMap [(''tool'', XStr (Rule_Tool r)), (''sideEffect'', XStr (Rule_SideEffect r))]) (PR_ApprovalRules p)))]),
       (''createdAt'', XTime (PR_CreatedAt p)), (''updatedAt'', XTime (PR_UpdatedAt p))]"

definition factView :: "fact \<Rightarrow> api_value" where
  "factView f =
     XMap ([(''namespace'', XStr (F_Namespace f)), (''key'', XStr (F_Key f)), (''value'', XStr (F_Value f)),
        (''updatedAt'', XSecond (F_UpdatedAt f))] @
       (if F_RunID f \<noteq> '''' then [(''runId'', XStr (F_RunID f))] else []))"

text \<open>A missing \<open>os.FileInfo\<close> shows the zero time.\<close>

definition entry_fields :: "mem_entry \<Rightarrow> (string \<times> api_value) list" where
  "entry_fields e =
     [(''namespace'', XStr (ME_Namespace e)), (''name'', XStr (ME_Name e)), (''title'', XStr (ME_Title e)),
      (''description'', XStr (ME_Description e)), (''format'', XStr (ME_Format e)),
      (''size'', XInt (ME_Size e)),
      (''modTime'', XTime (case ME_ModTime e of None \<Rightarrow> zero_time | Some t \<Rightarrow> t))]"

section \<open>Runs\<close>

text \<open>The budget of a new run: the policy's, then every non-zero inline field on top.\<close>

definition policy_budget :: "policy_record \<Rightarrow> budget" where
  "policy_budget p = \<lparr>B_Tokens = PR_BudgetTokens p, B_Dollars = PR_BudgetDollars p,
     B_Loops = PR_BudgetLoops p, B_Seconds = PR_BudgetSeconds p\<rparr>"

definition inline_budget :: "budget_body option \<Rightarrow> budget option \<Rightarrow> budget option" where
  "inline_budget inl base =
     (case inl of
        None \<Rightarrow> base
      | Some bb \<Rightarrow>
          (let b = (case base of None \<Rightarrow> \<lparr>B_Tokens = 0, B_Dollars = Fin 0, B_Loops = 0, B_Seconds = 0\<rparr> | Some b \<Rightarrow> b);
               b = (if BB_Tokens bb \<noteq> 0 then b\<lparr>B_Tokens := BB_Tokens bb\<rparr> else b);
               b = (if BB_Dollars bb \<noteq> Fin 0 then b\<lparr>B_Dollars := BB_Dollars bb\<rparr> else b);
               b = (if BB_Loops bb \<noteq> 0 then b\<lparr>B_Loops := BB_Loops bb\<rparr> else b);
               b = (if BB_Seconds bb \<noteq> 0 then b\<lparr>B_Seconds := BB_Seconds bb\<rparr> else b)
           in Some b))"

definition referenced_budget ::
    "api_world \<Rightarrow> string \<Rightarrow> mcp_state \<Rightarrow> mcp_state \<times> (api_reply + budget option)" where
  "referenced_budget w ref s =
     (if ref = '''' then (s, Inr None)
      else (let (s, res) = on_store (GetPolicy ref) s
            in (s, case res of
                 None \<Rightarrow> Inl (WriteError 503 ''no_store'' ''policyRef requires a durable store'')
               | Some (Inl ErrNotFound) \<Rightarrow> Inl (WriteError 400 ''unknown_policy'' (''no policy named '' @ ref))
               | Some (Inl e) \<Rightarrow> Inl (internal_error (XW_error w e))
               | Some (Inr p) \<Rightarrow> Inr (Some (policy_budget p)))))"

definition handleCreateRun :: "api_world \<Rightarrow> http_request \<Rightarrow> mcp_state \<Rightarrow> mcp_state \<times> api_reply" where
  "handleCreateRun w r s =
     (case decodeJSON (XW_create w) r of
        Inl e \<Rightarrow> (s, WriteError 400 ''bad_request'' e)
      | Inr body \<Rightarrow>
          (let (s, res) = referenced_budget w (CB_PolicyRef body) s
           in case res of
                Inl reply \<Rightarrow> (s, reply)
              | Inr base \<Rightarrow>
                  (let (m, a) = run_Create \<lparr>CO_ID = '''', CO_Name = CB_Name body,
                         CO_Budget = inline_budget (CB_Budget body) base, CO_PolicyRef = CB_PolicyRef body,
                         CO_Metadata = CB_Metadata body\<rparr> (XW_newID w) (XW_now w) (mc_runs s)
                   in (s\<lparr>mc_runs := m\<rparr>, WriteJSON 201 (runViewFromManager (run_at m a))))))"

definition run_not_found :: api_reply where
  "run_not_found = WriteError 404 ''not_found'' ''run not found''"

definition writeHalt :: "halt_error \<Rightarrow> api_reply" where
  "writeHalt e = WriteError 402 (he_Reason e) (''run halted: '' @ he_Reason e)"

definition handleBeginStep :: "api_world \<Rightarrow> string \<Rightarrow> mcp_state \<Rightarrow> mcp_state \<times> api_reply" where
  "handleBeginStep w rid s =
     (case get_run rid (mc_runs s) of
        None \<Rightarrow> (s, run_not_found)
      | Some a \<Rightarrow>
          (let (m, res) = BeginStep a (XW_now w) (mc_runs s)
           in (s\<lparr>mc_runs := m\<rparr>,
               case res of Inl e \<Rightarrow> writeHalt e
               | Inr step \<Rightarrow> WriteJSON 200 (XMap [(''stepIndex'', XInt (sint step))]))))"

definition checkpoint_error_text :: "api_world \<Rightarrow> checkpoint_error \<Rightarrow> string" where
  "checkpoint_error_text w e =
     (case e of RunNotFound rid \<Rightarrow> ''run '' @ rid @ '' not found'' | CheckpointStore e \<Rightarrow> XW_error w e)"

definition handleSaveCheckpoint :: "api_world \<Rightarrow> string \<Rightarrow> http_request \<Rightarrow> mcp_state \<Rightarrow> mcp_state \<times> api_reply" where
  "handleSaveCheckpoint w rid r s =
     (if get_run rid (mc_runs s) = None then (s, run_not_found)
      else (case decodeJSON (XW_checkpoint w) r of
          Inl e \<Rightarrow> (s, WriteError 400 ''bad_request'' e)
        | Inr (name, payload) \<Rightarrow>
            (let (m, err) = run_Checkpoint rid name payload (XW_now w) (mc_runs s)
             in (s\<lparr>mc_runs := m\<rparr>,
                 case err of Some e \<Rightarrow> internal_error (checkpoint_error_text w e)
                 | None \<Rightarrow> WriteJSON 201 (XMap [(''ok'', XBool True)])))))"

definition handleCancelRun :: "api_world \<Rightarrow> string \<Rightarrow> mcp_state \<Rightarrow> mcp_state \<times> api_reply" where
  "handleCancelRun w rid s =
     (case get_run rid (mc_runs s) of
        None \<Rightarrow> (s, run_not_found)
      | Some a \<Rightarrow>
          (let m = run_Cancel a (XW_now w) (mc_runs s)
           in (s\<lparr>mc_runs := m\<rparr>, WriteJSON 200 (runViewFromManager (run_at m a)))))"

definition handleListToolCalls :: "api_world \<Rightarrow> string \<Rightarrow> mcp_state \<Rightarrow> mcp_state \<times> api_reply" where
  "handleListToolCalls w rid s =
     (let (s, run) = on_store (GetRun rid) s
      in case run of
           None \<Rightarrow> (s, no_store)
         | Some (Inl ErrNotFound) \<Rightarrow> (s, run_not_found)
         | Some (Inl e) \<Rightarrow> (s, internal_error (XW_error w e))
         | Some (Inr _) \<Rightarrow>
             (let (s, calls) = on_store (ListToolCalls rid) s
              in (s, case calls of
                   None \<Rightarrow> no_store
                 | Some (Inl e) \<Rightarrow> internal_error (XW_error w e)
                 | Some (Inr cs) \<Rightarrow> WriteJSON 200 (XList (map toolCallView cs)))))"

definition handleGetCheckpoint :: "api_world \<Rightarrow> string \<Rightarrow> mcp_state \<Rightarrow> mcp_state \<times> api_reply" where
  "handleGetCheckpoint w rid s =
     (let (s, res) = on_store (LatestCheckpoint rid) s
      in (s, case res of
           None \<Rightarrow> no_store
         | Some (Inl ErrNotFound) \<Rightarrow> WriteError 404 ''not_found'' (''no checkpoint for run '' @ rid)
         | Some (Inl e) \<Rightarrow> internal_error (XW_error w e)
         | Some (Inr cp) \<Rightarrow> WriteJSON 200 (checkpoint_view cp)))"

section \<open>Approvals\<close>

definition handleRequestApproval :: "api_world \<Rightarrow> string \<Rightarrow> http_request \<Rightarrow> mcp_state \<Rightarrow> mcp_state \<times> api_reply" where
  "handleRequestApproval w rid r s =
     (if get_run rid (mc_runs s) = None then (s, run_not_found)
      else (case decodeJSON (XW_tool w) r of
          Inl e \<Rightarrow> (s, WriteError 400 ''bad_request'' e)
        | Inr body \<Rightarrow>
            if TB_Tool body = '''' then (s, WriteError 400 ''bad_request'' ''tool is required'')
            else
              (let (s, res) = with_gate (gate_Create
                     \<lparr>Q_RunID = rid, Q_StepIndex = TB_StepIndex body, Q_Tool = TB_Tool body,
                      Q_SideEffect = TB_SideEffect body, Q_Arguments = TB_Arguments body\<rparr>
                     (XW_newID w) (XW_now w)) s
               in (s, case res of
                    Inl e \<Rightarrow> internal_error (XW_error w e)
                  | Inr None \<Rightarrow>
                      WriteJSON 200 (XMap [(''status'', XStr ''approved''), (''required'', XBool False)])
                  | Inr (Some rec) \<Rightarrow> WriteJSON 201 (approvalView rec)))))"

text \<open>\<open>Gate.Get\<close> on the shared store, None for its panic.\<close>

definition approvals_Get :: "string \<Rightarrow> mcp_state \<Rightarrow> mcp_state \<times> (store_error + approval_record) option" where
  "approvals_Get aid =
     with_gate (\<lambda>g. case gate_Get aid g of None \<Rightarrow> (g, None) | Some (g, res) \<Rightarrow> (g, Some res))"

definition handleGetApproval :: "api_world \<Rightarrow> string \<Rightarrow> mcp_state \<Rightarrow> mcp_state \<times> api_reply" where
  "handleGetApproval w aid s =
     (let (s, res) = approvals_Get aid s
      in (s, case res of
           None \<Rightarrow> Panicked
         | Some (Inl ErrNotFound) \<Rightarrow> WriteError 404 ''not_found'' ''approval not found''
         | Some (Inl e) \<Rightarrow> internal_error (XW_error w e)
         | Some (Inr a) \<Rightarrow> WriteJSON 200 (approvalView a)))"

definition pendingForRun :: "string \<Rightarrow> mcp_state \<Rightarrow> mcp_state \<times> (store_error + approval_record list)" where
  "pendingForRun rid s =
     (let (s, res) = on_store (ListApprovals ApprovalPending) s
      in (s, case res of
           None \<Rightarrow> Inr []
         | Some (Inl e) \<Rightarrow> Inl e
         | Some (Inr as) \<Rightarrow> Inr (filter (\<lambda>a. AR_RunID a = rid) as)))"

datatype view_error = NoStore | ViewStore store_error

definition run_fields :: "run_record \<Rightarrow> string \<Rightarrow> (string \<times> api_value) list" where
  "run_fields rec status =
     [(''id'', XStr (RR_ID rec)), (''name'', XStr (RR_Name rec)), (''status'', XStr status),
      (''haltReason'', XStr (RR_HaltReason rec)),
      (''usage'', usage_view (RR_UsagePromptTokens rec) (RR_UsageCompletionTokens rec)
         (RR_UsageDollars rec) (RR_UsageLoops rec)),
      (''createdAt'', XTime (RR_CreatedAt rec)), (''updatedAt'', XTime (RR_UpdatedAt rec))]"

definition runViewBody :: "string \<Rightarrow> mcp_state \<Rightarrow> mcp_state \<times> (view_error + api_value)" where
  "runViewBody rid s =
     (let (s, run) = on_store (GetRun rid) s
      in case run of
           None \<Rightarrow> (s, Inl NoStore)
         | Some (Inl e) \<Rightarrow> (s, Inl (ViewStore e))
         | Some (Inr rec) \<Rightarrow>
             (let (s, pending) = pendingForRun rid s
              in (s, Inr (XMap (case pending of
                   Inr (a # _) \<Rightarrow> run_fields rec ''waiting_approval'' @ [(''pendingApproval'', approvalView a)]
                 | _ \<Rightarrow> run_fields rec (RR_Status rec))))))"

definition handleGetRun :: "api_world \<Rightarrow> string \<Rightarrow> mcp_state \<Rightarrow> mcp_state \<times> api_reply" where
  "handleGetRun w rid s =
     (let (s, res) = runViewBody rid s
      in (s, case res of
           Inl (ViewStore ErrNotFound) \<Rightarrow> run_not_found
         | Inl NoStore \<Rightarrow> no_store
         | Inl (ViewStore e) \<Rightarrow> internal_error (XW_error w e)
         | Inr body \<Rightarrow> WriteJSON 200 body))"

definition decisionToBool :: "string \<Rightarrow> bool option" where
  "decisionToBool d = (if d = ''approve'' then Some True else if d = ''deny'' then Some False else None)"

text \<open>The approval a decision is about: the named one, which must be this run's, or the only pending one.\<close>

definition chosen_approval ::
    "api_world \<Rightarrow> string \<Rightarrow> string \<Rightarrow> mcp_state \<Rightarrow> mcp_state \<times> (api_reply + string)" where
  "chosen_approval w rid aid s =
     (if aid = '''' then
        (let (s, pending) = pendingForRun rid s
         in (s, case pending of
              Inl e \<Rightarrow> Inl (internal_error (XW_error w e))
            | Inr [] \<Rightarrow> Inl (WriteError 409 ''no_pending_approval'' ''no approval is pending for this run'')
            | Inr [a] \<Rightarrow> Inr (AR_ID a)
            | Inr _ \<Rightarrow> Inl (WriteError 409 ''ambiguous_approval''
                         ''run has multiple pending approvals; specify approvalId'')))
      else
        (let (s, res) = approvals_Get aid s
         in (s, case res of
              None \<Rightarrow> Inl Panicked
            | Some (Inl _) \<Rightarrow> Inl (WriteError 404 ''not_found'' ''approval not found'')
            | Some (Inr a) \<Rightarrow>
                if AR_RunID a \<noteq> rid then Inl (WriteError 400 ''bad_request'' ''approval does not belong to this run'')
                else Inr aid)))"

text \<open>The zero record stands for what \<open>Get\<close> returns with its error.\<close>

definition zero_approval :: approval_record where
  "zero_approval =
     \<lparr>AR_ID = '''', AR_RunID = '''', AR_StepIndex = 0, AR_Tool = '''', AR_SideEffect = '''',
      AR_Arguments = [], AR_Status = '''', AR_Reason = '''', AR_DecidedBy = '''',
      AR_CreatedAt = zero_time, AR_DecidedAt = None\<rparr>"

definition resolved_reply :: "string \<Rightarrow> string \<Rightarrow> mcp_state \<Rightarrow> mcp_state \<times> api_reply" where
  "resolved_reply rid aid s =
     (let (s, res) = runViewBody rid s
      in case res of
           Inr body \<Rightarrow> (s, WriteJSON 200 body)
         | Inl _ \<Rightarrow>
             (let (s, got) = approvals_Get aid s
              in (s, case got of
                   None \<Rightarrow> Panicked
                 | Some (Inl _) \<Rightarrow> WriteJSON 200 (XMap [(''resolved'', approvalView zero_approval)])
                 | Some (Inr a) \<Rightarrow> WriteJSON 200 (XMap [(''resolved'', approvalView a)]))))"

definition handleApprove :: "api_world \<Rightarrow> string \<Rightarrow> http_request \<Rightarrow> mcp_state \<Rightarrow> mcp_state \<times> api_reply" where
  "handleApprove w rid r s =
     (case decodeJSON (XW_decision w) r of
        Inl e \<Rightarrow> (s, WriteError 400 ''bad_request'' e)
      | Inr dec \<Rightarrow>
          (case decisionToBool (AD_Decision dec) of
             None \<Rightarrow> (s, WriteError 400 ''bad_request'' ''decision must be \"approve\" or \"deny\"'')
           | Some approve \<Rightarrow>
               (let (s, chosen) = chosen_approval w rid (AD_ApprovalID dec) s
                in case chosen of
                     Inl reply \<Rightarrow> (s, reply)
                   | Inr aid \<Rightarrow>
                       (let (s, res) = with_gate (gate_Resolve aid
                              \<lparr>D_Approved = approve, D_Reason = AD_Reason dec, D_By = AD_DecidedBy dec\<rparr> (XW_now w)) s
                        in case res of
                             Inl ErrNotFound \<Rightarrow>
                               (s, WriteError 409 ''already_resolved'' ''approval is unknown or already resolved'')
                           | Inl e \<Rightarrow> (s, internal_error (XW_error w e))
                           | Inr SendBlocks \<Rightarrow> (s, Hangs)
                           | Inr _ \<Rightarrow> resolved_reply rid aid s))))"

definition handleListApprovals :: "api_world \<Rightarrow> string \<Rightarrow> mcp_state \<Rightarrow> mcp_state \<times> api_reply" where
  "handleListApprovals w qs s =
     (let (s, res) = on_store (ListApprovals (values_Get (URL_Query qs) ''status'')) s
      in (s, case res of
           None \<Rightarrow> WriteJSON 200 (XList [])
         | Some (Inl e) \<Rightarrow> internal_error (XW_error w e)
         | Some (Inr as) \<Rightarrow> WriteJSON 200 (XList (map approvalView as))))"

text \<open>
  The Slack callback: the messages it sends go out after the reply. An error of the decision
  other than its being taken is only logged; the message is refreshed all the same.
\<close>

definition handleSlackInteraction ::
    "api_world \<Rightarrow> slack \<Rightarrow> http_request \<Rightarrow> mcp_state \<Rightarrow> mcp_state \<times> outgoing list \<times> api_reply" where
  "handleSlackInteraction w sl r s =
     (case RQ_Body r of
        None \<Rightarrow> (s, [], PlainError 400 ''bad request'')
      | Some body \<Rightarrow>
          if maxJSONBody < length body then (s, [], PlainError 400 ''bad request'')
          else if \<not> VerifySignature (XW_hmac w) sl (XW_unix w)
                 (header_get (RQ_Header r) ''X-Slack-Request-Timestamp'')
                 (header_get (RQ_Header r) ''X-Slack-Signature'') body
            then (s, [], PlainError 401 ''invalid signature'')
          else
            (case ParseQuery body of
               None \<Rightarrow> (s, [], PlainError 400 ''bad payload'')
             | Some form \<Rightarrow>
                 (case ParseInteraction (XW_slack w) (values_Get form ''payload'') of
                    None \<Rightarrow> (s, [], StatusOnly 200)
                  | Some act \<Rightarrow>
                      (let (s, got) = approvals_Get (SA_ApprovalID act) s
                       in case got of
                            None \<Rightarrow> (s, [], Panicked)
                          | Some (Inl _) \<Rightarrow> (s, [], StatusOnly 200)
                          | Some (Inr a) \<Rightarrow>
                              (let (s, res) = with_gate (gate_Resolve (SA_ApprovalID act)
                                     \<lparr>D_Approved = SA_Approve act, D_Reason = ''via Slack'', D_By = SA_By act\<rparr>
                                     (XW_now w)) s
                               in if res = Inr SendBlocks then (s, [], Hangs)
                                  else (s, UpdateResolved sl act a, StatusOnly 200))))))"

section \<open>Policies\<close>

definition toApprovalRules :: "(string \<times> string) list option \<Rightarrow> approval_rule list" where
  "toApprovalRules ap =
     (case ap of None \<Rightarrow> [] | Some rs \<Rightarrow> map (\<lambda>(tool, se). \<lparr>Rule_Tool = tool, Rule_SideEffect = se\<rparr>) rs)"

definition posted_policy :: "policy_body \<Rightarrow> time \<Rightarrow> policy_record" where
  "posted_policy body now =
     (let (tokens, dollars, loops, seconds) =
        (case PB_Budget body of
           None \<Rightarrow> (0, Fin 0, 0, 0)
         | Some b \<Rightarrow> (BB_Tokens b, BB_Dollars b, BB_Loops b, BB_Seconds b))
      in \<lparr>PR_Name = PB_Name body, PR_BudgetTokens = tokens, PR_BudgetDollars = dollars,
          PR_BudgetLoops = loops, PR_BudgetSeconds = seconds,
          PR_ToolAllowlist = PB_ToolAllowlist body,
          PR_ApprovalRules = toApprovalRules (PB_ApprovalPolicy body),
          PR_CreatedAt = now, PR_UpdatedAt = now\<rparr>)"

definition handleRegisterPolicy :: "api_world \<Rightarrow> http_request \<Rightarrow> mcp_state \<Rightarrow> mcp_state \<times> api_reply" where
  "handleRegisterPolicy w r s =
     (case decodeJSON (XW_policy w) r of
        Inl e \<Rightarrow> (s, WriteError 400 ''bad_request'' e)
      | Inr body \<Rightarrow>
          if TrimSpace (PB_Name body) = '''' then (s, WriteError 400 ''bad_request'' ''policy name is required'')
          else
            (let rec = posted_policy body (XW_now w); (s, res) = on_store (UpsertPolicy rec) s
             in case res of
                  None \<Rightarrow> (s, no_store)
                | Some (Inl e) \<Rightarrow> (s, internal_error (XW_error w e))
                | Some (Inr _) \<Rightarrow>
                    (let (s, saved) = on_store (GetPolicy (PB_Name body)) s
                     in (s, WriteJSON 200 (policyView (case saved of Some (Inr p) \<Rightarrow> p | _ \<Rightarrow> rec))))))"

definition handleListPolicies :: "api_world \<Rightarrow> mcp_state \<Rightarrow> mcp_state \<times> api_reply" where
  "handleListPolicies w s =
     (let (s, res) = on_store ListPolicies s
      in (s, case res of
           None \<Rightarrow> no_store
         | Some (Inl e) \<Rightarrow> internal_error (XW_error w e)
         | Some (Inr ps) \<Rightarrow> WriteJSON 200 (XList (map policyView ps))))"

definition handleGetPolicy :: "api_world \<Rightarrow> string \<Rightarrow> mcp_state \<Rightarrow> mcp_state \<times> api_reply" where
  "handleGetPolicy w name s =
     (let (s, res) = on_store (GetPolicy name) s
      in (s, case res of
           None \<Rightarrow> no_store
         | Some (Inl ErrNotFound) \<Rightarrow> WriteError 404 ''not_found'' ''policy not found''
         | Some (Inl e) \<Rightarrow> internal_error (XW_error w e)
         | Some (Inr p) \<Rightarrow> WriteJSON 200 (policyView p)))"

section \<open>Memory and facts\<close>

definition writeMemoryErr :: "api_world \<Rightarrow> memory_error \<Rightarrow> api_reply" where
  "writeMemoryErr w e =
     (case e of
        ErrNoEntry \<Rightarrow> WriteError 404 ''not_found'' ''memory entry not found''
      | ErrUnsafePath \<Rightarrow> WriteError 400 ''bad_request'' ''unsafe memory path''
      | _ \<Rightarrow> internal_error (XW_memErr w e))"

text \<open>In a list an empty description is left out.\<close>

definition entry_view :: "mem_entry \<Rightarrow> api_value" where
  "entry_view e = XMap (filter (\<lambda>(k, _). k \<noteq> ''description'' \<or> ME_Description e \<noteq> '''') (entry_fields e))"

definition handleListMemory :: "api_world \<Rightarrow> string \<Rightarrow> string \<Rightarrow> api_reply" where
  "handleListMemory w dir qs =
     (let ns = values_Get (URL_Query qs) ''namespace''; q = values_Get (URL_Query qs) ''q''
      in case (if q \<noteq> '''' then memory_Search (XW_files w) dir ns q
               else memory_List (XW_files w) dir ns) of
           Inl e \<Rightarrow> writeMemoryErr w e
         | Inr es \<Rightarrow> WriteJSON 200 (XList (map entry_view es)))"

definition handleReadMemory :: "api_world \<Rightarrow> string \<Rightarrow> string \<Rightarrow> api_reply" where
  "handleReadMemory w dir qs =
     (let ns = values_Get (URL_Query qs) ''namespace''; name = values_Get (URL_Query qs) ''name''
      in if name = '''' then WriteError 400 ''bad_request'' ''name is required''
         else (case memory_Read (XW_files w) dir ns name of
             Inl e \<Rightarrow> writeMemoryErr w e
           | Inr (content, e) \<Rightarrow> WriteJSON 200 (XMap (entry_fields e @ [(''content'', XStr content)]))))"

definition handleListFacts :: "api_world \<Rightarrow> string \<Rightarrow> mcp_state \<Rightarrow> mcp_state \<times> api_reply" where
  "handleListFacts w qs s =
     (let (s, res) = on_store (ListFacts (values_Get (URL_Query qs) ''namespace'')) s
      in (s, case res of
           None \<Rightarrow> WriteJSON 200 (XList [])
         | Some (Inl e) \<Rightarrow> internal_error (XW_error w e)
         | Some (Inr fs) \<Rightarrow> WriteJSON 200 (XList (map factView fs))))"

definition handlePutFact :: "api_world \<Rightarrow> http_request \<Rightarrow> mcp_state \<Rightarrow> mcp_state \<times> api_reply" where
  "handlePutFact w r s =
     (if m_store (mc_runs s) = None then (s, no_store)
      else (case decodeJSON (XW_fact w) r of
          Inl e \<Rightarrow> (s, WriteError 400 ''bad_request'' e)
        | Inr body \<Rightarrow>
            if FB_Key body = '''' then (s, WriteError 400 ''bad_request'' ''key is required'')
            else
              (let f = \<lparr>F_Namespace = FB_Namespace body, F_Key = FB_Key body, F_Value = FB_Value body,
                        F_RunID = FB_RunID body, F_UpdatedAt = XW_now w\<rparr>;
                   (s, res) = on_store (PutFact f) s
               in (s, case res of
                    None \<Rightarrow> no_store
                  | Some (Inl e) \<Rightarrow> internal_error (XW_error w e)
                  | Some (Inr _) \<Rightarrow> WriteJSON 201 (factView f)))))"

end
