(* ===== verification/Metrics.thy ===== *)
theory Metrics
  imports Strconv Api
begin

text \<open>
  The Prometheus scrape (\<open>internal/httpapi/metrics.go\<close>): what is counted from the store and
  how it is written, byte for byte, in the text exposition format. SQLite's sum of a REAL
  column is the argument \<open>fsum\<close>.
\<close>

section \<open>The exposition format\<close>

definition backslash :: char where "backslash = CHR 0x5C"

definition replace_char :: "char \<Rightarrow> string \<Rightarrow> string \<Rightarrow> string" where
  "replace_char c t s = concat (map (\<lambda>x. if x = c then t else [x]) s)"

definition escapeHelp :: "string \<Rightarrow> string" where
  "escapeHelp s =
     replace_char (CHR 0x0A) [backslash, CHR ''n''] (replace_char backslash [backslash, backslash] s)"

definition escapeLabelValue :: "string \<Rightarrow> string" where
  "escapeLabelValue s =
     replace_char (CHR 0x0A) [backslash, CHR ''n'']
       (replace_char (CHR 0x22) [backslash, CHR 0x22] (replace_char backslash [backslash, backslash] s))"

definition metric_help :: "string \<Rightarrow> string \<Rightarrow> string" where
  "metric_help name t = ''# HELP '' @ name @ '' '' @ escapeHelp t @ newline"

definition metric_type :: "string \<Rightarrow> string \<Rightarrow> string" where
  "metric_type name t = ''# TYPE '' @ name @ '' '' @ t @ newline"

text \<open>The labels are those of a map, here already in the order of their keys.\<close>

fun label_list :: "(string \<times> string) list \<Rightarrow> string" where
  "label_list [] = ''''"
| "label_list [(k, v)] = k @ [CHR ''='', CHR 0x22] @ escapeLabelValue v @ [CHR 0x22]"
| "label_list ((k, v) # l # ls) =
     k @ [CHR ''='', CHR 0x22] @ escapeLabelValue v @ [CHR 0x22] @ '','' @ label_list (l # ls)"

definition metric_sample :: "string \<Rightarrow> (string \<times> string) list \<Rightarrow> float64 \<Rightarrow> string" where
  "metric_sample name labels v =
     name @ (if labels = [] then [] else ''{'' @ label_list (sort_by (\<lambda>x y. text_le (fst x) (fst y)) labels) @ ''}'') @
     '' '' @ FormatG v @ newline"

section \<open>What is counted\<close>

definition count_by :: "('r \<Rightarrow> string) \<Rightarrow> 'r list \<Rightarrow> string \<Rightarrow> nat" where
  "count_by f rs k = length (filter (\<lambda>r. f r = k) rs)"

definition sortedKeys :: "string list \<Rightarrow> string list" where
  "sortedKeys ks = sort_by text_le (remdups ks)"

definition f64_of_nat :: "nat \<Rightarrow> float64" where "f64_of_nat n = f64 (of_nat n)"

record spend_total =
  ST_Dollars :: float64
  ST_Tokens :: int64
  ST_Calls :: int64

fun add_totals ::
    "(float64 list \<Rightarrow> float64) \<Rightarrow> run_record list \<Rightarrow> spend_total \<Rightarrow> db \<Rightarrow> spend_total db_result" where
  "add_totals fsum [] acc d = (d, Inr acc)"
| "add_totals fsum (r # rs) acc d =
     (let (d, res) = Totals fsum (RR_ID r) d
      in case res of
           Inl e \<Rightarrow> (d, Inl e)
         | Inr t \<Rightarrow> add_totals fsum rs
             \<lparr>ST_Dollars = fadd (ST_Dollars acc) (LT_Dollars t),
              ST_Tokens = ST_Tokens acc + (LT_PromptTokens t + LT_CompletionTokens t),
              ST_Calls = ST_Calls acc + LT_Calls t\<rparr> d)"

definition run_metrics :: "run_record list \<Rightarrow> string" where
  "run_metrics rs =
     metric_help ''riskkernel_runs_total'' ''Number of governed runs by lifecycle status.'' @
     metric_type ''riskkernel_runs_total'' ''gauge'' @
     (if rs = [] then metric_sample ''riskkernel_runs_total'' [(''status'', ''running'')] fzero else []) @
     concat (map (\<lambda>s. metric_sample ''riskkernel_runs_total'' [(''status'', s)]
         (f64_of_nat (count_by RR_Status rs s))) (sortedKeys (map RR_Status rs))) @
     metric_help ''riskkernel_runs_halted_total'' ''Number of halted runs by halt reason.'' @
     metric_type ''riskkernel_runs_halted_total'' ''gauge'' @
     concat (map (\<lambda>s. metric_sample ''riskkernel_runs_halted_total'' [(''reason'', s)]
         (f64_of_nat (count_by RR_HaltReason rs s)))
       (sortedKeys (filter (\<lambda>s. s \<noteq> '''') (map RR_HaltReason rs))))"

definition spend_metrics :: "spend_total \<Rightarrow> string" where
  "spend_metrics t =
     metric_help ''riskkernel_spend_dollars_total''
       ''Total spend in dollars across all runs, summed from the cost ledger.'' @
     metric_type ''riskkernel_spend_dollars_total'' ''counter'' @
     metric_sample ''riskkernel_spend_dollars_total'' [] (ST_Dollars t) @
     metric_help ''riskkernel_tokens_total'' ''Total tokens (prompt + completion) across all runs.'' @
     metric_type ''riskkernel_tokens_total'' ''counter'' @
     metric_sample ''riskkernel_tokens_total'' [] (f64_of_int64 (ST_Tokens t)) @
     metric_help ''riskkernel_model_calls_total'' ''Total priced model calls recorded in the cost ledger.'' @
     metric_type ''riskkernel_model_calls_total'' ''counter'' @
     metric_sample ''riskkernel_model_calls_total'' [] (f64_of_int64 (ST_Calls t))"

definition approval_metrics :: "nat \<Rightarrow> string" where
  "approval_metrics n =
     metric_help ''riskkernel_approvals_pending'' ''Number of pending human-in-the-loop approvals.'' @
     metric_type ''riskkernel_approvals_pending'' ''gauge'' @
     metric_sample ''riskkernel_approvals_pending'' [] (f64_of_nat n)"

definition collectMetrics :: "(float64 list \<Rightarrow> float64) \<Rightarrow> db \<Rightarrow> string db_result" where
  "collectMetrics fsum d =
     (let (d, runs) = ListRuns d
      in case runs of
           Inl e \<Rightarrow> (d, Inl e)
         | Inr rs \<Rightarrow>
             (let (d, total) = add_totals fsum rs \<lparr>ST_Dollars = fzero, ST_Tokens = 0, ST_Calls = 0\<rparr> d
              in case total of
                   Inl e \<Rightarrow> (d, Inl e)
                 | Inr t \<Rightarrow>
                     (let (d, pending) = ListApprovals ApprovalPending d
                      in case pending of
                           Inl e \<Rightarrow> (d, Inl e)
                         | Inr as \<Rightarrow> (d, Inr (run_metrics rs @ spend_metrics t @ approval_metrics (length as))))))"

definition handleMetrics ::
    "(float64 list \<Rightarrow> float64) \<Rightarrow> api_world \<Rightarrow> mcp_state \<Rightarrow> mcp_state \<times> api_reply" where
  "handleMetrics fsum w s =
     (let (s, res) = on_store (collectMetrics fsum) s
      in (s, case res of
           None \<Rightarrow> PlainError 503 ''no durable store configured''
         | Some (Inl e) \<Rightarrow> PlainError 500 (''collect metrics: '' @ XW_error w e)
         | Some (Inr t) \<Rightarrow> MetricsText t))"

end
