(* ===== verification/ApiServer.thy ===== *)
theory ApiServer
  imports Metrics Gateway Ingress
begin

text \<open>
  The server (\<open>internal/httpapi/server.go\<close>): the table of routes, the token in front of
  them, the recoverer around them, and the dispatch of a request to the handlers of every
  part of the daemon. They share one run manager, as \<open>internal/app/bootstrap.go\<close> wires them;
  \<open>New\<close> is only ever given a run manager. A request is matched by method and path as
  \<open>ServeMux\<close> does on a clean path, given here by its unescaped segments; the redirect to
  the clean path comes before it (\<open>Wire\<close>).
\<close>

section \<open>The server\<close>

record server =
  SV_token :: string
  SV_gateway :: "gateway option"
  SV_mcp :: "mcp_config option"
  SV_approvals :: bool
  SV_slack :: "slack option"
  SV_memory :: "string option"
  SV_ingress :: "ingress option"

record server_state =
  ss_core :: mcp_state
  ss_tracer :: tracer
  ss_asked :: "(string \<times> chat_request) list"
  ss_slack :: "outgoing list"

record server_world =
  SW_api :: api_world
  SW_gw :: gw_world
  SW_mcp :: mcp_world
  SW_otlp :: "bool \<Rightarrow> string \<Rightarrow> string + export_request"
  SW_now :: time
  SW_sum :: "float64 list \<Rightarrow> float64"
  SW_version :: string
  SW_commit :: string
  SW_date :: string

record server_request =
  AQ_Method :: string
  AQ_Path :: "string list"
  AQ_Query :: string
  AQ_Http :: http_request

datatype server_reply =
    ApiReply api_reply
  | GatewayReply gw_reply
  | McpReply mcp_reply
  | TracesReply traces_reply

section \<open>Routes\<close>

datatype segment = Lit string | Var

datatype endpoint =
    Healthz | Version | ChatCompletions | Messages | McpCall
  | GetCheckpoint | GetRunView | ListToolCallsOf | CreateRun | BeginStepOf | SaveCheckpointOf | CancelRun
  | RegisterPolicy | ListPoliciesAll | GetPolicyNamed
  | Approve | RequestApproval | ListApprovalsAll | GetApprovalOne | AdminApprovals | SlackInteraction
  | ListMemory | ReadMemory | ListFactsOf | PutFactOf | MetricsScrape | Traces

record route =
  RT_Method :: string
  RT_Path :: "segment list"
  RT_Auth :: bool
  RT_Endpoint :: endpoint

definition route :: "string \<Rightarrow> segment list \<Rightarrow> bool \<Rightarrow> endpoint \<Rightarrow> route" where
  "route m p auth e = \<lparr>RT_Method = m, RT_Path = p, RT_Auth = auth, RT_Endpoint = e\<rparr>"

text \<open>The routes \<open>Handler\<close> mounts, in its order.\<close>

definition base_routes :: "route list" where
  "base_routes = [route ''GET'' [Lit ''healthz''] False Healthz, route ''GET'' [Lit ''version''] False Version]"

definition gateway_routes :: "route list" where
  "gateway_routes =
     [route ''POST'' [Lit ''v1'', Lit ''chat'', Lit ''completions''] True ChatCompletions,
      route ''POST'' [Lit ''v1'', Lit ''messages''] True Messages]"

definition mcp_routes :: "route list" where
  "mcp_routes = [route ''POST'' [Lit ''mcp''] True McpCall]"

definition run_routes :: "route list" where
  "run_routes =
     [route ''GET'' [Lit ''v1'', Lit ''checkpoints'', Var] True GetCheckpoint,
      route ''GET'' [Lit ''v1'', Lit ''runs'', Var] True GetRunView,
      route ''GET'' [Lit ''v1'', Lit ''runs'', Var, Lit ''tool-calls''] True ListToolCallsOf,
      route ''POST'' [Lit ''v1'', Lit ''runs''] True CreateRun,
      route ''POST'' [Lit ''v1'', Lit ''runs'', Var, Lit ''steps''] True BeginStepOf,
      route ''POST'' [Lit ''v1'', Lit ''runs'', Var, Lit ''checkpoints''] True SaveCheckpointOf,
      route ''POST'' [Lit ''v1'', Lit ''runs'', Var, Lit ''cancel''] True CancelRun,
      route ''POST'' [Lit ''v1'', Lit ''policies''] True RegisterPolicy,
      route ''GET'' [Lit ''v1'', Lit ''policies''] True ListPoliciesAll,
      route ''GET'' [Lit ''v1'', Lit ''policies'', Var] True GetPolicyNamed]"

definition approval_routes :: "route list" where
  "approval_routes =
     [route ''POST'' [Lit ''v1'', Lit ''runs'', Var, Lit ''approve''] True Approve,
      route ''POST'' [Lit ''v1'', Lit ''runs'', Var, Lit ''approvals''] True RequestApproval,
      route ''GET'' [Lit ''v1'', Lit ''approvals''] True ListApprovalsAll,
      route ''GET'' [Lit ''v1'', Lit ''approvals'', Var] True GetApprovalOne,
      route ''GET'' [Lit ''admin'', Lit ''approvals''] True AdminApprovals]"

definition slack_routes :: "route list" where
  "slack_routes =
     [route ''POST'' [Lit ''v1'', Lit ''integrations'', Lit ''slack'', Lit ''interactions''] False SlackInteraction]"

definition memory_routes :: "route list" where
  "memory_routes =
     [route ''GET'' [Lit ''v1'', Lit ''memory''] True ListMemory,
      route ''GET'' [Lit ''v1'', Lit ''memory'', Lit ''entry''] True ReadMemory]"

definition fact_routes :: "route list" where
  "fact_routes =
     [route ''GET'' [Lit ''v1'', Lit ''memory'', Lit ''facts''] True ListFactsOf,
      route ''PUT'' [Lit ''v1'', Lit ''memory'', Lit ''facts''] True PutFactOf]"

definition metrics_routes :: "route list" where
  "metrics_routes = [route ''GET'' [Lit ''metrics''] True MetricsScrape]"

definition trace_routes :: "route list" where
  "trace_routes = [route ''POST'' [Lit ''v1'', Lit ''traces''] True Traces]"

text \<open>\<open>Handler\<close> for a configuration; \<open>has_store\<close> is \<open>s.runs.Store() != nil\<close>.\<close>

definition mounted :: "bool \<Rightarrow> route list \<Rightarrow> route list" where
  "mounted b rts = (if b then rts else [])"

definition routes :: "server \<Rightarrow> bool \<Rightarrow> route list" where
  "routes sv has_store =
     base_routes @ mounted (SV_gateway sv \<noteq> None) gateway_routes @ mounted (SV_mcp sv \<noteq> None) mcp_routes @
     run_routes @ mounted (SV_approvals sv) approval_routes @
     mounted (SV_approvals sv \<and> SV_slack sv \<noteq> None) slack_routes @
     mounted (SV_memory sv \<noteq> None) memory_routes @ fact_routes @
     mounted has_store metrics_routes @ mounted (SV_ingress sv \<noteq> None) trace_routes"

text \<open>A variable takes one segment that is not empty; GET patterns also take HEAD.\<close>

fun match_path :: "segment list \<Rightarrow> string list \<Rightarrow> string list option" where
  "match_path [] [] = Some []"
| "match_path (Lit l # ps) (s # ss) = (if l = s then match_path ps ss else None)"
| "match_path (Var # ps) (s # ss) = (if s = '''' then None else map_option ((#) s) (match_path ps ss))"
| "match_path _ _ = None"

definition match_method :: "string \<Rightarrow> string \<Rightarrow> bool" where
  "match_method pat m \<longleftrightarrow> pat = m \<or> pat = ''GET'' \<and> m = ''HEAD''"

definition find_route :: "route list \<Rightarrow> server_request \<Rightarrow> route option" where
  "find_route rts q =
     List.find (\<lambda>rt. match_method (RT_Method rt) (AQ_Method q) \<and> match_path (RT_Path rt) (AQ_Path q) \<noteq> None) rts"

section \<open>The token\<close>

definition bearer_prefix :: string where "bearer_prefix = ''Bearer ''"

definition authorized :: "server \<Rightarrow> http_request \<Rightarrow> bool" where
  "authorized sv r \<longleftrightarrow>
     SV_token sv = '''' \<or>
     (let h = header_get (RQ_Header r) ''Authorization''
      in \<not> (length h \<le> length bearer_prefix \<or> take (length bearer_prefix) h \<noteq> bearer_prefix \<or>
           drop (length bearer_prefix) h \<noteq> SV_token sv))"

definition unauthorized :: server_reply where
  "unauthorized = ApiReply (WriteError 401 ''unauthorized'' ''missing or invalid bearer token'')"

section \<open>Dispatch\<close>

definition on_core ::
    "(mcp_state \<Rightarrow> mcp_state \<times> api_reply) \<Rightarrow> server_state \<Rightarrow> server_state \<times> server_reply" where
  "on_core f s = (let (c, reply) = f (ss_core s) in (s\<lparr>ss_core := c\<rparr>, ApiReply reply))"

definition on_gateway :: "(gw_state \<Rightarrow> gw_state \<times> gw_reply) \<Rightarrow> server_state \<Rightarrow> server_state \<times> server_reply" where
  "on_gateway f s =
     (let (g, reply) = f \<lparr>gw_runs = mc_runs (ss_core s), gw_tracer = ss_tracer s, gw_asked = ss_asked s\<rparr>
      in (s\<lparr>ss_core := (ss_core s)\<lparr>mc_runs := gw_runs g\<rparr>, ss_tracer := gw_tracer g, ss_asked := gw_asked g\<rparr>,
          GatewayReply reply))"

definition text_map :: "(string \<times> string) list \<Rightarrow> api_value" where
  "text_map kvs = XMap (map (\<lambda>(k, v). (k, XStr v)) kvs)"

definition handleHealthz :: api_reply where
  "handleHealthz = WriteJSON 200 (text_map [(''status'', ''ok'')])"

definition handleVersion :: "server_world \<Rightarrow> api_reply" where
  "handleVersion w = WriteJSON 200 (text_map
     [(''version'', SW_version w), (''commit'', SW_commit w), (''date'', SW_date w)])"

definition serve ::
    "server_world \<Rightarrow> server \<Rightarrow> endpoint \<Rightarrow> string \<Rightarrow> server_request \<Rightarrow> server_state \<Rightarrow>
     server_state \<times> server_reply" where
  "serve w sv ep v q s =
     (let r = AQ_Http q; x = SW_api w; missing = (s, ApiReply Panicked)
      in case ep of
        Healthz \<Rightarrow> (s, ApiReply handleHealthz)
      | Version \<Rightarrow> (s, ApiReply (handleVersion w))
      | ChatCompletions \<Rightarrow>
          (case SV_gateway sv of None \<Rightarrow> missing
           | Some g \<Rightarrow> on_gateway (handleChatCompletions (SW_gw w) g r) s)
      | Messages \<Rightarrow>
          (case SV_gateway sv of None \<Rightarrow> missing | Some g \<Rightarrow> on_gateway (handleMessages (SW_gw w) g r) s)
      | McpCall \<Rightarrow>
          (case SV_mcp sv of None \<Rightarrow> missing
           | Some g \<Rightarrow> (let (c, reply) = handle (SW_mcp w) g r (ss_core s) in (s\<lparr>ss_core := c\<rparr>, McpReply reply)))
      | GetCheckpoint \<Rightarrow> on_core (handleGetCheckpoint x v) s
      | GetRunView \<Rightarrow> on_core (handleGetRun x v) s
      | ListToolCallsOf \<Rightarrow> on_core (handleListToolCalls x v) s
      | CreateRun \<Rightarrow> on_core (handleCreateRun x r) s
      | BeginStepOf \<Rightarrow> on_core (handleBeginStep x v) s
      | SaveCheckpointOf \<Rightarrow> on_core (handleSaveCheckpoint x v r) s
      | CancelRun \<Rightarrow> on_core (handleCancelRun x v) s
      | RegisterPolicy \<Rightarrow> on_core (handleRegisterPolicy x r) s
      | ListPoliciesAll \<Rightarrow> on_core (handleListPolicies x) s
      | GetPolicyNamed \<Rightarrow> on_core (handleGetPolicy x v) s
      | Approve \<Rightarrow> on_core (handleApprove x v r) s
      | RequestApproval \<Rightarrow> on_core (handleRequestApproval x v r) s
      | ListApprovalsAll \<Rightarrow> on_core (handleListApprovals x (AQ_Query q)) s
      | GetApprovalOne \<Rightarrow> on_core (handleGetApproval x v) s
      | AdminApprovals \<Rightarrow> (s, ApiReply ApprovalsPage)
      | SlackInteraction \<Rightarrow>
          (case SV_slack sv of None \<Rightarrow> missing
           | Some sl \<Rightarrow> (let (c, out, reply) = handleSlackInteraction x sl r (ss_core s)
                        in (s\<lparr>ss_core := c, ss_slack := ss_slack s @ out\<rparr>, ApiReply reply)))
      | ListMemory \<Rightarrow>
          (case SV_memory sv of None \<Rightarrow> missing | Some dir \<Rightarrow> (s, ApiReply (handleListMemory x dir (AQ_Query q))))
      | ReadMemory \<Rightarrow>
          (case SV_memory sv of None \<Rightarrow> missing | Some dir \<Rightarrow> (s, ApiReply (handleReadMemory x dir (AQ_Query q))))
      | ListFactsOf \<Rightarrow> on_core (handleListFacts x (AQ_Query q)) s
      | PutFactOf \<Rightarrow> on_core (handlePutFact x r) s
      | MetricsScrape \<Rightarrow> on_core (handleMetrics (SW_sum w) x) s
      | Traces \<Rightarrow>
          (case SV_ingress sv of None \<Rightarrow> missing
           | Some ig \<Rightarrow> (let (m, reply) = HandleTraces (SW_otlp w) ig (SW_now w) r (mc_runs (ss_core s))
                        in (s\<lparr>ss_core := (ss_core s)\<lparr>mc_runs := m\<rparr>\<rparr>, TracesReply reply))))"

text \<open>The recoverer: a panic becomes a 500; the state it left stays.\<close>

definition recoverer :: "server_state \<times> server_reply \<Rightarrow> server_state \<times> server_reply" where
  "recoverer p =
     (if snd p = ApiReply Panicked
      then (fst p, ApiReply (internal_error ''internal server error'')) else p)"

definition requireAuth ::
    "server \<Rightarrow> (server_state \<Rightarrow> server_state \<times> server_reply) \<Rightarrow> http_request \<Rightarrow> server_state \<Rightarrow>
     server_state \<times> server_reply" where
  "requireAuth sv next r s = (if authorized sv r then next s else (s, unauthorized))"

definition dispatch :: "server_world \<Rightarrow> server \<Rightarrow> server_request \<Rightarrow> server_state \<Rightarrow> server_state \<times> server_reply" where
  "dispatch w sv q s =
     (let rts = routes sv (m_store (mc_runs (ss_core s)) \<noteq> None)
      in case find_route rts q of
           None \<Rightarrow>
             (s, ApiReply (if list_ex (\<lambda>rt. match_path (RT_Path rt) (AQ_Path q) \<noteq> None) rts
                           then PlainError 405 ''Method Not Allowed'' else PlainError 404 ''404 page not found''))
         | Some rt \<Rightarrow>
             (let v = (case match_path (RT_Path rt) (AQ_Path q) of Some (x # _) \<Rightarrow> x | _ \<Rightarrow> '''');
                  next = serve w sv (RT_Endpoint rt) v q
              in recoverer (if RT_Auth rt then requireAuth sv next (AQ_Http q) s else next s)))"

end
