(* ===== verification/ApiLaws.thy ===== *)
theory ApiLaws
  imports ApiServer GatewayLaws NotifyLaws
begin

text \<open>
  What holds of the server as a whole: which requests reach a handler, what a request
  without the token can do, whose approvals a decision can touch, what the kill switch
  stops, and what a posted budget replaces.
\<close>

section \<open>The table of routes\<close>

text \<open>Two patterns that some path matches both.\<close>

fun overlap :: "segment list \<Rightarrow> segment list \<Rightarrow> bool" where
  "overlap [] [] = True"
| "overlap (Lit l # ps) (Lit m # qs) = (l = m \<and> overlap ps qs)"
| "overlap (Lit l # ps) (Var # qs) = (l \<noteq> '''' \<and> overlap ps qs)"
| "overlap (Var # ps) (Lit l # qs) = (l \<noteq> '''' \<and> overlap ps qs)"
| "overlap (Var # ps) (Var # qs) = overlap ps qs"
| "overlap _ _ = False"

lemma match_both_overlap:
  "match_path p path \<noteq> None \<Longrightarrow> match_path q path \<noteq> None \<Longrightarrow> overlap p q"
proof (induction p path arbitrary: q rule: match_path.induct)
  case 1
  then show ?case by (cases q) simp_all
next
  case (2 l ps s ss)
  then obtain a qs where q: "q = a # qs" by (cases q) auto
  with 2 show ?case by (cases a) (auto split: if_splits)
next
  case (3 ps s ss)
  then obtain a qs where q: "q = a # qs" by (cases q) auto
  with 3 show ?case by (cases a) (auto split: if_splits)
qed simp_all

definition all_routes :: "route list" where
  "all_routes = base_routes @ gateway_routes @ mcp_routes @ run_routes @ approval_routes @ slack_routes @
     memory_routes @ fact_routes @ metrics_routes @ trace_routes"

lemma routes_subset: "set (routes sv b) \<subseteq> set all_routes"
  by (auto simp: routes_def all_routes_def mounted_def)

text \<open>No two of them match the same request, so the order of the table does not matter.\<close>

definition disjoint_routes :: "route list \<Rightarrow> bool" where
  "disjoint_routes rts \<longleftrightarrow> list_all (\<lambda>rt. list_all (\<lambda>u.
     RT_Method rt \<noteq> RT_Method u \<or> \<not> overlap (RT_Path rt) (RT_Path u) \<or> RT_Endpoint rt = RT_Endpoint u) rts) rts"

lemma all_routes_disjoint: "disjoint_routes all_routes"
  by code_simp

lemma method_patterns: "rt \<in> set all_routes \<Longrightarrow> RT_Method rt \<in> {''GET'', ''POST'', ''PUT''}"
proof -
  have "list_all (\<lambda>rt. RT_Method rt \<in> {''GET'', ''POST'', ''PUT''}) all_routes" by code_simp
  then show "rt \<in> set all_routes \<Longrightarrow> RT_Method rt \<in> {''GET'', ''POST'', ''PUT''}" by (simp add: list_all_iff)
qed

lemma open_routes:
  assumes "rt \<in> set (routes sv b)" "\<not> RT_Auth rt"
  shows "RT_Endpoint rt \<in> {Healthz, Version} \<or> RT_Endpoint rt = SlackInteraction \<and> SV_slack sv \<noteq> None"
  using assms
  by (auto simp: routes_def mounted_def base_routes_def gateway_routes_def mcp_routes_def run_routes_def
      approval_routes_def slack_routes_def memory_routes_def fact_routes_def metrics_routes_def
      trace_routes_def route_def split: if_splits)

lemma endpoint_route: "inj_on RT_Endpoint (set all_routes)"
proof -
  have "distinct (map RT_Endpoint all_routes)" by code_simp
  then show ?thesis by (simp add: distinct_map)
qed

definition takes :: "route \<Rightarrow> server_request \<Rightarrow> bool" where
  "takes rt q \<longleftrightarrow> match_method (RT_Method rt) (AQ_Method q) \<and> match_path (RT_Path rt) (AQ_Path q) \<noteq> None"

lemma takes_unique:
  assumes "rt \<in> set all_routes" "u \<in> set all_routes" "takes rt q" "takes u q"
  shows "rt = u"
proof -
  have "overlap (RT_Path rt) (RT_Path u)"
    using assms(3,4) match_both_overlap unfolding takes_def by blast
  moreover have "RT_Method rt = RT_Method u"
    using assms(3,4) method_patterns [OF assms(1)] method_patterns [OF assms(2)]
    by (auto simp: takes_def match_method_def)
  ultimately have "RT_Endpoint rt = RT_Endpoint u"
    using all_routes_disjoint assms(1,2) by (auto simp: disjoint_routes_def list_all_iff)
  then show ?thesis using endpoint_route assms(1,2) by (auto dest: inj_onD)
qed

text \<open>A request that some mounted route takes is dispatched by it.\<close>

lemma find_route_mounted:
  assumes "rt \<in> set (routes sv b)" "takes rt q"
  shows "find_route (routes sv b) q = Some rt"
proof -
  obtain u where u: "find_route (routes sv b) q = Some u"
    using assms by (cases "find_route (routes sv b) q") (auto simp: find_route_def find_None_iff takes_def)
  then have "u \<in> set (routes sv b)" "takes u q" by (auto simp: find_route_def find_Some_iff takes_def)
  with u assms routes_subset takes_unique show ?thesis by blast
qed

text \<open>
  A request has one handler. For every configuration, no two of the mounted routes take
  the same request, so looking for the first one in the table is what \<open>ServeMux\<close> does with
  its rule that the most specific pattern wins.
\<close>

theorem one_handler_per_request:
  assumes "rt \<in> set (routes sv b)" "u \<in> set (routes sv b)" "takes rt q" "takes u q"
  shows "rt = u"
  using assms(1,2) routes_subset by (intro takes_unique [OF _ _ assms(3,4)]) blast+

definition local_server :: server where
  "local_server =
     \<lparr>SV_token = ''tok'', SV_gateway = None, SV_mcp = None, SV_approvals = True, SV_slack = None,
      SV_memory = None, SV_ingress = None\<rparr>"

definition plain_request :: "string \<Rightarrow> string list \<Rightarrow> server_request" where
  "plain_request m path =
     \<lparr>AQ_Method = m, AQ_Path = path, AQ_Query = '''', AQ_Http = \<lparr>RQ_Header = [], RQ_Body = Some ''''\<rparr>\<rparr>"

lemma one_handler_per_request_witness:
  "hd run_routes = hd run_routes"
  by (rule one_handler_per_request [of _ local_server False _ "plain_request ''GET'' [''v1'', ''checkpoints'', ''r1'']"])
    code_simp+

section \<open>Requests without the token\<close>

lemma find_routeD:
  assumes "find_route rts q = Some rt"
  shows "rt \<in> set rts"
  using assms by (auto simp: find_route_def find_Some_iff)

definition slack_signed :: "server_world \<Rightarrow> server \<Rightarrow> http_request \<Rightarrow> bool" where
  "slack_signed w sv r \<longleftrightarrow>
     (case (SV_slack sv, RQ_Body r) of
        (Some sl, Some body) \<Rightarrow>
          VerifySignature (XW_hmac (SW_api w)) sl (XW_unix (SW_api w))
            (header_get (RQ_Header r) ''X-Slack-Request-Timestamp'')
            (header_get (RQ_Header r) ''X-Slack-Signature'') body
      | _ \<Rightarrow> False)"

lemma unsigned_slack:
  assumes "SV_slack sv = Some sl" "\<not> slack_signed w sv r"
  shows "\<exists>e t. handleSlackInteraction (SW_api w) sl r c = (c, [], PlainError e t)"
  using assms by (auto simp: handleSlackInteraction_def slack_signed_def split: option.splits)

text \<open>
  C11. Without the token nothing happens. When a token is configured, a request that does
  not carry it and is not a signed Slack callback leaves the whole daemon as it was, the runs,
  the store, the approvals, the providers and the tool server asked, whatever its method, path
  and body; the answer is the health text, the version, the 401, or an error text that
  depends on no data.
\<close>

theorem no_token_no_effect:
  assumes "SV_token sv \<noteq> ''''" "\<not> authorized sv (AQ_Http q)" "\<not> slack_signed w sv (AQ_Http q)"
  shows "fst (dispatch w sv q s) = s \<and>
    (snd (dispatch w sv q s) \<in> {ApiReply handleHealthz, ApiReply (handleVersion w), unauthorized} \<or>
     (\<exists>e t. snd (dispatch w sv q s) = ApiReply (PlainError e t)))"
proof (cases "find_route (routes sv (m_store (mc_runs (ss_core s)) \<noteq> None)) q")
  case None
  then show ?thesis by (simp add: dispatch_def)
next
  case (Some rt)
  show ?thesis
  proof (cases "RT_Auth rt")
    case True
    then show ?thesis
      using Some assms(2) by (simp add: dispatch_def requireAuth_def recoverer_def unauthorized_def WriteError_def WriteJSON_def)
  next
    case False
    from open_routes [OF find_routeD [OF Some] False] show ?thesis
    proof (elim disjE conjE)
      assume "RT_Endpoint rt \<in> {Healthz, Version}"
      then show ?thesis
        using Some False
        by (auto simp: dispatch_def serve_def recoverer_def handleHealthz_def handleVersion_def WriteJSON_def Let_def)
    next
      assume ep: "RT_Endpoint rt = SlackInteraction" and "SV_slack sv \<noteq> None"
      then obtain sl where sl: "SV_slack sv = Some sl" by blast
      then obtain e t where
          "handleSlackInteraction (SW_api w) sl (AQ_Http q) (ss_core s) = (ss_core s, [], PlainError e t)"
        using unsigned_slack assms(3) by blast
      then show ?thesis
        using Some False ep sl by (simp add: dispatch_def serve_def recoverer_def Let_def)
    qed
  qed
qed

lemma no_token_no_effect_witness:
  "\<forall>w s. fst (dispatch w local_server (plain_request ''POST'' [''v1'', ''runs'', ''r1'', ''cancel'']) s) = s \<and>
    (snd (dispatch w local_server (plain_request ''POST'' [''v1'', ''runs'', ''r1'', ''cancel'']) s)
       \<in> {ApiReply handleHealthz, ApiReply (handleVersion w), unauthorized} \<or>
     (\<exists>e t. snd (dispatch w local_server (plain_request ''POST'' [''v1'', ''runs'', ''r1'', ''cancel'']) s) =
        ApiReply (PlainError e t)))"
  by (intro allI no_token_no_effect)
    (simp_all add: local_server_def plain_request_def authorized_def slack_signed_def bearer_prefix_def)

section \<open>Decisions on approvals\<close>

definition approvals_of :: "mcp_state \<Rightarrow> approval_record list" where
  "approvals_of s = (case m_store (mc_runs s) of None \<Rightarrow> [] | Some d \<Rightarrow> db_approvals d)"

lemma query_approvals: "db_approvals (fst (query q d)) = db_approvals d"
  by (simp add: query_def statement_def split: list.splits)

lemma on_store_query:
  assumes "\<And>d. db_approvals (fst (f d)) = db_approvals d"
  shows "approvals_of (fst (on_store f s)) = approvals_of s"
  using assms by (auto simp: on_store_def approvals_of_def case_prod_beta split: option.splits)


lemma pendingForRun_keeps: "approvals_of (fst (pendingForRun rid s)) = approvals_of s"
  by (simp add: pendingForRun_def case_prod_beta ListApprovals_def on_store_query query_approvals Let_def)

lemma runViewBody_keeps: "approvals_of (fst (runViewBody rid s)) = approvals_of s"
  by (simp add: runViewBody_def case_prod_beta GetRun_def on_store_query query_approvals Let_def
      pendingForRun_keeps split: option.splits sum.splits)

lemma approvals_Get_keeps: "approvals_of (fst (approvals_Get aid s)) = approvals_of s"
  by (auto simp: approvals_Get_def with_gate_def gate_Get_def approvals_of_def GetApproval_def query_def
      statement_def case_prod_beta Let_def split: option.splits list.splits)

lemma resolved_reply_keeps: "approvals_of (fst (resolved_reply rid aid s)) = approvals_of s"
  by (simp add: resolved_reply_def case_prod_beta runViewBody_keeps approvals_Get_keeps Let_def split: sum.splits)

text \<open>What the two reads return is in the table.\<close>

lemma query_result:
  assumes "snd (query q d) = Inr x"
  shows "\<exists>fs. q (d\<lparr>db_faults := fs\<rparr>) = Inr x"
proof (cases "db_faults d")
  case Nil
  then have "q d = Inr x" using assms by (simp add: query_def statement_def)
  moreover have "d\<lparr>db_faults := db_faults d\<rparr> = d" by simp
  ultimately show ?thesis by metis
next
  case (Cons b fs)
  then have "q (d\<lparr>db_faults := fs\<rparr>) = Inr x"
    using assms by (simp add: query_def statement_def split: if_splits)
  then show ?thesis by blast
qed

lemma lookup_in_table: "lookup key k xs = Some x \<Longrightarrow> x \<in> set xs \<and> key x = k"
  by (auto simp: lookup_def find_Some_iff)

lemma pending_in_table:
  assumes "snd (pendingForRun rid s) = Inr as" "a \<in> set as"
  shows "a \<in> set (approvals_of s) \<and> AR_RunID a = rid"
proof (cases "m_store (mc_runs s)")
  case None
  then show ?thesis using assms by (simp add: pendingForRun_def on_store_def)
next
  case (Some d)
  obtain bs where bs: "snd (ListApprovals ApprovalPending d) = Inr bs" "as = filter (\<lambda>a. AR_RunID a = rid) bs"
    using assms(1) Some by (auto simp: pendingForRun_def on_store_def case_prod_beta Let_def split: sum.splits)
  have "set bs \<subseteq> set (db_approvals d)"
    using query_result [OF bs(1) [unfolded ListApprovals_def]] by (auto simp: newest_first_def split: if_splits)
  with bs(2) assms(2) Some show ?thesis by (auto simp: approvals_of_def)
qed

lemma got_in_table:
  assumes "snd (approvals_Get aid s) = Some (Inr a)"
  shows "a \<in> set (approvals_of s) \<and> AR_ID a = aid"
proof (cases "m_store (mc_runs s)")
  case None
  then show ?thesis using assms by (simp add: approvals_Get_def with_gate_def gate_Get_def)
next
  case (Some d)
  then have "snd (GetApproval aid d) = Inr a"
    using assms by (auto simp: approvals_Get_def with_gate_def gate_Get_def case_prod_beta Let_def)
  from query_result [OF this [unfolded GetApproval_def]] have "lookup AR_ID aid (db_approvals d) = Some a"
    by (auto split: option.splits)
  from lookup_in_table [OF this] show ?thesis using Some by (simp add: approvals_of_def)
qed

text \<open>The approval chosen for a decision is one of the run's.\<close>

lemma chosen_belongs:
  assumes "snd (chosen_approval w rid aid s) = Inr bid"
  shows "\<exists>a \<in> set (approvals_of s). AR_ID a = bid \<and> AR_RunID a = rid"
proof (cases "aid = ''''")
  case True
  with assms obtain a where "snd (pendingForRun rid s) = Inr [a]" "AR_ID a = bid"
    by (auto simp: chosen_approval_def case_prod_beta Let_def split: sum.splits list.splits)
  then show ?thesis using pending_in_table by fastforce
next
  case False
  with assms obtain a where "snd (approvals_Get aid s) = Some (Inr a)" "AR_RunID a = rid" "aid = bid"
    by (auto simp: chosen_approval_def case_prod_beta Let_def split: sum.splits option.splits if_splits)
  then show ?thesis using got_in_table by blast
qed

lemma chosen_keeps: "approvals_of (fst (chosen_approval w rid aid s)) = approvals_of s"
  by (simp add: chosen_approval_def case_prod_beta Let_def pendingForRun_keeps approvals_Get_keeps)

text \<open>A decision on an approval, in a table whose ids are distinct.\<close>

definition decided :: "bool \<Rightarrow> string \<Rightarrow> string \<Rightarrow> time \<Rightarrow> approval_record \<Rightarrow> approval_record" where
  "decided approve reason who now a =
     a\<lparr>AR_Status := decision_status approve, AR_Reason := reason, AR_DecidedBy := who, AR_DecidedAt := Some now\<rparr>"

lemma ResolveApproval_table:
  "db_approvals (fst (ResolveApproval aid st reason who now d)) \<in>
     {db_approvals d,
      map (\<lambda>a. if resolvable aid a then a\<lparr>AR_Status := st, AR_Reason := reason, AR_DecidedBy := who,
             AR_DecidedAt := Some now\<rparr> else a) (db_approvals d)}"
  by (auto simp: ResolveApproval_def statement_def split: list.splits)

lemma with_gate_Resolve_table:
  "approvals_of (fst (with_gate (gate_Resolve aid \<lparr>D_Approved = approve, D_Reason = reason, D_By = who\<rparr> now) s)) \<in>
     {approvals_of s, map (\<lambda>a. if resolvable aid a then decided approve reason who now a else a) (approvals_of s)}"
proof (cases "m_store (mc_runs s)")
  case None
  then show ?thesis
    by (auto simp: with_gate_def gate_Resolve_def resolve_in_store_def send_decision_def approvals_of_def
        case_prod_beta Let_def split: option.splits)
next
  case (Some d)
  have eq: "approvals_of (fst (with_gate (gate_Resolve aid \<lparr>D_Approved = approve, D_Reason = reason, D_By = who\<rparr> now) s)) =
      db_approvals (fst (ResolveApproval aid (decision_status approve) reason who now d))"
    using Some
    by (auto simp: with_gate_def gate_Resolve_def resolve_in_store_def send_decision_def approvals_of_def
        case_prod_beta Let_def split: option.splits sum.splits)
  have "approvals_of s = db_approvals d" using Some by (simp add: approvals_of_def)
  then show ?thesis
    using ResolveApproval_table [of aid "decision_status approve" reason who now d]
    unfolding eq decided_def by simp
qed

lemma resolve_one:
  assumes "distinct (map AR_ID as)" "a \<in> set as" "AR_ID a = aid"
  shows "map (\<lambda>b. if resolvable aid b then f b else b) as =
    (if AR_Status a = ApprovalPending then map (\<lambda>b. if b = a then f b else b) as else as)"
proof -
  have one: "resolvable aid b \<longleftrightarrow> AR_Status a = ApprovalPending \<and> b = a" if "b \<in> set as" for b
    using assms that by (auto simp: resolvable_def distinct_map dest: inj_onD)
  have "map (\<lambda>b. if resolvable aid b then f b else b) as =
      map (\<lambda>b. if AR_Status a = ApprovalPending \<and> b = a then f b else b) as"
    by (rule map_cong [OF refl]) (simp only: one)
  also have "\<dots> = (if AR_Status a = ApprovalPending then map (\<lambda>b. if b = a then f b else b) as else as)"
    by simp
  finally show ?thesis .
qed

text \<open>
  C13. A decision posted on a run is about that run. Whatever the body says, posting to a
  run's approve route either leaves the table of approvals as it is or decides exactly one
  approval: a pending one of this run, with the answer, reason and author of the body. An
  approval of another run cannot be reached by naming its id.
\<close>

theorem approve_decides_own_run:
  assumes "distinct (map AR_ID (approvals_of s))"
  shows "let as' = approvals_of (fst (handleApprove w rid r s)) in
    as' = approvals_of s \<or>
    (\<exists>dec approve a. decodeJSON (XW_decision w) r = Inr dec \<and> decisionToBool (AD_Decision dec) = Some approve \<and>
       a \<in> set (approvals_of s) \<and> AR_RunID a = rid \<and> AR_Status a = ApprovalPending \<and>
       as' = map (\<lambda>b. if b = a then decided approve (AD_Reason dec) (AD_DecidedBy dec) (XW_now w) b else b)
               (approvals_of s))"
proof (cases "decodeJSON (XW_decision w) r")
  case (Inl e)
  then show ?thesis by (simp add: handleApprove_def)
next
  case (Inr dec)
  show ?thesis
  proof (cases "decisionToBool (AD_Decision dec)")
    case None
    with Inr show ?thesis by (simp add: handleApprove_def)
  next
    case (Some approve)
    define s1 where "s1 = fst (chosen_approval w rid (AD_ApprovalID dec) s)"
    have s1: "approvals_of s1 = approvals_of s" by (simp add: s1_def chosen_keeps)
    show ?thesis
    proof (cases "snd (chosen_approval w rid (AD_ApprovalID dec) s)")
      case (Inl reply)
      with Inr Some show ?thesis by (simp add: handleApprove_def case_prod_beta Let_def chosen_keeps)
    next
      case chosen: (Inr aid)
      define s2 where "s2 = fst (with_gate (gate_Resolve aid
          \<lparr>D_Approved = approve, D_Reason = AD_Reason dec, D_By = AD_DecidedBy dec\<rparr> (XW_now w)) s1)"
      from chosen_belongs [OF chosen] obtain a where
          a: "a \<in> set (approvals_of s)" "AR_ID a = aid" "AR_RunID a = rid" by blast
      have end_state: "approvals_of (fst (handleApprove w rid r s)) = approvals_of s2"
        using Inr Some chosen
        by (auto simp: handleApprove_def case_prod_beta Let_def s1_def [symmetric] s2_def [symmetric] resolved_reply_keeps
            split: sum.splits store_error.splits send_result.splits)
      have "approvals_of s2 \<in> {approvals_of s, map (\<lambda>b. if resolvable aid b
          then decided approve (AD_Reason dec) (AD_DecidedBy dec) (XW_now w) b else b) (approvals_of s)}"
        using with_gate_Resolve_table [of aid approve "AD_Reason dec" "AD_DecidedBy dec" "XW_now w" s1]
        by (simp add: s1 s2_def)
      then show ?thesis
        using Inr Some a by (auto simp: end_state resolve_one [OF assms a(1,2)] split: if_splits)
    qed
  qed
qed

definition sample_api_world :: api_world where
  "sample_api_world =
     \<lparr>XW_create = (\<lambda>_ _. Inr \<lparr>CB_Name = ''agent'', CB_Budget = Some \<lparr>BB_Tokens = 0, BB_Dollars = Fin 0,
          BB_Loops = 1, BB_Seconds = 0\<rparr>, CB_PolicyRef = '''', CB_Metadata = []\<rparr>),
      XW_checkpoint = (\<lambda>_ _. Inr ('''', [])),
      XW_tool = (\<lambda>_ _. Inl ''EOF''),
      XW_decision = (\<lambda>_ _. Inr \<lparr>AD_ApprovalID = ''ap1'', AD_Decision = ''approve'', AD_Reason = ''ok'',
          AD_DecidedBy = ''ann''\<rparr>),
      XW_policy = (\<lambda>_ _. Inl ''EOF''), XW_fact = (\<lambda>_ _. Inl ''EOF''), XW_slack = (\<lambda>_. None),
      XW_hmac = (\<lambda>_ _. []), XW_error = (\<lambda>_. ''''), XW_memErr = (\<lambda>_. ''''),
      XW_files = \<lparr>FS_stat = (\<lambda>_. None), FS_read = (\<lambda>_. ReadMissing), FS_walk = (\<lambda>_. [])\<rparr>,
      XW_newID = ''r2'', XW_now = 7, XW_unix = 0\<rparr>"

definition sample_core :: "manager \<Rightarrow> mcp_state" where
  "sample_core m =
     \<lparr>mc_runs = m, mc_gate = NewGate (m_store m) \<lparr>AP_RequireFor = [], AP_DefaultSafe = True\<rparr> False,
      mc_spans = [], mc_sent = []\<rparr>"

definition waiting_core :: mcp_state where
  "waiting_core = sample_core (restart (token_cap 0)
     (empty_db\<lparr>db_approvals := [sample_pending, sample_pending\<lparr>AR_ID := ''ap2'', AR_RunID := ''r2''\<rparr>]\<rparr>))"

lemma approve_decides_own_run_witness:
  "let as' = approvals_of (fst (handleApprove sample_api_world ''r1'' \<lparr>RQ_Header = [], RQ_Body = Some ''x''\<rparr> waiting_core)) in
    as' = approvals_of waiting_core \<or>
    (\<exists>dec approve a. decodeJSON (XW_decision sample_api_world) \<lparr>RQ_Header = [], RQ_Body = Some ''x''\<rparr> = Inr dec \<and>
       decisionToBool (AD_Decision dec) = Some approve \<and>
       a \<in> set (approvals_of waiting_core) \<and> AR_RunID a = ''r1'' \<and> AR_Status a = ApprovalPending \<and>
       as' = map (\<lambda>b. if b = a then decided approve (AD_Reason dec) (AD_DecidedBy dec) (XW_now sample_api_world) b else b)
               (approvals_of waiting_core))"
  by (rule approve_decides_own_run)
    (simp add: waiting_core_def sample_core_def approvals_of_def restart_def WithStore_def sample_pending_def)

section \<open>Stopping a run\<close>

definition refused :: "halt_reason \<Rightarrow> api_reply" where
  "refused reason = WriteError 402 reason (''run halted: '' @ reason)"

text \<open>Other requests on runs, between two of this client's.\<close>

definition after_events :: "run_event list \<Rightarrow> mcp_state \<Rightarrow> mcp_state" where
  "after_events es s = s\<lparr>mc_runs := final_state run_step (mc_runs s) es\<rparr>"

abbreviation run_gov :: "addr \<Rightarrow> mcp_state \<Rightarrow> gov" where
  "run_gov a s \<equiv> rn_gov (run_at (mc_runs s) a)"

lemma after_events_run:
  assumes "addressed (mc_runs s)" "get_run rid (mc_runs s) = Some a"
  shows "addressed (mc_runs (after_events es s))" "get_run rid (mc_runs (after_events es s)) = Some a"
    "\<exists>gs. run_gov a (after_events es s) = final_state gov_step (run_gov a s) gs"
  using run_events_addressed [OF assms(1), of es rid] run_events_gov [OF assms, of es] assms(2)
  by (simp_all add: after_events_def)

lemma addressed_len: "addressed m \<Longrightarrow> get_run rid m = Some a \<Longrightarrow> a < length (m_heap m)"
  by (simp add: addressed_def)

lemma BeginStep_reply:
  "snd (BeginStep a now m) =
     (case snd (PreStep now (rn_gov (run_at m a))) of
        Some e \<Rightarrow> Inl e | None \<Rightarrow> Inr (U_Loops (g_usage (fst (PreStep now (rn_gov (run_at m a)))))))"
  by (simp add: BeginStep_def case_prod_beta Let_def gov_Status_def split: option.split)

text \<open>A step request on a live run: refused with the run's reason, or one loop more.\<close>

lemma handleBeginStep_cases:
  fixes w rid s
  assumes "addressed (mc_runs s)" "get_run rid (mc_runs s) = Some a"
  defines "s' \<equiv> fst (handleBeginStep w rid s)"
  obtains (stopped) "snd (handleBeginStep w rid s) = refused (g_halted (run_gov a s'))" "g_halted (run_gov a s') \<noteq> HaltNone"
    | (went_on) "addressed (mc_runs s')" "get_run rid (mc_runs s') = Some a"
        "run_gov a s' = fst (gov_step (run_gov a s) (EPreStep (XW_now w)))"
        "admitted (EPreStep (XW_now w)) (snd (gov_step (run_gov a s) (EPreStep (XW_now w))))"
proof -
  note acts = BeginStep_acts [OF addressed_len [OF assms(1,2)], of "XW_now w"]
  have s': "mc_runs s' = fst (BeginStep a (XW_now w) (mc_runs s))"
    using assms(2) by (simp add: s'_def handleBeginStep_def case_prod_beta Let_def)
  have gov: "run_gov a s' = fst (PreStep (XW_now w) (run_gov a s))"
    using acts by (simp add: s' acts_on_def)
  show ?thesis
  proof (cases rule: PreStep_cases [of "XW_now w" "run_gov a s"])
    case refused
    have "snd (handleBeginStep w rid s) = writeHalt (haltErrLocked (run_gov a s'))"
      using refused(1) assms(2) gov
      by (simp add: handleBeginStep_def case_prod_beta Let_def BeginStep_reply)
    then show ?thesis
      using refused(2) gov by (intro stopped) (simp_all add: writeHalt_def refused_def)
  next
    case passed
    show ?thesis
    proof (rule went_on)
      show "addressed (mc_runs s')" "get_run rid (mc_runs s') = Some a"
        using acts_on_addressed [OF assms(1) acts] acts_on_get [OF acts] assms(2) by (simp_all add: s')
    qed (use gov passed(1) in simp_all)
  qed
qed

text \<open>
  C10. The kill switch. After a cancel request on a live run, whatever other requests do to
  runs in between, the next step request of that run is refused with a 402 that gives the
  run's halt reason, \<open>cancelled\<close> unless it had already stopped for another one.
\<close>

theorem kill_switch:
  assumes "addressed (mc_runs s)" "get_run rid (mc_runs s) = Some a"
  shows "snd (handleBeginStep w' rid (after_events es (fst (handleCancelRun w rid s)))) =
    refused (if g_halted (run_gov a s) = HaltNone then HaltCancelled else g_halted (run_gov a s))"
proof -
  let ?s1 = "fst (handleCancelRun w rid s)" and ?s2 = "after_events es (fst (handleCancelRun w rid s))"
  let ?why = "if g_halted (run_gov a s) = HaltNone then HaltCancelled else g_halted (run_gov a s)"
  have m1: "mc_runs ?s1 = run_Cancel a (XW_now w) (mc_runs s)"
    using assms(2) by (simp add: handleCancelRun_def Let_def)
  note acts = Cancel_acts [OF addressed_len [OF assms], of "XW_now w"]
  have s1: "addressed (mc_runs ?s1)" "get_run rid (mc_runs ?s1) = Some a" "g_halted (run_gov a ?s1) = ?why"
    using acts_on_addressed [OF assms(1) acts] acts_on_get [OF acts] acts assms(2)
    by (simp_all add: m1 acts_on_def gov_Cancel_def)
  have why: "?why \<noteq> HaltNone" by (simp add: halt_reason_defs)
  obtain gs where "run_gov a ?s2 = final_state gov_step (run_gov a ?s1) gs"
    using after_events_run(3) [OF s1(1,2)] by blast
  with s1(3) why have "g_halted (run_gov a ?s2) = ?why"
    using halt.run_value [of "run_gov a ?s1" gs] by (simp add: Halted_def)
  then show ?thesis
    using why after_events_run(2) [OF s1(1,2), of es] PreStep_halted [of "run_gov a ?s2" "XW_now w'"]
    by (simp add: handleBeginStep_def case_prod_beta Let_def BeginStep_reply writeHalt_def refused_def)
qed

lemma sample_core_run:
  "addressed (mc_runs (sample_core sample_manager))" "get_run ''r9'' (mc_runs (sample_core sample_manager)) = Some 0"
  using mirrors_addressed [OF sample_manager_run(3)] sample_manager_run(2) by (simp_all add: sample_core_def)

lemma kill_switch_witness:
  "snd (handleBeginStep sample_api_world ''r9''
     (after_events [RCanProceed ''r9'' 8] (fst (handleCancelRun sample_api_world ''r9'' (sample_core sample_manager))))) =
   refused HaltCancelled"
  using kill_switch [OF sample_core_run, of sample_api_world "[RCanProceed ''r9'' 8]" sample_api_world]
  by (simp add: sample_core_def sample_manager_run(1) newRun_def gov_New_fresh)

text \<open>
  A client that asks for one step after the other, while others do what they like: the
  replies it gets.
\<close>

fun drive :: "string \<Rightarrow> (run_event list \<times> api_world) list \<Rightarrow> mcp_state \<Rightarrow> api_reply list" where
  "drive rid [] s = []"
| "drive rid ((es, w) # ws) s =
     (let (s', reply) = handleBeginStep w rid (after_events es s) in reply # drive rid ws s')"


definition capped_core :: mcp_state where
  "capped_core = sample_core
     \<lparr>m_defaultBudget = token_cap 0, m_store = None, m_heap = [newRun ''r9'' '''' (loop_cap_of 1) [] 0],
      m_runs = [(''r9'', 0)]\<rparr>"


section \<open>The budget of a new run\<close>

text \<open>
  A run starts under the budget its request states. A request with an inline budget and
  no policy gets exactly that budget, a field left at zero without a limit; one with a policy
  gets the policy's budget with every non-zero inline field in its place; only a request with
  neither gets the daemon's default. The run is live under the new id, with nothing used.
\<close>

theorem created_run_budget:
  assumes "decodeJSON (XW_create w) r = Inr body" "referenced_budget w (CB_PolicyRef body) s = (s1, Inr base)"
  shows "let s' = fst (handleCreateRun w r s); a = length (m_heap (mc_runs s1)); b = rn_Budget (run_at (mc_runs s') a)
    in get_run (XW_newID w) (mc_runs s') = Some a \<and>
       rn_gov (run_at (mc_runs s') a) = gov_New Background b [] (XW_now w) \<and>
       (case (CB_Budget body, base) of
          (None, None) \<Rightarrow> b = m_defaultBudget (mc_runs s1)
        | (None, Some p) \<Rightarrow> b = p
        | (Some i, None) \<Rightarrow> b = \<lparr>B_Tokens = BB_Tokens i, B_Dollars = BB_Dollars i, B_Loops = BB_Loops i, B_Seconds = BB_Seconds i\<rparr>
        | (Some i, Some p) \<Rightarrow>
            b = \<lparr>B_Tokens = (if BB_Tokens i \<noteq> 0 then BB_Tokens i else B_Tokens p),
                 B_Dollars = (if BB_Dollars i \<noteq> Fin 0 then BB_Dollars i else B_Dollars p),
                 B_Loops = (if BB_Loops i \<noteq> 0 then BB_Loops i else B_Loops p),
                 B_Seconds = (if BB_Seconds i \<noteq> 0 then BB_Seconds i else B_Seconds p)\<rparr>)"
proof -
  have at: "run_at (put_run k b m) c = run_at m c" for k b c and m :: manager by (simp add: put_run_def run_at_def)
  have new: "rn_Budget ((newRun k n b md t)\<lparr>rn_PolicyRef := p\<rparr>) = b"
    "rn_gov ((newRun k n b md t)\<lparr>rn_PolicyRef := p\<rparr>) = gov_New Background b [] t" for k n b md t p
    by (simp_all add: newRun_def)
  have get: "get_run k (persistRun a m) = get_run k m" for k a and m :: manager by (simp add: get_run_def)
  have inl: "inline_budget None base = base" by (simp add: inline_budget_def)
  show ?thesis
    using assms
    by (simp add: handleCreateRun_def case_prod_beta Let_def run_Create_def at new get inl
        alloc_run_sel split: option.split)
      (auto simp: inline_budget_def Let_def)
qed

lemma created_run_budget_witness:
  "let s' = fst (handleCreateRun sample_api_world \<lparr>RQ_Header = [], RQ_Body = Some ''x''\<rparr> capped_core);
       b = rn_Budget (run_at (mc_runs s') 1)
   in get_run ''r2'' (mc_runs s') = Some 1 \<and> rn_gov (run_at (mc_runs s') 1) = gov_New Background b [] 7 \<and>
      b = loop_cap_of 1"
proof -
  have d: "decodeJSON (XW_create sample_api_world) \<lparr>RQ_Header = [], RQ_Body = Some ''x''\<rparr> =
      Inr \<lparr>CB_Name = ''agent'', CB_Budget = Some \<lparr>BB_Tokens = 0, BB_Dollars = Fin 0,
          BB_Loops = 1, BB_Seconds = 0\<rparr>, CB_PolicyRef = '''', CB_Metadata = []\<rparr>"
    by (simp add: decodeJSON_def sample_api_world_def)
  have n: "length (m_heap (mc_runs capped_core)) = 1" by (simp add: capped_core_def sample_core_def)
  have w: "XW_newID sample_api_world = ''r2''" "XW_now sample_api_world = 7" by (simp_all add: sample_api_world_def)
  show ?thesis
    using created_run_budget [OF d, of capped_core capped_core None] n
    by (simp add: referenced_budget_def Let_def w loop_cap_of_def)
qed

section \<open>What a scraper reads\<close>

text \<open>A label value up to its closing quote, as the exposition format escapes it.\<close>

fun read_label :: "string \<Rightarrow> (string \<times> string) option" where
  "read_label [] = None"
| "read_label [c] = (if c = CHR 0x22 then Some ([], []) else None)"
| "read_label (c # d # s) =
     (if c = CHR 0x22 then Some ([], d # s)
      else if c = CHR 0x0A then None
      else if c = backslash then map_option (apfst ((#) (if d = CHR ''n'' then CHR 0x0A else d))) (read_label s)
      else map_option (apfst ((#) c)) (read_label (d # s)))"

definition escaped :: "char \<Rightarrow> string" where
  "escaped c = (if c = backslash then [backslash, backslash] else if c = CHR 0x22 then [backslash, CHR 0x22]
     else if c = CHR 0x0A then [backslash, CHR ''n''] else [c])"

lemma escapeLabelValue_concat: "escapeLabelValue s = concat (map escaped s)"
  by (induction s) (auto simp: escapeLabelValue_def replace_char_def escaped_def backslash_def)

text \<open>
  A label of the metrics reads back. Whatever a run's status or halt reason is, with
  quotes, backslashes and line ends, a reader of the exposition format finds the closing
  quote where the writer put it and gets the value that was written.
\<close>

theorem metric_label_round_trip:
  "read_label (escapeLabelValue v @ CHR 0x22 # rest) = Some (v, rest)"
proof (induction v)
  case Nil
  show ?case by (cases rest) (simp_all add: escapeLabelValue_concat)
next
  case (Cons c v)
  obtain d t where rest: "escapeLabelValue v @ CHR 0x22 # rest = d # t"
    by (cases "escapeLabelValue v @ CHR 0x22 # rest") auto
  show ?case
    using Cons.IH rest
    by (auto simp: escapeLabelValue_concat escaped_def backslash_def)
qed

end
