(* ===== verification/JsonText.thy ===== *)
theory JsonText
  imports Storage Utf8
begin

text \<open>
  Package encoding/json on the values the store keeps in its JSON columns: maps with string
  keys, lists of strings and approval rules, written with HTML characters escaped and keys
  in byte order, and read back by the decoder: the grammar of RFC 8259, nested at most 10000
  deep, with the decoder's replacements (a broken rune, a lone surrogate) and its rules for a
  repeated key (the last one counts).
\<close>

section \<open>Strings\<close>

definition hex_lower :: "nat \<Rightarrow> char" where
  "hex_lower n = (if n < 10 then char_of (48 + n) else char_of (87 + n))"

text \<open>The bytes of \<open>htmlSafeSet\<close>, below 128.\<close>

definition html_safe :: "char \<Rightarrow> bool" where
  "html_safe c \<longleftrightarrow> 32 \<le> byte_of c \<and> c \<notin> {CHR 0x22, CHR 0x5C, CHR ''<'', CHR ''>'', CHR ''&''}"

definition escape_ascii :: "char \<Rightarrow> string" where
  "escape_ascii c =
     (if html_safe c then [c]
      else if c = CHR 0x22 \<or> c = CHR 0x5C then [CHR 0x5C, c]
      else if c = CHR 0x08 then CHR 0x5C # ''b''
      else if c = CHR 0x0C then CHR 0x5C # ''f''
      else if c = CHR 0x0A then CHR 0x5C # ''n''
      else if c = CHR 0x0D then CHR 0x5C # ''r''
      else if c = CHR 0x09 then CHR 0x5C # ''t''
      else CHR 0x5C # ''u00'' @ [hex_lower (byte_of c div 16), hex_lower (byte_of c mod 16)])"

text \<open>U+2028 and U+2029 are escaped, a byte that starts no rune becomes U+FFFD.\<close>

definition escape_wide :: "string \<Rightarrow> string" where
  "escape_wide r =
     (if r = [CHR 0xE2, CHR 0x80, CHR 0xA8] then CHR 0x5C # ''u2028''
      else if r = [CHR 0xE2, CHR 0x80, CHR 0xA9] then CHR 0x5C # ''u2029''
      else r)"

fun escape_text :: "string \<Rightarrow> string" where
  "escape_text [] = []"
| "escape_text (c # s) =
     (if byte_of c < 128 then escape_ascii c @ escape_text s
      else if rune_size (c # s) = 0 then CHR 0x5C # ''ufffd'' @ escape_text s
      else escape_wide (take (rune_size (c # s)) (c # s)) @ escape_text (drop (rune_size (c # s) - 1) s))"

definition json_string :: "string \<Rightarrow> string" where
  "json_string s = CHR 0x22 # escape_text s @ [CHR 0x22]"

definition hex_value :: "char \<Rightarrow> nat option" where
  "hex_value c =
     (let n = byte_of c in
      if 48 \<le> n \<and> n \<le> 57 then Some (n - 48)
      else if 97 \<le> n \<and> n \<le> 102 then Some (n - 87)
      else if 65 \<le> n \<and> n \<le> 70 then Some (n - 55) else None)"

text \<open>The four digits of an escape, and the low half that may follow a high surrogate.\<close>

definition hex4 :: "string \<Rightarrow> nat option" where
  "hex4 s =
     (case s of
        a # b # c # d # _ \<Rightarrow>
          (case (hex_value a, hex_value b, hex_value c, hex_value d) of
             (Some a, Some b, Some c, Some d) \<Rightarrow> Some (4096 * a + 256 * b + 16 * c + d)
           | _ \<Rightarrow> None)
      | _ \<Rightarrow> None)"

definition surrogate :: "nat \<Rightarrow> bool" where
  "surrogate r \<longleftrightarrow> 55296 \<le> r \<and> r < 57344"

definition surrogate_pair :: "nat \<Rightarrow> string \<Rightarrow> nat option" where
  "surrogate_pair hi s =
     (case s of
        a # b # t \<Rightarrow>
          if a = CHR 0x5C \<and> b = CHR ''u'' \<and> hi < 56320 then
            (case hex4 t of
               Some lo \<Rightarrow> if 56320 \<le> lo \<and> lo < 57344 then Some (65536 + 1024 * (hi - 55296) + (lo - 56320)) else None
             | None \<Rightarrow> None)
          else None
      | _ \<Rightarrow> None)"

definition prepend :: "string \<Rightarrow> (string \<times> string) option \<Rightarrow> (string \<times> string) option" where
  "prepend p r = map_option (\<lambda>(x, rest). (p @ x, rest)) r"

definition simple_escape :: "char \<Rightarrow> char option" where
  "simple_escape d =
     (if d \<in> {CHR 0x22, CHR 0x5C, CHR ''/''} then Some d
      else if d = CHR ''b'' then Some CHR 0x08
      else if d = CHR ''f'' then Some CHR 0x0C
      else if d = CHR ''n'' then Some CHR 0x0A
      else if d = CHR ''r'' then Some CHR 0x0D
      else if d = CHR ''t'' then Some CHR 0x09 else None)"

text \<open>The string after its opening quote: what it denotes, and what follows the closing quote.\<close>

fun read_string :: "string \<Rightarrow> (string \<times> string) option" where
  "read_string [] = None"
| "read_string (c # s) =
     (if c = CHR 0x22 then Some ([], s)
      else if c = CHR 0x5C then
        (case s of
           [] \<Rightarrow> None
         | d # t \<Rightarrow>
             if d = CHR ''u'' then
               (case hex4 t of
                  None \<Rightarrow> None
                | Some r \<Rightarrow>
                    if \<not> surrogate r then prepend (rune_text r) (read_string (drop 4 t))
                    else (case surrogate_pair r (drop 4 t) of
                        Some q \<Rightarrow> prepend (rune_text q) (read_string (drop 10 t))
                      | None \<Rightarrow> prepend rune_error (read_string (drop 4 t))))
             else (case simple_escape d of
                 None \<Rightarrow> None | Some x \<Rightarrow> prepend [x] (read_string t)))
      else if byte_of c < 32 then None
      else if rune_size (c # s) = 0 then prepend rune_error (read_string s)
      else prepend (take (rune_size (c # s)) (c # s)) (read_string (drop (rune_size (c # s) - 1) s)))"

text \<open>A string of well-formed UTF-8 is read back as it was.\<close>

lemma hex_value_lower [simp]: "n < 16 \<Longrightarrow> hex_value (hex_lower n) = Some n"
  by (auto simp: hex_value_def hex_lower_def byte_of_def Let_def)

lemma byte_of_inject [simp]: "byte_of c = byte_of d \<longleftrightarrow> c = d"
  by (simp add: byte_of_def)

lemma char_byte [simp]: "char_of (byte_of c) = c"
  by (simp add: byte_of_def)

lemma read_safe:
  assumes "byte_of c < 128" "html_safe c"
  shows "read_string (c # s) = prepend [c] (read_string s)"
  using assms by (simp add: html_safe_def)

lemma read_unicode_ascii:
  assumes "byte_of c < 128"
  shows "read_string (CHR 0x5C # ''u00'' @ hex_lower (byte_of c div 16) # hex_lower (byte_of c mod 16) # s) =
    prepend [c] (read_string s)"
proof -
  have "hex4 (''00'' @ hex_lower (byte_of c div 16) # hex_lower (byte_of c mod 16) # s) = Some (byte_of c)"
  proof -
    have "hex_value CHR ''0'' = Some 0" by (simp add: hex_value_def byte_of_def)
    moreover have "hex_value (hex_lower (byte_of c div 16)) = Some (byte_of c div 16)"
      "hex_value (hex_lower (byte_of c mod 16)) = Some (byte_of c mod 16)"
      using assms by (simp_all add: less_mult_imp_div_less)
    ultimately show ?thesis by (simp add: hex4_def)
  qed
  then show ?thesis using assms by (simp add: surrogate_def rune_text_def del: hex_value_lower)
qed

lemma read_escape_ascii:
  assumes "byte_of c < 128"
  shows "read_string (escape_ascii c @ s) = prepend [c] (read_string s)"
proof (cases "html_safe c")
  case True
  then show ?thesis using read_safe [OF assms] by (simp add: escape_ascii_def)
next
  case False
  then show ?thesis
    using read_unicode_ascii [OF assms] unfolding escape_ascii_def
    by (simp add: simple_escape_def del: read_string.simps(2)) (auto simp: simple_escape_def)
qed

lemma read_wide:
  assumes "\<not> byte_of c < 128" "0 < rune_size (c # s)"
  shows "read_string (take (rune_size (c # s)) (c # s) @ r) =
    prepend (take (rune_size (c # s)) (c # s)) (read_string r)"
proof -
  define w where "w = take (rune_size (c # s)) (c # s)"
  obtain v where w: "w = c # v" using assms(2) by (cases "rune_size (c # s)") (auto simp: w_def)
  have n: "rune_size (w @ r) = rune_size (c # s)" unfolding w_def using assms(2) by (rule rune_size_take)
  moreover have len: "length w = rune_size (c # s)"
    using assms by (auto simp: w_def Let_def split: list.splits if_splits)
  moreover have "take (length w) (w @ r) = w" "drop (length w - 1) (v @ r) = r" by (simp_all add: w)
  moreover have "c \<noteq> CHR 0x22" "c \<noteq> CHR 0x5C" "\<not> byte_of c < 32" using assms(1) by (auto simp: byte_of_def)
  ultimately show ?thesis
    using assms(2) unfolding w_def [symmetric] by (simp add: w len [symmetric] del: rune_size.simps)
qed

lemma separator_bytes:
  "char_of (226 :: nat) = CHR 0xE2" "char_of (128 :: nat) = CHR 0x80" "char_of (168 :: nat) = CHR 0xA8"
  "char_of (169 :: nat) = CHR 0xA9"
  by code_simp+

lemma rune_text_separators:
  "rune_text 8232 = [CHR 0xE2, CHR 0x80, CHR 0xA8]" "rune_text 8233 = [CHR 0xE2, CHR 0x80, CHR 0xA9]"
  using separator_bytes by (simp_all add: rune_text_def)

lemma read_escape_wide:
  assumes "\<not> byte_of c < 128" "0 < rune_size (c # s)"
  shows "read_string (escape_wide (take (rune_size (c # s)) (c # s)) @ r) =
    prepend (take (rune_size (c # s)) (c # s)) (read_string r)"
proof -
  have h: "hex4 (''2028'' @ r) = Some 8232" "hex4 (''2029'' @ r) = Some 8233"
    by (simp_all add: hex4_def hex_value_def byte_of_def)
  have "read_string (CHR 0x5C # ''u2028'' @ r) = prepend [CHR 0xE2, CHR 0x80, CHR 0xA8] (read_string r)"
    "read_string (CHR 0x5C # ''u2029'' @ r) = prepend [CHR 0xE2, CHR 0x80, CHR 0xA9] (read_string r)"
    using h by (simp_all add: surrogate_def rune_text_separators)
  with read_wide [OF assms] show ?thesis by (simp add: escape_wide_def del: read_string.simps)
qed

lemma read_escape_text:
  assumes "valid_text s"
  shows "read_string (escape_text s @ CHR 0x22 # r) = Some (s, r)"
  using assms
proof (induction s rule: escape_text.induct)
  case (2 c s)
  note pos = rune_size_valid [OF 2(4)]
  show ?case
  proof (cases "byte_of c < 128")
    case True
    then have "valid_text s" using pos(3) by simp
    with 2(1) True show ?thesis by (simp add: read_escape_ascii prepend_def del: read_string.simps rune_size.simps)
  next
    case False
    define k where "k = rune_size (c # s)"
    have k: "0 < k" using pos(1) by (simp add: k_def)
    then have "valid_text (drop (k - 1) s)" using pos(3) by (simp add: k_def drop_Cons')
    moreover have "take k (c # s) @ drop (k - 1) s = c # s"
      using k append_take_drop_id [of k "c # s"] by (simp add: drop_Cons')
    ultimately show ?thesis
      using 2(3) [OF False] k False read_escape_wide [OF False pos(1)]
      by (simp add: prepend_def k_def [symmetric] del: read_string.simps rune_size.simps)
  qed
qed simp

section \<open>Values\<close>

text \<open>\<open>e-09\<close> becomes \<open>e-9\<close>.\<close>

definition trim_exponent :: "string \<Rightarrow> string" where
  "trim_exponent b =
     (let n = length b in
      if 4 \<le> n \<and> b ! (n - 4) = CHR ''e'' \<and> b ! (n - 3) \<in> {CHR ''-'', CHR ''+''} \<and> b ! (n - 2) = CHR ''0''
      then take (n - 2) b @ [b ! (n - 1)] else b)"

definition json_number :: "rat \<Rightarrow> string" where
  "json_number q =
     (if q = 0 then ''0''
      else (let (ds, dp) = shortest_digits \<bar>q\<bar>;
                s = (if flt (Fin \<bar>q\<bar>) (f64 (1 / 10 ^ 6)) \<or> fle (f64 (10 ^ 21)) (Fin \<bar>q\<bar>)
                     then trim_exponent (format_e ds dp) else format_f ds dp)
            in if q < 0 then CHR ''-'' # s else s))"

text \<open>The pairs of a map are written in the byte order of the keys.\<close>

definition pair_le :: "string \<times> 'a \<Rightarrow> string \<times> 'a \<Rightarrow> bool" where
  "pair_le p q \<longleftrightarrow> text_le (fst p) (fst q)"

definition json_object :: "(string \<times> string) list \<Rightarrow> string" where
  "json_object kvs = CHR ''{'' # Join '','' (map (\<lambda>(k, v). json_string k @ CHR '':'' # v) (sort_by pair_le kvs)) @ ''}''"

definition json_array :: "string list \<Rightarrow> string" where
  "json_array vs = CHR ''['' # Join '','' vs @ '']''"

fun json_text :: "json \<Rightarrow> string" where
  "json_text JNull = ''null''"
| "json_text (JBool b) = (if b then ''true'' else ''false'')"
| "json_text (JNum q) = json_number q"
| "json_text (JStr s) = json_string s"
| "json_text (JArr vs) = json_array (map json_text vs)"
| "json_text (JObj kvs) = json_object (map (\<lambda>(k, v). (k, json_text v)) kvs)"

section \<open>The decoder\<close>

text \<open>A document: numbers are kept as their literal, an object as its members in turn.\<close>

datatype document = DNull | DBool bool | DNum string | DStr string | DArr "document list"
  | DObj "(string \<times> document) list"

definition json_space :: "char \<Rightarrow> bool" where
  "json_space c \<longleftrightarrow> c \<in> {CHR '' '', CHR 0x09, CHR 0x0A, CHR 0x0D}"

definition skip_space :: "string \<Rightarrow> string" where
  "skip_space s = dropWhile json_space s"

definition digit_run :: "string \<Rightarrow> string" where
  "digit_run s = takeWhile (\<lambda>c. digit c \<noteq> None) s"

text \<open>The parts of a number: each is its text, None when it is malformed.\<close>

definition read_integer :: "string \<Rightarrow> string option" where
  "read_integer s =
     (case s of
        [] \<Rightarrow> None
      | c # _ \<Rightarrow> if c = CHR ''0'' then Some ''0'' else if digit c = None then None else Some (digit_run s))"

definition read_fraction :: "string \<Rightarrow> string option" where
  "read_fraction s =
     (case s of
        c # t \<Rightarrow> if c = CHR ''.'' then (if digit_run t = [] then None else Some (CHR ''.'' # digit_run t)) else Some []
      | [] \<Rightarrow> Some [])"

definition read_power :: "string \<Rightarrow> string option" where
  "read_power s =
     (case s of
        c # t \<Rightarrow>
          if c = CHR ''e'' \<or> c = CHR ''E'' then
            (let sign = (case t of d # _ \<Rightarrow> if d = CHR ''+'' \<or> d = CHR ''-'' then [d] else [] | [] \<Rightarrow> []);
                 ds = digit_run (drop (length sign) t)
             in if ds = [] then None else Some (c # sign @ ds))
          else Some []
      | [] \<Rightarrow> Some [])"

definition read_number :: "string \<Rightarrow> (string \<times> string) option" where
  "read_number s =
     (let sign = (if HasPrefix s ''-'' then ''-'' else []); s1 = drop (length sign) s in
      case read_integer s1 of None \<Rightarrow> None | Some i \<Rightarrow>
      (let s2 = drop (length i) s1 in
       case read_fraction s2 of None \<Rightarrow> None | Some f \<Rightarrow>
       (let s3 = drop (length f) s2 in
        case read_power s3 of None \<Rightarrow> None | Some e \<Rightarrow>
        Some (sign @ i @ f @ e, drop (length e) s3))))"

lemma length_skip_space: "length (skip_space s) \<le> length s"
  by (simp add: skip_space_def length_dropWhile_le)

lemma skip_space_shorter: "skip_space s = c # t \<Longrightarrow> length t < length s"
  using length_skip_space [of s] by simp

definition literal :: "string \<Rightarrow> document \<Rightarrow> string \<Rightarrow> (document \<times> string) option" where
  "literal w v s = (if HasPrefix s w then Some (v, drop (length w) s) else None)"

text \<open>
  A value, the elements of an array that has one, the members of an object that has one; \<open>d\<close>
  levels of nesting are left. Every piece that was read is not empty (\<open>read_shorter\<close> below), so
  the tests on the length of the rest always hold; they are what the recursion ends by.
\<close>

function read_value :: "nat \<Rightarrow> string \<Rightarrow> (document \<times> string) option"
  and read_elements :: "nat \<Rightarrow> string \<Rightarrow> (document list \<times> string) option"
  and read_members :: "nat \<Rightarrow> string \<Rightarrow> ((string \<times> document) list \<times> string) option"
where
  "read_value d s =
     (case skip_space s of
        [] \<Rightarrow> None
      | c # t \<Rightarrow>
          if c = CHR 0x22 then map_option (\<lambda>(x, r). (DStr x, r)) (read_string t)
          else if c = CHR ''['' then
            (if d = 0 then None
             else if HasPrefix (skip_space t) '']'' then Some (DArr [], drop 1 (skip_space t))
             else map_option (\<lambda>(vs, r). (DArr vs, r)) (read_elements (d - 1) t))
          else if c = CHR ''{'' then
            (if d = 0 then None
             else if HasPrefix (skip_space t) ''}'' then Some (DObj [], drop 1 (skip_space t))
             else map_option (\<lambda>(kvs, r). (DObj kvs, r)) (read_members (d - 1) t))
          else if c = CHR ''t'' then literal ''true'' (DBool True) (c # t)
          else if c = CHR ''f'' then literal ''false'' (DBool False) (c # t)
          else if c = CHR ''n'' then literal ''null'' DNull (c # t)
          else map_option (\<lambda>(w, r). (DNum w, r)) (read_number (c # t)))"
| "read_elements d s =
     (case read_value d s of
        None \<Rightarrow> None
      | Some (v, r) \<Rightarrow>
          (case skip_space r of
             [] \<Rightarrow> None
           | c # t \<Rightarrow>
               if c = CHR '']'' then Some ([v], t)
               else if c = CHR '','' \<and> length t < length s then
                 map_option (\<lambda>(vs, r). (v # vs, r)) (read_elements d t)
               else None))"
| "read_members d s =
     (case skip_space s of
        [] \<Rightarrow> None
      | q # t \<Rightarrow>
          if q \<noteq> CHR 0x22 then None
          else (case read_string t of
              None \<Rightarrow> None
            | Some (k, r) \<Rightarrow>
                (case skip_space r of
                   [] \<Rightarrow> None
                 | c # u \<Rightarrow>
                     if c \<noteq> CHR '':'' \<or> length s \<le> length u then None
                     else (case read_value d u of
                         None \<Rightarrow> None
                       | Some (v, r) \<Rightarrow>
                           (case skip_space r of
                              [] \<Rightarrow> None
                            | c # t \<Rightarrow>
                                if c = CHR ''}'' then Some ([(k, v)], t)
                                else if c = CHR '','' \<and> length t < length s then
                                  map_option (\<lambda>(kvs, r). ((k, v) # kvs, r)) (read_members d t)
                                else None)))))"
  by pat_completeness auto
termination
  by (relation "measures [\<lambda>x. case x of Inl (_, s) \<Rightarrow> length s | Inr (Inl (_, s)) \<Rightarrow> length s | Inr (Inr (_, s)) \<Rightarrow> length s,
      \<lambda>x. case x of Inl _ \<Rightarrow> 0 | Inr _ \<Rightarrow> 1]")
    (auto dest: skip_space_shorter)

declare read_value.simps [simp del] read_elements.simps [simp del] read_members.simps [simp del]

text \<open>Every successful read consumes something.\<close>

lemma read_string_shorter: "read_string s = Some (x, r) \<Longrightarrow> length r < length s"
proof (induction s arbitrary: x r rule: read_string.induct)
  case (2 c s)
  have "length (drop (rune_size (c # s) - 1) s) < length (c # s)" by simp
  with 2 show ?case
    by (auto simp: prepend_def simp del: rune_size.simps split: if_splits list.splits option.splits)
       (force dest: less_le_trans le_less_trans)+
qed simp

lemma read_number_shorter:
  assumes "read_number s = Some (w, r)"
  shows "length r < length s"
proof -
  define sign where "sign = (if HasPrefix s ''-'' then ''-'' else [] :: string)"
  define s1 where "s1 = drop (length sign) s"
  from assms obtain i where i: "read_integer s1 = Some i"
    by (auto simp: read_number_def Let_def sign_def s1_def split: option.splits)
  then have "i \<noteq> []" "s1 \<noteq> []" by (auto simp: read_integer_def digit_run_def split: list.splits if_splits)
  then have "length (drop (length i) s1) < length s1" by (cases i; cases s1) auto
  moreover have "length r \<le> length (drop (length i) s1)"
    using assms i by (auto simp: read_number_def Let_def sign_def s1_def split: option.splits)
  ultimately show ?thesis by (simp add: s1_def)
qed

lemma literal_shorter: "literal w v s = Some (x, r) \<Longrightarrow> w \<noteq> [] \<Longrightarrow> length r < length s"
  by (auto simp: literal_def HasPrefix_iff split: if_splits)

lemma read_shorter:
  "read_value d s = Some (v, r) \<Longrightarrow> length r < length s"
  "read_elements d s = Some (vs, r) \<Longrightarrow> length r < length s"
  "read_members d s = Some (kvs, r) \<Longrightarrow> length r < length s"
proof (induction d s and d s and d s arbitrary: v r and vs r and kvs r
    rule: read_value_read_elements_read_members.induct)
  case (1 d s)
  from 1(3) obtain c t where ct: "skip_space s = c # t" by (auto simp: read_value.simps split: list.splits)
  have l: "length (c # t) \<le> length s" "length (skip_space t) \<le> length t"
    using length_skip_space [of s] length_skip_space [of t] ct by simp_all
  from 1(3) ct show ?case
    using l 1(1)[OF ct] 1(2)[OF ct] read_string_shorter [of t] read_number_shorter [of "c # t"]
      literal_shorter [of "''true''" _ "c # t"] literal_shorter [of "''false''" _ "c # t"]
      literal_shorter [of "''null''" _ "c # t"]
    by (auto simp: read_value.simps [of d s] split: if_splits) fastforce+
next
  case (2 d s)
  from 2(3) obtain a q c t where a: "read_value d s = Some (a, q)" and q: "skip_space q = c # t"
    by (auto simp: read_elements.simps [of d s] split: option.splits list.splits)
  have t: "length t < length s" using 2(1) [OF a] skip_space_shorter [OF q] by simp
  show ?case
  proof (cases "c = CHR '']''")
    case True
    with 2(3) a q t show ?thesis by (simp add: read_elements.simps [of d s])
  next
    case False
    with 2(3) a q obtain vs' where "c = CHR '',''" "read_elements d t = Some (vs', r)"
      by (auto simp: read_elements.simps [of d s] split: if_splits)
    with 2(2) [OF a refl q False] t show ?thesis by auto
  qed
next
  case (3 d s)
  from 3(3) obtain u k q where u: "skip_space s = CHR 0x22 # u" and q: "read_string u = Some (k, q)"
    by (auto simp: read_members.simps [of d s] split: option.splits list.splits if_splits)
  from 3(3) u q obtain w where w: "skip_space q = CHR '':'' # w" "\<not> length s \<le> length w"
    by (auto simp: read_members.simps [of d s] split: list.splits if_splits)
  from 3(3) u q w obtain a p c t where a: "read_value d w = Some (a, p)" and p: "skip_space p = c # t"
    by (auto simp: read_members.simps [of d s] split: option.splits list.splits)
  have "length p < length w" using 3(1) u q w a by auto
  then have t: "length t < length s" using w(2) skip_space_shorter [OF p] by simp
  show ?case
  proof (cases "c = CHR ''}''")
    case True
    with 3(3) u q w a p t show ?thesis by (simp add: read_members.simps [of d s])
  next
    case False
    with 3(3) u q w a p obtain kvs' where "c = CHR '',''" "read_members d t = Some (kvs', r)"
      by (auto simp: read_members.simps [of d s] split: if_splits)
    with 3(2) u q w a p False t show ?thesis by fastforce
  qed
qed

section \<open>A text that reads as a value\<close>

definition delimited :: "string \<Rightarrow> bool" where
  "delimited s \<longleftrightarrow> (case s of [] \<Rightarrow> True | c # _ \<Rightarrow> c \<in> {CHR '','', CHR '']'', CHR ''}''})"

text \<open>Wherever the text stands, with \<open>d\<close> levels left, the decoder reads it as the value.\<close>

definition reads :: "nat \<Rightarrow> string \<Rightarrow> document \<Rightarrow> bool" where
  "reads d t v \<longleftrightarrow>
     (case t of [] \<Rightarrow> False | c # _ \<Rightarrow> \<not> json_space c \<and> c \<noteq> CHR '']'') \<and>
     (\<forall>r. delimited r \<longrightarrow> read_value d (t @ r) = Some (v, r))"

lemma skip_space_Cons [simp]: "\<not> json_space c \<Longrightarrow> skip_space (c # s) = c # s"
  by (simp add: skip_space_def)

lemma json_space_marks [simp]:
  "\<not> json_space CHR 0x22" "\<not> json_space CHR ''[''" "\<not> json_space CHR '']''" "\<not> json_space CHR ''{''"
  "\<not> json_space CHR ''}''" "\<not> json_space CHR '',''" "\<not> json_space CHR '':''"
  by (simp_all add: json_space_def)

lemma reads_string: "valid_text s \<Longrightarrow> reads d (json_string s) (DStr s)"
  by (simp add: reads_def json_string_def read_value.simps read_escape_text)

lemma reads_value: "reads d t v \<Longrightarrow> delimited r \<Longrightarrow> read_value d (t @ r) = Some (v, r)"
  by (simp add: reads_def)

lemma read_elements_text:
  assumes "list_all2 (reads d) ts vs" "ts \<noteq> []"
  shows "read_elements d (Join '','' ts @ CHR '']'' # r) = Some (vs, r)"
  using assms
proof (induction ts vs rule: list_all2_induct)
  case (Cons t ts v vs)
  show ?case
  proof (cases ts)
    case Nil
    with Cons.hyps reads_value [OF Cons.hyps(1), of "CHR '']'' # r"] show ?thesis
      by (simp add: read_elements.simps delimited_def)
  next
    case (Cons t' ts')
    with Cons.IH have "read_elements d (Join '','' ts @ CHR '']'' # r) = Some (vs, r)" by simp
    with Cons reads_value [OF Cons.hyps(1), of "CHR '','' # Join '','' ts @ CHR '']'' # r"] show ?thesis
      by (simp add: delimited_def) (subst read_elements.simps, simp)
  qed
qed simp

lemma reads_array:
  assumes "list_all2 (reads d) ts vs"
  shows "reads (Suc d) (json_array ts) (DArr vs)"
proof (cases ts)
  case Nil
  with assms show ?thesis by (simp add: reads_def json_array_def read_value.simps HasPrefix_def)
next
  case (Cons t ts')
  then obtain v vs' where "vs = v # vs'" "reads d t v" using assms by (auto simp: list_all2_Cons1)
  then obtain c t' where t: "t = c # t'" "\<not> json_space c" "c \<noteq> CHR '']''"
    by (auto simp: reads_def split: list.splits)
  then obtain u where u: "Join '','' ts = c # u" using Cons by (cases ts') auto
  have "read_elements d (Join '','' ts @ CHR '']'' # r) = Some (vs, r)" for r
    using assms Cons by (intro read_elements_text) simp_all
  with t u show ?thesis
    by (simp add: reads_def json_array_def read_value.simps HasPrefix_def)
qed

definition member_text :: "string \<times> string \<Rightarrow> string" where
  "member_text = (\<lambda>(k, t). json_string k @ CHR '':'' # t)"

lemma read_members_text:
  assumes "list_all2 (\<lambda>(k, t) (k', v). k' = k \<and> valid_text k \<and> reads d t v) kts kvs" "kts \<noteq> []"
  shows "read_members d (Join '','' (map member_text kts) @ CHR ''}'' # r) = Some (kvs, r)"
  using assms
proof (induction kts kvs rule: list_all2_induct)
  case (Cons kt kts kv kvs)
  obtain k t v where kt: "kt = (k, t)" "kv = (k, v)" "valid_text k" "reads d t v"
    using Cons.hyps(1) by (cases kt; cases kv) auto
  then obtain c t' where t: "t = c # t'" "\<not> json_space c" by (auto simp: reads_def split: list.splits)
  define m where "m = (if kts = [] then CHR ''}'' # r
    else CHR '','' # Join '','' (map member_text kts) @ CHR ''}'' # r)"
  have s: "Join '','' (map member_text (kt # kts)) @ CHR ''}'' # r =
      CHR 0x22 # escape_text k @ CHR 0x22 # CHR '':'' # t @ m"
    by (cases kts) (simp_all add: kt(1) member_text_def json_string_def m_def)
  have v: "read_value d (t @ m) = Some (v, m)"
    using kt(4) by (rule reads_value) (simp add: m_def delimited_def)
  show ?case
    using Cons.IH Cons.hyps(2) v kt unfolding s
    by (subst read_members.simps) (auto simp: read_escape_text m_def)
qed simp

lemma reads_members:
  assumes "list_all2 (\<lambda>(k, t) (k', v). k' = k \<and> valid_text k \<and> reads d t v) kts kvs"
  shows "reads (Suc d) (CHR ''{'' # Join '','' (map member_text kts) @ ''}'') (DObj kvs)"
proof (cases kts)
  case Nil
  with assms show ?thesis by (simp add: reads_def read_value.simps HasPrefix_def)
next
  case (Cons kt kts')
  obtain u where u: "Join '','' (map member_text kts) = CHR 0x22 # u"
    using Cons by (cases kt; cases kts') (auto simp: member_text_def json_string_def)
  have "read_members d (Join '','' (map member_text kts) @ CHR ''}'' # r) = Some (kvs, r)" for r
    using assms Cons by (intro read_members_text) simp_all
  with u show ?thesis by (simp add: reads_def read_value.simps HasPrefix_def)
qed

interpretation key_order: preference pair_le
  using text_le_total text_le_trans by unfold_locales (unfold pair_le_def, blast+)

lemma reads_object:
  assumes "list_all2 (\<lambda>(k, t) (k', v). k' = k \<and> valid_text k \<and> reads d t v) kts kvs"
    and "sorted_wrt pair_le kts"
  shows "reads (Suc d) (json_object kts) (DObj kvs)"
  using reads_members [OF assms(1)] key_order.sort_by_id [OF assms(2)]
  by (simp add: json_object_def member_text_def)

section \<open>Values of Go types\<close>

text \<open>A map as the list of its pairs in key order; a later pair replaces an earlier one.\<close>

fun put_key :: "string \<Rightarrow> 'a \<Rightarrow> (string \<times> 'a) list \<Rightarrow> (string \<times> 'a) list" where
  "put_key k v [] = [(k, v)]"
| "put_key k v ((k', v') # m) =
     (if k = k' then (k, v) # m
      else if text_less k k' then (k, v) # (k', v') # m
      else (k', v') # put_key k v m)"

definition go_map :: "(string \<times> 'a) list \<Rightarrow> (string \<times> 'a) list" where
  "go_map kvs = fold (\<lambda>(k, v). put_key k v) kvs []"

definition in_key_order :: "(string \<times> 'a) list \<Rightarrow> bool" where
  "in_key_order m \<longleftrightarrow> sorted_wrt (\<lambda>p q. text_less (fst p) (fst q)) m"

lemma put_key_last:
  "\<forall>p \<in> set m. text_less (fst p) k \<Longrightarrow> put_key k v m = m @ [(k, v)]"
proof (induction m)
  case (Cons p m)
  obtain k' v' where p: "p = (k', v')" by (cases p)
  have "text_less k' k" using Cons.prems p by simp
  then have "k \<noteq> k'" "\<not> text_less k k'" using text_less_trans [of k k' k] by auto
  with Cons p show ?case by simp
qed simp

lemma go_map_in_order: "in_key_order m \<Longrightarrow> go_map m = m"
proof (induction m rule: rev_induct)
  case (snoc p m)
  then have "in_key_order m" "\<forall>q \<in> set m. text_less (fst q) (fst p)"
    by (auto simp: in_key_order_def sorted_wrt_append)
  with snoc.IH show ?case
    by (cases p) (simp add: go_map_def put_key_last)
qed (simp add: go_map_def)

lemma in_key_order_sorted: "in_key_order m \<Longrightarrow> sorted_wrt pair_le m"
  unfolding in_key_order_def
proof (rule sorted_wrt_mono_rel)
  show "pair_le p q" if "text_less (fst p) (fst q)" for p q :: "string \<times> 'a"
    using that text_less_trans [of "fst p" "fst q" "fst p"] by (auto simp: pair_le_def text_le_def)
qed simp

lemma in_key_order_map: "in_key_order (map (\<lambda>(k, v). (k, f v)) m) = in_key_order m"
  by (simp add: in_key_order_def sorted_wrt_map split_def)

text \<open>\<open>json.Unmarshal\<close> checks the whole text first; a nesting of 10000 is the most it takes.\<close>

definition decode_text :: "string \<Rightarrow> document option" where
  "decode_text s =
     (case read_value 10000 s of
        None \<Rightarrow> None
      | Some (v, r) \<Rightarrow> if skip_space r = [] then Some v else None)"

text \<open>Into \<open>any\<close>: a number that leaves the float64 range is an error.\<close>

fun any_value :: "document \<Rightarrow> json option" where
  "any_value DNull = Some JNull"
| "any_value (DBool b) = Some (JBool b)"
| "any_value (DNum w) = (case ParseFloat64 w of Some (Fin q) \<Rightarrow> Some (JNum q) | _ \<Rightarrow> None)"
| "any_value (DStr s) = Some (JStr s)"
| "any_value (DArr vs) = map_option JArr (all_some (map any_value vs))"
| "any_value (DObj kvs) =
     map_option (\<lambda>vs. JObj (go_map (zip (map fst kvs) vs))) (all_some (map (\<lambda>(_, v). any_value v) kvs))"

text \<open>Into \<open>map[string]any\<close>; null leaves the map nil.\<close>

definition any_map :: "string \<Rightarrow> json_map option" where
  "any_map s =
     (case decode_text s of
        None \<Rightarrow> None
      | Some v \<Rightarrow> (case any_value v of Some (JObj m) \<Rightarrow> Some m | Some JNull \<Rightarrow> Some [] | _ \<Rightarrow> None))"

text \<open>Into a \<open>string\<close> that was empty: null leaves it alone, another value is an error.\<close>

definition string_value :: "document \<Rightarrow> string option" where
  "string_value v = (case v of DStr s \<Rightarrow> Some s | DNull \<Rightarrow> Some [] | _ \<Rightarrow> None)"

definition string_map :: "string \<Rightarrow> (string \<times> string) list option" where
  "string_map s =
     (case decode_text s of
        Some (DObj kvs) \<Rightarrow>
          map_option (\<lambda>vs. go_map (zip (map fst kvs) vs)) (all_some (map (\<lambda>(_, v). string_value v) kvs))
      | Some DNull \<Rightarrow> Some []
      | _ \<Rightarrow> None)"

text \<open>
  Into \<open>[]string\<close> and \<open>[]ApprovalRule\<close> with the error dropped, as the policies are scanned:
  an element of another type is left zero, and so is a member.
\<close>

definition string_list :: "string \<Rightarrow> string list" where
  "string_list s =
     (case decode_text s of
        Some (DArr vs) \<Rightarrow> map (\<lambda>v. case string_value v of Some x \<Rightarrow> x | None \<Rightarrow> []) vs
      | _ \<Rightarrow> [])"

definition set_member :: "string \<times> document \<Rightarrow> approval_rule \<Rightarrow> approval_rule" where
  "set_member = (\<lambda>(k, v) r.
     case v of
       DStr x \<Rightarrow>
         (if ToLower k = ''tool'' then r\<lparr>Rule_Tool := x\<rparr>
          else if ToLower k = ''sideeffect'' then r\<lparr>Rule_SideEffect := x\<rparr> else r)
     | _ \<Rightarrow> r)"

definition rule_value :: "document \<Rightarrow> approval_rule" where
  "rule_value v =
     (case v of
        DObj kvs \<Rightarrow> fold set_member kvs \<lparr>Rule_Tool = [], Rule_SideEffect = []\<rparr>
      | _ \<Rightarrow> \<lparr>Rule_Tool = [], Rule_SideEffect = []\<rparr>)"

definition rule_list :: "string \<Rightarrow> approval_rule list" where
  "rule_list s = (case decode_text s of Some (DArr vs) \<Rightarrow> map rule_value vs | _ \<Rightarrow> [])"

text \<open>The text of a rule: its members in the order of the struct, without the empty ones.\<close>

definition rule_members :: "approval_rule \<Rightarrow> (string \<times> string) list" where
  "rule_members r =
     (if Rule_Tool r = [] then [] else [(''tool'', Rule_Tool r)]) @
     (if Rule_SideEffect r = [] then [] else [(''sideEffect'', Rule_SideEffect r)])"

definition rule_text :: "approval_rule \<Rightarrow> string" where
  "rule_text r =
     CHR ''{'' # Join '','' (map (\<lambda>(k, v). json_string k @ CHR '':'' # json_string v) (rule_members r)) @ ''}''"

section \<open>What is written is read back\<close>

lemma decode_reads: "reads 10000 t v \<Longrightarrow> decode_text t = Some v"
  using reads_value [of 10000 t v "[]"] by (simp add: decode_text_def delimited_def skip_space_def)

lemma all_some_total: "\<forall>x \<in> set xs. f x = Some (g x) \<Longrightarrow> all_some (map f xs) = Some (map g xs)"
  by (induction xs) simp_all

definition valid_pairs :: "(string \<times> string) list \<Rightarrow> bool" where
  "valid_pairs m \<longleftrightarrow> list_all (\<lambda>(k, v). valid_text k \<and> valid_text v) m"

definition pairs_text :: "(string \<times> string) list \<Rightarrow> string" where
  "pairs_text m = json_object (map (\<lambda>(k, v). (k, json_string v)) m)"

lemma ten_thousand: "(10000 :: nat) = Suc 9999"
  by simp

lemma decode_pairs_text:
  assumes "in_key_order m" "valid_pairs m"
  shows "decode_text (pairs_text m) = Some (DObj (map (\<lambda>(k, v). (k, DStr v)) m))"
  unfolding pairs_text_def
proof (rule decode_reads, unfold ten_thousand, rule reads_object)
  show "sorted_wrt pair_le (map (\<lambda>(k, v). (k, json_string v)) m)"
    using assms(1) by (intro in_key_order_sorted) (simp only: in_key_order_map)
qed (use assms(2) in \<open>auto simp: list_all2_map1 list_all2_map2 list_all2_same valid_pairs_def list_all_iff reads_string\<close>)

lemma string_map_text:
  assumes "in_key_order m" "valid_pairs m"
  shows "string_map (pairs_text m) = Some m"
proof -
  let ?kvs = "map (\<lambda>(k, v). (k, DStr v)) m"
  have "all_some (map (\<lambda>(_, v). string_value v) ?kvs) = Some (map snd m)"
    by (simp add: o_def split_def string_value_def) (rule all_some_total, simp)
  moreover have "zip (map fst ?kvs) (map snd m) = m" by (induction m) auto
  ultimately show ?thesis
    using go_map_in_order [OF assms(1)] by (simp add: string_map_def decode_pairs_text [OF assms] del: map_map)
qed

lemma string_list_text:
  assumes "list_all valid_text ss"
  shows "string_list (json_array (map json_string ss)) = ss"
proof -
  have "reads 10000 (json_array (map json_string ss)) (DArr (map DStr ss))"
    unfolding ten_thousand using assms
    by (intro reads_array) (simp add: list_all2_map1 list_all2_map2 list_all2_same list_all_iff reads_string)
  then show ?thesis by (simp add: string_list_def decode_reads o_def string_value_def)
qed

definition valid_rule :: "approval_rule \<Rightarrow> bool" where
  "valid_rule r \<longleftrightarrow> valid_text (Rule_Tool r) \<and> valid_text (Rule_SideEffect r)"

lemma member_names: "ToLower ''tool'' = ''tool''" "ToLower ''sideEffect'' = ''sideeffect''"
  by code_simp+

lemma rule_value_members:
  "rule_value (DObj (map (\<lambda>(k, v). (k, DStr v)) (rule_members r))) = r"
  using member_names by (cases r) (simp add: rule_value_def rule_members_def set_member_def)

lemma reads_rule:
  assumes "valid_rule r"
  shows "reads (Suc d) (rule_text r) (DObj (map (\<lambda>(k, v). (k, DStr v)) (rule_members r)))"
proof -
  have "valid_text ''tool''" "valid_text ''sideEffect''" by (simp_all add: valid_text_def)
  with assms have "list_all2 (\<lambda>(k, t) (k', v). k' = k \<and> valid_text k \<and> reads d t v)
      (map (\<lambda>(k, v). (k, json_string v)) (rule_members r)) (map (\<lambda>(k, v). (k, DStr v)) (rule_members r))"
    by (auto simp: list_all2_map1 list_all2_map2 list_all2_same rule_members_def valid_rule_def reads_string)
  from reads_members [OF this] show ?thesis
    by (simp add: rule_text_def member_text_def o_def split_def)
qed

lemma rule_list_text:
  assumes "list_all valid_rule rs"
  shows "rule_list (json_array (map rule_text rs)) = rs"
proof -
  have "reads 10000 (json_array (map rule_text rs))
      (DArr (map (\<lambda>r. DObj (map (\<lambda>(k, v). (k, DStr v)) (rule_members r))) rs))"
    unfolding ten_thousand using assms reads_rule [of _ 9998]
    by (intro reads_array) (auto simp: list_all2_map1 list_all2_map2 list_all2_same list_all_iff)
  then show ?thesis by (simp add: rule_list_def decode_reads o_def rule_value_members)
qed

end
