(* ===== verification/JsonNumber.thy ===== *)
theory JsonNumber
  imports JsonText TimeText
begin

text \<open>
  A finite float64 printed in JSON is read back as itself: seventeen digits are enough for the
  shortest form to exist, its text is a JSON number, and the reader computes the value the
  digits and the exponent denote, which rounds to the number that was printed. With the
  numbers, every JSON value is read back as it was printed.
\<close>

section \<open>Seventeen digits are enough\<close>

lemma rne_near:
  assumes "\<bar>x - of_int n\<bar> < 1 / 2"
  shows "rne x = n"
proof (cases "of_int n \<le> x")
  case True
  then have "\<lfloor>x\<rfloor> = n" using assms by (intro floor_unique) linarith+
  then show ?thesis using assms True by (simp add: rne_def Let_def)
next
  case False
  then have "\<lfloor>x\<rfloor> = n - 1" using assms by (intro floor_unique) (auto simp: abs_if split: if_splits)
  then show ?thesis using assms False by (simp add: rne_def Let_def)
qed

text \<open>A float64 is a multiple of its quantum, and not below it.\<close>

lemma positive_float:
  assumes "0 < q" "f64 q = Fin q"
  obtains n where "q = of_int n * 2 powi quantum q" "1 \<le> n" "q < 2 ^ 1024" "round_pos q = q"
proof -
  have r: "round_pos q = q" "q < 2 ^ 1024"
    using assms by (auto simp: f64_def round_rat_def Let_def split: if_splits)
  define n where "n = rne (q / 2 powi quantum q)"
  have n: "q = of_int n * 2 powi quantum q" using r(1) by (simp add: round_pos_def Let_def n_def)
  with assms(1) have "(0 :: rat) < of_int n" by (metis zero_less_mult_pos2 zero_less_power_int zero_less_numeral)
  then have "1 \<le> n" by simp
  with n r that show ?thesis by blast
qed

text \<open>A number that is closer to a float64 than half a unit of its 53rd bit rounds to it.\<close>

lemma round_near:
  assumes q: "0 < q" "f64 q = Fin q" and near: "\<bar>x - q\<bar> \<le> q * (5 / 10 ^ 17)"
  shows "f64 x = Fin q"
proof -
  let ?k = "quantum q" and ?j = "quantum x"
  obtain n where n: "q = of_int n * 2 powi ?k" "1 \<le> n" "q < 2 ^ 1024" "round_pos q = q"
    using q by (rule positive_float)
  have d: "x - q \<le> q * (5 / 10 ^ 17)" "q - x \<le> q * (5 / 10 ^ 17)"
    using near unfolding abs_le_iff by linarith+
  then have x: "0 < x" "q \<le> x * (1 + 6 / 10 ^ 17)" using q(1) by simp_all
  have bx: "2 powi exp2 x \<le> x" "x < 2 powi (exp2 x + 1)" using exp2_bounds [OF x(1)] by auto
  have bq: "2 powi exp2 q \<le> q" "q < 2 powi (exp2 q + 1)" using exp2_bounds [OF q(1)] by auto
  have "(1 :: rat) * 2 powi ?k \<le> of_int n * 2 powi ?k" using n(2) by (intro mult_right_mono) simp_all
  then have kq: "2 powi ?k \<le> q" unfolding n(1) [symmetric] by simp
  have pk: "(2 :: rat) powi (m + 53) = 2 ^ 53 * 2 powi m" for m by (simp add: power_int_add)
  have "?j \<le> ?k"
  proof (rule ccontr)
    assume j: "\<not> ?j \<le> ?k"
    then have e: "exp2 q + 1 \<le> exp2 x" by (auto simp: quantum_def max_def split: if_splits)
    have "?k \<le> exp2 q + 1"
    proof (rule ccontr)
      assume "\<not> ?k \<le> exp2 q + 1"
      then have "(2 :: rat) powi (exp2 q + 1) \<le> 2 powi ?k" by (simp add: power_int_increasing)
      with kq bq show False by simp
    qed
    then obtain p where p: "(2 :: rat) powi (exp2 q + 1) / 2 powi ?k = of_int p"
      using pow2_on_grid by blast
    then have p': "(2 :: rat) powi (exp2 q + 1) = of_int p * 2 powi ?k" by (simp add: field_simps)
    with bq(2) n(1) have "(of_int n :: rat) * 2 powi ?k < of_int p * 2 powi ?k" by simp
    then have "n + 1 \<le> p" by simp
    then have "(of_int n + 1 :: rat) * 2 powi ?k \<le> of_int p * 2 powi ?k"
      by (metis mult_right_mono of_int_1 of_int_add of_int_le_iff zero_le_power_int zero_le_numeral)
    also have "\<dots> \<le> 2 powi exp2 x" using e by (simp add: p' [symmetric] power_int_increasing)
    also note bx(1)
    finally have "2 powi ?k \<le> x - q" using n(1) by (simp add: algebra_simps)
    moreover have "q < 2 ^ 53 * 2 powi ?k"
    proof -
      have "(2 :: rat) powi (exp2 q + 1) \<le> 2 powi (?k + 53)" by (simp add: quantum_def power_int_increasing)
      with bq(2) pk show ?thesis by simp
    qed
    moreover have "0 < (2 :: rat) powi ?k" by simp
    moreover have "x - q \<le> q * (1 / 20000000000000000)" using d(1) by simp
    moreover have "q < 9007199254740992 * 2 powi ?k" using calculation(2) by simp
    ultimately show False by linarith
  qed
  then obtain c where c: "(2 :: rat) powi ?k / 2 powi ?j = of_int c" using pow2_on_grid by blast
  have qj: "q / 2 powi ?j = of_int (n * c)" by (simp add: c [symmetric]) (metis n(1) times_divide_eq_right)
  have "x < 2 ^ 53 * 2 powi ?j"
  proof -
    have "(2 :: rat) powi (exp2 x + 1) \<le> 2 powi (?j + 53)" by (simp add: quantum_def power_int_increasing)
    with bx(2) pk show ?thesis by simp
  qed
  then have "\<bar>x - q\<bar> < 2 powi ?j / 2" using d x unfolding abs_less_iff by simp
  then have "\<bar>x / 2 powi ?j - of_int (n * c)\<bar> < 1 / 2"
    unfolding qj [symmetric] by (simp add: diff_divide_distrib [symmetric] abs_divide field_simps)
  then have "rne (x / 2 powi ?j) = n * c" by (rule rne_near)
  then have "round_pos x = q" using qj by (simp add: round_pos_def Let_def field_simps)
  then show ?thesis using x(1) n(3) q(1) by (simp add: f64_def round_rat_def)
qed

text \<open>The decimal exponent the printer starts from.\<close>

lemma decimal_not_Nil [simp]: "decimal n \<noteq> []"
  by (subst decimal.simps) simp

lemma decimal_bounds:
  assumes "0 < n"
  shows "10 ^ (length (decimal n) - 1) \<le> n \<and> n < 10 ^ length (decimal n)"
  using assms
proof (induction n rule: decimal.induct)
  case (1 n)
  show ?case
  proof (cases "n < 10")
    case True
    with 1(2) show ?thesis by (simp add: decimal.simps [of n])
  next
    case False
    define l where "l = length (decimal (n div 10))"
    obtain k where k: "l = Suc k" using decimal_not_Nil [of "n div 10"] by (cases l) (simp_all add: l_def)
    from False 1 have "10 ^ (l - 1) \<le> n div 10" "n div 10 < 10 ^ l" by (simp_all add: l_def)
    then have "10 * 10 ^ k \<le> n" "n < 10 * 10 ^ l" using div_bounds [of 10 n] by (simp_all add: k)
    with False k show ?thesis by (simp add: decimal.simps [of n] l_def [symmetric])
  qed
qed

lemma decimal_point_bounds:
  assumes "0 < q"
  shows "10 powi (decimal_point q - 1) \<le> q \<and> q < 10 powi decimal_point q"
proof -
  obtain a b where ab: "quotient_of q = (a, b)" by (cases "quotient_of q")
  then have q: "q = of_int a / of_int b" and b: "0 < b"
    using quotient_of_div quotient_of_denom_pos by auto
  with assms have a: "0 < a" by (simp add: zero_less_divide_iff)
  obtain k where k: "length (decimal a) = Suc k" using decimal_not_Nil [of a] by (cases "decimal a") simp_all
  obtain l where l: "length (decimal b) = Suc l" using decimal_not_Nil [of b] by (cases "decimal b") simp_all
  have A: "10 ^ k \<le> a" "a < 10 ^ Suc k" and B: "10 ^ l \<le> b" "b < 10 ^ Suc l"
    using decimal_bounds [OF a] decimal_bounds [OF b] by (simp_all add: k l)
  have A': "(10 :: rat) ^ k \<le> of_int a" "(of_int a :: rat) < 10 ^ Suc k"
    using A by (metis of_int_le_iff of_int_less_iff of_int_numeral of_int_power)+
  have B': "(10 :: rat) ^ l \<le> of_int b" "(of_int b :: rat) < 10 ^ Suc l"
    using B by (metis of_int_le_iff of_int_less_iff of_int_numeral of_int_power)+
  let ?e = "int k - int l"
  have pw: "(10 :: rat) powi (int m - int n) = 10 ^ m / 10 ^ n" for m n
    by (simp add: power_int_diff)
  have "(10 :: rat) powi (?e - 1) = 10 ^ k / 10 ^ Suc l"
    using pw [of k "Suc l"] by (simp add: algebra_simps)
  also have "\<dots> \<le> q" unfolding q using A' B' a b by (intro frac_le) simp_all
  finally have lo: "10 powi (?e - 1) \<le> q" .
  have "q < 10 ^ Suc k / 10 ^ l" unfolding q using A' B' a by (intro frac_less) simp_all
  also have "\<dots> = 10 powi (?e + 1)" using pw [of "Suc k" l] by (simp add: algebra_simps)
  finally have hi: "q < 10 powi (?e + 1)" .
  show ?thesis using lo hi by (simp add: decimal_point_def ab k l Let_def)
qed

lemma seventeen_digits:
  assumes "0 < q" "f64 q = Fin q"
  shows "digits_for q (decimal_point q) 17 \<noteq> None"
proof -
  define u where "u = (10 :: rat) powi (decimal_point q - 17)"
  define lo where "lo = \<lfloor>q / u\<rfloor>"
  have u: "0 < u" by (simp add: u_def)
  have "(10 :: rat) powi (decimal_point q - 1) = 10 powi (decimal_point q - 17 + 16)" by simp
  also have "\<dots> = u * 10 ^ 16" unfolding u_def by (subst power_int_add) simp_all
  finally have small: "u * 10 ^ 16 \<le> q" using decimal_point_bounds [OF assms(1)] by simp
  have ok: "f64 (of_int c * u) = Fin q" if "\<bar>q / u - of_int c\<bar> \<le> 1 / 2" for c
  proof (rule round_near [OF assms])
    have "of_int c * u - q = (of_int c - q / u) * u" using u by (simp add: algebra_simps)
    then have "\<bar>of_int c * u - q\<bar> = \<bar>q / u - of_int c\<bar> * u" using u by (simp add: abs_mult abs_minus_commute)
    also have "\<dots> \<le> 1 / 2 * u" using that u by (intro mult_right_mono) simp_all
    also have "\<dots> \<le> q * (5 / 10 ^ 17)" using small by simp
    finally show "\<bar>of_int c * u - q\<bar> \<le> q * (5 / 10 ^ 17)" .
  qed
  have "of_int lo \<le> q / u" "q / u < of_int lo + 1" unfolding lo_def by linarith+
  then consider "q / u - of_int lo \<le> 1 / 2" "\<bar>q / u - of_int lo\<bar> \<le> 1 / 2"
    | "\<bar>q / u - of_int (lo + 1)\<bar> \<le> 1 / 2" by (fastforce simp: abs_if)
  then show ?thesis
    using ok [of lo] ok [of "lo + 1"] by cases (auto simp: digits_for_def Let_def u_def lo_def)
qed

section \<open>The shortest digits\<close>

definition digit_text :: "string \<Rightarrow> bool" where
  "digit_text ds \<longleftrightarrow> (\<forall>c \<in> set ds. digit c \<noteq> None)"

lemma digit_text_value: "digit_text ds \<Longrightarrow> \<exists>v. digits_value acc ds = Some v"
  by (induction ds arbitrary: acc) (auto simp: digit_text_def)

lemma digits_value_le:
  "digits_value acc ds = Some v \<Longrightarrow> 0 \<le> acc \<Longrightarrow> acc \<le> v"
proof (induction ds arbitrary: acc)
  case (Cons c ds)
  then obtain k where k: "digit c = Some k" "digits_value (10 * acc + k) ds = Some v"
    by (auto split: option.splits)
  then have "0 \<le> k" by (auto simp: digit_def Let_def split: if_splits)
  with Cons.IH [OF k(2)] Cons.prems(2) show ?case by simp
qed simp

lemma digits_value_shift:
  "digits_value acc ds = Some v \<Longrightarrow> digits_value 0 ds = Some (v - acc * 10 ^ length ds)"
proof (induction ds arbitrary: acc v)
  case (Cons c ds)
  then obtain k where k: "digit c = Some k" "digits_value (10 * acc + k) ds = Some v"
    by (auto split: option.splits)
  from Cons.IH [OF k(2)] have z: "digits_value 0 ds = Some (v - (10 * acc + k) * 10 ^ length ds)" .
  obtain w where w: "digits_value k ds = Some w"
    using z digits_value_SomeD digit_text_value [of ds k] by (metis digit_text_def)
  from Cons.IH [OF w] z have "w = v - acc * 10 ^ length (c # ds)" by (simp add: algebra_simps)
  with k(1) w show ?case by simp
qed simp

lemma decimal_head: "0 < n \<Longrightarrow> hd (decimal n) \<noteq> CHR ''0''"
proof (induction n rule: decimal.induct)
  case (1 n)
  show ?case
  proof (cases "n < 10")
    case True
    have "digit (char_of (48 + n)) = Some n" using 1(2) True by simp
    moreover have "digit CHR ''0'' = Some 0" by (simp add: digit_def)
    ultimately have "char_of (48 + n) \<noteq> CHR ''0''" using 1(2) by (metis less_irrefl option.inject)
    with True show ?thesis by (simp add: decimal.simps [of n])
  next
    case False
    with 1 show ?thesis by (simp add: decimal.simps [of n])
  qed
qed

text \<open>
  What the printer's digits are: no leading and no trailing zero, at most 17 places around the
  point it starts from, and their value at that point rounds to the number.
\<close>

lemma shortest_digits_value:
  assumes q: "0 < q" "f64 q = Fin q" and sd: "shortest_digits q = (ds, dp)"
  obtains v where "digit_text ds" "ds \<noteq> []" "hd ds \<noteq> CHR ''0''" "digits_value 0 ds = Some v"
    "f64 (of_int v * 10 powi (dp - int (length ds))) = Fin q" "\<bar>dp\<bar> \<le> \<bar>decimal_point q\<bar> + 17"
proof -
  let ?p = "decimal_point q"
  let ?found = "List.map_filter (\<lambda>n. map_option (Pair n) (digits_for q ?p n)) [1..<18]"
  have "?found \<noteq> []"
    using seventeen_digits [OF q] by (auto simp: List.map_filter_def filter_empty_conv intro!: bexI [of _ 17])
  then obtain n c rest where f: "?found = (n, c) # rest" by (cases ?found) auto
  then have "(n, c) \<in> set ?found" by simp
  then have n: "1 \<le> n" "n < 18" and c: "digits_for q ?p n = Some c" by (auto simp: List.map_filter_def)
  let ?u = "10 powi (?p - int n)"
  have c1: "f64 (of_int c * ?u) = Fin q" and c2: "c \<le> \<lfloor>q / ?u\<rfloor> + 1"
    using c by (auto simp: digits_for_def Let_def split: if_splits)
  have u: "0 < (?u :: rat)" by simp
  have cpos: "0 < c"
  proof (rule ccontr)
    assume "\<not> 0 < c"
    then have "of_int c * ?u \<le> (0 :: rat)" by (simp add: mult_nonpos_nonneg)
    then have "round_rat (of_int c * ?u) \<le> 0" using round_rat_mono [of "of_int c * ?u" 0] by simp
    with c1 q(1) show False by (auto simp: f64_def Let_def split: if_splits)
  qed
  have "q / ?u < 10 powi ?p / ?u" using decimal_point_bounds [OF q(1)] u by (simp add: divide_strict_right_mono)
  also have "\<dots> = 10 powi (?p - (?p - int n))" by (subst power_int_diff) simp_all
  also have "\<dots> = of_int (10 ^ n)" by simp
  finally have "\<lfloor>q / ?u\<rfloor> < 10 ^ n" by (simp only: floor_less_iff)
  with c2 have "c \<le> 10 ^ n" by linarith
  moreover have "(0 :: int) < 10 ^ n" by simp
  ultimately have "c < 10 ^ Suc n" by (simp only: power_Suc)
  then have len: "length (decimal c) \<le> Suc n" using length_decimal_le [of c "Suc n"] cpos by simp
  obtain k where k: "decimal c = rev (dropWhile (\<lambda>x. x = CHR ''0'') (rev (decimal c))) @ replicate k CHR ''0''"
    by (rule strip_zeros)
  have ds: "ds = rev (dropWhile (\<lambda>x. x = CHR ''0'') (rev (decimal c)))"
    and dp: "dp = ?p + int (length (decimal c)) - int n"
    using sd unfolding shortest_digits_def Let_def f by simp_all
  note k = k [folded ds]
  have val: "digits_value 0 (ds @ replicate k CHR ''0'') = Some c"
    using decimal_digits [of c 0] cpos k by simp
  then obtain v where v: "digits_value 0 ds = Some v" "v * 10 ^ k = c"
    by (auto simp: digits_value_append digits_value_zeros split: option.splits)
  have l: "length (decimal c) = length ds + k" by (subst k) simp
  have "of_int v * 10 powi (dp - int (length ds)) = (of_int c * ?u :: rat)"
  proof -
    have "dp - int (length ds) = int k + (?p - int n)" using dp l by simp
    then have "(10 :: rat) powi (dp - int (length ds)) = 10 ^ k * ?u" by (simp add: power_int_add)
    then show ?thesis by (simp add: v(2) [symmetric] algebra_simps)
  qed
  moreover have "ds \<noteq> []" using v cpos by auto
  moreover have "hd ds \<noteq> CHR ''0''"
  proof -
    have "hd (decimal c) \<noteq> CHR ''0''" using cpos by (rule decimal_head)
    with \<open>ds \<noteq> []\<close> show ?thesis by (metis k hd_append2)
  qed
  moreover have "digit_text ds" using digits_value_SomeD [OF v(1)] by (simp add: digit_text_def)
  moreover have "\<bar>dp\<bar> \<le> \<bar>?p\<bar> + 17" using dp len n by auto
  ultimately show ?thesis using that v(1) c1 by metis
qed

section \<open>The text of a number\<close>

text \<open>An exponent part, or none, and what it denotes.\<close>

definition exponent_part :: "string \<Rightarrow> int \<Rightarrow> bool" where
  "exponent_part E e \<longleftrightarrow> E = [] \<and> e = 0 \<or>
     (\<exists>sign w a. E = CHR ''e'' # sign # w \<and> sign \<in> {CHR ''+'', CHR ''-''} \<and> digit_text w \<and> w \<noteq> [] \<and>
        digits_value 0 w = Some a \<and> a < 10000 \<and> e = (if sign = CHR ''-'' then - a else a))"

definition fraction_part :: "string \<Rightarrow> string" where
  "fraction_part F = (if F = [] then [] else CHR ''.'' # F)"

lemma digit_marks [simp]:
  "digit CHR ''.'' = None" "digit CHR ''_'' = None" "digit CHR ''e'' = None" "digit CHR ''-'' = None"
  "digit CHR ''+'' = None" "digit CHR '','' = None" "digit CHR '']'' = None" "digit CHR ''}'' = None"
  by (simp_all add: digit_def)

lemma digit_lower: "digit c \<noteq> None \<Longrightarrow> lower_char c = c"
proof -
  assume "digit c \<noteq> None"
  then have "int (of_char c) \<le> 57" by (auto simp: digit_def Let_def of_nat_of_char split: if_splits)
  then show ?thesis by (simp add: lower_char_def Let_def)
qed

lemma digit_text_Cons [simp]: "digit_text (c # s) \<longleftrightarrow> digit c \<noteq> None \<and> digit_text s"
  by (simp add: digit_text_def)

lemma digit_text_Nil [simp]: "digit_text []"
  by (simp add: digit_text_def)

lemma digit_text_append [simp]: "digit_text (s @ t) \<longleftrightarrow> digit_text s \<and> digit_text t"
  by (auto simp: digit_text_def)

lemma digit_run_text:
  assumes "digit_text ds" "s = [] \<or> digit (hd s) = None"
  shows "digit_run (ds @ s) = ds"
  using assms by (cases s) (auto simp: digit_run_def digit_text_def takeWhile_append)

lemma read_mantissa_digits:
  assumes "digit_text ds" "digits_value m ds = Some v"
  shows "read_mantissa False dot sd m fr (ds @ s) =
    read_mantissa False dot (sd \<or> ds \<noteq> []) v (if dot then fr + int (length ds) else fr) s"
  using assms
proof (induction ds arbitrary: sd m fr)
  case (Cons c ds)
  then obtain k where k: "digit c = Some k" by auto
  then have "c \<noteq> CHR ''_''" "c \<noteq> CHR ''.''" by auto
  with Cons k show ?case by (simp add: base_digit_def add.assoc)
qed simp

lemma read_exponent_digits:
  assumes "digit_text w" "digits_value e w = Some a" "0 \<le> e" "a < 10000"
  shows "read_exponent e w = (a, [])"
  using assms
proof (induction w arbitrary: e)
  case (Cons c w)
  then obtain k where k: "digit c = Some k" "digits_value (10 * e + k) w = Some a" by auto
  then have "0 \<le> k" by (auto simp: digit_def Let_def split: if_splits)
  moreover from this have "10 * e + k \<le> a" using digits_value_le [OF k(2)] Cons.prems(3) by simp
  moreover have "c \<noteq> CHR ''_''" using k(1) by auto
  ultimately show ?case using Cons.IH [of "10 * e + k"] Cons.prems k by simp
qed simp

lemma pow_rat_powi: "b \<noteq> 0 \<Longrightarrow> pow_rat b e = b powi e"
  by (simp add: pow_rat_def power_int_def inverse_eq_divide power_one_over)

lemma exponent_part_head: "exponent_part E e \<Longrightarrow> E = [] \<or> hd E = CHR ''e''"
  by (auto simp: exponent_part_def)

text \<open>What may stand before the exponent or after the number does not continue its digits.\<close>

lemma exponent_stops:
  assumes "exponent_part E e" "delimited r"
  shows "E @ r = [] \<or> digit (hd (E @ r)) = None"
  using assms by (cases E; cases r) (auto simp: exponent_part_def delimited_def)

lemma read_power_text:
  assumes "exponent_part E e" "delimited r"
  shows "read_power (E @ r) = Some E"
proof (cases "E = []")
  case True
  with assms(2) show ?thesis by (cases r) (auto simp: read_power_def delimited_def)
next
  case False
  with assms(1) obtain sign w where E: "E = CHR ''e'' # sign # w" "sign \<in> {CHR ''+'', CHR ''-''}" "digit_text w" "w \<noteq> []"
    by (auto simp: exponent_part_def)
  have "r = [] \<or> digit (hd r) = None" using assms(2) by (cases r) (auto simp: delimited_def)
  with E show ?thesis by (auto simp: read_power_def digit_run_text Let_def)
qed

lemma read_fraction_text:
  assumes "digit_text F" "exponent_part E e" "delimited r"
  shows "read_fraction (fraction_part F @ E @ r) = Some (fraction_part F)"
proof (cases "F = []")
  case True
  then show ?thesis
    using assms by (cases E; cases r) (auto simp: read_fraction_def fraction_part_def exponent_part_def delimited_def)
next
  case False
  with assms exponent_stops [OF assms(2,3)] show ?thesis
    by (simp add: read_fraction_def fraction_part_def digit_run_text)
qed

text \<open>The parts of a number: its integer digits have no leading zero unless they are one zero.\<close>

definition integer_part :: "string \<Rightarrow> bool" where
  "integer_part I \<longleftrightarrow> digit_text I \<and> I \<noteq> [] \<and> (I = ''0'' \<or> hd I \<noteq> CHR ''0'')"

definition sign_part :: "bool \<Rightarrow> string" where
  "sign_part neg = (if neg then ''-'' else [])"

lemma read_integer_text:
  assumes "integer_part I" "s = [] \<or> digit (hd s) = None"
  shows "read_integer (I @ s) = Some I"
proof (cases I)
  case (Cons c I')
  show ?thesis
  proof (cases "c = CHR ''0''")
    case True
    with assms(1) Cons have "I' = []" by (auto simp: integer_part_def)
    with True Cons show ?thesis by (simp add: read_integer_def)
  next
    case False
    moreover have "digit_run ((c # I') @ s) = c # I'"
      using assms Cons by (intro digit_run_text) (simp_all add: integer_part_def)
    ultimately show ?thesis using assms(1) Cons by (simp add: read_integer_def integer_part_def)
  qed
qed (use assms in \<open>simp add: integer_part_def\<close>)

lemma integer_head: "integer_part I \<Longrightarrow> \<exists>c I'. I = c # I' \<and> digit c \<noteq> None"
  by (cases I) (auto simp: integer_part_def)

lemma fraction_stops:
  assumes "exponent_part E e" "delimited r"
  shows "fraction_part F @ E @ r = [] \<or> digit (hd (fraction_part F @ E @ r)) = None"
  using exponent_stops [OF assms] by (simp add: fraction_part_def)

lemma read_number_text:
  assumes "integer_part I" "digit_text F" "exponent_part E e" "delimited r"
  shows "read_number ((sign_part neg @ I @ fraction_part F @ E) @ r) = Some (sign_part neg @ I @ fraction_part F @ E, r)"
proof -
  obtain c I' where c: "I = c # I'" "digit c \<noteq> None" using integer_head [OF assms(1)] by blast
  then have "c \<noteq> CHR ''-''" by auto
  then have s: "(if HasPrefix (sign_part neg @ I @ fraction_part F @ E @ r) ''-'' then ''-'' else []) = sign_part neg"
    using c by (simp add: sign_part_def HasPrefix_def)
  show ?thesis
    using read_integer_text [OF assms(1) fraction_stops [OF assms(3,4)]]
      read_fraction_text [OF assms(2-4)] read_power_text [OF assms(3,4)] s
    by (simp add: read_number_def Let_def)
qed

lemma split_sign_text:
  assumes "integer_part I"
  shows "split_sign (sign_part neg @ I @ s) = (neg, I @ s)"
proof -
  obtain c I' where c: "I = c # I'" "digit c \<noteq> None" using integer_head [OF assms] by blast
  then have "c \<noteq> CHR ''-''" "c \<noteq> CHR ''+''" by auto
  then show ?thesis using c by (simp add: split_sign_def sign_part_def)
qed

lemma read_mantissa_text:
  assumes "integer_part I" "digit_text F" "exponent_part E e" "digits_value 0 (I @ F) = Some v"
  shows "read_mantissa False False False 0 0 (I @ fraction_part F @ E) = (True, v, int (length F), E)"
proof -
  obtain i where i: "digits_value 0 I = Some i" "digits_value i F = Some v"
    using assms(4) by (auto simp: digits_value_append split: option.splits)
  have stop: "read_mantissa False dot sd m fr E = (sd, m, fr, E)" for dot sd m fr
    using exponent_part_head [OF assms(3)] by (cases E) (auto simp: base_digit_def)
  have "read_mantissa False False False 0 0 (I @ fraction_part F @ E) =
      read_mantissa False False True i 0 (fraction_part F @ E)"
    using assms(1) i(1) by (subst read_mantissa_digits) (auto simp: integer_part_def)
  also have "\<dots> = (True, v, int (length F), E)"
  proof (cases "F = []")
    case True
    with i(2) show ?thesis by (simp add: fraction_part_def stop)
  next
    case False
    then show ?thesis
      using read_mantissa_digits [OF assms(2) i(2), of True True 0 E] by (simp add: fraction_part_def stop)
  qed
  finally show ?thesis .
qed

lemma no_underscore: "digit_text s \<Longrightarrow> CHR ''_'' \<notin> set s"
  by (auto simp: digit_text_def)

lemma read_float_text:
  assumes I: "integer_part I" and F: "digit_text F" and E: "exponent_part E e"
    and v: "digits_value 0 (I @ F) = Some v"
  shows "read_float (sign_part neg @ I @ fraction_part F @ E) =
    Some ((if neg then - 1 else 1) * of_int v * 10 powi (e - int (length F)))"
proof -
  let ?t = "I @ fraction_part F @ E"
  obtain c I' where c: "I = c # I'" "digit c \<noteq> None" using integer_head [OF I] by blast
  have hex: "\<not> (2 < length ?t \<and> ?t ! 0 = CHR ''0'' \<and> lower_char (?t ! 1) = CHR ''x'')"
  proof
    assume h: "2 < length ?t \<and> ?t ! 0 = CHR ''0'' \<and> lower_char (?t ! 1) = CHR ''x''"
    then have "I = ''0''" using I c by (auto simp: integer_part_def)
    with h have "lower_char (hd (fraction_part F @ E)) = CHR ''x''" "fraction_part F @ E \<noteq> []"
      by (cases "fraction_part F @ E"; simp)+
    then show False
      using exponent_part_head [OF E] by (cases "F = []") (auto simp: fraction_part_def lower_char_def)
  qed
  have us: "CHR ''_'' \<notin> set (sign_part neg @ ?t)"
    using I F E by (auto simp: integer_part_def exponent_part_def sign_part_def fraction_part_def dest: no_underscore)
  have ex: "(case E of [] \<Rightarrow> Some (0, [])
      | c # r' \<Rightarrow> if lower_char c = CHR ''e'' then
          (let (eneg, ds) = split_sign r' in
           case ds of [] \<Rightarrow> None
           | d # _ \<Rightarrow> if digit d = None then None
                     else (let (x, r'') = read_exponent 0 ds in Some (if eneg then - x else x, r'')))
        else Some (0, E)) = Some (e, [])"
  proof (cases "E = []")
    case True
    with E show ?thesis by (simp add: exponent_part_def)
  next
    case False
    with E obtain sign w a where w: "E = CHR ''e'' # sign # w" "sign \<in> {CHR ''+'', CHR ''-''}" "digit_text w" "w \<noteq> []"
      "digits_value 0 w = Some a" "a < 10000" "e = (if sign = CHR ''-'' then - a else a)"
      by (auto simp: exponent_part_def)
    moreover have "read_exponent 0 w = (a, [])" using w by (intro read_exponent_digits) simp_all
    ultimately show ?thesis by (cases w) (auto simp: split_sign_def lower_char_def)
  qed
  show ?thesis
    using read_mantissa_text [OF I F E v] us ex hex
    by (simp only: read_float_def Let_def split_sign_text [OF I] prod.case if_False simp_thms)
       (simp add: pow_rat_powi)
qed

lemma lower_digit_ne: "digit c \<noteq> None \<Longrightarrow> lower_char c \<noteq> CHR ''i'' \<and> lower_char c \<noteq> CHR ''n''"
  by (auto simp: digit_lower) (simp_all add: digit_def)

lemma parse_float_text:
  assumes I: "integer_part I" and F: "digit_text F" and E: "exponent_part E e"
    and v: "digits_value 0 (I @ F) = Some v"
    and q: "f64 (of_int v * 10 powi (e - int (length F))) = Fin q"
  shows "ParseFloat64 (sign_part neg @ I @ fraction_part F @ E) = Some (Fin (if neg then - q else q))"
proof -
  let ?t = "I @ fraction_part F @ E"
  obtain c I' where c: "I = c # I'" "digit c \<noteq> None" using integer_head [OF I] by blast
  have "special_float (sign_part neg @ ?t) = None"
    using c lower_digit_ne [OF c(2)] split_sign_text [OF I, of neg "fraction_part F @ E"]
    by (simp add: special_float_def ToLower_def) (auto simp: sign_part_def lower_char_def)
  moreover have "f64 (- (of_int v * 10 powi (e - int (length F)))) = Fin (- q)"
    using q by (auto simp: f64_def round_rat_def Let_def split: if_splits)
  ultimately show ?thesis using read_float_text [OF I F E v, of neg] q by (simp add: ParseFloat64_def)
qed

section \<open>Printing is reversible\<close>

lemma digit_zero [simp]: "digit CHR ''0'' = Some 0"
  by (simp add: digit_def)

lemma digit_text_zeros [simp]: "digit_text (replicate k CHR ''0'')"
  by (auto simp: digit_text_def)

lemma digit_text_take [simp]: "digit_text ds \<Longrightarrow> digit_text (take k ds)"
  by (auto simp: digit_text_def dest: in_set_takeD)

lemma digit_text_drop [simp]: "digit_text ds \<Longrightarrow> digit_text (drop k ds)"
  by (auto simp: digit_text_def dest: in_set_dropD)

text \<open>A positional text of the digits.\<close>

lemma format_f_parts:
  assumes ds: "digit_text ds" "ds \<noteq> []" "hd ds \<noteq> CHR ''0''" "digits_value 0 ds = Some v"
  obtains I F w where "format_f ds dp = I @ fraction_part F" "integer_part I" "digit_text F"
    "digits_value 0 (I @ F) = Some w" "(of_int w :: rat) * 10 powi (- int (length F)) = of_int v * 10 powi (dp - int (length ds))"
proof -
  consider "dp \<le> 0" | "0 < dp" "int (length ds) \<le> dp" | "0 < dp" "dp < int (length ds)" by linarith
  then show ?thesis
  proof cases
    case 1
    show ?thesis
    proof (rule that [of "''0''" "replicate (nat (- dp)) CHR ''0'' @ ds" v])
      show "format_f ds dp = ''0'' @ fraction_part (replicate (nat (- dp)) CHR ''0'' @ ds)"
        using 1 ds(2) by (cases ds) (simp_all add: format_f_def fraction_part_def)
    qed (use 1 ds in \<open>simp_all add: integer_part_def digits_value_append digits_value_zeros algebra_simps\<close>)
  next
    case 2
    let ?k = "nat dp - length ds"
    show ?thesis
    proof (rule that [of "ds @ replicate ?k CHR ''0''" "[]" "v * 10 ^ ?k"])
      have "(10 :: rat) powi (dp - int (length ds)) = 10 ^ ?k"
        using 2 by (simp add: power_int_def nat_diff_distrib)
      then show "(of_int (v * 10 ^ ?k) :: rat) * 10 powi (- int (length [])) = of_int v * 10 powi (dp - int (length ds))"
        by simp
    qed (use 2 ds in \<open>simp_all add: format_f_def fraction_part_def integer_part_def digits_value_append digits_value_zeros\<close>)
  next
    case 3
    have "hd (take (nat dp) ds) \<noteq> CHR ''0''" "take (nat dp) ds \<noteq> []" using 3 ds by (cases ds; cases "nat dp"; simp)+
    moreover have "drop (nat dp) ds \<noteq> []" "nat dp - length ds = 0" using 3 by simp_all
    moreover have "- int (length (drop (nat dp) ds)) = dp - int (length ds)" using 3 by simp
    ultimately show ?thesis
      using 3 ds by (intro that [of "take (nat dp) ds" "drop (nat dp) ds" v])
        (simp_all add: format_f_def fraction_part_def integer_part_def)
  qed
qed

text \<open>A text with an exponent, after the leading zero of a one-digit exponent is dropped.\<close>

lemma trim_exponent_text:
  assumes "digit_text w" "2 \<le> length w" "sign \<in> {CHR ''+'', CHR ''-''}"
  shows "trim_exponent (x @ CHR ''e'' # sign # w) =
    x @ CHR ''e'' # sign # (if length w = 2 \<and> hd w = CHR ''0'' then tl w else w)"
proof (cases "length w = 2")
  case True
  then obtain a b where "w = [a, b]" by (auto simp: length_Suc_conv numeral_2_eq_2)
  then show ?thesis using assms(3) by (auto simp: trim_exponent_def Let_def nth_append)
next
  case False
  let ?b = "x @ CHR ''e'' # sign # w"
  have "?b ! (length ?b - 4) \<in> set (sign # w)"
  proof -
    have "length ?b - 4 = length x + (length w - 2)" using assms(2) by simp
    moreover have "(CHR ''e'' # sign # w) ! (length w - 2) = (sign # w) ! (length w - 3)"
      using assms(2) False by (simp add: nth_Cons')
    moreover have "(sign # w) ! (length w - 3) \<in> set (sign # w)" by (rule nth_mem) simp
    ultimately show ?thesis by (simp only: nth_append_length_plus)
  qed
  then have "?b ! (length ?b - 4) \<noteq> CHR ''e''" using assms(1,3) by (auto simp: digit_text_def)
  with False show ?thesis by (simp add: trim_exponent_def Let_def)
qed

lemma pad_digits:
  assumes "0 \<le> n"
  shows "digit_text (pad k n)" "k \<le> length (pad k n)" "digits_value 0 (pad k n) = Some n"
  using pad_value [OF assms, of k] digits_value_SomeD [OF pad_value [OF assms, of k]]
  by (auto simp: digit_text_def pad_def Let_def)

lemma format_e_parts:
  assumes ds: "digit_text ds" "ds \<noteq> []" "hd ds \<noteq> CHR ''0''" and a: "\<bar>dp - 1\<bar> < 10000"
  obtains E where "trim_exponent (format_e ds dp) = take 1 ds @ fraction_part (drop 1 ds) @ E"
    "exponent_part E (dp - 1)" "integer_part (take 1 ds)"
proof -
  define w where "w = pad 2 \<bar>dp - 1\<bar>"
  define sign where "sign = (if dp - 1 < 0 then CHR ''-'' else CHR ''+'')"
  define w' where "w' = (if length w = 2 \<and> hd w = CHR ''0'' then tl w else w)"
  have w: "digit_text w" "2 \<le> length w" "digits_value 0 w = Some \<bar>dp - 1\<bar>"
    using pad_digits [of "\<bar>dp - 1\<bar>" 2] by (simp_all add: w_def)
  have w': "digit_text w'" "w' \<noteq> []" "digits_value 0 w' = Some \<bar>dp - 1\<bar>"
  proof -
    obtain c t where c: "w = c # t" "t \<noteq> []" using w(2) by (cases w; cases "tl w") auto
    show "digit_text w'" "w' \<noteq> []" using w(1) c by (auto simp: w'_def)
    show "digits_value 0 w' = Some \<bar>dp - 1\<bar>" using w(3) c by (auto simp: w'_def)
  qed
  have "format_e ds dp = (take 1 ds @ fraction_part (drop 1 ds)) @ CHR ''e'' # sign # w"
    using ds(2) by (cases ds) (auto simp: format_e_def fraction_part_def sign_def w_def)
  then have "trim_exponent (format_e ds dp) = take 1 ds @ fraction_part (drop 1 ds) @ CHR ''e'' # sign # w'"
    using trim_exponent_text [OF w(1,2), of sign "take 1 ds @ fraction_part (drop 1 ds)"]
    by (simp add: sign_def w'_def)
  moreover have "exponent_part (CHR ''e'' # sign # w') (dp - 1)"
    unfolding exponent_part_def using w' a by (intro disjI2 exI [of _ sign] exI [of _ w'] exI [of _ "\<bar>dp - 1\<bar>"])
      (auto simp: sign_def)
  moreover have "integer_part (take 1 ds)" using ds by (cases ds) (auto simp: integer_part_def)
  ultimately show ?thesis using that by blast
qed

lemma decimal_point_range:
  assumes "0 < q" "f64 q = Fin q"
  shows "\<bar>decimal_point q\<bar> \<le> 1100"
proof -
  let ?p = "decimal_point q"
  obtain n where n: "q = of_int n * 2 powi quantum q" "1 \<le> n" "q < 2 ^ 1024"
    using assms by (rule positive_float)
  note b = decimal_point_bounds [OF assms(1)]
  have "?p - 1 < 1024"
  proof (rule ccontr)
    assume "\<not> ?p - 1 < 1024"
    then have "(10 :: rat) powi 1024 \<le> 10 powi (?p - 1)" by (intro power_int_increasing) simp_all
    also note conjunct1 [OF b]
    also note n(3)
    also have "(2 :: rat) ^ 1024 \<le> 10 ^ 1024" by (intro power_mono) simp_all
    also have "(10 :: rat) ^ 1024 = 10 powi 1024" by (rule power_int_numeral [symmetric])
    finally show False by (rule less_irrefl [THEN notE, rotated])
  qed
  moreover have "- 1074 \<le> ?p"
  proof (rule ccontr)
    assume "\<not> - 1074 \<le> ?p"
    then have "(10 :: rat) powi ?p \<le> 10 powi - 1074" by (intro power_int_increasing) simp_all
    also have "(10 :: rat) powi - 1074 = inverse (10 ^ 1074)" by (simp only: power_int_minus power_int_numeral)
    also have "\<dots> \<le> inverse (2 ^ 1074)" by (intro le_imp_inverse_le power_mono zero_less_power) simp_all
    also have "\<dots> = (2 :: rat) powi - 1074" by (simp only: power_int_minus power_int_numeral)
    also have "\<dots> \<le> 2 powi quantum q" by (intro power_int_increasing) (simp_all add: quantum_def)
    also have "\<dots> \<le> of_int n * 2 powi quantum q"
      using n(2) mult_right_mono [of 1 "of_int n :: rat" "2 powi quantum q"] by simp
    finally show False using b n(1) by simp
  qed
  ultimately show ?thesis by linarith
qed

text \<open>
  The text of a number is one JSON number wherever it stands, and the number it is read as
  is the one that was printed.
\<close>

definition number_reads :: "string \<Rightarrow> rat \<Rightarrow> bool" where
  "number_reads s q \<longleftrightarrow> (\<exists>I F E neg. s = sign_part neg @ I @ fraction_part F @ E \<and> integer_part I) \<and>
     (\<forall>r. delimited r \<longrightarrow> read_number (s @ r) = Some (s, r)) \<and> ParseFloat64 s = Some (Fin q)"

lemma number_readsI:
  assumes "integer_part I" "digit_text F" "exponent_part E e" "digits_value 0 (I @ F) = Some v"
    and "f64 (of_int v * 10 powi (e - int (length F))) = Fin q"
  shows "number_reads (sign_part neg @ I @ fraction_part F @ E) (if neg then - q else q)"
  unfolding number_reads_def
  using read_number_text [OF assms(1-3), of _ neg] parse_float_text [OF assms, of neg] assms(1) by blast

lemma positive_number_text:
  fixes q :: rat and P neg :: bool
  assumes "0 < q" "f64 q = Fin q"
  defines "t \<equiv> (case shortest_digits q of (ds, dp) \<Rightarrow>
    if P then trim_exponent (format_e ds dp) else format_f ds dp)"
  shows "number_reads (sign_part neg @ t) (if neg then - q else q)"
proof -
  obtain ds dp where sd: "shortest_digits q = (ds, dp)" by (cases "shortest_digits q")
  obtain v where ds: "digit_text ds" "ds \<noteq> []" "hd ds \<noteq> CHR ''0''" "digits_value 0 ds = Some v"
    and f: "f64 (of_int v * 10 powi (dp - int (length ds))) = Fin q" "\<bar>dp\<bar> \<le> \<bar>decimal_point q\<bar> + 17"
    using assms(1,2) sd by (rule shortest_digits_value)
  have small: "\<bar>dp - 1\<bar> < 10000" using f(2) decimal_point_range [OF assms(1,2)] by linarith
  show ?thesis
  proof (cases P)
    case True
    obtain E where E: "trim_exponent (format_e ds dp) = take 1 ds @ fraction_part (drop 1 ds) @ E"
      "exponent_part E (dp - 1)" "integer_part (take 1 ds)"
      using format_e_parts [OF ds(1-3) small] by blast
    have "dp - 1 - int (length (drop 1 ds)) = dp - int (length ds)" using ds(2) by (cases ds) simp_all
    moreover have "digits_value 0 (take 1 ds @ drop 1 ds) = Some v" using ds(4) by simp
    ultimately have "number_reads (sign_part neg @ take 1 ds @ fraction_part (drop 1 ds) @ E) (if neg then - q else q)"
      using ds(1) f(1) by (intro number_readsI [OF E(3) _ E(2)]) simp_all
    then show ?thesis using True E(1) by (simp add: t_def sd)
  next
    case False
    obtain I F w where p: "format_f ds dp = I @ fraction_part F" "integer_part I" "digit_text F"
      "digits_value 0 (I @ F) = Some w"
      "(of_int w :: rat) * 10 powi (- int (length F)) = of_int v * 10 powi (dp - int (length ds))"
      using ds by (rule format_f_parts)
    have "exponent_part [] 0" by (simp add: exponent_part_def)
    moreover have "f64 (of_int w * 10 powi (0 - int (length F))) = Fin q" using f(1) p(5) by simp
    ultimately have "number_reads (sign_part neg @ I @ fraction_part F @ []) (if neg then - q else q)"
      using p by (intro number_readsI)
    then show ?thesis using False p(1) by (simp add: t_def sd)
  qed
qed

lemma json_number_reads:
  assumes "f64 q = Fin q"
  shows "number_reads (json_number q) q"
proof -
  consider "q = 0" | "0 < q" | "q < 0" by linarith
  then show ?thesis
  proof cases
    case 1
    have "number_reads (sign_part False @ ''0'' @ fraction_part [] @ []) (if False then - 0 else 0)"
      by (rule number_readsI [of _ _ _ 0 0])
        (simp_all add: integer_part_def exponent_part_def f64_def round_rat_def)
    with 1 show ?thesis by (simp add: json_number_def sign_part_def fraction_part_def)
  next
    case 2
    then show ?thesis
      using positive_number_text [OF 2 assms, where neg = False and P = "flt (Fin q) (f64 (1 / 10 ^ 6)) \<or> fle (f64 (10 ^ 21)) (Fin q)"]
      by (cases "shortest_digits q") (simp add: json_number_def sign_part_def Let_def)
  next
    case 3
    then have "f64 (- q) = Fin (- q)" using assms by (auto simp: f64_def round_rat_def Let_def split: if_splits)
    with 3 show ?thesis
      using positive_number_text [of "- q", where neg = True and P = "flt (Fin (- q)) (f64 (1 / 10 ^ 6)) \<or> fle (f64 (10 ^ 21)) (Fin (- q))"]
      by (cases "shortest_digits (- q)") (simp add: json_number_def sign_part_def Let_def)
  qed
qed

section \<open>Printing any value is reversible\<close>

text \<open>
  The values that print and read back unchanged: well-formed text, numbers a float64 can hold,
  maps listed in key order, and no deeper than the decoder goes.
\<close>

fun json_fits :: "nat \<Rightarrow> json \<Rightarrow> bool" where
  "json_fits d JNull = True"
| "json_fits d (JBool b) = True"
| "json_fits d (JNum q) = representable (Fin q)"
| "json_fits d (JStr s) = valid_text s"
| "json_fits d (JArr vs) = (0 < d \<and> list_all (json_fits (d - 1)) vs)"
| "json_fits d (JObj kvs) =
     (0 < d \<and> in_key_order kvs \<and> list_all (\<lambda>(k, v). valid_text k \<and> json_fits (d - 1) v) kvs)"

fun document_of :: "json \<Rightarrow> document" where
  "document_of JNull = DNull"
| "document_of (JBool b) = DBool b"
| "document_of (JNum q) = DNum (json_number q)"
| "document_of (JStr s) = DStr s"
| "document_of (JArr vs) = DArr (map document_of vs)"
| "document_of (JObj kvs) = DObj (map (\<lambda>(k, v). (k, document_of v)) kvs)"

lemma digit_more_marks [simp]:
  "digit CHR 0x22 = None" "digit CHR ''['' = None" "digit CHR ''{'' = None" "digit CHR ''t'' = None"
  "digit CHR ''f'' = None" "digit CHR ''n'' = None" "digit CHR '' '' = None" "digit CHR 0x09 = None"
  "digit CHR 0x0A = None" "digit CHR 0x0D = None"
  by (simp_all add: digit_def)

lemma reads_number:
  assumes "number_reads s q"
  shows "reads d s (DNum s)"
proof -
  obtain c t where s: "s = c # t" and c: "c = CHR ''-'' \<or> digit c \<noteq> None"
  proof -
    from assms obtain I F E neg where "s = sign_part neg @ I @ fraction_part F @ E" "integer_part I"
      by (auto simp: number_reads_def)
    with integer_head [of I] that show ?thesis by (cases neg) (auto simp: sign_part_def)
  qed
  then have m: "\<not> json_space c" "c \<notin> {CHR 0x22, CHR ''['', CHR ''{'', CHR ''t'', CHR ''f'', CHR ''n'', CHR '']''}"
    by (auto simp: json_space_def)
  have "read_number (s @ r) = Some (s, r)" if "delimited r" for r
    using assms that by (simp add: number_reads_def)
  then show ?thesis using s m by (simp add: reads_def read_value.simps)
qed

lemma reads_literal:
  "reads d ''null'' DNull" "reads d ''true'' (DBool True)" "reads d ''false'' (DBool False)"
  by (simp_all add: reads_def read_value.simps literal_def json_space_def HasPrefix_def)

lemma reads_json: "json_fits d v \<Longrightarrow> reads d (json_text v) (document_of v)"
proof (induction v arbitrary: d)
  case (JNum q)
  then show ?case using reads_number [OF json_number_reads] by simp
next
  case (JArr vs)
  then obtain e where d: "d = Suc e" by (cases d) auto
  with JArr have "list_all2 (reads e) (map json_text vs) (map document_of vs)"
    by (simp add: list_all2_map1 list_all2_map2 list_all2_same list_all_iff)
  then show ?case unfolding d by (simp add: reads_array)
next
  case (JObj kvs)
  then obtain e where d: "d = Suc e" by (cases d) auto
  have "list_all2 (\<lambda>(k, t) (k', v). k' = k \<and> valid_text k \<and> reads e t v)
      (map (\<lambda>(k, v). (k, json_text v)) kvs) (map (\<lambda>(k, v). (k, document_of v)) kvs)"
    using JObj d by (fastforce simp: list_all2_map1 list_all2_map2 list_all2_same list_all_iff)
  moreover have "sorted_wrt pair_le (map (\<lambda>(k, v). (k, json_text v)) kvs)"
    using JObj.prems by (intro in_key_order_sorted) (simp add: in_key_order_map)
  ultimately show ?case unfolding d by (simp add: reads_object)
qed (simp_all add: reads_literal reads_string)

lemma any_value_document: "json_fits d v \<Longrightarrow> any_value (document_of v) = Some v"
proof (induction v arbitrary: d)
  case (JNum q)
  then show ?case using json_number_reads [of q] by (simp add: number_reads_def)
next
  case (JArr vs)
  then have "all_some (map (any_value \<circ> document_of) vs) = Some (map id vs)"
    by (intro all_some_total) (auto simp: list_all_iff)
  then show ?case by simp
next
  case (JObj kvs)
  have "\<forall>p \<in> set kvs. any_value (document_of (snd p)) = Some (snd p)"
    using JObj by (fastforce simp: list_all_iff)
  from all_some_total [OF this]
  have "all_some (map (\<lambda>(_, v). any_value v) (map (\<lambda>(k, v). (k, document_of v)) kvs)) = Some (map snd kvs)"
    by (simp add: o_def split_def)
  moreover have "zip (map fst (map (\<lambda>(k, v). (k, document_of v)) kvs)) (map snd kvs) = kvs"
    by (induction kvs) auto
  moreover have "go_map kvs = kvs" using JObj.prems by (simp add: go_map_in_order)
  ultimately show ?case by (simp del: map_map)
qed simp_all

definition object_fits :: "json_map \<Rightarrow> bool" where
  "object_fits m \<longleftrightarrow> json_fits 10000 (JObj m)"

lemma any_map_text:
  assumes "object_fits m"
  shows "any_map (json_text (JObj m)) = Some m"
proof -
  have f: "json_fits 10000 (JObj m)" using assms by (simp add: object_fits_def)
  show ?thesis
    using decode_reads [OF reads_json [OF f]] any_value_document [OF f]
    by (simp add: any_map_def del: json_text.simps document_of.simps any_value.simps)
qed

end
