(* ===== verification/Rows.thy ===== *)
theory Rows
  imports JsonNumber StorageLaws "HOL-Library.Monad_Syntax"
begin

text \<open>
  The rows of the SQLite tables (\<open>internal/storage/sqlite.go\<close>, \<open>approvals.go\<close>,
  \<open>checkpoints.go\<close>, \<open>policies.go\<close>, \<open>facts.go\<close>): the columns an INSERT names with the arguments
  bound to them, and the scan helpers that make a record of a row again. A row is a list of
  named cells. Times are RFC3339Nano text, maps and lists are JSON text, a flag is 0 or 1, an
  absent time or run is NULL, and SQLite stores a NaN as NULL. A column holds the class of
  value it was declared with, so a scan of another class has no result.
\<close>

section \<open>Cells\<close>

datatype cell = CInt int64 | CReal float64 | CText string | CNull

type_synonym row = "(string \<times> cell) list"

definition column :: "row \<Rightarrow> string \<Rightarrow> cell" where
  "column r c = (case map_of r c of Some v \<Rightarrow> v | None \<Rightarrow> CNull)"

lemma column_Cons [simp]: "column ((c, v) # r) c' = (if c' = c then v else column r c')"
  by (simp add: column_def)

text \<open>Arguments as database/sql binds them.\<close>

definition bind_real :: "float64 \<Rightarrow> cell" where
  "bind_real x = (if x = NaN then CNull else CReal x)"

definition bind_int32 :: "int32 \<Rightarrow> cell" where
  "bind_int32 n = CInt (scast n)"

definition nullStr :: "string \<Rightarrow> cell" where
  "nullStr s = (if s = [] then CNull else CText s)"

definition fmtTimePtr :: "time option \<Rightarrow> cell" where
  "fmtTimePtr t = (case t of None \<Rightarrow> CNull | Some t \<Rightarrow> CText (fmtTime t))"

definition boolToInt :: "bool \<Rightarrow> int64" where
  "boolToInt b = (if b then 1 else 0)"

text \<open>\<open>Rows.Scan\<close> into the types of the fields.\<close>

definition scan_text :: "cell \<Rightarrow> string option" where
  "scan_text c = (case c of CText s \<Rightarrow> Some s | _ \<Rightarrow> None)"

definition scan_null_text :: "cell \<Rightarrow> string option option" where
  "scan_null_text c = (case c of CText s \<Rightarrow> Some (Some s) | CNull \<Rightarrow> Some None | _ \<Rightarrow> None)"

definition scan_int64 :: "cell \<Rightarrow> int64 option" where
  "scan_int64 c = (case c of CInt n \<Rightarrow> Some n | _ \<Rightarrow> None)"

definition scan_int32 :: "cell \<Rightarrow> int32 option" where
  "scan_int32 c =
     (case c of CInt n \<Rightarrow> if - (2 ^ 31) \<le> sint n \<and> sint n < 2 ^ 31 then Some (scast n) else None | _ \<Rightarrow> None)"

definition scan_real :: "cell \<Rightarrow> float64 option" where
  "scan_real c = (case c of CReal x \<Rightarrow> Some x | _ \<Rightarrow> None)"

section \<open>JSON columns\<close>

definition marshalMeta :: "(string \<times> string) list \<Rightarrow> string" where
  "marshalMeta m = (if m = [] then ''{}'' else pairs_text m)"

definition unmarshalMeta :: "string \<Rightarrow> (string \<times> string) list" where
  "unmarshalMeta s =
     (if s = [] \<or> s = ''{}'' then [] else case string_map s of None \<Rightarrow> [] | Some m \<Rightarrow> m)"

text \<open>\<open>json.Marshal\<close> of a map that is not nil: \<open>orEmptyMap\<close> and \<open>orEmptyMapAny\<close> see to that.\<close>

definition marshal_any :: "json_map \<Rightarrow> string" where
  "marshal_any m = json_text (JObj m)"

definition unmarshalMapAny :: "string \<Rightarrow> json_map" where
  "unmarshalMapAny s =
     (if s = [] \<or> s = ''{}'' then [] else case any_map s of None \<Rightarrow> [] | Some m \<Rightarrow> m)"

text \<open>The tool calls have a function of their own, with the same body.\<close>

definition unmarshalArgs :: "string \<Rightarrow> json_map" where
  "unmarshalArgs s =
     (if s = [] \<or> s = ''{}'' then [] else case any_map s of None \<Rightarrow> [] | Some m \<Rightarrow> m)"

section \<open>Rows of the tables\<close>

definition run_cells :: "run_record \<Rightarrow> row" where
  "run_cells r =
     [(''id'', CText (RR_ID r)), (''name'', CText (RR_Name r)), (''status'', CText (RR_Status r)),
      (''halt_reason'', CText (RR_HaltReason r)),
      (''budget_tokens'', CInt (RR_BudgetTokens r)), (''budget_dollars'', bind_real (RR_BudgetDollars r)),
      (''budget_loops'', bind_int32 (RR_BudgetLoops r)), (''budget_seconds'', bind_int32 (RR_BudgetSeconds r)),
      (''usage_prompt_tokens'', CInt (RR_UsagePromptTokens r)),
      (''usage_completion_tokens'', CInt (RR_UsageCompletionTokens r)),
      (''usage_dollars'', bind_real (RR_UsageDollars r)), (''usage_loops'', bind_int32 (RR_UsageLoops r)),
      (''metadata'', CText (marshalMeta (RR_Metadata r))),
      (''created_at'', CText (fmtTime (RR_CreatedAt r))), (''updated_at'', CText (fmtTime (RR_UpdatedAt r))),
      (''policy_ref'', CText (RR_PolicyRef r))]"

definition scanRun :: "row \<Rightarrow> run_record option" where
  "scanRun r = do {
     rid \<leftarrow> scan_text (column r ''id''); name \<leftarrow> scan_text (column r ''name'');
     status \<leftarrow> scan_text (column r ''status''); reason \<leftarrow> scan_text (column r ''halt_reason'');
     bt \<leftarrow> scan_int64 (column r ''budget_tokens''); bd \<leftarrow> scan_real (column r ''budget_dollars'');
     bl \<leftarrow> scan_int32 (column r ''budget_loops''); bs \<leftarrow> scan_int32 (column r ''budget_seconds'');
     up \<leftarrow> scan_int64 (column r ''usage_prompt_tokens'');
     uc \<leftarrow> scan_int64 (column r ''usage_completion_tokens'');
     ud \<leftarrow> scan_real (column r ''usage_dollars''); ul \<leftarrow> scan_int32 (column r ''usage_loops'');
     meta \<leftarrow> scan_text (column r ''metadata'');
     created \<leftarrow> scan_text (column r ''created_at''); updated \<leftarrow> scan_text (column r ''updated_at'');
     policy \<leftarrow> scan_text (column r ''policy_ref'');
     Some \<lparr>RR_ID = rid, RR_Name = name, RR_Status = status, RR_HaltReason = reason, RR_PolicyRef = policy,
       RR_BudgetTokens = bt, RR_BudgetDollars = bd, RR_BudgetLoops = bl, RR_BudgetSeconds = bs,
       RR_UsagePromptTokens = up, RR_UsageCompletionTokens = uc, RR_UsageDollars = ud, RR_UsageLoops = ul,
       RR_Metadata = unmarshalMeta meta, RR_CreatedAt = parseTime created, RR_UpdatedAt = parseTime updated\<rparr>
   }"

definition step_cells :: "step_record \<Rightarrow> row" where
  "step_cells s =
     [(''run_id'', CText (SR_RunID s)), (''idx'', bind_int32 (SR_Index s)), (''status'', CText (SR_Status s)),
      (''prompt_tokens'', CInt (SR_PromptTokens s)), (''completion_tokens'', CInt (SR_CompletionTokens s)),
      (''dollars'', bind_real (SR_Dollars s)),
      (''started_at'', CText (fmtTime (SR_StartedAt s))), (''ended_at'', fmtTimePtr (SR_EndedAt s))]"

text \<open>A nullable time: NULL and the empty text are no time.\<close>

definition scanned_time :: "string option \<Rightarrow> time option" where
  "scanned_time s = (case s of Some s \<Rightarrow> if s = [] then None else Some (parseTime s) | None \<Rightarrow> None)"

definition scan_step :: "row \<Rightarrow> step_record option" where
  "scan_step r = do {
     rid \<leftarrow> scan_text (column r ''run_id''); idx \<leftarrow> scan_int32 (column r ''idx'');
     status \<leftarrow> scan_text (column r ''status''); p \<leftarrow> scan_int64 (column r ''prompt_tokens'');
     c \<leftarrow> scan_int64 (column r ''completion_tokens''); d \<leftarrow> scan_real (column r ''dollars'');
     started \<leftarrow> scan_text (column r ''started_at''); ended \<leftarrow> scan_null_text (column r ''ended_at'');
     Some \<lparr>SR_RunID = rid, SR_Index = idx, SR_Status = status, SR_PromptTokens = p, SR_CompletionTokens = c,
       SR_Dollars = d, SR_StartedAt = parseTime started, SR_EndedAt = scanned_time ended\<rparr>
   }"

definition ledger_cells :: "ledger_entry \<Rightarrow> row" where
  "ledger_cells e =
     [(''run_id'', CText (LE_RunID e)), (''step_idx'', bind_int32 (LE_StepIndex e)),
      (''provider'', CText (LE_Provider e)), (''model'', CText (LE_Model e)),
      (''prompt_tokens'', CInt (LE_PromptTokens e)), (''completion_tokens'', CInt (LE_CompletionTokens e)),
      (''dollars'', bind_real (LE_Dollars e)), (''priced'', CInt (boolToInt (LE_Priced e))),
      (''response_id'', CText (LE_ResponseID e)), (''created_at'', CText (fmtTime (LE_CreatedAt e)))]"

definition scan_ledger :: "row \<Rightarrow> ledger_entry option" where
  "scan_ledger r = do {
     rid \<leftarrow> scan_text (column r ''run_id''); idx \<leftarrow> scan_int32 (column r ''step_idx'');
     provider \<leftarrow> scan_text (column r ''provider''); model \<leftarrow> scan_text (column r ''model'');
     p \<leftarrow> scan_int64 (column r ''prompt_tokens''); c \<leftarrow> scan_int64 (column r ''completion_tokens'');
     d \<leftarrow> scan_real (column r ''dollars''); priced \<leftarrow> scan_int64 (column r ''priced'');
     response \<leftarrow> scan_text (column r ''response_id''); created \<leftarrow> scan_text (column r ''created_at'');
     Some \<lparr>LE_RunID = rid, LE_StepIndex = idx, LE_Provider = provider, LE_Model = model,
       LE_PromptTokens = p, LE_CompletionTokens = c, LE_Dollars = d, LE_Priced = (priced \<noteq> 0),
       LE_ResponseID = response, LE_CreatedAt = parseTime created\<rparr>
   }"

definition tool_call_cells :: "tool_call_record \<Rightarrow> row" where
  "tool_call_cells t =
     [(''id'', CText (TC_ID t)), (''run_id'', CText (TC_RunID t)), (''step_idx'', bind_int32 (TC_StepIndex t)),
      (''tool'', CText (TC_Tool t)), (''side_effect'', CText (TC_SideEffect t)),
      (''arguments'', CText (marshal_any (TC_Arguments t))), (''status'', CText (TC_Status t)),
      (''created_at'', CText (fmtTime (TC_CreatedAt t)))]"

definition scan_tool_call :: "row \<Rightarrow> tool_call_record option" where
  "scan_tool_call r = do {
     tid \<leftarrow> scan_text (column r ''id''); rid \<leftarrow> scan_text (column r ''run_id'');
     idx \<leftarrow> scan_int32 (column r ''step_idx''); tool \<leftarrow> scan_text (column r ''tool'');
     effect \<leftarrow> scan_text (column r ''side_effect''); args \<leftarrow> scan_text (column r ''arguments'');
     status \<leftarrow> scan_text (column r ''status''); created \<leftarrow> scan_text (column r ''created_at'');
     Some \<lparr>TC_ID = tid, TC_RunID = rid, TC_StepIndex = idx, TC_Tool = tool, TC_SideEffect = effect,
       TC_Arguments = unmarshalArgs args, TC_Status = status, TC_CreatedAt = parseTime created\<rparr>
   }"

definition approval_cells :: "approval_record \<Rightarrow> row" where
  "approval_cells a =
     [(''id'', CText (AR_ID a)), (''run_id'', CText (AR_RunID a)), (''step_idx'', bind_int32 (AR_StepIndex a)),
      (''tool'', CText (AR_Tool a)), (''side_effect'', CText (AR_SideEffect a)),
      (''arguments'', CText (marshal_any (AR_Arguments a))), (''status'', CText (AR_Status a)),
      (''reason'', CText (AR_Reason a)), (''decided_by'', CText (AR_DecidedBy a)),
      (''created_at'', CText (fmtTime (AR_CreatedAt a))), (''decided_at'', fmtTimePtr (AR_DecidedAt a))]"

definition scanApproval :: "row \<Rightarrow> approval_record option" where
  "scanApproval r = do {
     aid \<leftarrow> scan_text (column r ''id''); rid \<leftarrow> scan_text (column r ''run_id'');
     idx \<leftarrow> scan_int32 (column r ''step_idx''); tool \<leftarrow> scan_text (column r ''tool'');
     effect \<leftarrow> scan_text (column r ''side_effect''); args \<leftarrow> scan_text (column r ''arguments'');
     status \<leftarrow> scan_text (column r ''status''); reason \<leftarrow> scan_text (column r ''reason'');
     by \<leftarrow> scan_text (column r ''decided_by''); created \<leftarrow> scan_text (column r ''created_at'');
     decided \<leftarrow> scan_null_text (column r ''decided_at'');
     Some \<lparr>AR_ID = aid, AR_RunID = rid, AR_StepIndex = idx, AR_Tool = tool, AR_SideEffect = effect,
       AR_Arguments = unmarshalMapAny args, AR_Status = status, AR_Reason = reason, AR_DecidedBy = by,
       AR_CreatedAt = parseTime created, AR_DecidedAt = scanned_time decided\<rparr>
   }"

definition checkpoint_cells :: "checkpoint_record \<Rightarrow> row" where
  "checkpoint_cells c =
     [(''run_id'', CText (CP_RunID c)), (''step_idx'', bind_int32 (CP_StepIndex c)), (''name'', CText (CP_Name c)),
      (''usage_prompt_tokens'', CInt (CP_UsagePromptTokens c)),
      (''usage_completion_tokens'', CInt (CP_UsageCompletionTokens c)),
      (''usage_dollars'', bind_real (CP_UsageDollars c)), (''usage_loops'', bind_int32 (CP_UsageLoops c)),
      (''payload'', CText (marshal_any (CP_Payload c))), (''created_at'', CText (fmtTime (CP_CreatedAt c)))]"

definition scanCheckpoint :: "row \<Rightarrow> checkpoint_record option" where
  "scanCheckpoint r = do {
     rid \<leftarrow> scan_text (column r ''run_id''); idx \<leftarrow> scan_int32 (column r ''step_idx'');
     name \<leftarrow> scan_text (column r ''name'');
     p \<leftarrow> scan_int64 (column r ''usage_prompt_tokens''); c \<leftarrow> scan_int64 (column r ''usage_completion_tokens'');
     d \<leftarrow> scan_real (column r ''usage_dollars''); l \<leftarrow> scan_int32 (column r ''usage_loops'');
     payload \<leftarrow> scan_text (column r ''payload''); created \<leftarrow> scan_text (column r ''created_at'');
     Some \<lparr>CP_RunID = rid, CP_StepIndex = idx, CP_Name = name, CP_UsagePromptTokens = p,
       CP_UsageCompletionTokens = c, CP_UsageDollars = d, CP_UsageLoops = l,
       CP_Payload = unmarshalMapAny payload, CP_CreatedAt = parseTime created\<rparr>
   }"

text \<open>A nil list is written as \<open>[]\<close>: \<open>orEmptyStrings\<close> and \<open>orEmptyRules\<close> see to that.\<close>

definition policy_cells :: "policy_record \<Rightarrow> row" where
  "policy_cells p =
     [(''name'', CText (PR_Name p)), (''budget_tokens'', CInt (PR_BudgetTokens p)),
      (''budget_dollars'', bind_real (PR_BudgetDollars p)), (''budget_loops'', bind_int32 (PR_BudgetLoops p)),
      (''budget_seconds'', bind_int32 (PR_BudgetSeconds p)),
      (''tool_allowlist'', CText (json_array (map json_string (PR_ToolAllowlist p)))),
      (''approval_rules'', CText (json_array (map rule_text (PR_ApprovalRules p)))),
      (''created_at'', CText (fmtTime (PR_CreatedAt p))), (''updated_at'', CText (fmtTime (PR_UpdatedAt p)))]"

definition scanPolicy :: "row \<Rightarrow> policy_record option" where
  "scanPolicy r = do {
     name \<leftarrow> scan_text (column r ''name''); bt \<leftarrow> scan_int64 (column r ''budget_tokens'');
     bd \<leftarrow> scan_real (column r ''budget_dollars''); bl \<leftarrow> scan_int32 (column r ''budget_loops'');
     bs \<leftarrow> scan_int32 (column r ''budget_seconds''); allow \<leftarrow> scan_text (column r ''tool_allowlist'');
     rules \<leftarrow> scan_text (column r ''approval_rules''); created \<leftarrow> scan_text (column r ''created_at'');
     updated \<leftarrow> scan_text (column r ''updated_at'');
     Some \<lparr>PR_Name = name, PR_BudgetTokens = bt, PR_BudgetDollars = bd, PR_BudgetLoops = bl,
       PR_BudgetSeconds = bs, PR_ToolAllowlist = string_list allow, PR_ApprovalRules = rule_list rules,
       PR_CreatedAt = parseTime created, PR_UpdatedAt = parseTime updated\<rparr>
   }"

definition fact_cells :: "fact \<Rightarrow> row" where
  "fact_cells f =
     [(''namespace'', CText (F_Namespace f)), (''key'', CText (F_Key f)), (''value'', CText (F_Value f)),
      (''run_id'', nullStr (F_RunID f)), (''updated_at'', CText (fmtTime (F_UpdatedAt f)))]"

text \<open>A NULL run is the empty string of \<open>sql.NullString\<close>.\<close>

definition scanFact :: "row \<Rightarrow> fact option" where
  "scanFact r = do {
     ns \<leftarrow> scan_text (column r ''namespace''); k \<leftarrow> scan_text (column r ''key'');
     v \<leftarrow> scan_text (column r ''value''); rid \<leftarrow> scan_null_text (column r ''run_id'');
     updated \<leftarrow> scan_text (column r ''updated_at'');
     Some \<lparr>F_Namespace = ns, F_Key = k, F_Value = v,
       F_RunID = (case rid of None \<Rightarrow> [] | Some s \<Rightarrow> s), F_UpdatedAt = parseTime updated\<rparr>
   }"

section \<open>A row reads back as its record\<close>

text \<open>What a record must hold for its row to keep it.\<close>

definition run_fits :: "run_record \<Rightarrow> bool" where
  "run_fits r \<longleftrightarrow> real_ok (RR_BudgetDollars r) \<and> real_ok (RR_UsageDollars r) \<and>
     in_key_order (RR_Metadata r) \<and> valid_pairs (RR_Metadata r) \<and>
     text_range (RR_CreatedAt r) \<and> text_range (RR_UpdatedAt r)"

definition time_fits :: "time option \<Rightarrow> bool" where
  "time_fits t = (case t of None \<Rightarrow> True | Some t \<Rightarrow> text_range t)"

definition step_fits :: "step_record \<Rightarrow> bool" where
  "step_fits s \<longleftrightarrow> real_ok (SR_Dollars s) \<and> text_range (SR_StartedAt s) \<and> time_fits (SR_EndedAt s)"

definition ledger_fits :: "ledger_entry \<Rightarrow> bool" where
  "ledger_fits e \<longleftrightarrow> real_ok (LE_Dollars e) \<and> text_range (LE_CreatedAt e)"

definition tool_call_fits :: "tool_call_record \<Rightarrow> bool" where
  "tool_call_fits t \<longleftrightarrow> object_fits (TC_Arguments t) \<and> text_range (TC_CreatedAt t)"

definition approval_fits :: "approval_record \<Rightarrow> bool" where
  "approval_fits a \<longleftrightarrow> object_fits (AR_Arguments a) \<and> text_range (AR_CreatedAt a) \<and> time_fits (AR_DecidedAt a)"

definition checkpoint_fits :: "checkpoint_record \<Rightarrow> bool" where
  "checkpoint_fits c \<longleftrightarrow> real_ok (CP_UsageDollars c) \<and> object_fits (CP_Payload c) \<and> text_range (CP_CreatedAt c)"

definition policy_fits :: "policy_record \<Rightarrow> bool" where
  "policy_fits p \<longleftrightarrow> real_ok (PR_BudgetDollars p) \<and> list_all valid_text (PR_ToolAllowlist p) \<and>
     list_all valid_rule (PR_ApprovalRules p) \<and> text_range (PR_CreatedAt p) \<and> text_range (PR_UpdatedAt p)"

definition fact_fits :: "fact \<Rightarrow> bool" where
  "fact_fits f \<longleftrightarrow> text_range (F_UpdatedAt f)"

named_theorems row_simps "reading a bound argument"

lemma scan_text_CText [row_simps]: "scan_text (CText s) = Some s"
  by (simp add: scan_text_def)

lemma scan_int64_CInt [row_simps]: "scan_int64 (CInt n) = Some n"
  by (simp add: scan_int64_def)

lemma sint_scast32: "sint (scast (n :: int32) :: int64) = sint n"
  by (rule sint_up_scast) (simp add: is_up)

lemma scan_bind_int32 [row_simps]: "scan_int32 (bind_int32 n) = Some n"
proof -
  have "scast (scast n :: int64) = n"
    by (rule bit_eqI) (auto simp: bit_simps)
  then show ?thesis
    using sint_range32 [of n] by (simp add: scan_int32_def bind_int32_def sint_scast32)
qed

lemma scan_bind_real [row_simps]: "real_ok x \<Longrightarrow> scan_real (bind_real x) = Some x"
  by (simp add: scan_real_def bind_real_def real_ok_def)

lemma scan_nullStr [row_simps]:
  "scan_null_text (nullStr s) = Some (if s = [] then None else Some s)"
  by (simp add: scan_null_text_def nullStr_def)

lemma fmtTime_not_Nil [simp]: "fmtTime t \<noteq> []"
  by (simp add: fmtTime_def Let_def)

lemma scan_fmtTimePtr [row_simps]:
  "scan_null_text (fmtTimePtr t) = Some (map_option fmtTime t)"
  by (cases t) (simp_all add: scan_null_text_def fmtTimePtr_def)

lemma scanned_time_text [row_simps]: "time_fits t \<Longrightarrow> scanned_time (map_option fmtTime t) = t"
  by (cases t) (simp_all add: scanned_time_def time_fits_def parseTime_fmtTime)

lemma boolToInt_zero [row_simps]: "boolToInt b \<noteq> 0 \<longleftrightarrow> b"
  by (simp add: boolToInt_def)

declare parseTime_fmtTime [row_simps]

lemma string_map_braces: "string_map ''{}'' = Some []"
proof -
  have "reads 10000 (json_object []) (DObj [])"
    unfolding ten_thousand by (rule reads_object) simp_all
  then show ?thesis
    using decode_reads [of "json_object []" "DObj []"]
    by (simp add: string_map_def json_object_def sort_by_def go_map_def)
qed

lemma unmarshal_marshalMeta [row_simps]:
  assumes "in_key_order m" "valid_pairs m"
  shows "unmarshalMeta (marshalMeta m) = m"
proof (cases "m = []")
  case False
  have "pairs_text m \<noteq> []" by (simp add: pairs_text_def json_object_def)
  with False show ?thesis
    using string_map_text [OF assms] string_map_braces
    by (auto simp: unmarshalMeta_def marshalMeta_def)
qed (simp add: unmarshalMeta_def marshalMeta_def)

lemma unmarshal_marshal_any [row_simps]:
  assumes "object_fits m"
  shows "unmarshalMapAny (marshal_any m) = m"
proof (cases "marshal_any m = ''{}''")
  case True
  have "object_fits []" by (simp add: object_fits_def in_key_order_def)
  from any_map_text [OF this] have "any_map ''{}'' = Some []" by (simp add: json_object_def sort_by_def)
  with True any_map_text [OF assms] show ?thesis by (simp add: unmarshalMapAny_def marshal_any_def)
next
  case False
  then show ?thesis
    using any_map_text [OF assms] by (simp add: unmarshalMapAny_def marshal_any_def json_object_def)
qed

lemma unmarshalArgs_same [row_simps]: "unmarshalArgs s = unmarshalMapAny s"
  by (simp add: unmarshalArgs_def unmarshalMapAny_def)

declare string_list_text [row_simps] rule_list_text [row_simps]

end
