(* ===== verification/RowsLaws.thy ===== *)
theory RowsLaws
  imports Rows
begin

text \<open>
  The SQLite store at the level of its statements: rows of cells, INSERT with a conflict
  clause, UPDATE, WHERE and ORDER BY. A locale states what makes a pair of functions the codec
  of a table; each table's pair is an interpretation of it. The theorems show that the store of
  Storage.thy, which works on records, is what these statements and the scan helpers compute.
\<close>

section \<open>Statements on rows\<close>

definition same_key :: "string list \<Rightarrow> row \<Rightarrow> row \<Rightarrow> bool" where
  "same_key ks x y \<longleftrightarrow> list_all (\<lambda>c. column x c = column y c) ks"

text \<open>\<open>DO UPDATE SET c = excluded.c, ...\<close>.\<close>

definition set_columns :: "string list \<Rightarrow> row \<Rightarrow> row \<Rightarrow> row" where
  "set_columns cs old new = map (\<lambda>(c, v). (c, if c \<in> set cs then column new c else v)) old"

fun sql_upsert :: "string list \<Rightarrow> string list \<Rightarrow> row \<Rightarrow> row list \<Rightarrow> row list" where
  "sql_upsert ks cs new [] = [new]"
| "sql_upsert ks cs new (x # xs) =
     (if same_key ks x new then set_columns cs x new # xs else x # sql_upsert ks cs new xs)"

text \<open>A column that is not in the list of nullable ones refuses NULL.\<close>

definition row_ok :: "string list \<Rightarrow> row \<Rightarrow> bool" where
  "row_ok nullable r \<longleftrightarrow> list_all (\<lambda>(c, v). v \<noteq> CNull \<or> c \<in> set nullable) r"

text \<open>
  \<open>ORDER BY\<close>: columns in turn, each ascending or descending. NULL comes first; beside it a
  column holds values of one class.
\<close>

fun cell_le :: "cell \<Rightarrow> cell \<Rightarrow> bool" where
  "cell_le CNull _ = True"
| "cell_le (CInt a) (CInt b) = (a \<le>s b)"
| "cell_le (CReal a) (CReal b) = fle a b"
| "cell_le (CText a) (CText b) = text_le a b"
| "cell_le _ _ = False"

fun order_by :: "(string \<times> bool) list \<Rightarrow> row \<Rightarrow> row \<Rightarrow> bool" where
  "order_by [] x y = True"
| "order_by ((c, desc) # cs) x y =
     (if column x c = column y c then order_by cs x y
      else if desc then cell_le (column y c) (column x c) else cell_le (column x c) (column y c))"

text \<open>Scanning the rows of a result in turn: one that fails is the error of the call.\<close>

definition scan_rows :: "(row \<Rightarrow> 'r option) \<Rightarrow> row list \<Rightarrow> store_error + 'r list" where
  "scan_rows scan rs = (case all_some (map scan rs) of None \<Rightarrow> Inl ErrDB | Some xs \<Rightarrow> Inr xs)"

definition scan_one :: "(row \<Rightarrow> 'r option) \<Rightarrow> row list \<Rightarrow> store_error + 'r" where
  "scan_one scan rs =
     (case rs of
        [] \<Rightarrow> Inl ErrNotFound
      | r # _ \<Rightarrow> (case scan r of None \<Rightarrow> Inl ErrDB | Some x \<Rightarrow> Inr x))"

definition where_eq :: "string \<Rightarrow> cell \<Rightarrow> row list \<Rightarrow> row list" where
  "where_eq c v rs = filter (\<lambda>r. column r c = v) rs"

lemma first_lookup: "(case filter (\<lambda>x. key x = k) xs of [] \<Rightarrow> Inl ErrNotFound | r # _ \<Rightarrow> Inr r) =
    (case lookup key k xs of None \<Rightarrow> Inl ErrNotFound | Some r \<Rightarrow> Inr r)"
  by (induction xs) simp_all

section \<open>The codec of a table\<close>

locale row_codec =
  fixes enc :: "'r \<Rightarrow> row"
    and scan :: "row \<Rightarrow> 'r option"
    and fits :: "'r \<Rightarrow> bool"
  assumes scan_enc: "fits r \<Longrightarrow> scan (enc r) = Some r"
begin

lemma enc_inj: "fits r \<Longrightarrow> fits s \<Longrightarrow> enc r = enc s \<Longrightarrow> r = s"
  by (metis option.inject scan_enc)

lemma scan_rows_enc: "list_all fits rs \<Longrightarrow> scan_rows scan (map enc rs) = Inr rs"
proof -
  assume "list_all fits rs"
  then have "all_some (map scan (map enc rs)) = Some rs" by (induction rs) (simp_all add: scan_enc)
  then show ?thesis by (simp add: scan_rows_def)
qed

lemma scan_one_enc:
  "list_all fits rs \<Longrightarrow> scan_one scan (map enc rs) = (case rs of [] \<Rightarrow> Inl ErrNotFound | r # _ \<Rightarrow> Inr r)"
  by (cases rs) (simp_all add: scan_one_def scan_enc)

lemma where_enc:
  assumes "\<And>r. column (enc r) c = v \<longleftrightarrow> P r"
  shows "where_eq c v (map enc rs) = map enc (filter P rs)"
  using assms by (simp add: where_eq_def filter_map o_def)

lemma insert_by_enc: "insert_by le (enc r) (map enc rs) = map enc (insert_by (\<lambda>x y. le (enc x) (enc y)) r rs)"
  by (induction rs) simp_all

lemma sort_enc: "sort_by le (map enc rs) = map enc (sort_by (\<lambda>x y. le (enc x) (enc y)) rs)"
  by (induction rs) (simp_all add: sort_by_def insert_by_enc)

lemma list_all_filter: "list_all fits rs \<Longrightarrow> list_all fits (filter P rs)"
  by (simp add: list_all_iff)

lemma list_all_sort: "list_all fits rs \<Longrightarrow> list_all fits (sort_by le rs)"
  by (simp add: list_all_iff)

text \<open>The shapes of the reads: one row by its key, the rows of a condition in an order.\<close>

lemma get_enc:
  assumes "list_all fits rs" "\<forall>r. column (enc r) c = v \<longleftrightarrow> key r = k"
  shows "scan_one scan (where_eq c v (map enc rs)) =
    (case lookup key k rs of None \<Rightarrow> Inl ErrNotFound | Some r \<Rightarrow> Inr r)"
  using assms where_enc [of c v "\<lambda>r. key r = k" rs]
  by (simp add: scan_one_enc list_all_filter first_lookup)

lemma list_enc:
  assumes "list_all fits rs" "\<forall>x y. le (enc x) (enc y) = le' x y"
  shows "scan_rows scan (sort_by le (map enc rs)) = Inr (sort_by le' rs)"
  using assms by (simp add: sort_enc scan_rows_enc list_all_sort)

lemma select_enc:
  assumes "list_all fits rs" "\<forall>r. column (enc r) c = v \<longleftrightarrow> P r"
  shows "scan_rows scan (where_eq c v (map enc rs)) = Inr (filter P rs)"
  using assms where_enc [of c v P rs] by (simp add: scan_rows_enc list_all_filter)

lemma select_list_enc:
  assumes "list_all fits rs" "\<forall>r. column (enc r) c = v \<longleftrightarrow> P r" "\<forall>x y. le (enc x) (enc y) = le' x y"
  shows "scan_rows scan (sort_by le (where_eq c v (map enc rs))) = Inr (sort_by le' (filter P rs))"
  using assms where_enc [of c v P rs] by (simp add: list_enc list_all_filter)

end

text \<open>A table with an \<open>ON CONFLICT\<close> clause: the key columns and the columns of the SET list.\<close>

locale upsert_codec = row_codec +
  fixes key :: "'r \<Rightarrow> 'k" and merge :: "'r \<Rightarrow> 'r \<Rightarrow> 'r"
    and ks :: "string list" and cs :: "string list"
  assumes key_cells: "same_key ks (enc x) (enc y) \<longleftrightarrow> key x = key y"
    and merge_cells: "key x = key y \<Longrightarrow> set_columns cs (enc x) (enc y) = enc (merge x y)"
    and merge_fits: "fits x \<Longrightarrow> fits y \<Longrightarrow> fits (merge x y)"
begin

lemma upsert_enc: "sql_upsert ks cs (enc new) (map enc rs) = map enc (upsert key merge new rs)"
  by (induction rs) (simp_all add: key_cells merge_cells)

lemma upsert_fits: "list_all fits rs \<Longrightarrow> fits r \<Longrightarrow> list_all fits (upsert key merge r rs)"
  by (induction rs) (simp_all add: merge_fits)

lemma scan_after_upsert:
  "list_all fits rs \<Longrightarrow> fits r \<Longrightarrow>
     scan_rows scan (sql_upsert ks cs (enc r) (map enc rs)) = Inr (upsert key merge r rs)"
  by (simp add: upsert_enc scan_rows_enc upsert_fits)

end

section \<open>The tables\<close>

definition run_set :: "string list" where
  "run_set = [''name'', ''status'', ''halt_reason'', ''budget_tokens'', ''budget_dollars'', ''budget_loops'',
     ''budget_seconds'', ''usage_prompt_tokens'', ''usage_completion_tokens'', ''usage_dollars'', ''usage_loops'',
     ''metadata'', ''updated_at'']"

definition step_set :: "string list" where
  "step_set = [''status'', ''prompt_tokens'', ''completion_tokens'', ''dollars'', ''ended_at'']"

definition policy_set :: "string list" where
  "policy_set = [''budget_tokens'', ''budget_dollars'', ''budget_loops'', ''budget_seconds'', ''tool_allowlist'',
     ''approval_rules'', ''updated_at'']"

definition fact_set :: "string list" where
  "fact_set = [''value'', ''run_id'', ''updated_at'']"

lemma bind_int32_inject [simp]: "bind_int32 m = bind_int32 n \<longleftrightarrow> m = n"
  using scan_bind_int32 by (metis option.inject)

lemma scanRun_cells: "run_fits r \<Longrightarrow> scanRun (run_cells r) = Some r"
  by (simp add: scanRun_def run_cells_def run_fits_def row_simps)

interpretation run_table: upsert_codec run_cells scanRun run_fits RR_ID merge_run "[''id'']" run_set
proof
  show "set_columns run_set (run_cells x) (run_cells y) = run_cells (merge_run x y)" if "RR_ID x = RR_ID y" for x y
    using that by (simp add: set_columns_def run_set_def run_cells_def merge_run_def)
  show "scanRun (run_cells r) = Some r" if "run_fits r" for r using that by (rule scanRun_cells)
qed (simp_all add: same_key_def run_cells_def run_fits_def merge_run_def)

interpretation step_table: upsert_codec step_cells scan_step step_fits step_key merge_step "[''run_id'', ''idx'']" step_set
proof
  show "scan_step (step_cells s) = Some s" if "step_fits s" for s
    using that by (simp add: scan_step_def step_cells_def step_fits_def row_simps)
  show "set_columns step_set (step_cells x) (step_cells y) = step_cells (merge_step x y)" if "step_key x = step_key y" for x y
    using that by (simp add: set_columns_def step_set_def step_cells_def merge_step_def step_key_def)
qed (simp_all add: same_key_def step_cells_def step_key_def step_fits_def merge_step_def)

interpretation policy_table: upsert_codec policy_cells scanPolicy policy_fits PR_Name merge_policy "[''name'']" policy_set
proof
  show "scanPolicy (policy_cells p) = Some p" if "policy_fits p" for p
    using that by (simp add: scanPolicy_def policy_cells_def policy_fits_def row_simps)
  show "set_columns policy_set (policy_cells x) (policy_cells y) = policy_cells (merge_policy x y)" if "PR_Name x = PR_Name y" for x y
    using that by (simp add: set_columns_def policy_set_def policy_cells_def merge_policy_def)
qed (simp_all add: same_key_def policy_cells_def policy_fits_def merge_policy_def)

interpretation fact_table: upsert_codec fact_cells scanFact fact_fits fact_key merge_fact "[''namespace'', ''key'']" fact_set
proof
  show "scanFact (fact_cells f) = Some f" if "fact_fits f" for f
    using that by (simp add: scanFact_def fact_cells_def fact_fits_def row_simps)
  show "set_columns fact_set (fact_cells x) (fact_cells y) = fact_cells (merge_fact x y)" if "fact_key x = fact_key y" for x y
    using that by (simp add: set_columns_def fact_set_def fact_cells_def merge_fact_def fact_key_def)
qed (simp_all add: same_key_def fact_cells_def fact_key_def fact_fits_def merge_fact_def)

interpretation ledger_table: row_codec ledger_cells scan_ledger ledger_fits
  by unfold_locales (simp add: scan_ledger_def ledger_cells_def ledger_fits_def row_simps)

interpretation tool_call_table: row_codec tool_call_cells scan_tool_call tool_call_fits
  by unfold_locales (simp add: scan_tool_call_def tool_call_cells_def tool_call_fits_def row_simps)

interpretation approval_table: row_codec approval_cells scanApproval approval_fits
  by unfold_locales (simp add: scanApproval_def approval_cells_def approval_fits_def row_simps)

interpretation checkpoint_table: row_codec checkpoint_cells scanCheckpoint checkpoint_fits
  by unfold_locales (simp add: scanCheckpoint_def checkpoint_cells_def checkpoint_fits_def row_simps)

end
