(* ===== verification/SqlStore.thy ===== *)
theory SqlStore
  imports RowsLaws
begin

text \<open>
  The methods of the SQLite store as the SQL they run (\<open>internal/storage/sqlite.go\<close>,
  \<open>approvals.go\<close>, \<open>checkpoints.go\<close>, \<open>policies.go\<close>, \<open>facts.go\<close>) on tables of rows, and the
  proof that Storage.thy is their abstraction: a write leaves the image of what the record-level
  write leaves, and a read answers the same, on every database of records that fit their rows.
  A table whose key is an autoincremented number keeps its rows in the order of that number.
\<close>

section \<open>The tables and their statements\<close>

record tables =
  tb_runs :: "row list"
  tb_steps :: "row list"
  tb_ledger :: "row list"
  tb_tool_calls :: "row list"
  tb_approvals :: "row list"
  tb_checkpoints :: "row list"
  tb_policies :: "row list"
  tb_facts :: "row list"
  tb_faults :: "bool list"

type_synonym 'a sql_result = "tables \<times> (store_error + 'a)"

definition sql :: "(tables \<Rightarrow> 'a sql_result) \<Rightarrow> tables \<Rightarrow> 'a sql_result" where
  "sql f t =
     (case tb_faults t of
        [] \<Rightarrow> f t
      | b # bs \<Rightarrow> if b then (t\<lparr>tb_faults := bs\<rparr>, Inl ErrDB) else f (t\<lparr>tb_faults := bs\<rparr>))"

definition sql_query :: "(tables \<Rightarrow> store_error + 'a) \<Rightarrow> tables \<Rightarrow> 'a sql_result" where
  "sql_query q = sql (\<lambda>t. (t, q t))"

text \<open>\<open>run_id ... REFERENCES runs(id)\<close>, and a primary key that is taken.\<close>

definition references_run :: "tables \<Rightarrow> row \<Rightarrow> bool" where
  "references_run t r \<longleftrightarrow> list_ex (\<lambda>x. column x ''id'' = column r ''run_id'') (tb_runs t)"

definition key_taken :: "string list \<Rightarrow> row \<Rightarrow> row list \<Rightarrow> bool" where
  "key_taken ks r rs \<longleftrightarrow> list_ex (\<lambda>x. same_key ks x r) rs"

definition sql_UpsertRun :: "run_record \<Rightarrow> tables \<Rightarrow> unit sql_result" where
  "sql_UpsertRun r = sql (\<lambda>t.
     if row_ok [] (run_cells r)
     then (t\<lparr>tb_runs := sql_upsert [''id''] run_set (run_cells r) (tb_runs t)\<rparr>, Inr ()) else (t, Inl ErrDB))"

definition sql_UpsertStep :: "step_record \<Rightarrow> tables \<Rightarrow> unit sql_result" where
  "sql_UpsertStep s = sql (\<lambda>t.
     if references_run t (step_cells s) \<and> row_ok [''ended_at''] (step_cells s)
     then (t\<lparr>tb_steps := sql_upsert [''run_id'', ''idx''] step_set (step_cells s) (tb_steps t)\<rparr>, Inr ())
     else (t, Inl ErrDB))"

definition sql_AppendLedger :: "ledger_entry \<Rightarrow> tables \<Rightarrow> unit sql_result" where
  "sql_AppendLedger e = sql (\<lambda>t.
     if references_run t (ledger_cells e) \<and> row_ok [] (ledger_cells e)
     then (t\<lparr>tb_ledger := tb_ledger t @ [ledger_cells e]\<rparr>, Inr ()) else (t, Inl ErrDB))"

definition sql_AppendToolCall :: "tool_call_record \<Rightarrow> tables \<Rightarrow> unit sql_result" where
  "sql_AppendToolCall c = sql (\<lambda>t.
     if references_run t (tool_call_cells c) \<and> row_ok [] (tool_call_cells c) \<and>
        \<not> key_taken [''id''] (tool_call_cells c) (tb_tool_calls t)
     then (t\<lparr>tb_tool_calls := tb_tool_calls t @ [tool_call_cells c]\<rparr>, Inr ()) else (t, Inl ErrDB))"

definition sql_CreateApproval :: "approval_record \<Rightarrow> tables \<Rightarrow> unit sql_result" where
  "sql_CreateApproval a = sql (\<lambda>t.
     if references_run t (approval_cells a) \<and> row_ok [''decided_at''] (approval_cells a) \<and>
        \<not> key_taken [''id''] (approval_cells a) (tb_approvals t)
     then (t\<lparr>tb_approvals := tb_approvals t @ [approval_cells a]\<rparr>, Inr ()) else (t, Inl ErrDB))"

text \<open>\<open>UPDATE approvals SET ... WHERE id = ? AND status = ?\<close>, and the number of rows it affected.\<close>

definition sql_update :: "(row \<Rightarrow> bool) \<Rightarrow> row \<Rightarrow> row list \<Rightarrow> row list" where
  "sql_update hit new rs =
     map (\<lambda>r. if hit r then map (\<lambda>(c, v). (c, case map_of new c of Some w \<Rightarrow> w | None \<Rightarrow> v)) r else r) rs"

definition sql_ResolveApproval ::
    "string \<Rightarrow> string \<Rightarrow> string \<Rightarrow> string \<Rightarrow> time \<Rightarrow> tables \<Rightarrow> unit sql_result" where
  "sql_ResolveApproval aid status reason decidedBy decidedAt = sql (\<lambda>t.
     let hit = (\<lambda>r. column r ''id'' = CText aid \<and> column r ''status'' = CText ApprovalPending);
         new = [(''status'', CText status), (''reason'', CText reason), (''decided_by'', CText decidedBy),
                (''decided_at'', CText (fmtTime decidedAt))]
     in (t\<lparr>tb_approvals := sql_update hit new (tb_approvals t)\<rparr>,
         if list_ex hit (tb_approvals t) then Inr () else Inl ErrNotFound))"

definition sql_SaveCheckpoint :: "checkpoint_record \<Rightarrow> tables \<Rightarrow> unit sql_result" where
  "sql_SaveCheckpoint c = sql (\<lambda>t.
     if references_run t (checkpoint_cells c) \<and> row_ok [] (checkpoint_cells c)
     then (t\<lparr>tb_checkpoints := tb_checkpoints t @ [checkpoint_cells c]\<rparr>, Inr ()) else (t, Inl ErrDB))"

definition sql_UpsertPolicy :: "policy_record \<Rightarrow> tables \<Rightarrow> unit sql_result" where
  "sql_UpsertPolicy p = sql (\<lambda>t.
     if row_ok [] (policy_cells p)
     then (t\<lparr>tb_policies := sql_upsert [''name''] policy_set (policy_cells p) (tb_policies t)\<rparr>, Inr ())
     else (t, Inl ErrDB))"

definition sql_PutFact :: "fact \<Rightarrow> tables \<Rightarrow> unit sql_result" where
  "sql_PutFact f = sql (\<lambda>t.
     if row_ok [''run_id''] (fact_cells f)
     then (t\<lparr>tb_facts := sql_upsert [''namespace'', ''key''] fact_set (fact_cells f) (tb_facts t)\<rparr>, Inr ())
     else (t, Inl ErrDB))"

fun sql_step :: "tables \<Rightarrow> store_event \<Rightarrow> tables \<times> (store_error + unit)" where
  "sql_step t (SUpsertRun r) = sql_UpsertRun r t"
| "sql_step t (SUpsertStep s) = sql_UpsertStep s t"
| "sql_step t (SAppendLedger e) = sql_AppendLedger e t"
| "sql_step t (SAppendToolCall c) = sql_AppendToolCall c t"
| "sql_step t (SCreateApproval a) = sql_CreateApproval a t"
| "sql_step t (SResolveApproval i st re de dt) = sql_ResolveApproval i st re de dt t"
| "sql_step t (SSaveCheckpoint c) = sql_SaveCheckpoint c t"
| "sql_step t (SUpsertPolicy p) = sql_UpsertPolicy p t"
| "sql_step t (SPutFact f) = sql_PutFact f t"

subsection \<open>Reads\<close>

definition sql_GetRun :: "string \<Rightarrow> tables \<Rightarrow> run_record sql_result" where
  "sql_GetRun rid = sql_query (\<lambda>t. scan_one scanRun (where_eq ''id'' (CText rid) (tb_runs t)))"

definition sql_ListRuns :: "tables \<Rightarrow> run_record list sql_result" where
  "sql_ListRuns = sql_query (\<lambda>t. scan_rows scanRun (sort_by (order_by [(''created_at'', True)]) (tb_runs t)))"

definition sql_ListRunsByStatus :: "string \<Rightarrow> tables \<Rightarrow> run_record list sql_result" where
  "sql_ListRunsByStatus status = sql_query (\<lambda>t. scan_rows scanRun
     (sort_by (order_by [(''created_at'', True)]) (where_eq ''status'' (CText status) (tb_runs t))))"

definition sql_ListSteps :: "string \<Rightarrow> tables \<Rightarrow> step_record list sql_result" where
  "sql_ListSteps runID = sql_query (\<lambda>t. scan_rows scan_step
     (sort_by (order_by [(''idx'', False)]) (where_eq ''run_id'' (CText runID) (tb_steps t))))"

definition sql_LedgerForRun :: "string \<Rightarrow> tables \<Rightarrow> ledger_entry list sql_result" where
  "sql_LedgerForRun runID = sql_query (\<lambda>t. scan_rows scan_ledger (where_eq ''run_id'' (CText runID) (tb_ledger t)))"

definition sql_ListToolCalls :: "string \<Rightarrow> tables \<Rightarrow> tool_call_record list sql_result" where
  "sql_ListToolCalls runID = sql_query (\<lambda>t. scan_rows scan_tool_call
     (sort_by (order_by [(''step_idx'', False), (''created_at'', False), (''id'', False)])
        (where_eq ''run_id'' (CText runID) (tb_tool_calls t))))"

definition sql_GetApproval :: "string \<Rightarrow> tables \<Rightarrow> approval_record sql_result" where
  "sql_GetApproval aid = sql_query (\<lambda>t. scan_one scanApproval (where_eq ''id'' (CText aid) (tb_approvals t)))"

definition sql_ListApprovals :: "string \<Rightarrow> tables \<Rightarrow> approval_record list sql_result" where
  "sql_ListApprovals status = sql_query (\<lambda>t. scan_rows scanApproval (sort_by (order_by [(''created_at'', True)])
     (if status = [] then tb_approvals t else where_eq ''status'' (CText status) (tb_approvals t))))"

definition sql_LatestCheckpoint :: "string \<Rightarrow> tables \<Rightarrow> checkpoint_record sql_result" where
  "sql_LatestCheckpoint runID = sql_query (\<lambda>t. scan_one scanCheckpoint
     (rev (where_eq ''run_id'' (CText runID) (tb_checkpoints t))))"

definition sql_ListCheckpoints :: "string \<Rightarrow> tables \<Rightarrow> checkpoint_record list sql_result" where
  "sql_ListCheckpoints runID = sql_query (\<lambda>t. scan_rows scanCheckpoint
     (where_eq ''run_id'' (CText runID) (tb_checkpoints t)))"

definition sql_GetPolicy :: "string \<Rightarrow> tables \<Rightarrow> policy_record sql_result" where
  "sql_GetPolicy name = sql_query (\<lambda>t. scan_one scanPolicy (where_eq ''name'' (CText name) (tb_policies t)))"

definition sql_ListPolicies :: "tables \<Rightarrow> policy_record list sql_result" where
  "sql_ListPolicies = sql_query (\<lambda>t. scan_rows scanPolicy (sort_by (order_by [(''created_at'', True)]) (tb_policies t)))"

definition sql_GetFact :: "string \<Rightarrow> string \<Rightarrow> tables \<Rightarrow> fact sql_result" where
  "sql_GetFact ns k = sql_query (\<lambda>t. scan_one scanFact
     (where_eq ''key'' (CText k) (where_eq ''namespace'' (CText ns) (tb_facts t))))"

definition sql_ListFacts :: "string \<Rightarrow> tables \<Rightarrow> fact list sql_result" where
  "sql_ListFacts ns = sql_query (\<lambda>t. scan_rows scanFact
     (sort_by (order_by [(''key'', False)]) (where_eq ''namespace'' (CText ns) (tb_facts t))))"

section \<open>The record-level store is the abstraction\<close>

definition stored :: "db \<Rightarrow> tables" where
  "stored d = \<lparr>tb_runs = map run_cells (db_runs d), tb_steps = map step_cells (db_steps d),
     tb_ledger = map ledger_cells (db_ledger d), tb_tool_calls = map tool_call_cells (db_tool_calls d),
     tb_approvals = map approval_cells (db_approvals d), tb_checkpoints = map checkpoint_cells (db_checkpoints d),
     tb_policies = map policy_cells (db_policies d), tb_facts = map fact_cells (db_facts d),
     tb_faults = db_faults d\<rparr>"

definition stored_result :: "'a db_result \<Rightarrow> 'a sql_result" where
  "stored_result r = (stored (fst r), snd r)"

lemma stored_faults [simp]: "tb_faults (stored d) = db_faults d" "(stored d)\<lparr>tb_faults := bs\<rparr> = stored (d\<lparr>db_faults := bs\<rparr>)"
  by (simp_all add: stored_def)

lemma sql_stored:
  assumes "\<And>d. f (stored d) = stored_result (g d)"
  shows "sql f (stored d) = stored_result (statement g d)"
  using assms by (auto simp: sql_def statement_def stored_result_def split: list.splits)

lemma row_ok_cells [simp]:
  "row_ok [] (run_cells r) \<longleftrightarrow> real_ok (RR_BudgetDollars r) \<and> real_ok (RR_UsageDollars r)"
  "row_ok [''ended_at''] (step_cells s) \<longleftrightarrow> real_ok (SR_Dollars s)"
  "row_ok [] (ledger_cells e) \<longleftrightarrow> real_ok (LE_Dollars e)"
  "row_ok [] (tool_call_cells c)"
  "row_ok [''decided_at''] (approval_cells a)"
  "row_ok [] (checkpoint_cells k) \<longleftrightarrow> real_ok (CP_UsageDollars k)"
  "row_ok [] (policy_cells p) \<longleftrightarrow> real_ok (PR_BudgetDollars p)"
  "row_ok [''run_id''] (fact_cells f)"
  by (auto simp: row_ok_def run_cells_def step_cells_def ledger_cells_def tool_call_cells_def approval_cells_def
      checkpoint_cells_def policy_cells_def fact_cells_def bind_int32_def bind_real_def real_ok_def)

lemma references_stored [simp]:
  "references_run (stored d) r \<longleftrightarrow> (case column r ''run_id'' of CText rid \<Rightarrow> has_run d rid | _ \<Rightarrow> False)"
  by (auto simp: references_run_def stored_def has_run_def is_key_def list_ex_iff run_cells_def split: cell.splits)

lemma run_id_cells [simp]:
  "column (step_cells s) ''run_id'' = CText (SR_RunID s)" "column (ledger_cells e) ''run_id'' = CText (LE_RunID e)"
  "column (tool_call_cells c) ''run_id'' = CText (TC_RunID c)"
  "column (approval_cells a) ''run_id'' = CText (AR_RunID a)"
  "column (checkpoint_cells k) ''run_id'' = CText (CP_RunID k)"
  by (simp_all add: step_cells_def ledger_cells_def tool_call_cells_def approval_cells_def checkpoint_cells_def)

lemma key_taken_cells [simp]:
  "key_taken [''id''] (tool_call_cells c) (map tool_call_cells cs) \<longleftrightarrow> is_key TC_ID (TC_ID c) cs"
  "key_taken [''id''] (approval_cells a) (map approval_cells as) \<longleftrightarrow> is_key AR_ID (AR_ID a) as"
  by (simp_all add: key_taken_def same_key_def is_key_def list_ex_iff tool_call_cells_def approval_cells_def)

lemma update_approval:
  "sql_update (\<lambda>r. column r ''id'' = CText aid \<and> column r ''status'' = CText ApprovalPending)
     [(''status'', CText st), (''reason'', CText re), (''decided_by'', CText de), (''decided_at'', CText (fmtTime dt))]
     (map approval_cells as) =
   map approval_cells (map (\<lambda>a. if resolvable aid a
     then a\<lparr>AR_Status := st, AR_Reason := re, AR_DecidedBy := de, AR_DecidedAt := Some dt\<rparr> else a) as)"
  by (simp add: sql_update_def approval_cells_def resolvable_def fmtTimePtr_def)

lemma resolvable_cells [simp]:
  "column (approval_cells a) ''id'' = CText aid \<and> column (approval_cells a) ''status'' = CText ApprovalPending
     \<longleftrightarrow> resolvable aid a"
  by (simp add: approval_cells_def resolvable_def)

text \<open>What a statement does to the image of a database is the image of what it does.\<close>

lemma sql_step_stored: "sql_step (stored d) e = stored_result (store_step d e)"
proof (cases e)
  case (SUpsertRun r)
  show ?thesis unfolding SUpsertRun sql_step.simps store_step.simps sql_UpsertRun_def UpsertRun_def
    by (rule sql_stored) (simp add: stored_result_def stored_def run_table.upsert_enc)
next
  case (SUpsertStep s)
  show ?thesis unfolding SUpsertStep sql_step.simps store_step.simps sql_UpsertStep_def UpsertStep_def
    by (rule sql_stored) (simp add: stored_result_def, simp add: stored_def step_table.upsert_enc)
next
  case (SAppendLedger l)
  show ?thesis unfolding SAppendLedger sql_step.simps store_step.simps sql_AppendLedger_def AppendLedger_def
    by (rule sql_stored) (simp add: stored_result_def, simp add: stored_def)
next
  case (SAppendToolCall c)
  have "tb_tool_calls (stored d) = map tool_call_cells (db_tool_calls d)" for d by (simp add: stored_def)
  then show ?thesis unfolding SAppendToolCall sql_step.simps store_step.simps sql_AppendToolCall_def AppendToolCall_def
    by (intro sql_stored) (simp add: stored_result_def, simp add: stored_def)
next
  case (SCreateApproval a)
  have "tb_approvals (stored d) = map approval_cells (db_approvals d)" for d by (simp add: stored_def)
  then show ?thesis unfolding SCreateApproval sql_step.simps store_step.simps sql_CreateApproval_def CreateApproval_def
    by (intro sql_stored) (simp add: stored_result_def, simp add: stored_def)
next
  case (SResolveApproval aid st re de dt)
  have "list_ex (\<lambda>r. column r ''id'' = CText aid \<and> column r ''status'' = CText ApprovalPending) (map approval_cells as)
      \<longleftrightarrow> list_ex (resolvable aid) as" for as
    by (simp add: list_ex_iff)
  then show ?thesis unfolding SResolveApproval sql_step.simps store_step.simps sql_ResolveApproval_def ResolveApproval_def
    by (intro sql_stored) (simp add: Let_def stored_result_def stored_def update_approval)
next
  case (SSaveCheckpoint c)
  show ?thesis unfolding SSaveCheckpoint sql_step.simps store_step.simps sql_SaveCheckpoint_def SaveCheckpoint_def
    by (rule sql_stored) (simp add: stored_result_def, simp add: stored_def)
next
  case (SUpsertPolicy p)
  show ?thesis unfolding SUpsertPolicy sql_step.simps store_step.simps sql_UpsertPolicy_def UpsertPolicy_def
    by (rule sql_stored) (simp add: stored_result_def stored_def policy_table.upsert_enc)
next
  case (SPutFact f)
  show ?thesis unfolding SPutFact sql_step.simps store_step.simps sql_PutFact_def PutFact_def
    by (rule sql_stored) (simp add: stored_result_def stored_def fact_table.upsert_enc)
qed

definition db_fits :: "db \<Rightarrow> bool" where
  "db_fits d \<longleftrightarrow> list_all run_fits (db_runs d) \<and> list_all step_fits (db_steps d) \<and>
     list_all ledger_fits (db_ledger d) \<and> list_all tool_call_fits (db_tool_calls d) \<and>
     list_all approval_fits (db_approvals d) \<and> list_all checkpoint_fits (db_checkpoints d) \<and>
     list_all policy_fits (db_policies d) \<and> list_all fact_fits (db_facts d)"

lemma db_fits_faults [simp]: "db_fits (d\<lparr>db_faults := bs\<rparr>) = db_fits d"
  by (simp add: db_fits_def)

lemma query_stored:
  assumes "db_fits d" "\<And>d. db_fits d \<Longrightarrow> q (stored d) = p d"
  shows "sql_query q (stored d) = stored_result (query p d)"
  using assms by (auto simp: sql_query_def query_def sql_def statement_def stored_result_def split: list.splits)

lemma tables_stored [simp]:
  "tb_runs (stored d) = map run_cells (db_runs d)" "tb_steps (stored d) = map step_cells (db_steps d)"
  "tb_ledger (stored d) = map ledger_cells (db_ledger d)"
  "tb_tool_calls (stored d) = map tool_call_cells (db_tool_calls d)"
  "tb_approvals (stored d) = map approval_cells (db_approvals d)"
  "tb_checkpoints (stored d) = map checkpoint_cells (db_checkpoints d)"
  "tb_policies (stored d) = map policy_cells (db_policies d)" "tb_facts (stored d) = map fact_cells (db_facts d)"
  by (simp_all add: stored_def)

text \<open>The orders of the queries are those of the records.\<close>

lemma order_runs: "order_by [(''created_at'', True)] (run_cells x) (run_cells y) =
    text_le (fmtTime (RR_CreatedAt y)) (fmtTime (RR_CreatedAt x))"
  by (simp add: run_cells_def)

lemma order_approvals: "order_by [(''created_at'', True)] (approval_cells x) (approval_cells y) =
    text_le (fmtTime (AR_CreatedAt y)) (fmtTime (AR_CreatedAt x))"
  by (simp add: approval_cells_def)

lemma order_policies: "order_by [(''created_at'', True)] (policy_cells x) (policy_cells y) =
    text_le (fmtTime (PR_CreatedAt y)) (fmtTime (PR_CreatedAt x))"
  by (simp add: policy_cells_def)

lemma order_facts: "order_by [(''key'', False)] (fact_cells x) (fact_cells y) = text_le (F_Key x) (F_Key y)"
  by (simp add: fact_cells_def)

lemma scast_sle: "(scast (m :: int32) :: int64) \<le>s scast n \<longleftrightarrow> m \<le>s n"
  by (simp add: word_sle_eq sint_scast32)

lemma order_steps: "order_by [(''idx'', False)] (step_cells x) (step_cells y) = (SR_Index x \<le>s SR_Index y)"
  by (simp add: step_cells_def) (simp add: bind_int32_def scast_sle)

lemma text_less_le: "a \<noteq> b \<Longrightarrow> text_less a b = text_le a b"
  using text_less_linear [of a b] text_less_trans [of a b a] by (auto simp: text_le_def)

lemma order_tool_calls:
  "order_by [(''step_idx'', False), (''created_at'', False), (''id'', False)] (tool_call_cells x) (tool_call_cells y) =
     tool_call_le x y"
proof -
  have f: "fmtTime (TC_CreatedAt x) = fmtTime (TC_CreatedAt y) \<Longrightarrow> TC_ID x = TC_ID y \<Longrightarrow> text_le (TC_ID x) (TC_ID y)"
    by simp
  have s: "TC_StepIndex x \<noteq> TC_StepIndex y \<Longrightarrow> TC_StepIndex x <s TC_StepIndex y \<longleftrightarrow> TC_StepIndex x \<le>s TC_StepIndex y"
    by (simp add: word_sle_eq word_sless_alt) (metis order_le_less signed_word_eqI)
  show ?thesis
    using s text_less_le [of "fmtTime (TC_CreatedAt x)"] f
    by (simp add: tool_call_cells_def tool_call_le_def) (simp add: bind_int32_def scast_sle)
qed

text \<open>The columns of the conditions.\<close>

lemma where_columns [simp]:
  "column (run_cells r) ''id'' = CText (RR_ID r)" "column (run_cells r) ''status'' = CText (RR_Status r)"
  "column (approval_cells a) ''id'' = CText (AR_ID a)" "column (approval_cells a) ''status'' = CText (AR_Status a)"
  "column (policy_cells p) ''name'' = CText (PR_Name p)"
  "column (fact_cells f) ''namespace'' = CText (F_Namespace f)" "column (fact_cells f) ''key'' = CText (F_Key f)"
  by (simp_all add: run_cells_def approval_cells_def policy_cells_def fact_cells_def)

text \<open>Every read answers what the record-level store answers.\<close>

lemma sql_GetRun_stored: "db_fits d \<Longrightarrow> sql_GetRun rid (stored d) = stored_result (GetRun rid d)"
  unfolding sql_GetRun_def GetRun_def
  by (rule query_stored) (simp_all add: db_fits_def run_table.get_enc [where key = RR_ID and k = rid])

lemma sql_ListRuns_stored: "db_fits d \<Longrightarrow> sql_ListRuns (stored d) = stored_result (ListRuns d)"
  unfolding sql_ListRuns_def ListRuns_def
  by (rule query_stored)
    (simp_all add: db_fits_def newest_first_def order_runs run_table.list_enc
      [where le' = "\<lambda>x y. text_le (fmtTime (RR_CreatedAt y)) (fmtTime (RR_CreatedAt x))"] del: order_by.simps)

lemma sql_ListRunsByStatus_stored:
  "db_fits d \<Longrightarrow> sql_ListRunsByStatus status (stored d) = stored_result (ListRunsByStatus status d)"
  unfolding sql_ListRunsByStatus_def ListRunsByStatus_def
  by (rule query_stored)
    (simp_all add: db_fits_def newest_first_def order_runs run_table.select_list_enc
      [where P = "\<lambda>r. RR_Status r = status" and
        le' = "\<lambda>x y. text_le (fmtTime (RR_CreatedAt y)) (fmtTime (RR_CreatedAt x))"] del: order_by.simps)

lemma sql_ListSteps_stored: "db_fits d \<Longrightarrow> sql_ListSteps runID (stored d) = stored_result (ListSteps runID d)"
  unfolding sql_ListSteps_def ListSteps_def
  by (rule query_stored)
    (simp_all add: db_fits_def order_steps step_table.select_list_enc
      [where P = "\<lambda>s. SR_RunID s = runID" and le' = "\<lambda>x y. SR_Index x \<le>s SR_Index y"] del: order_by.simps)

lemma sql_LedgerForRun_stored:
  "db_fits d \<Longrightarrow> sql_LedgerForRun runID (stored d) = stored_result (LedgerForRun runID d)"
  unfolding sql_LedgerForRun_def LedgerForRun_def
  by (rule query_stored)
    (simp_all add: db_fits_def ledger_of_def ledger_table.select_enc [where P = "\<lambda>e. LE_RunID e = runID"])

lemma sql_ListToolCalls_stored:
  "db_fits d \<Longrightarrow> sql_ListToolCalls runID (stored d) = stored_result (ListToolCalls runID d)"
  unfolding sql_ListToolCalls_def ListToolCalls_def
  by (rule query_stored)
    (simp_all add: db_fits_def order_tool_calls tool_call_table.select_list_enc
      [where P = "\<lambda>c. TC_RunID c = runID" and le' = tool_call_le] del: order_by.simps)

lemma sql_GetApproval_stored: "db_fits d \<Longrightarrow> sql_GetApproval aid (stored d) = stored_result (GetApproval aid d)"
  unfolding sql_GetApproval_def GetApproval_def
  by (rule query_stored) (simp_all add: db_fits_def approval_table.get_enc [where key = AR_ID and k = aid])

lemma sql_ListApprovals_stored:
  "db_fits d \<Longrightarrow> sql_ListApprovals status (stored d) = stored_result (ListApprovals status d)"
  unfolding sql_ListApprovals_def ListApprovals_def
  by (rule query_stored)
    (simp_all add: db_fits_def newest_first_def order_approvals approval_table.list_enc
      [where le' = "\<lambda>x y. text_le (fmtTime (AR_CreatedAt y)) (fmtTime (AR_CreatedAt x))"]
      approval_table.select_list_enc [where P = "\<lambda>a. AR_Status a = status" and
        le' = "\<lambda>x y. text_le (fmtTime (AR_CreatedAt y)) (fmtTime (AR_CreatedAt x))"] del: order_by.simps)

lemma sql_LatestCheckpoint_stored:
  "db_fits d \<Longrightarrow> sql_LatestCheckpoint runID (stored d) = stored_result (LatestCheckpoint runID d)"
  unfolding sql_LatestCheckpoint_def LatestCheckpoint_def
proof (rule query_stored)
  fix d assume "db_fits d"
  then have "list_all checkpoint_fits (rev (checkpoints_of runID d))"
    by (simp add: db_fits_def checkpoints_of_def list_all_iff)
  from checkpoint_table.scan_one_enc [OF this]
  show "scan_one scanCheckpoint (rev (where_eq ''run_id'' (CText runID) (tb_checkpoints (stored d)))) =
      (case rev (checkpoints_of runID d) of [] \<Rightarrow> Inl ErrNotFound | c # _ \<Rightarrow> Inr c)"
    by (simp add: checkpoints_of_def where_eq_def filter_map rev_map o_def)
qed

lemma sql_ListCheckpoints_stored:
  "db_fits d \<Longrightarrow> sql_ListCheckpoints runID (stored d) = stored_result (ListCheckpoints runID d)"
  unfolding sql_ListCheckpoints_def ListCheckpoints_def
  by (rule query_stored)
    (simp_all add: db_fits_def checkpoints_of_def checkpoint_table.select_enc [where P = "\<lambda>c. CP_RunID c = runID"])

lemma sql_GetPolicy_stored: "db_fits d \<Longrightarrow> sql_GetPolicy name (stored d) = stored_result (GetPolicy name d)"
  unfolding sql_GetPolicy_def GetPolicy_def
  by (rule query_stored) (simp_all add: db_fits_def policy_table.get_enc [where key = PR_Name and k = name])

lemma sql_ListPolicies_stored: "db_fits d \<Longrightarrow> sql_ListPolicies (stored d) = stored_result (ListPolicies d)"
  unfolding sql_ListPolicies_def ListPolicies_def
  by (rule query_stored)
    (simp_all add: db_fits_def newest_first_def order_policies policy_table.list_enc
      [where le' = "\<lambda>x y. text_le (fmtTime (PR_CreatedAt y)) (fmtTime (PR_CreatedAt x))"] del: order_by.simps)

lemma lookup_filter_key:
  assumes "\<And>x. key x = k \<longleftrightarrow> P x \<and> f x = j"
  shows "lookup f j (filter P xs) = lookup key k xs"
  using assms by (induction xs) auto

lemma sql_GetFact_stored: "db_fits d \<Longrightarrow> sql_GetFact ns k (stored d) = stored_result (GetFact ns k d)"
  unfolding sql_GetFact_def GetFact_def
proof (rule query_stored)
  fix d assume d: "db_fits d"
  let ?fs = "filter (\<lambda>f. F_Namespace f = ns) (db_facts d)"
  have fits: "list_all fact_fits ?fs" using d by (simp add: db_fits_def list_all_iff)
  have "where_eq ''namespace'' (CText ns) (map fact_cells (db_facts d)) = map fact_cells ?fs"
    by (rule fact_table.where_enc) simp
  moreover have "lookup F_Key k ?fs = lookup fact_key (ns, k) (db_facts d)"
    by (rule lookup_filter_key) (auto simp: fact_key_def)
  ultimately show "scan_one scanFact (where_eq ''key'' (CText k) (where_eq ''namespace'' (CText ns) (tb_facts (stored d)))) =
      (case lookup fact_key (ns, k) (db_facts d) of None \<Rightarrow> Inl ErrNotFound | Some f \<Rightarrow> Inr f)"
    using fact_table.get_enc [where key = F_Key and k = k, OF fits] by simp
qed

lemma sql_ListFacts_stored: "db_fits d \<Longrightarrow> sql_ListFacts ns (stored d) = stored_result (ListFacts ns d)"
  unfolding sql_ListFacts_def ListFacts_def
  by (rule query_stored)
    (simp_all add: db_fits_def order_facts fact_table.select_list_enc
      [where P = "\<lambda>f. F_Namespace f = ns" and le' = "\<lambda>x y. text_le (F_Key x) (F_Key y)"] del: order_by.simps)

section \<open>Sums and groups\<close>

definition cell_int :: "cell \<Rightarrow> int64" where
  "cell_int c = (case c of CInt n \<Rightarrow> n | _ \<Rightarrow> 0)"

definition cell_real :: "cell \<Rightarrow> float64" where
  "cell_real c = (case c of CReal x \<Rightarrow> x | _ \<Rightarrow> fzero)"

definition cell_text :: "cell \<Rightarrow> string" where
  "cell_text c = (case c of CText s \<Rightarrow> s | _ \<Rightarrow> [])"

text \<open>\<open>SUM\<close> of the two token columns; None is SQLite's integer overflow.\<close>

definition sum_tokens :: "row list \<Rightarrow> (int64 \<times> int64) option" where
  "sum_tokens rs =
     (case (sum_int64 0 (map (\<lambda>r. cell_int (column r ''prompt_tokens'')) rs),
            sum_int64 0 (map (\<lambda>r. cell_int (column r ''completion_tokens'')) rs)) of
        (Some p, Some c) \<Rightarrow> Some (p, c) | _ \<Rightarrow> None)"

definition dollars_of :: "row list \<Rightarrow> float64 list" where
  "dollars_of rs = map (\<lambda>r. cell_real (column r ''dollars'')) rs"

definition sql_Totals :: "(float64 list \<Rightarrow> float64) \<Rightarrow> string \<Rightarrow> tables \<Rightarrow> ledger_totals sql_result" where
  "sql_Totals fsum runID = sql_query (\<lambda>t.
     let rs = where_eq ''run_id'' (CText runID) (tb_ledger t) in
     case sum_tokens rs of
       None \<Rightarrow> Inl ErrDB
     | Some (p, c) \<Rightarrow>
         Inr \<lparr>LT_RunID = runID, LT_Calls = of_nat (length rs), LT_PromptTokens = p, LT_CompletionTokens = c,
              LT_Dollars = (if rs = [] then fzero else fsum (dollars_of rs))\<rparr>)"

text \<open>
  \<open>json_extract(metadata, '$.key')\<close> on an object whose members are strings, as
  \<open>marshalMeta\<close> writes it: NULL where the key is missing.
\<close>

definition json_extract :: "string \<Rightarrow> string \<Rightarrow> cell" where
  "json_extract s k =
     (case decode_text s of
        Some (DObj kvs) \<Rightarrow> (case map_of kvs k of Some (DStr v) \<Rightarrow> CText v | _ \<Rightarrow> CNull)
      | _ \<Rightarrow> CNull)"

text \<open>\<open>JOIN runs r ON r.id = l.run_id\<close>: the run of a ledger row, if there is one.\<close>

definition run_of :: "tables \<Rightarrow> row \<Rightarrow> row option" where
  "run_of t l = find (\<lambda>r. column r ''id'' = column l ''run_id'') (tb_runs t)"

definition sql_group_expr :: "string \<Rightarrow> (tables \<Rightarrow> row \<Rightarrow> cell option) option" where
  "sql_group_expr by =
     (if by = ''provider'' then Some (\<lambda>t l. Some (column l ''provider''))
      else if by = ''model'' then Some (\<lambda>t l. Some (column l ''model''))
      else if by = ''day'' then Some (\<lambda>t l. Some (CText (take 10 (cell_text (column l ''created_at'')))))
      else if by = ''name'' then Some (\<lambda>t l. map_option (\<lambda>r. column r ''name'') (run_of t l))
      else if HasPrefix by ''metadata.'' \<and> validMetaKey (TrimPrefix by ''metadata.'') then
        Some (\<lambda>t l. map_option
          (\<lambda>r. json_extract (cell_text (column r ''metadata'')) (TrimPrefix by ''metadata.'')) (run_of t l))
      else None)"

text \<open>\<open>COALESCE(k, '(none)')\<close>.\<close>

definition coalesce_none :: "cell \<Rightarrow> string" where
  "coalesce_none c = (case c of CText s \<Rightarrow> s | _ \<Rightarrow> ''(none)'')"

definition sql_in_range :: "summarize_options \<Rightarrow> row \<Rightarrow> bool" where
  "sql_in_range opts l \<longleftrightarrow>
     (case SO_Since opts of None \<Rightarrow> True
      | Some x \<Rightarrow> text_le (fmtTime x) (cell_text (column l ''created_at''))) \<and>
     (case SO_Until opts of None \<Rightarrow> True
      | Some x \<Rightarrow> text_less (cell_text (column l ''created_at'')) (fmtTime x))"

definition sql_group :: "(float64 list \<Rightarrow> float64) \<Rightarrow> string \<Rightarrow> row list \<Rightarrow> usage_group option" where
  "sql_group fsum k rs =
     (case sum_tokens rs of
        None \<Rightarrow> None
      | Some (p, c) \<Rightarrow> Some \<lparr>UG_Key = k, UG_Calls = of_nat (length rs), UG_PromptTokens = p,
                          UG_CompletionTokens = c, UG_Dollars = fsum (dollars_of rs)\<rparr>)"

definition sql_SummarizeLedger ::
    "(float64 list \<Rightarrow> float64) \<Rightarrow> summarize_options \<Rightarrow> tables \<Rightarrow> usage_summary sql_result" where
  "sql_SummarizeLedger fsum opts t =
     (case sql_group_expr (SO_By opts) of
        None \<Rightarrow> (t, Inl (ErrInvalid (SO_By opts)))
      | Some expr \<Rightarrow> sql_query (\<lambda>t.
          let key = (\<lambda>l. map_option coalesce_none (expr t l));
              rows = filter (\<lambda>l. sql_in_range opts l \<and> key l \<noteq> None) (tb_ledger t);
              ks = remdups (map (\<lambda>l. the (key l)) rows)
          in case all_some (map (\<lambda>k. sql_group fsum k (filter (\<lambda>l. key l = Some k) rows)) ks) of
               None \<Rightarrow> Inl ErrDB
             | Some gs \<Rightarrow>
                 (let gs = sort_by group_le gs
                  in Inr \<lparr>US_By = SO_By opts, US_Groups = gs, US_Total = fold add_group gs zero_group\<rparr>)) t)"

lemma ledger_columns [simp]:
  "cell_int (column (ledger_cells e) ''prompt_tokens'') = LE_PromptTokens e"
  "cell_int (column (ledger_cells e) ''completion_tokens'') = LE_CompletionTokens e"
  "ledger_fits e \<Longrightarrow> cell_real (column (ledger_cells e) ''dollars'') = LE_Dollars e"
  "column (ledger_cells e) ''provider'' = CText (LE_Provider e)"
  "column (ledger_cells e) ''model'' = CText (LE_Model e)"
  "cell_text (column (ledger_cells e) ''created_at'') = fmtTime (LE_CreatedAt e)"
  by (simp_all add: ledger_cells_def cell_int_def cell_text_def cell_real_def bind_real_def ledger_fits_def real_ok_def)

lemma run_columns [simp]:
  "column (run_cells r) ''name'' = CText (RR_Name r)"
  "cell_text (column (run_cells r) ''metadata'') = marshalMeta (RR_Metadata r)"
  by (simp_all add: run_cells_def cell_text_def)

lemma sum_tokens_cells:
  "sum_tokens (map ledger_cells es) =
     (case (sum_int64 0 (map LE_PromptTokens es), sum_int64 0 (map LE_CompletionTokens es)) of
        (Some p, Some c) \<Rightarrow> Some (p, c) | _ \<Rightarrow> None)"
  by (simp add: sum_tokens_def o_def)

lemma dollars_of_cells: "list_all ledger_fits es \<Longrightarrow> dollars_of (map ledger_cells es) = map LE_Dollars es"
  by (simp add: dollars_of_def list_all_iff)

lemma sql_group_cells:
  "list_all ledger_fits es \<Longrightarrow> sql_group fsum k (map ledger_cells es) = make_group fsum k es"
  by (simp add: sql_group_def make_group_def sum_tokens_cells dollars_of_cells split: option.splits)

lemma sql_Totals_stored: "db_fits d \<Longrightarrow> sql_Totals fsum runID (stored d) = stored_result (Totals fsum runID d)"
  unfolding sql_Totals_def Totals_def
proof (rule query_stored)
  fix d assume "db_fits d"
  then have fits: "list_all ledger_fits (ledger_of runID d)" by (simp add: db_fits_def ledger_of_def list_all_iff)
  have "where_eq ''run_id'' (CText runID) (map ledger_cells (db_ledger d)) = map ledger_cells (ledger_of runID d)"
    unfolding ledger_of_def by (rule ledger_table.where_enc) simp
  then show "(let rs = where_eq ''run_id'' (CText runID) (tb_ledger (stored d)) in
      case sum_tokens rs of None \<Rightarrow> Inl ErrDB
      | Some (p, c) \<Rightarrow> Inr \<lparr>LT_RunID = runID, LT_Calls = of_nat (length rs), LT_PromptTokens = p, LT_CompletionTokens = c,
          LT_Dollars = (if rs = [] then fzero else fsum (dollars_of rs))\<rparr>) =
      (let es = ledger_of runID d in
       case (sum_int64 0 (map LE_PromptTokens es), sum_int64 0 (map LE_CompletionTokens es)) of
         (Some p, Some c) \<Rightarrow> Inr \<lparr>LT_RunID = runID, LT_Calls = of_nat (length es), LT_PromptTokens = p,
           LT_CompletionTokens = c, LT_Dollars = (if es = [] then fzero else fsum (map LE_Dollars es))\<rparr>
       | _ \<Rightarrow> Inl ErrDB)"
    by (simp add: Let_def sum_tokens_cells dollars_of_cells [OF fits] split: option.splits)
qed

lemma json_extract_metadata:
  assumes "in_key_order m" "valid_pairs m"
  shows "json_extract (marshalMeta m) k = (case map_of m k of Some v \<Rightarrow> CText v | None \<Rightarrow> CNull)"
proof -
  have "decode_text (marshalMeta m) = Some (DObj (map (\<lambda>(k, v). (k, DStr v)) m))"
    using decode_pairs_text [OF assms] decode_pairs_text [of "[]"]
    by (auto simp: marshalMeta_def pairs_text_def json_object_def sort_by_def in_key_order_def valid_pairs_def)
  moreover have "map_of (map (\<lambda>(k, v). (k, DStr v)) m) k = map_option DStr (map_of m k)"
    by (simp add: map_of_map)
  ultimately show ?thesis by (simp add: json_extract_def split: option.splits)
qed

lemma run_of_stored: "run_of (stored d) (ledger_cells e) = map_option run_cells (lookup RR_ID (LE_RunID e) (db_runs d))"
proof -
  have "find (\<lambda>r. column r ''id'' = CText rid) (map run_cells rs) = map_option run_cells (lookup RR_ID rid rs)" for rid rs
    by (induction rs) simp_all
  then show ?thesis by (simp add: run_of_def)
qed

lemma sql_group_expr_stored:
  assumes "group_expr by = Some key"
  obtains expr where "sql_group_expr by = Some expr"
    "\<And>d e. db_fits d \<Longrightarrow> map_option coalesce_none (expr (stored d) (ledger_cells e)) = key d e"
proof -
  have meta: "coalesce_none (json_extract (marshalMeta (RR_Metadata r)) k) =
      (case map_of (RR_Metadata r) k of None \<Rightarrow> ''(none)'' | Some v \<Rightarrow> v)"
    if "db_fits d" "lookup RR_ID rid (db_runs d) = Some r" for d rid r k
  proof -
    have "run_fits r" using that lookup_SomeD [OF that(2)] by (auto simp: db_fits_def list_all_iff)
    then show ?thesis by (simp add: run_fits_def json_extract_metadata coalesce_none_def split: option.splits)
  qed
  show ?thesis
    using assms meta
    by (auto simp: group_expr_def sql_group_expr_def coalesce_none_def [of "CText _"] run_of_stored
        option.map_comp o_def split: if_splits intro!: that option.map_cong0)
qed

lemma sql_group_expr_None: "group_expr by = None \<Longrightarrow> sql_group_expr by = None"
  by (auto simp: group_expr_def sql_group_expr_def split: if_splits)

lemma in_range_cells [simp]: "sql_in_range opts (ledger_cells e) = in_range opts e"
  by (simp add: sql_in_range_def in_range_def split: option.split)

lemma sql_SummarizeLedger_stored:
  assumes "db_fits d"
  shows "sql_SummarizeLedger fsum opts (stored d) = stored_result (SummarizeLedger fsum opts d)"
proof (cases "group_expr (SO_By opts)")
  case None
  then show ?thesis
    using sql_group_expr_None by (simp add: sql_SummarizeLedger_def SummarizeLedger_def stored_result_def)
next
  case (Some key)
  obtain expr where e: "sql_group_expr (SO_By opts) = Some expr"
    and k: "\<And>d e. db_fits d \<Longrightarrow> map_option coalesce_none (expr (stored d) (ledger_cells e)) = key d e"
    using Some by (rule sql_group_expr_stored) blast
  show ?thesis
    unfolding sql_SummarizeLedger_def SummarizeLedger_def Some e option.case
  proof (rule query_stored [OF assms])
    fix d assume d: "db_fits d"
    define rows where "rows = filter (\<lambda>e. in_range opts e \<and> key d e \<noteq> None) (db_ledger d)"
    have rows': "filter (\<lambda>l. sql_in_range opts l \<and> map_option coalesce_none (expr (stored d) l) \<noteq> None)
        (map ledger_cells (db_ledger d)) = map ledger_cells rows"
      unfolding rows_def filter_map o_def k [OF d] in_range_cells by (rule refl)
    have ks: "map (\<lambda>l. the (map_option coalesce_none (expr (stored d) l))) (map ledger_cells rows) =
        map (\<lambda>e. the (key d e)) rows"
      unfolding map_map o_def k [OF d] by (rule refl)
    have gs: "sql_group fsum c (filter (\<lambda>l. map_option coalesce_none (expr (stored d) l) = Some c) (map ledger_cells rows)) =
        make_group fsum c (filter (\<lambda>e. key d e = Some c) rows)" for c
    proof -
      have "list_all ledger_fits (filter (\<lambda>e. key d e = Some c) rows)"
        using d by (auto simp: rows_def db_fits_def list_all_iff)
      from sql_group_cells [OF this] show ?thesis unfolding filter_map o_def k [OF d] .
    qed
    show "(let key = \<lambda>l. map_option coalesce_none (expr (stored d) l);
               rows = filter (\<lambda>l. sql_in_range opts l \<and> key l \<noteq> None) (tb_ledger (stored d));
               ks = remdups (map (\<lambda>l. the (key l)) rows)
           in case all_some (map (\<lambda>k. sql_group fsum k (filter (\<lambda>l. key l = Some k) rows)) ks) of
                None \<Rightarrow> Inl ErrDB
              | Some gs \<Rightarrow> (let gs = sort_by group_le gs
                  in Inr \<lparr>US_By = SO_By opts, US_Groups = gs, US_Total = fold add_group gs zero_group\<rparr>)) =
        (let rows = filter (\<lambda>e. in_range opts e \<and> key d e \<noteq> None) (db_ledger d);
             ks = remdups (map (\<lambda>e. the (key d e)) rows)
         in case all_some (map (\<lambda>k. make_group fsum k (filter (\<lambda>e. key d e = Some k) rows)) ks) of
              None \<Rightarrow> Inl ErrDB
            | Some gs \<Rightarrow> (let gs = sort_by group_le gs
                in Inr \<lparr>US_By = SO_By opts, US_Groups = gs, US_Total = fold add_group gs zero_group\<rparr>))"
      unfolding Let_def tables_stored rows' ks gs rows_def [symmetric] by (rule refl)
  qed
qed

section \<open>Any history of writes\<close>

fun event_fits :: "store_event \<Rightarrow> bool" where
  "event_fits (SUpsertRun r) = run_fits r"
| "event_fits (SUpsertStep s) = step_fits s"
| "event_fits (SAppendLedger e) = ledger_fits e"
| "event_fits (SAppendToolCall c) = tool_call_fits c"
| "event_fits (SCreateApproval a) = approval_fits a"
| "event_fits (SResolveApproval aid st re de dt) = text_range dt"
| "event_fits (SSaveCheckpoint c) = checkpoint_fits c"
| "event_fits (SUpsertPolicy p) = policy_fits p"
| "event_fits (SPutFact f) = fact_fits f"

lemma resolve_fits:
  "list_all approval_fits as \<Longrightarrow> text_range dt \<Longrightarrow> list_all approval_fits (map (\<lambda>a. if P a
     then a\<lparr>AR_Status := st, AR_Reason := re, AR_DecidedBy := de, AR_DecidedAt := Some dt\<rparr> else a) as)"
  by (auto simp: list_all_iff approval_fits_def time_fits_def)

lemma store_step_fits:
  assumes "db_fits d" "event_fits e"
  shows "db_fits (fst (store_step d e))"
  using assms
  by (cases e; simp only: store_step.simps write_defs)
    (rule statement_keeps [where P = db_fits], assumption, simp,
     simp add: db_fits_def run_table.upsert_fits step_table.upsert_fits policy_table.upsert_fits
       fact_table.upsert_fits resolve_fits)+

interpretation fitting_store: invariant_machine store_step db_fits event_fits
  by unfold_locales (rule store_step_fits)

lemma sql_run_stored:
  "final_state sql_step (stored d) es = stored (final_state store_step d es) \<and>
   answers sql_step (stored d) es = answers store_step d es"
  by (induction es arbitrary: d) (simp_all add: sql_step_stored stored_result_def)

lemmas sql_reads_stored = sql_GetRun_stored sql_ListRuns_stored sql_ListRunsByStatus_stored sql_ListSteps_stored
  sql_LedgerForRun_stored sql_Totals_stored sql_SummarizeLedger_stored sql_ListToolCalls_stored
  sql_GetApproval_stored sql_ListApprovals_stored sql_LatestCheckpoint_stored sql_ListCheckpoints_stored
  sql_GetPolicy_stored sql_ListPolicies_stored sql_GetFact_stored sql_ListFacts_stored

text \<open>
  C20. What is stored is read back. The row of every record of the eight tables scans back to
  the record itself: tokens, money, times to the nanosecond, metadata, tool arguments and
  checkpoint payloads with every JSON value in them, numbers included. A record must fit its row:
  amounts that are not NaN, times of the years 0 to 9999, well-formed UTF-8 and maps listed in key
  order where a column holds JSON, nested no deeper than the decoder goes.
\<close>

theorem stored_records_read_back:
  assumes "run_fits r" "step_fits s" "ledger_fits e" "tool_call_fits c" "approval_fits a"
    "checkpoint_fits k" "policy_fits p" "fact_fits f"
  shows "scanRun (run_cells r) = Some r \<and> scan_step (step_cells s) = Some s \<and>
    scan_ledger (ledger_cells e) = Some e \<and> scan_tool_call (tool_call_cells c) = Some c \<and>
    scanApproval (approval_cells a) = Some a \<and> scanCheckpoint (checkpoint_cells k) = Some k \<and>
    scanPolicy (policy_cells p) = Some p \<and> scanFact (fact_cells f) = Some f"
  using assms
  by (simp add: run_table.scan_enc step_table.scan_enc ledger_table.scan_enc tool_call_table.scan_enc
      approval_table.scan_enc checkpoint_table.scan_enc policy_table.scan_enc fact_table.scan_enc)

definition sample_step :: step_record where
  "sample_step = \<lparr>SR_RunID = ''r1'', SR_Index = 1, SR_Status = ''completed'', SR_PromptTokens = 3,
     SR_CompletionTokens = 4, SR_Dollars = Fin 1, SR_StartedAt = 1, SR_EndedAt = Some 1500000000\<rparr>"

definition sample_payload :: json_map where
  "sample_payload = [(''next'', JStr ''a<b''), (''score'', JNum (1 / 2)), (''tools'', JArr [JStr ''rm'', JNull])]"

definition sample_tool_call :: tool_call_record where
  "sample_tool_call = \<lparr>TC_ID = ''t1'', TC_RunID = ''r1'', TC_StepIndex = 1, TC_Tool = ''rm'',
     TC_SideEffect = ''write'', TC_Arguments = sample_payload, TC_Status = ''forwarded'', TC_CreatedAt = 7\<rparr>"

definition sample_saved :: checkpoint_record where
  "sample_saved = (sample_checkpoint ''r1'' 3)\<lparr>CP_Payload := sample_payload\<rparr>"

definition sample_policy_record :: policy_record where
  "sample_policy_record = \<lparr>PR_Name = ''p'', PR_BudgetTokens = 10, PR_BudgetDollars = Fin 1, PR_BudgetLoops = 2,
     PR_BudgetSeconds = 0, PR_ToolAllowlist = [''ls''], PR_ApprovalRules = [\<lparr>Rule_Tool = ''rm'', Rule_SideEffect = ''''\<rparr>],
     PR_CreatedAt = 0, PR_UpdatedAt = 1\<rparr>"

definition sample_fact :: fact where
  "sample_fact = \<lparr>F_Namespace = ''n'', F_Key = ''k'', F_Value = ''v'', F_RunID = '''', F_UpdatedAt = 5\<rparr>"

lemma text_range_small: "0 \<le> t \<Longrightarrow> t < day_ns \<Longrightarrow> text_range t"
  by (simp add: text_range_def day_ns_def)

lemma sample_payload_fits: "object_fits sample_payload"
proof -
  have "f64 (1 / 2) = Fin (1 / 2)" using f64_dyadic [of 1 1] by simp
  then show ?thesis by (simp add: object_fits_def sample_payload_def in_key_order_def valid_text_def)
qed

lemma samples_fit:
  "run_fits (sample_run rid)" "step_fits sample_step" "ledger_fits (sample_entry rid 9)"
  "tool_call_fits sample_tool_call" "approval_fits (sample_approval aid rid)" "checkpoint_fits sample_saved"
  "policy_fits sample_policy_record" "fact_fits sample_fact"
  using sample_payload_fits
  by (simp_all add: run_fits_def sample_run_def step_fits_def sample_step_def ledger_fits_def sample_entry_def
      tool_call_fits_def sample_tool_call_def approval_fits_def sample_approval_def checkpoint_fits_def
      sample_saved_def sample_checkpoint_def policy_fits_def sample_policy_record_def fact_fits_def sample_fact_def
      real_ok_def in_key_order_def valid_pairs_def time_fits_def text_range_small day_ns_def object_fits_def
      valid_text_def valid_rule_def)

lemma stored_records_read_back_witness:
  "scanCheckpoint (checkpoint_cells sample_saved) = Some sample_saved \<and>
   scan_tool_call (tool_call_cells sample_tool_call) = Some sample_tool_call"
  using stored_records_read_back [OF samples_fit(1) [of "''r1''"] samples_fit(2) samples_fit(3) [of "''r1''"]
    samples_fit(4) samples_fit(5) [of "''a1''" "''r1''"] samples_fit(6-8)] by simp

text \<open>
  C19. The SQL store is the store of records. For any schedule of failing statements and any
  history of fitting writes from an empty database, the SQL statements on rows give every write
  the answer the record-level store gives, leave the image of its tables, and every read, the
  spend report included, answers the same.
\<close>

theorem sql_store_refines:
  fixes fs :: "bool list"
  assumes "list_all event_fits es"
  defines "d0 \<equiv> empty_db\<lparr>db_faults := fs\<rparr>"
  defines "d \<equiv> final_state store_step d0 es" and "t \<equiv> final_state sql_step (stored d0) es"
  shows "answers sql_step (stored d0) es = answers store_step d0 es \<and> t = stored d \<and>
    snd (sql_GetRun x t) = snd (GetRun x d) \<and> snd (sql_ListRuns t) = snd (ListRuns d) \<and>
    snd (sql_ListRunsByStatus x t) = snd (ListRunsByStatus x d) \<and> snd (sql_ListSteps x t) = snd (ListSteps x d) \<and>
    snd (sql_LedgerForRun x t) = snd (LedgerForRun x d) \<and> snd (sql_Totals fsum x t) = snd (Totals fsum x d) \<and>
    snd (sql_SummarizeLedger fsum opts t) = snd (SummarizeLedger fsum opts d) \<and>
    snd (sql_ListToolCalls x t) = snd (ListToolCalls x d) \<and> snd (sql_GetApproval x t) = snd (GetApproval x d) \<and>
    snd (sql_ListApprovals x t) = snd (ListApprovals x d) \<and>
    snd (sql_LatestCheckpoint x t) = snd (LatestCheckpoint x d) \<and>
    snd (sql_ListCheckpoints x t) = snd (ListCheckpoints x d) \<and> snd (sql_GetPolicy x t) = snd (GetPolicy x d) \<and>
    snd (sql_ListPolicies t) = snd (ListPolicies d) \<and> snd (sql_GetFact x y t) = snd (GetFact x y d) \<and>
    snd (sql_ListFacts x t) = snd (ListFacts x d)"
proof -
  have "db_fits d0" by (simp add: d0_def db_fits_def empty_db_def)
  then have fits: "db_fits d" unfolding d_def using assms(1) by (rule fitting_store.run_inv)
  have t: "t = stored d" "answers sql_step (stored d0) es = answers store_step d0 es"
    using sql_run_stored [of d0 es] by (simp_all add: t_def d_def)
  show ?thesis
    unfolding t by (simp add: sql_reads_stored [OF fits] stored_result_def)
qed

lemma sql_store_refines_witness:
  "snd (sql_LatestCheckpoint ''r1'' (final_state sql_step (stored (empty_db\<lparr>db_faults := []\<rparr>))
      [SUpsertRun (sample_run ''r1''), SSaveCheckpoint sample_saved])) = Inr sample_saved"
proof -
  have "list_all event_fits [SUpsertRun (sample_run ''r1''), SSaveCheckpoint sample_saved]"
    by (simp add: samples_fit)
  then have "snd (sql_LatestCheckpoint ''r1'' (final_state sql_step (stored (empty_db\<lparr>db_faults := []\<rparr>))
        [SUpsertRun (sample_run ''r1''), SSaveCheckpoint sample_saved])) =
      snd (LatestCheckpoint ''r1'' (final_state store_step (empty_db\<lparr>db_faults := []\<rparr>)
        [SUpsertRun (sample_run ''r1''), SSaveCheckpoint sample_saved]))"
    using sql_store_refines by blast
  also have "\<dots> = Inr sample_saved"
    by (simp add: UpsertRun_def SaveCheckpoint_def LatestCheckpoint_def query_def statement_def empty_db_def
        has_run_def is_key_def checkpoints_of_def sample_saved_def sample_checkpoint_def sample_run_def real_ok_def)
  finally show ?thesis .
qed

end
