(* ===== verification/Vendors.thy ===== *)
theory Vendors
  imports Provider Http
begin

text \<open>
  The native providers over HTTP (\<open>internal/provider/openai.go\<close>, \<open>anthropic.go\<close>,
  \<open>ollama.go\<close>): what is sent for a chat request, what an answer is read as, and how a
  stream is forwarded line by line while its data lines are metered. The network and package
  json are arguments.
\<close>

section \<open>The client\<close>

text \<open>
  \<open>HC_build\<close> is the error of \<open>NewRequestWithContext\<close>, \<open>HC_do\<close> the network, \<open>HC_ctx\<close> the
  context's error once the call has failed, \<open>HC_read\<close> the error of reading a response's body.
\<close>

record http_client =
  HC_build :: "string \<Rightarrow> string option"
  HC_do :: "up_request \<Rightarrow> do_result"
  HC_ctx :: "string option"
  HC_read :: "up_response \<Rightarrow> string option"

definition set_headers :: "(string \<times> string) list \<Rightarrow> header" where
  "set_headers kvs = fold (\<lambda>(k, v) h. header_set h k v) kvs []"

text \<open>Build and send; the texts are those of the two errors that are wrapped.\<close>

definition post_request ::
    "http_client \<Rightarrow> string \<Rightarrow> string \<Rightarrow> up_request \<Rightarrow> string + up_response" where
  "post_request c building failed req =
     (case HC_build c (UQ_URL req) of
        Some e \<Rightarrow> Inl (building @ e)
      | None \<Rightarrow>
          (case HC_do c req of
             DoError e _ \<Rightarrow> Inl (case HC_ctx c of Some ce \<Rightarrow> ce | None \<Rightarrow> failed @ e)
           | Answered resp \<Rightarrow> Inr resp))"

definition TrimRightSlash :: "string \<Rightarrow> string" where
  "TrimRightSlash url = TrimRight1 (CHR ''/'') url"

definition with_base_url :: "string \<Rightarrow> string \<Rightarrow> string" where
  "with_base_url url base = (if url \<noteq> '''' then TrimRightSlash url else base)"

text \<open>An error answer: the API's own message when it can be read, else the body.\<close>

definition status_error :: "string \<Rightarrow> (string \<Rightarrow> (string \<times> string) option) \<Rightarrow> int \<Rightarrow> string \<Rightarrow> string" where
  "status_error name dec status raw =
     (case dec raw of
        Some (msg, kind) \<Rightarrow>
          if msg \<noteq> '''' then name @ '': '' @ msg @ '' ('' @ kind @ '', http '' @ FormatInt status @ '')''
          else name @ '': http '' @ FormatInt status @ '': '' @ TrimSpace raw
      | None \<Rightarrow> name @ '': http '' @ FormatInt status @ '': '' @ TrimSpace raw)"

section \<open>Streams\<close>

text \<open>
  \<open>ReadBytes\<close> with a line end: whole lines with no error, then what is left with the error the
  body ends with, \<open>EOF\<close> for the regular end.
\<close>

fun split_lines :: "string \<Rightarrow> string list \<times> string" where
  "split_lines [] = ([], [])"
| "split_lines (c # s) =
     (let (ls, rest) = split_lines s
      in if c = CHR 0x0A then ([c] # ls, rest)
         else (case ls of [] \<Rightarrow> ([], c # rest) | l # ls \<Rightarrow> ((c # l) # ls, rest)))"

definition received :: "string \<Rightarrow> string \<Rightarrow> (string \<times> string option) list" where
  "received body err = (let (ls, rest) = split_lines body in map (\<lambda>l. (l, None)) ls @ [(rest, Some err)])"

record meter_state =
  MS_usage :: token_usage
  MS_model :: string

definition no_meter :: meter_state where
  "no_meter = \<lparr>MS_usage = no_usage, MS_model = ''''\<rparr>"

text \<open>The payload of a data line, None for any other line.\<close>

definition sse_payload :: "string \<Rightarrow> string option" where
  "sse_payload line =
     (let t = TrimSpace line
      in if HasPrefix t ''data:'' then Some (TrimSpace (drop 5 t)) else None)"

text \<open>After \<open>n\<close> calls of \<open>Recv\<close>; an empty line is not looked at.\<close>

definition metered_after :: "(string \<Rightarrow> meter_state \<Rightarrow> meter_state) \<Rightarrow> string \<Rightarrow> string \<Rightarrow> nat \<Rightarrow> meter_state" where
  "metered_after sniff body err n =
     fold sniff (filter (\<lambda>l. l \<noteq> []) (map fst (take n (received body err)))) no_meter"

definition open_stream ::
    "(string \<Rightarrow> meter_state \<Rightarrow> meter_state) \<Rightarrow> string \<Rightarrow> string \<Rightarrow> chat_stream" where
  "open_stream sniff body err =
     \<lparr>CS_Recv = received body err,
      CS_Usage = (\<lambda>n. MS_usage (metered_after sniff body err n)),
      CS_Model = (\<lambda>n. MS_model (metered_after sniff body err n))\<rparr>"

text \<open>The end of a body that is streamed: the read error, or the regular end.\<close>

definition stream_end :: "http_client \<Rightarrow> up_response \<Rightarrow> string" where
  "stream_end c resp = (case HC_read c resp of None \<Rightarrow> ''EOF'' | Some e \<Rightarrow> e)"

definition error_limit :: nat where "error_limit = 2 ^ 16"

text \<open>Chat reads the whole answer, a stream only an error answer, up to a limit.\<close>

definition read_answer ::
    "http_client \<Rightarrow> string \<Rightarrow> (int \<Rightarrow> string \<Rightarrow> string) \<Rightarrow> up_response \<Rightarrow> string + string" where
  "read_answer c name on_status resp =
     (case HC_read c resp of
        Some e \<Rightarrow> Inl (name @ '': reading response: '' @ e)
      | None \<Rightarrow>
          if UP_Status resp \<noteq> 200 then Inl (on_status (UP_Status resp) (UP_Body resp))
          else Inr (UP_Body resp))"

definition open_answer ::
    "http_client \<Rightarrow> (int \<Rightarrow> string \<Rightarrow> string) \<Rightarrow> (string \<Rightarrow> meter_state \<Rightarrow> meter_state) \<Rightarrow> up_response \<Rightarrow>
     string + chat_stream" where
  "open_answer c on_status sniff resp =
     (if UP_Status resp \<noteq> 200 then Inl (on_status (UP_Status resp) (take error_limit (UP_Body resp)))
      else Inr (open_stream sniff (UP_Body resp) (stream_end c resp)))"

section \<open>OpenAI\<close>

record openai =
  OA_apiKey :: string
  OA_baseURL :: string

definition NewOpenAI :: "string \<Rightarrow> openai" where
  "NewOpenAI key = \<lparr>OA_apiKey = key, OA_baseURL = ''https://api.openai.com''\<rparr>"

definition openai_WithBaseURL :: "string \<Rightarrow> openai \<Rightarrow> openai" where
  "openai_WithBaseURL url oa = oa\<lparr>OA_baseURL := with_base_url url (OA_baseURL oa)\<rparr>"

text \<open>The request on the wire; a zero \<open>max_tokens\<close>, no temperature and no stream are left out.\<close>

record openai_req =
  OQ_Model :: string
  OQ_Messages :: "chat_message list"
  OQ_MaxTokens :: int64
  OQ_Temperature :: "float64 option"
  OQ_Stream :: bool
  OQ_IncludeUsage :: bool

record openai_resp =
  OR_ID :: string
  OR_Model :: string
  OR_Choices :: "(string \<times> string) list"
  OR_PromptTokens :: int64
  OR_CompletionTokens :: int64

text \<open>Package json: encoding (None for its error), the answer, the error body, a stream's chunk.\<close>

record openai_json =
  OJ_encode :: "openai_req \<Rightarrow> string + string"
  OJ_resp :: "string \<Rightarrow> string + openai_resp"
  OJ_error :: "string \<Rightarrow> (string \<times> string) option"
  OJ_chunk :: "string \<Rightarrow> (string \<times> token_usage option) option"

text \<open>The system prompt leads the messages.\<close>

definition leading_system :: "chat_request \<Rightarrow> chat_message list" where
  "leading_system req =
     (if CR_System req \<noteq> '''' then [\<lparr>CM_Role = RoleSystem, CM_Content = CR_System req\<rparr>] else []) @
     CR_Messages req"

definition openai_wire :: "bool \<Rightarrow> chat_request \<Rightarrow> openai_req" where
  "openai_wire stream req =
     \<lparr>OQ_Model = CR_Model req, OQ_Messages = leading_system req, OQ_MaxTokens = CR_MaxTokens req,
      OQ_Temperature = CR_Temperature req, OQ_Stream = stream, OQ_IncludeUsage = stream\<rparr>"

definition openai_request :: "openai \<Rightarrow> bool \<Rightarrow> string \<Rightarrow> up_request" where
  "openai_request oa stream body =
     \<lparr>UQ_URL = OA_baseURL oa @ ''/v1/chat/completions'',
      UQ_Header = set_headers ([(''content-type'', ''application/json''),
         (''authorization'', ''Bearer '' @ OA_apiKey oa)] @
         (if stream then [(''accept'', ''text/event-stream'')] else [])),
      UQ_Body = body\<rparr>"

definition openai_response :: "openai_resp \<Rightarrow> chat_response" where
  "openai_response out =
     (let (content, finish) = (case OR_Choices out of [] \<Rightarrow> ('''', '''') | ch # _ \<Rightarrow> ch)
      in \<lparr>RS_ID = OR_ID out, RS_Model = OR_Model out, RS_Content = content, RS_FinishReason = finish,
          RS_Usage = \<lparr>TU_PromptTokens = OR_PromptTokens out, TU_CompletionTokens = OR_CompletionTokens out\<rparr>\<rparr>)"

definition openai_Chat :: "openai_json \<Rightarrow> http_client \<Rightarrow> openai \<Rightarrow> chat_request \<Rightarrow> string + chat_response" where
  "openai_Chat j c oa req =
     (if OA_apiKey oa = '''' then Inl ''openai: missing API key''
      else (case OJ_encode j (openai_wire False req) of
          Inl e \<Rightarrow> Inl (''openai: marshaling request: '' @ e)
        | Inr body \<Rightarrow>
            (case post_request c ''openai: building request: '' ''openai: request failed: ''
                    (openai_request oa False body) of
               Inl e \<Rightarrow> Inl e
             | Inr resp \<Rightarrow>
                 (case read_answer c ''openai'' (status_error ''openai'' (OJ_error j)) resp of
                    Inl e \<Rightarrow> Inl e
                  | Inr raw \<Rightarrow>
                      (case OJ_resp j raw of
                         Inl e \<Rightarrow> Inl (''openai: decoding response: '' @ e)
                       | Inr out \<Rightarrow> Inr (openai_response out))))))"

definition openai_sniff :: "openai_json \<Rightarrow> string \<Rightarrow> meter_state \<Rightarrow> meter_state" where
  "openai_sniff j line st =
     (case sse_payload line of
        None \<Rightarrow> st
      | Some payload \<Rightarrow>
          if payload = '''' \<or> payload = ''[DONE]'' then st
          else (case OJ_chunk j payload of
              None \<Rightarrow> st
            | Some (model, usage) \<Rightarrow>
                (let st = (if model \<noteq> '''' then st\<lparr>MS_model := model\<rparr> else st)
                 in case usage of None \<Rightarrow> st | Some u \<Rightarrow> st\<lparr>MS_usage := u\<rparr>)))"

definition openai_ChatStream :: "openai_json \<Rightarrow> http_client \<Rightarrow> openai \<Rightarrow> chat_request \<Rightarrow> string + chat_stream" where
  "openai_ChatStream j c oa req =
     (if OA_apiKey oa = '''' then Inl ''openai: missing API key''
      else (case OJ_encode j (openai_wire True req) of
          Inl e \<Rightarrow> Inl (''openai: marshaling stream request: '' @ e)
        | Inr body \<Rightarrow>
            (case post_request c ''openai: building stream request: '' ''openai: stream request failed: ''
                    (openai_request oa True body) of
               Inl e \<Rightarrow> Inl e
             | Inr resp \<Rightarrow> open_answer c (status_error ''openai'' (OJ_error j)) (openai_sniff j) resp)))"

definition openai_provider :: "openai_json \<Rightarrow> http_client \<Rightarrow> openai \<Rightarrow> provider" where
  "openai_provider j c oa =
     \<lparr>PV_Name = ''openai'', PV_Chat = openai_Chat j c oa, PV_Stream = Some (openai_ChatStream j c oa)\<rparr>"

section \<open>Anthropic\<close>

record anthropic =
  AN_apiKey :: string
  AN_baseURL :: string

definition anthropicAPIVersion :: string where "anthropicAPIVersion = ''2023-06-01''"
definition defaultMaxTokens :: int64 where "defaultMaxTokens = 1024"

definition NewAnthropic :: "string \<Rightarrow> anthropic" where
  "NewAnthropic key = \<lparr>AN_apiKey = key, AN_baseURL = ''https://api.anthropic.com''\<rparr>"

definition anthropic_WithBaseURL :: "string \<Rightarrow> anthropic \<Rightarrow> anthropic" where
  "anthropic_WithBaseURL url a = a\<lparr>AN_baseURL := with_base_url url (AN_baseURL a)\<rparr>"

record anthropic_req =
  AN_Model :: string
  AN_MaxTokens :: int64
  AN_System :: string
  AN_Messages :: "chat_message list"
  AN_Temperature :: "float64 option"
  AN_Stream :: bool

record anthropic_resp =
  AP_ID :: string
  AP_Model :: string
  AP_StopReason :: string
  AP_Content :: "(string \<times> string) list"
  AP_InputTokens :: int64
  AP_OutputTokens :: int64

text \<open>A stream event: its type, the model and usage of its message, its own usage (input, output).\<close>

record anthropic_event =
  AE_Type :: string
  AE_Message :: "(string \<times> (int64 \<times> int64) option) option"
  AE_Usage :: "(int64 \<times> int64) option"

record anthropic_json =
  AJ_encode :: "anthropic_req \<Rightarrow> string + string"
  AJ_resp :: "string \<Rightarrow> string + anthropic_resp"
  AJ_error :: "string \<Rightarrow> (string \<times> string) option"
  AJ_event :: "string \<Rightarrow> anthropic_event option"

definition anthropicMaxTokens :: "chat_request \<Rightarrow> int64" where
  "anthropicMaxTokens req = (if 0 <s CR_MaxTokens req then CR_MaxTokens req else defaultMaxTokens)"

definition blank_line :: string where "blank_line = [CHR 0x0A, CHR 0x0A]"

text \<open>\<open>splitSystem\<close>: the system messages join the system prompt, the others stay.\<close>

fun split_system :: "string \<Rightarrow> chat_message list \<Rightarrow> chat_message list \<Rightarrow> string \<times> chat_message list" where
  "split_system system msgs [] = (system, msgs)"
| "split_system system msgs (m # ms) =
     (if CM_Role m = RoleSystem
      then split_system (if system = '''' then CM_Content m else system @ blank_line @ CM_Content m) msgs ms
      else split_system system (msgs @ [m]) ms)"

definition splitSystem :: "chat_request \<Rightarrow> string \<times> chat_message list" where
  "splitSystem req = split_system (CR_System req) [] (CR_Messages req)"

definition anthropic_wire :: "bool \<Rightarrow> chat_request \<Rightarrow> anthropic_req" where
  "anthropic_wire stream req =
     (let (system, msgs) = splitSystem req
      in \<lparr>AN_Model = CR_Model req, AN_MaxTokens = anthropicMaxTokens req, AN_System = system,
          AN_Messages = msgs, AN_Temperature = CR_Temperature req, AN_Stream = stream\<rparr>)"

definition anthropic_request :: "anthropic \<Rightarrow> bool \<Rightarrow> string \<Rightarrow> up_request" where
  "anthropic_request a stream body =
     \<lparr>UQ_URL = AN_baseURL a @ ''/v1/messages'',
      UQ_Header = set_headers ([(''content-type'', ''application/json''), (''x-api-key'', AN_apiKey a),
         (''anthropic-version'', anthropicAPIVersion)] @
         (if stream then [(''accept'', ''text/event-stream'')] else [])),
      UQ_Body = body\<rparr>"

definition anthropic_response :: "anthropic_resp \<Rightarrow> chat_response" where
  "anthropic_response out =
     \<lparr>RS_ID = AP_ID out, RS_Model = AP_Model out,
      RS_Content = concat (map snd (filter (\<lambda>(t, _). t = ''text'') (AP_Content out))),
      RS_FinishReason = AP_StopReason out,
      RS_Usage = \<lparr>TU_PromptTokens = AP_InputTokens out, TU_CompletionTokens = AP_OutputTokens out\<rparr>\<rparr>"

definition anthropic_Chat :: "anthropic_json \<Rightarrow> http_client \<Rightarrow> anthropic \<Rightarrow> chat_request \<Rightarrow> string + chat_response" where
  "anthropic_Chat j c a req =
     (if AN_apiKey a = '''' then Inl ''anthropic: missing API key''
      else (case AJ_encode j (anthropic_wire False req) of
          Inl e \<Rightarrow> Inl (''anthropic: marshaling request: '' @ e)
        | Inr body \<Rightarrow>
            (case post_request c ''anthropic: building request: '' ''anthropic: request failed: ''
                    (anthropic_request a False body) of
               Inl e \<Rightarrow> Inl e
             | Inr resp \<Rightarrow>
                 (case read_answer c ''anthropic'' (status_error ''anthropic'' (AJ_error j)) resp of
                    Inl e \<Rightarrow> Inl e
                  | Inr raw \<Rightarrow>
                      (case AJ_resp j raw of
                         Inl e \<Rightarrow> Inl (''anthropic: decoding response: '' @ e)
                       | Inr out \<Rightarrow> Inr (anthropic_response out))))))"

definition anthropic_event_meter :: "anthropic_event \<Rightarrow> meter_state \<Rightarrow> meter_state" where
  "anthropic_event_meter ev st =
     (if AE_Type ev = ''message_start'' then
        (case AE_Message ev of
           None \<Rightarrow> st
         | Some (model, usage) \<Rightarrow>
             (let st = (if model \<noteq> '''' then st\<lparr>MS_model := model\<rparr> else st)
              in case usage of
                   None \<Rightarrow> st
                 | Some (i, out) \<Rightarrow> st\<lparr>MS_usage := \<lparr>TU_PromptTokens = i, TU_CompletionTokens = out\<rparr>\<rparr>))
      else if AE_Type ev = ''message_delta'' then
        (case AE_Usage ev of
           None \<Rightarrow> st
         | Some (i, out) \<Rightarrow>
             (let u = MS_usage st;
                  u = (if 0 <s out then u\<lparr>TU_CompletionTokens := out\<rparr> else u);
                  u = (if 0 <s i then u\<lparr>TU_PromptTokens := i\<rparr> else u)
              in st\<lparr>MS_usage := u\<rparr>))
      else st)"

definition anthropic_sniff :: "anthropic_json \<Rightarrow> string \<Rightarrow> meter_state \<Rightarrow> meter_state" where
  "anthropic_sniff j line st =
     (case sse_payload line of
        None \<Rightarrow> st
      | Some payload \<Rightarrow>
          if payload = '''' then st
          else (case AJ_event j payload of None \<Rightarrow> st | Some ev \<Rightarrow> anthropic_event_meter ev st))"

definition anthropic_ChatStream ::
    "anthropic_json \<Rightarrow> http_client \<Rightarrow> anthropic \<Rightarrow> chat_request \<Rightarrow> string + chat_stream" where
  "anthropic_ChatStream j c a req =
     (if AN_apiKey a = '''' then Inl ''anthropic: missing API key''
      else (case AJ_encode j (anthropic_wire True req) of
          Inl e \<Rightarrow> Inl (''anthropic: marshaling stream request: '' @ e)
        | Inr body \<Rightarrow>
            (case post_request c ''anthropic: building stream request: '' ''anthropic: stream request failed: ''
                    (anthropic_request a True body) of
               Inl e \<Rightarrow> Inl e
             | Inr resp \<Rightarrow> open_answer c (status_error ''anthropic'' (AJ_error j)) (anthropic_sniff j) resp)))"

definition anthropic_provider :: "anthropic_json \<Rightarrow> http_client \<Rightarrow> anthropic \<Rightarrow> provider" where
  "anthropic_provider j c a =
     \<lparr>PV_Name = ''anthropic'', PV_Chat = anthropic_Chat j c a, PV_Stream = Some (anthropic_ChatStream j c a)\<rparr>"

section \<open>Ollama\<close>

definition defaultOllamaBaseURL :: string where "defaultOllamaBaseURL = ''http://localhost:11434''"

record ollama = OL_baseURL :: string

definition NewOllama :: "string \<Rightarrow> ollama" where
  "NewOllama base = \<lparr>OL_baseURL = TrimRightSlash (if base = '''' then defaultOllamaBaseURL else base)\<rparr>"

definition ollama_WithBaseURL :: "string \<Rightarrow> ollama \<Rightarrow> ollama" where
  "ollama_WithBaseURL url p = p\<lparr>OL_baseURL := with_base_url url (OL_baseURL p)\<rparr>"

record ollama_req =
  LQ_Model :: string
  LQ_Messages :: "chat_message list"
  LQ_Stream :: bool
  LQ_Options :: "(int64 \<times> float64 option) option"

record ollama_resp =
  LR_Model :: string
  LR_Content :: string
  LR_DoneReason :: string
  LR_PromptEvalCount :: int64
  LR_EvalCount :: int64
  LR_Error :: string

record ollama_json =
  LJ_encode :: "ollama_req \<Rightarrow> string + string"
  LJ_resp :: "string \<Rightarrow> string + ollama_resp"

definition ollama_wire :: "chat_request \<Rightarrow> ollama_req" where
  "ollama_wire req =
     \<lparr>LQ_Model = CR_Model req, LQ_Messages = leading_system req, LQ_Stream = False,
      LQ_Options = (if 0 <s CR_MaxTokens req \<or> CR_Temperature req \<noteq> None
                    then Some (CR_MaxTokens req, CR_Temperature req) else None)\<rparr>"

definition ollama_status_error :: "ollama_json \<Rightarrow> int \<Rightarrow> string \<Rightarrow> string" where
  "ollama_status_error j status raw =
     (case LJ_resp j raw of
        Inr out \<Rightarrow>
          if LR_Error out \<noteq> '''' then ''ollama: '' @ LR_Error out @ '' (http '' @ FormatInt status @ '')''
          else ''ollama: http '' @ FormatInt status @ '': '' @ TrimSpace raw
      | Inl _ \<Rightarrow> ''ollama: http '' @ FormatInt status @ '': '' @ TrimSpace raw)"

definition ollama_response :: "ollama_resp \<Rightarrow> chat_response" where
  "ollama_response out =
     \<lparr>RS_ID = '''', RS_Model = LR_Model out, RS_Content = LR_Content out, RS_FinishReason = LR_DoneReason out,
      RS_Usage = \<lparr>TU_PromptTokens = LR_PromptEvalCount out, TU_CompletionTokens = LR_EvalCount out\<rparr>\<rparr>"

definition ollama_Chat :: "ollama_json \<Rightarrow> http_client \<Rightarrow> ollama \<Rightarrow> chat_request \<Rightarrow> string + chat_response" where
  "ollama_Chat j c p req =
     (case LJ_encode j (ollama_wire req) of
        Inl e \<Rightarrow> Inl (''ollama: marshaling request: '' @ e)
      | Inr body \<Rightarrow>
          (case post_request c ''ollama: building request: ''
                  (''ollama: request failed (is ollama running at '' @ OL_baseURL p @ ''?): '')
                  \<lparr>UQ_URL = OL_baseURL p @ ''/api/chat'',
                   UQ_Header = set_headers [(''content-type'', ''application/json'')], UQ_Body = body\<rparr> of
             Inl e \<Rightarrow> Inl e
           | Inr resp \<Rightarrow>
               (case read_answer c ''ollama'' (ollama_status_error j) resp of
                  Inl e \<Rightarrow> Inl e
                | Inr raw \<Rightarrow>
                    (case LJ_resp j raw of
                       Inl e \<Rightarrow> Inl (''ollama: decoding response: '' @ e)
                     | Inr out \<Rightarrow>
                         if LR_Error out \<noteq> '''' then Inl (''ollama: '' @ LR_Error out)
                         else Inr (ollama_response out)))))"

definition ollama_provider :: "ollama_json \<Rightarrow> http_client \<Rightarrow> ollama \<Rightarrow> provider" where
  "ollama_provider j c p = \<lparr>PV_Name = ''ollama'', PV_Chat = ollama_Chat j c p, PV_Stream = None\<rparr>"

end
