(* ===== verification/Bedrock.thy ===== *)
theory Bedrock
  imports Vendors Identifiers Url Strconv
begin

text \<open>
  The Bedrock provider (\<open>internal/provider/bedrock.go\<close>) and its AWS Signature Version 4
  (\<open>sigv4.go\<close>): the canonical request, the string to sign, the derived key and the header.
  SHA-256, HMAC, package json, \<open>url.Parse\<close> and the network are arguments; a byte slice is a
  list of bytes, a Go string the list of its bytes as characters.
\<close>

section \<open>Signature Version 4\<close>

record aws_creds =
  AC_accessKey :: string
  AC_secretKey :: string
  AC_sessionToken :: string

record crypto =
  CY_sha256 :: "string \<Rightarrow> byte list"
  CY_hmac :: "byte list \<Rightarrow> string \<Rightarrow> byte list"

definition text_bytes :: "string \<Rightarrow> byte list" where "text_bytes s = map of_char s"

definition hexSHA256 :: "crypto \<Rightarrow> string \<Rightarrow> string" where
  "hexSHA256 cy b = hexEncode (CY_sha256 cy b)"

text \<open>\<open>awsURIEncodeSegment\<close>: every byte outside the unreserved set becomes an escape.\<close>

definition unreserved :: "char \<Rightarrow> bool" where
  "unreserved c = (let n = of_char c :: nat in
     65 \<le> n \<and> n \<le> 90 \<or> 97 \<le> n \<and> n \<le> 122 \<or> 48 \<le> n \<and> n \<le> 57 \<or>
     c = CHR ''-'' \<or> c = CHR ''_'' \<or> c = CHR ''.'' \<or> c = CHR ''~'')"

definition upper_hex :: "nat \<Rightarrow> char" where
  "upper_hex n = (if n < 10 then char_of (48 + n) else char_of (55 + n))"

definition percent :: "char \<Rightarrow> string" where
  "percent c = (let n = of_char c in [CHR ''%'', upper_hex (n div 16), upper_hex (n mod 16)])"

definition awsURIEncodeSegment :: "string \<Rightarrow> string" where
  "awsURIEncodeSegment s = concat (map (\<lambda>c. if unreserved c then [c] else percent c) s)"

text \<open>A parsed endpoint: what stands before the host, the host, the raw query.\<close>

record endpoint_url =
  EU_Scheme :: string
  EU_Host :: string
  EU_RawQuery :: string

text \<open>\<open>20060102\<close> and \<open>20060102T150405Z\<close> of a time in UTC.\<close>

definition dateStamp :: "time \<Rightarrow> string" where
  "dateStamp t = (let (y, m, d) = civil (t div 86400000000000) in pad 4 y @ pad 2 m @ pad 2 d)"

definition amzDate :: "time \<Rightarrow> string" where
  "amzDate t =
     (let s = (t mod 86400000000000) div 1000000000
      in dateStamp t @ ''T'' @ pad 2 (s div 3600) @ pad 2 (s div 60 mod 60) @ pad 2 (s mod 60) @ ''Z'')"

fun join :: "string \<Rightarrow> string list \<Rightarrow> string" where
  "join sep [] = ''''"
| "join sep [s] = s"
| "join sep (s # t # ss) = s @ sep @ join sep (t # ss)"

definition line_end :: string where "line_end = [CHR 0x0A]"

text \<open>The signed headers, by their lower-case names in order.\<close>

definition signed_headers :: "aws_creds \<Rightarrow> string \<Rightarrow> string \<Rightarrow> time \<Rightarrow> (string \<times> string) list" where
  "signed_headers c host contentType t =
     (if contentType \<noteq> '''' then [(''content-type'', contentType)] else []) @
     [(''host'', host), (''x-amz-date'', amzDate t)] @
     (if AC_sessionToken c \<noteq> '''' then [(''x-amz-security-token'', AC_sessionToken c)] else [])"

definition canonical_request ::
    "crypto \<Rightarrow> string \<Rightarrow> string \<Rightarrow> string \<Rightarrow> (string \<times> string) list \<Rightarrow> string \<Rightarrow> string" where
  "canonical_request cy verb path rawQuery hs body =
     join line_end [verb, (if path = '''' then ''/'' else path), rawQuery,
       concat (map (\<lambda>(n, v). n @ '':'' @ TrimSpace v @ line_end) hs),
       join '';'' (map fst hs), hexSHA256 cy body]"

definition credential_scope :: "string \<Rightarrow> string \<Rightarrow> time \<Rightarrow> string" where
  "credential_scope region service t = dateStamp t @ ''/'' @ region @ ''/'' @ service @ ''/aws4_request''"

definition string_to_sign :: "crypto \<Rightarrow> string \<Rightarrow> string \<Rightarrow> time \<Rightarrow> string \<Rightarrow> string" where
  "string_to_sign cy region service t request =
     join line_end [''AWS4-HMAC-SHA256'', amzDate t, credential_scope region service t, hexSHA256 cy request]"

definition signing_key :: "crypto \<Rightarrow> aws_creds \<Rightarrow> string \<Rightarrow> string \<Rightarrow> time \<Rightarrow> byte list" where
  "signing_key cy c region service t =
     (let kDate = CY_hmac cy (text_bytes (''AWS4'' @ AC_secretKey c)) (dateStamp t);
          kRegion = CY_hmac cy kDate region;
          kService = CY_hmac cy kRegion service
      in CY_hmac cy kService ''aws4_request'')"

text \<open>\<open>signV4\<close>: the headers of the request with its date, its token and its signature.\<close>

definition signV4 ::
    "crypto \<Rightarrow> string \<Rightarrow> string \<Rightarrow> string \<Rightarrow> string \<Rightarrow> header \<Rightarrow> string \<Rightarrow> aws_creds \<Rightarrow> string \<Rightarrow> string \<Rightarrow>
     time \<Rightarrow> header" where
  "signV4 cy verb host path rawQuery h body c region service t =
     (let h = header_set h ''X-Amz-Date'' (amzDate t);
          h = (if AC_sessionToken c \<noteq> '''' then header_set h ''X-Amz-Security-Token'' (AC_sessionToken c) else h);
          hs = signed_headers c host (header_get h ''Content-Type'') t;
          request = canonical_request cy verb path rawQuery hs body;
          signature = hexEncode (CY_hmac cy (signing_key cy c region service t)
                        (string_to_sign cy region service t request))
      in header_set h ''Authorization'' (''AWS4-HMAC-SHA256 Credential='' @ AC_accessKey c @ ''/'' @
           credential_scope region service t @ '', SignedHeaders='' @ join '';'' (map fst hs) @
           '', Signature='' @ signature))"

section \<open>The Converse API\<close>

record bedrock =
  BR_creds :: aws_creds
  BR_region :: string
  BR_baseURL :: string

definition defaultBedrockMaxTokens :: int64 where "defaultBedrockMaxTokens = 1024"

definition NewBedrock :: "string \<Rightarrow> string \<Rightarrow> string \<Rightarrow> string \<Rightarrow> bedrock" where
  "NewBedrock accessKey secretKey sessionToken region =
     \<lparr>BR_creds = \<lparr>AC_accessKey = accessKey, AC_secretKey = secretKey, AC_sessionToken = sessionToken\<rparr>,
      BR_region = region, BR_baseURL = ''''\<rparr>"

definition bedrock_WithBaseURL :: "string \<Rightarrow> bedrock \<Rightarrow> bedrock" where
  "bedrock_WithBaseURL url b = b\<lparr>BR_baseURL := with_base_url url (BR_baseURL b)\<rparr>"

definition bedrock_endpoint :: "bedrock \<Rightarrow> string" where
  "bedrock_endpoint b =
     (if BR_baseURL b \<noteq> '''' then BR_baseURL b
      else ''https://bedrock-runtime.'' @ BR_region b @ ''.amazonaws.com'')"

text \<open>A message is its role and its one text block; the system prompt is a list of blocks.\<close>

record bedrock_req =
  BQ_Messages :: "chat_message list"
  BQ_System :: "string list"
  BQ_MaxTokens :: int64
  BQ_Temperature :: "float64 option"

record bedrock_resp =
  BP_Content :: "string list"
  BP_StopReason :: string
  BP_InputTokens :: int64
  BP_OutputTokens :: int64

record bedrock_world =
  BJ_encode :: "bedrock_req \<Rightarrow> string + string"
  BJ_resp :: "string \<Rightarrow> string + bedrock_resp"
  BJ_error :: "string \<Rightarrow> string option"
  BJ_parse :: "string \<Rightarrow> string + endpoint_url"
  BJ_crypto :: crypto
  BJ_now :: time

definition bedrock_wire :: "chat_request \<Rightarrow> bedrock_req" where
  "bedrock_wire req =
     \<lparr>BQ_Messages = filter (\<lambda>m. CM_Role m \<noteq> RoleSystem) (CR_Messages req),
      BQ_System = (if CR_System req \<noteq> '''' then [CR_System req] else []) @
        map CM_Content (filter (\<lambda>m. CM_Role m = RoleSystem) (CR_Messages req)),
      BQ_MaxTokens = (if CR_MaxTokens req \<le>s 0 then defaultBedrockMaxTokens else CR_MaxTokens req),
      BQ_Temperature = CR_Temperature req\<rparr>"

text \<open>
  The path is replaced, whatever the endpoint's was. The escaped path is a valid encoding of
  the path, so \<open>EscapedPath\<close> is it.
\<close>

definition converse_path :: "string \<Rightarrow> string" where
  "converse_path model = ''/model/'' @ awsURIEncodeSegment model @ ''/converse''"

definition bedrock_request ::
    "bedrock_world \<Rightarrow> bedrock \<Rightarrow> endpoint_url \<Rightarrow> string \<Rightarrow> string \<Rightarrow> up_request" where
  "bedrock_request w b u model body =
     \<lparr>UQ_URL = EU_Scheme u @ ''://'' @ EU_Host u @ converse_path model @
        (if EU_RawQuery u = '''' then '''' else ''?'' @ EU_RawQuery u),
      UQ_Header = signV4 (BJ_crypto w) ''POST'' (EU_Host u) (converse_path model) (EU_RawQuery u)
        (set_headers [(''content-type'', ''application/json'')]) body (BR_creds b) (BR_region b) ''bedrock'' (BJ_now w),
      UQ_Body = body\<rparr>"

definition bedrock_status_error :: "bedrock_world \<Rightarrow> int \<Rightarrow> string \<Rightarrow> string" where
  "bedrock_status_error w status raw =
     (case BJ_error w raw of
        Some msg \<Rightarrow>
          if msg \<noteq> '''' then ''bedrock: '' @ msg @ '' (http '' @ FormatInt status @ '')''
          else ''bedrock: http '' @ FormatInt status @ '': '' @ TrimSpace raw
      | None \<Rightarrow> ''bedrock: http '' @ FormatInt status @ '': '' @ TrimSpace raw)"

definition bedrock_response :: "string \<Rightarrow> string \<Rightarrow> bedrock_resp \<Rightarrow> chat_response" where
  "bedrock_response requestID model out =
     \<lparr>RS_ID = requestID, RS_Model = model, RS_Content = concat (BP_Content out),
      RS_FinishReason = BP_StopReason out,
      RS_Usage = \<lparr>TU_PromptTokens = BP_InputTokens out, TU_CompletionTokens = BP_OutputTokens out\<rparr>\<rparr>"

text \<open>\<open>HC_build\<close> is asked about the endpoint: the URL is put in afterwards.\<close>

definition bedrock_send :: "bedrock_world \<Rightarrow> http_client \<Rightarrow> bedrock \<Rightarrow> chat_request \<Rightarrow> string \<Rightarrow> string + up_response" where
  "bedrock_send w c b req body =
     (case BJ_parse w (bedrock_endpoint b) of
        Inl e \<Rightarrow> Inl (''bedrock: bad endpoint '' @ quoted (bedrock_endpoint b) @ '': '' @ e)
      | Inr u \<Rightarrow>
          (case HC_build c (bedrock_endpoint b) of
             Some e \<Rightarrow> Inl (''bedrock: building request: '' @ e)
           | None \<Rightarrow>
               (case HC_do c (bedrock_request w b u (CR_Model req) body) of
                  DoError e _ \<Rightarrow> Inl (case HC_ctx c of Some ce \<Rightarrow> ce | None \<Rightarrow> ''bedrock: request failed: '' @ e)
                | Answered resp \<Rightarrow> Inr resp)))"

definition bedrock_Chat :: "bedrock_world \<Rightarrow> http_client \<Rightarrow> bedrock \<Rightarrow> chat_request \<Rightarrow> string + chat_response" where
  "bedrock_Chat w c b req =
     (if AC_accessKey (BR_creds b) = '''' \<or> AC_secretKey (BR_creds b) = ''''
      then Inl ''bedrock: missing AWS credentials (set AWS_ACCESS_KEY_ID and AWS_SECRET_ACCESS_KEY)''
      else if BR_region b = '''' then Inl ''bedrock: missing AWS region (set AWS_REGION)''
      else (case BJ_encode w (bedrock_wire req) of
          Inl e \<Rightarrow> Inl (''bedrock: marshaling request: '' @ e)
        | Inr body \<Rightarrow>
            (case bedrock_send w c b req body of
               Inl e \<Rightarrow> Inl e
             | Inr resp \<Rightarrow>
                 (case read_answer c ''bedrock'' (bedrock_status_error w) resp of
                    Inl e \<Rightarrow> Inl e
                  | Inr raw \<Rightarrow>
                      (case BJ_resp w raw of
                         Inl e \<Rightarrow> Inl (''bedrock: decoding response: '' @ e)
                       | Inr out \<Rightarrow>
                           Inr (bedrock_response (header_get (UP_Header resp) ''x-amzn-RequestId'')
                                  (CR_Model req) out))))))"

definition bedrock_provider :: "bedrock_world \<Rightarrow> http_client \<Rightarrow> bedrock \<Rightarrow> provider" where
  "bedrock_provider w c b = \<lparr>PV_Name = ''bedrock'', PV_Chat = bedrock_Chat w c b, PV_Stream = None\<rparr>"

end
