(* ===== verification/VendorsLaws.thy ===== *)
theory VendorsLaws
  imports Bedrock
begin

text \<open>
  What the providers keep: the four wire formats carry the same conversation, a stream is
  forwarded as it came while its last usage report is what is metered, and the path that is
  signed for Bedrock is the path of the model.
\<close>

section \<open>Requests\<close>

lemma split_system_msgs:
  "snd (split_system s ms xs) = ms @ filter (\<lambda>m. CM_Role m \<noteq> RoleSystem) xs"
  by (induction xs arbitrary: s ms) auto

text \<open>The system prompt: the non-empty beginning and every system message, blank lines in between.\<close>

fun joined :: "string \<Rightarrow> string list \<Rightarrow> string" where
  "joined s [] = s"
| "joined s (t # ts) = joined (if s = '''' then t else s @ blank_line @ t) ts"

lemma split_system_text:
  "fst (split_system s ms xs) = joined s (map CM_Content (filter (\<lambda>m. CM_Role m = RoleSystem) xs))"
  by (induction xs arbitrary: s ms) auto

definition turns :: "chat_message list \<Rightarrow> chat_message list" where
  "turns ms = filter (\<lambda>m. CM_Role m \<noteq> RoleSystem) ms"

definition system_texts :: "chat_message list \<Rightarrow> string list" where
  "system_texts ms = map CM_Content (filter (\<lambda>m. CM_Role m = RoleSystem) ms)"

text \<open>
  C36. The four providers are asked the same question. Whatever request the gateway routes,
  the turns of the conversation reach every vendor, in order and unchanged, and so does every
  system text: as leading and interspersed system messages for OpenAI and Ollama, as the
  blocks of the system field for Bedrock, joined by blank lines for Anthropic.
\<close>

theorem vendors_get_the_same_conversation:
  "turns (OQ_Messages (openai_wire b req)) = turns (CR_Messages req) \<and>
   turns (LQ_Messages (ollama_wire req)) = turns (CR_Messages req) \<and>
   AN_Messages (anthropic_wire b req) = turns (CR_Messages req) \<and>
   BQ_Messages (bedrock_wire req) = turns (CR_Messages req) \<and>
   system_texts (OQ_Messages (openai_wire b req)) = BQ_System (bedrock_wire req) \<and>
   system_texts (LQ_Messages (ollama_wire req)) = BQ_System (bedrock_wire req) \<and>
   AN_System (anthropic_wire b req) = joined '''' (BQ_System (bedrock_wire req))"
  by (simp add: openai_wire_def ollama_wire_def anthropic_wire_def bedrock_wire_def leading_system_def
      turns_def system_texts_def splitSystem_def split_system_msgs split_system_text case_prod_beta)

section \<open>Streams\<close>

lemma split_lines_concat: "concat (fst (split_lines s)) @ snd (split_lines s) = s"
proof (induction s)
  case (Cons c s)
  then show ?case
    by (cases "fst (split_lines s)") (simp_all add: case_prod_beta Let_def)
qed simp

lemma received_concat: "concat (map fst (received body err)) = body"
  using split_lines_concat [of body] by (simp add: received_def case_prod_beta Let_def comp_def)

text \<open>The usage reports among the data lines of a stream, in order.\<close>

definition usage_report :: "openai_json \<Rightarrow> string \<Rightarrow> token_usage option" where
  "usage_report j line =
     (case sse_payload line of
        None \<Rightarrow> None
      | Some payload \<Rightarrow>
          if payload = '''' \<or> payload = ''[DONE]'' then None
          else (case OJ_chunk j payload of None \<Rightarrow> None | Some (_, u) \<Rightarrow> u))"

lemma sniff_usage:
  "MS_usage (openai_sniff j line st) = (case usage_report j line of None \<Rightarrow> MS_usage st | Some u \<Rightarrow> u)"
  by (auto simp: openai_sniff_def usage_report_def Let_def split: option.splits)

lemma fold_sniff_usage:
  "MS_usage (fold (openai_sniff j) ls st) = last (MS_usage st # List.map_filter (usage_report j) ls)"
proof (induction ls arbitrary: st)
  case Nil
  then show ?case by (simp add: map_filter_simps)
next
  case (Cons l ls)
  then show ?case
    by (cases "usage_report j l") (simp_all add: map_filter_simps sniff_usage)
qed

text \<open>
  Anthropic counts in two events: the message's start sets both numbers, a delta overwrites
  those it carries that are positive.
\<close>

definition anthropic_report :: "anthropic_json \<Rightarrow> string \<Rightarrow> anthropic_event option" where
  "anthropic_report j line =
     (case sse_payload line of
        None \<Rightarrow> None
      | Some payload \<Rightarrow> if payload = '''' then None else AJ_event j payload)"

definition reported_count :: "(int64 \<times> int64 \<Rightarrow> int64) \<Rightarrow> anthropic_event \<Rightarrow> int64 option" where
  "reported_count pick ev =
     (if AE_Type ev = ''message_start''
      then (case AE_Message ev of Some (_, Some u) \<Rightarrow> Some (pick u) | _ \<Rightarrow> None)
      else if AE_Type ev = ''message_delta''
      then (case AE_Usage ev of Some u \<Rightarrow> if 0 < sint (pick u) then Some (pick u) else None | None \<Rightarrow> None)
      else None)"

definition count_report :: "anthropic_json \<Rightarrow> (int64 \<times> int64 \<Rightarrow> int64) \<Rightarrow> string \<Rightarrow> int64 option" where
  "count_report j pick line = Option.bind (anthropic_report j line) (reported_count pick)"

lemma event_meter_usage:
  "MS_usage (anthropic_event_meter ev st) =
     \<lparr>TU_PromptTokens = (case reported_count fst ev of None \<Rightarrow> TU_PromptTokens (MS_usage st) | Some n \<Rightarrow> n),
      TU_CompletionTokens = (case reported_count snd ev of None \<Rightarrow> TU_CompletionTokens (MS_usage st) | Some n \<Rightarrow> n)\<rparr>"
proof (cases "AE_Type ev = ''message_start''")
  case True
  then show ?thesis
    by (cases "AE_Message ev") (simp_all add: anthropic_event_meter_def reported_count_def Let_def case_prod_beta split: option.split)
next
  case False
  then show ?thesis
    by (cases "AE_Usage ev")
      (simp_all add: anthropic_event_meter_def reported_count_def Let_def case_prod_beta word_sless_alt)
qed

lemma anthropic_sniff_usage:
  "MS_usage (anthropic_sniff j line st) =
     \<lparr>TU_PromptTokens = (case count_report j fst line of None \<Rightarrow> TU_PromptTokens (MS_usage st) | Some n \<Rightarrow> n),
      TU_CompletionTokens = (case count_report j snd line of None \<Rightarrow> TU_CompletionTokens (MS_usage st) | Some n \<Rightarrow> n)\<rparr>"
proof (cases "anthropic_report j line")
  case None
  then have "anthropic_sniff j line st = st"
    by (simp add: anthropic_sniff_def anthropic_report_def split: option.splits if_splits)
  with None show ?thesis by (simp add: count_report_def)
next
  case (Some ev)
  then have "anthropic_sniff j line st = anthropic_event_meter ev st"
    by (auto simp: anthropic_sniff_def anthropic_report_def split: option.splits if_splits)
  with Some show ?thesis by (simp add: count_report_def event_meter_usage)
qed

lemma fold_anthropic_usage:
  "MS_usage (fold (anthropic_sniff j) ls st) =
     \<lparr>TU_PromptTokens = last (TU_PromptTokens (MS_usage st) # List.map_filter (count_report j fst) ls),
      TU_CompletionTokens = last (TU_CompletionTokens (MS_usage st) # List.map_filter (count_report j snd) ls)\<rparr>"
proof (induction ls arbitrary: st)
  case Nil
  then show ?case by (simp add: map_filter_simps)
next
  case (Cons l ls)
  then show ?case
    by (cases "count_report j fst l"; cases "count_report j snd l") (simp_all add: map_filter_simps anthropic_sniff_usage)
qed

text \<open>
  What it is to forward an answer: the pieces are together its body, and exactly the last
  comes with an error. The lines among the first \<open>n\<close> pieces are what has been metered by then.
\<close>

definition forwards :: "chat_stream \<Rightarrow> up_response \<Rightarrow> bool" where
  "forwards st resp \<longleftrightarrow> CS_Recv st \<noteq> [] \<and> concat (map fst (CS_Recv st)) = UP_Body resp \<and>
     list_all (\<lambda>(_, e). e = None) (butlast (CS_Recv st)) \<and> snd (last (CS_Recv st)) \<noteq> None"

definition lines_of :: "nat \<Rightarrow> chat_stream \<Rightarrow> string list" where
  "lines_of n st = filter (\<lambda>l. l \<noteq> []) (map fst (take n (CS_Recv st)))"

lemma open_stream_forwards: "forwards (open_stream sniff (UP_Body resp) err) resp"
  by (simp add: forwards_def open_stream_def received_concat) (simp add: received_def case_prod_beta Let_def list_all_iff)

lemma open_stream_usage:
  "CS_Usage (open_stream sniff body err) n = MS_usage (fold sniff (lines_of n (open_stream sniff body err)) no_meter)"
  by (simp add: open_stream_def lines_of_def metered_after_def)

text \<open>
  C37. A stream is forwarded as it came, and what it reports is metered, for both providers
  that can stream. When OpenAI or Anthropic opens a stream, its answer had the status 200, the
  pieces handed on to the client are together exactly the bytes of the answer's body, and only
  the last piece comes with an error. However many pieces have been read when the stream is cut,
  the usage accounted is what those pieces report: for OpenAI the last usage block of a data
  line, for Anthropic the last count of each kind, of the message's start or a positive one of
  a delta; nothing without a report.
\<close>

theorem stream_forwarded_and_metered:
  "(\<forall>st. openai_ChatStream j c oa req = Inr st \<longrightarrow>
      (\<exists>body resp. OJ_encode j (openai_wire True req) = Inr body \<and>
        HC_do c (openai_request oa True body) = Answered resp \<and> UP_Status resp = 200 \<and> forwards st resp \<and>
        (\<forall>n. CS_Usage st n = last (no_usage # List.map_filter (usage_report j) (lines_of n st))))) \<and>
   (\<forall>st. anthropic_ChatStream ja c an req = Inr st \<longrightarrow>
      (\<exists>body resp. AJ_encode ja (anthropic_wire True req) = Inr body \<and>
        HC_do c (anthropic_request an True body) = Answered resp \<and> UP_Status resp = 200 \<and> forwards st resp \<and>
        (\<forall>n. CS_Usage st n =
          \<lparr>TU_PromptTokens = last (0 # List.map_filter (count_report ja fst) (lines_of n st)),
           TU_CompletionTokens = last (0 # List.map_filter (count_report ja snd) (lines_of n st))\<rparr>)))"
proof (intro conjI allI impI)
  fix st assume "openai_ChatStream j c oa req = Inr st"
  then obtain body resp where b: "OJ_encode j (openai_wire True req) = Inr body"
    "HC_do c (openai_request oa True body) = Answered resp" "UP_Status resp = 200"
    and st: "st = open_stream (openai_sniff j) (UP_Body resp) (stream_end c resp)"
    by (auto simp: openai_ChatStream_def post_request_def open_answer_def
        split: if_splits sum.splits option.splits do_result.splits)
  show "\<exists>body resp. OJ_encode j (openai_wire True req) = Inr body \<and>
        HC_do c (openai_request oa True body) = Answered resp \<and> UP_Status resp = 200 \<and> forwards st resp \<and>
        (\<forall>n. CS_Usage st n = last (no_usage # List.map_filter (usage_report j) (lines_of n st)))"
    using b by (auto simp: st open_stream_forwards open_stream_usage fold_sniff_usage no_meter_def)
next
  fix st assume "anthropic_ChatStream ja c an req = Inr st"
  then obtain body resp where b: "AJ_encode ja (anthropic_wire True req) = Inr body"
    "HC_do c (anthropic_request an True body) = Answered resp" "UP_Status resp = 200"
    and st: "st = open_stream (anthropic_sniff ja) (UP_Body resp) (stream_end c resp)"
    by (auto simp: anthropic_ChatStream_def post_request_def open_answer_def
        split: if_splits sum.splits option.splits do_result.splits)
  show "\<exists>body resp. AJ_encode ja (anthropic_wire True req) = Inr body \<and>
        HC_do c (anthropic_request an True body) = Answered resp \<and> UP_Status resp = 200 \<and> forwards st resp \<and>
        (\<forall>n. CS_Usage st n =
          \<lparr>TU_PromptTokens = last (0 # List.map_filter (count_report ja fst) (lines_of n st)),
           TU_CompletionTokens = last (0 # List.map_filter (count_report ja snd) (lines_of n st))\<rparr>)"
    using b by (auto simp: st open_stream_forwards open_stream_usage fold_anthropic_usage no_meter_def no_usage_def)
qed

definition stream_json :: openai_json where
  "stream_json =
     \<lparr>OJ_encode = (\<lambda>_. Inr ''{}''), OJ_resp = (\<lambda>_. Inl ''''), OJ_error = (\<lambda>_. None),
      OJ_chunk = (\<lambda>p. if p = ''{u}'' then Some ('''', Some \<lparr>TU_PromptTokens = 3, TU_CompletionTokens = 4\<rparr>) else None)\<rparr>"

definition stream_client :: http_client where
  "stream_client =
     \<lparr>HC_build = (\<lambda>_. None),
      HC_do = (\<lambda>_. Answered \<lparr>UP_Status = 200, UP_Header = [], UP_Body = ''data: {u}'' @ [CHR 0x0A] @ ''data: [DONE]''\<rparr>),
      HC_ctx = None, HC_read = (\<lambda>_. None)\<rparr>"

definition one_turn :: chat_request where
  "one_turn = \<lparr>CR_Model = ''gpt-4o'', CR_System = '''', CR_Messages = [\<lparr>CM_Role = RoleUser, CM_Content = ''hi''\<rparr>],
     CR_MaxTokens = 0, CR_Temperature = None\<rparr>"

lemma stream_opens:
  "openai_ChatStream stream_json stream_client (NewOpenAI ''k'') one_turn =
     Inr (open_stream (openai_sniff stream_json) (''data: {u}'' @ [CHR 0x0A] @ ''data: [DONE]'') ''EOF'')"
  by (simp add: openai_ChatStream_def NewOpenAI_def stream_json_def stream_client_def post_request_def open_answer_def
      stream_end_def)

text \<open>A stream of Anthropic's: a start that reports both counts, a delta that reports the final output.\<close>

definition event_stream :: string where
  "event_stream = ''data: {s}'' @ [CHR 0x0A] @ ''data: {d}'' @ [CHR 0x0A]"

definition event_json :: anthropic_json where
  "event_json =
     \<lparr>AJ_encode = (\<lambda>_. Inr ''{}''), AJ_resp = (\<lambda>_. Inl ''''), AJ_error = (\<lambda>_. None),
      AJ_event = (\<lambda>p. if p = ''{s}'' then Some \<lparr>AE_Type = ''message_start'',
            AE_Message = Some (''claude'', Some (9, 1)), AE_Usage = None\<rparr>
         else if p = ''{d}'' then Some \<lparr>AE_Type = ''message_delta'', AE_Message = None, AE_Usage = Some (0, 6)\<rparr>
         else None)\<rparr>"

definition event_client :: http_client where
  "event_client = stream_client\<lparr>HC_do := (\<lambda>_. Answered \<lparr>UP_Status = 200, UP_Header = [], UP_Body = event_stream\<rparr>)\<rparr>"

lemma events_open:
  "anthropic_ChatStream event_json event_client (NewAnthropic ''k'') one_turn =
     Inr (open_stream (anthropic_sniff event_json) event_stream ''EOF'')"
  by (simp add: anthropic_ChatStream_def NewAnthropic_def event_json_def event_client_def stream_client_def
      post_request_def open_answer_def stream_end_def)

lemma event_lines:
  "lines_of 3 (open_stream (anthropic_sniff event_json) event_stream ''EOF'') =
     [''data: {s}'' @ [CHR 0x0A], ''data: {d}'' @ [CHR 0x0A]]"
  by (simp add: lines_of_def open_stream_def received_def event_stream_def)

lemma event_counts:
  "count_report event_json fst (''data: {s}'' @ [CHR 0x0A]) = Some 9" "count_report event_json fst (''data: {d}'' @ [CHR 0x0A]) = None"
  "count_report event_json snd (''data: {s}'' @ [CHR 0x0A]) = Some 1" "count_report event_json snd (''data: {d}'' @ [CHR 0x0A]) = Some 6"
  by (simp_all add: count_report_def anthropic_report_def sse_payload_def reported_count_def event_json_def TrimSpace_def
      is_space_def HasPrefix_def)

lemma stream_forwarded_and_metered_witness:
  "forwards (open_stream (openai_sniff stream_json) (''data: {u}'' @ [CHR 0x0A] @ ''data: [DONE]'') ''EOF'')
     \<lparr>UP_Status = 200, UP_Header = [], UP_Body = ''data: {u}'' @ [CHR 0x0A] @ ''data: [DONE]''\<rparr> \<and>
   CS_Usage (open_stream (anthropic_sniff event_json) event_stream ''EOF'') 3 =
     \<lparr>TU_PromptTokens = 9, TU_CompletionTokens = 6\<rparr>"
proof
  from stream_forwarded_and_metered [THEN conjunct1, rule_format, OF stream_opens] obtain resp where
    "HC_do stream_client (openai_request (NewOpenAI ''k'') True ''{}'') = Answered resp"
    "forwards (open_stream (openai_sniff stream_json) (''data: {u}'' @ [CHR 0x0A] @ ''data: [DONE]'') ''EOF'') resp"
    by (auto simp: stream_json_def)
  then show "forwards (open_stream (openai_sniff stream_json) (''data: {u}'' @ [CHR 0x0A] @ ''data: [DONE]'') ''EOF'')
     \<lparr>UP_Status = 200, UP_Header = [], UP_Body = ''data: {u}'' @ [CHR 0x0A] @ ''data: [DONE]''\<rparr>"
    by (simp only: stream_client_def http_client.simps do_result.inject)
  from stream_forwarded_and_metered [THEN conjunct2, rule_format, OF events_open] have
    "CS_Usage (open_stream (anthropic_sniff event_json) event_stream ''EOF'') 3 =
     \<lparr>TU_PromptTokens = last (0 # List.map_filter (count_report event_json fst)
        (lines_of 3 (open_stream (anthropic_sniff event_json) event_stream ''EOF''))),
      TU_CompletionTokens = last (0 # List.map_filter (count_report event_json snd)
        (lines_of 3 (open_stream (anthropic_sniff event_json) event_stream ''EOF'')))\<rparr>" by blast
  then show "CS_Usage (open_stream (anthropic_sniff event_json) event_stream ''EOF'') 3 =
     \<lparr>TU_PromptTokens = 9, TU_CompletionTokens = 6\<rparr>"
    by (simp only: event_lines map_filter_simps event_counts option.case last.simps simp_thms if_False if_True list.distinct)
qed

section \<open>The signed path\<close>

lemma int_of_char_of: "m < 256 \<Longrightarrow> (of_char (char_of (m :: nat)) :: int) = int m"
  using of_nat_of_char [of "char_of m", where 'a = int] by simp

lemma upper_hex_unhex: "n < 16 \<Longrightarrow> unhex (upper_hex n) = Some (int n)"
  by (simp add: unhex_def upper_hex_def int_of_char_of Let_def)

lemma percent_value: "char_of (16 * int (of_char c div 16) + int (of_char c mod 16)) = (c :: char)"
proof -
  have "16 * int (of_char c div 16) + int (of_char c mod 16) = int (16 * (of_char c div 16) + of_char c mod 16)"
    by (simp only: of_nat_add of_nat_mult of_nat_numeral)
  also have "\<dots> = int (of_char c)" by simp
  also have "\<dots> = of_char c" by (rule of_nat_of_char)
  finally show ?thesis by simp
qed

lemma of_char_nibbles: "(of_char c :: nat) div 16 < 16" "(of_char c :: nat) mod 16 < 16"
  using nat_of_char_less_256 [of c] by (auto intro: less_mult_imp_div_less)

lemma unescape_segment: "PathUnescape (awsURIEncodeSegment s) = Some s"
proof (induction s)
  case Nil
  show ?case by (simp add: PathUnescape_def awsURIEncodeSegment_def)
next
  case (Cons c s)
  have "unreserved c \<Longrightarrow> c \<noteq> CHR ''%''" by (auto simp: unreserved_def)
  with Cons show ?case
    by (simp add: PathUnescape_def awsURIEncodeSegment_def percent_def Let_def
        upper_hex_unhex [OF of_char_nibbles(1)] upper_hex_unhex [OF of_char_nibbles(2)] percent_value)
qed

lemma upper_hex_unreserved: "n < 16 \<Longrightarrow> unreserved (upper_hex n)"
  by (simp add: unreserved_def upper_hex_def Let_def)

lemma percent_chars: "list_all (\<lambda>d. unreserved d \<or> d = CHR ''%'') (percent c)"
  using upper_hex_unreserved [OF of_char_nibbles(1), of c] upper_hex_unreserved [OF of_char_nibbles(2), of c]
  by (simp only: percent_def Let_def list.pred_inject simp_thms)

lemma encoded_chars: "list_all (\<lambda>c. unreserved c \<or> c = CHR ''%'') (awsURIEncodeSegment s)"
  using percent_chars by (induction s) (simp_all add: awsURIEncodeSegment_def)

text \<open>
  The signed path names the model. The model part of the path that is signed and sent
  holds only unreserved characters and escapes, and unescaping it, as the receiver does,
  gives the model's id back, whatever characters the id has; so two models never share a path.
\<close>

theorem converse_path_round_trip:
  "PathUnescape (awsURIEncodeSegment model) = Some model \<and>
   list_all (\<lambda>c. unreserved c \<or> c = CHR ''%'') (awsURIEncodeSegment model) \<and>
   (converse_path model = converse_path other \<longleftrightarrow> model = other)"
proof (intro conjI)
  show "PathUnescape (awsURIEncodeSegment model) = Some model" by (rule unescape_segment)
  show "list_all (\<lambda>c. unreserved c \<or> c = CHR ''%'') (awsURIEncodeSegment model)"
    by (rule encoded_chars)
  show "converse_path model = converse_path other \<longleftrightarrow> model = other"
  proof
    assume "converse_path model = converse_path other"
    then have "awsURIEncodeSegment model = awsURIEncodeSegment other"
      unfolding converse_path_def by (simp only: same_append_eq append_same_eq)
    then show "model = other" using unescape_segment [of model] unescape_segment [of other] by (metis option.inject)
  qed simp
qed

end
