(* ===== verification/Bootstrap.thy ===== *)
theory Bootstrap
  imports ApiServer Bedrock Config Notify Postgres Pricing PolicyFile
begin

text \<open>
  How the daemon is put together (\<open>internal/app/bootstrap.go\<close>): from a configuration to the
  providers, the store, the tracer, the run manager, the gateways and the gate, with every
  step that can fail, and \<open>runServe\<close> (\<open>cmd/riskkernel/main.go\<close>) up to the server that
  listens. The database drivers, goose, the OTLP exporters and the file system are fields of
  \<open>boot_world\<close>. Log lines are dropped. An error comes with the database that was opened, as
  the failure leaves it.
\<close>

section \<open>Opening the store\<close>

text \<open>
  A driver, by data source name: the error of \<open>sql.Open\<close>, of \<open>Ping\<close>, the schema version on
  disk (None for an error), and the database once the migrations ran (None for an error).
\<close>

record backend =
  BE_open :: "string \<Rightarrow> string option"
  BE_ping :: "string \<Rightarrow> string option"
  BE_version :: "string \<Rightarrow> int option"
  BE_up :: "string \<Rightarrow> db option"
  BE_migrations :: "string list"

datatype open_error = SqlOpen string string | SqlPing string string | MigrateFailed migrate_error

definition sqlite_dsn :: "string \<Rightarrow> string" where
  "sqlite_dsn path = ''file:'' @ path @ ''?_pragma=journal_mode(WAL)'' @
     ''&_pragma=busy_timeout(5000)'' @ ''&_pragma=foreign_keys(ON)''"

definition open_database ::
    "string \<Rightarrow> (string list \<Rightarrow> int option \<Rightarrow> db option \<Rightarrow> migrate_error + db) \<Rightarrow> backend \<Rightarrow> string \<Rightarrow> open_error + db" where
  "open_database name mig be dsn =
     (case BE_open be dsn of
        Some e \<Rightarrow> Inl (SqlOpen name e)
      | None \<Rightarrow>
          (case BE_ping be dsn of
             Some e \<Rightarrow> Inl (SqlPing name e)
           | None \<Rightarrow>
               (case mig (BE_migrations be) (BE_version be dsn) (BE_up be dsn) of
                  Inl e \<Rightarrow> Inl (MigrateFailed e)
                | Inr d \<Rightarrow> Inr d)))"

definition OpenSQLite :: "backend \<Rightarrow> string \<Rightarrow> open_error + db" where
  "OpenSQLite be path = open_database ''sqlite'' migrate be (sqlite_dsn path)"

definition OpenPostgres :: "backend \<Rightarrow> string \<Rightarrow> open_error + db" where
  "OpenPostgres be dsn = open_database ''postgres'' pg_migrate be dsn"

section \<open>The exporter\<close>

datatype exporter_kind = HttpExporter | GrpcExporter

record exporter_options =
  XO_EndpointURL :: string
  XO_Insecure :: bool
  XO_Headers :: "(string \<times> string) list option"

definition newExporter ::
    "(exporter_kind \<Rightarrow> exporter_options \<Rightarrow> string option) \<Rightarrow> otel_config \<Rightarrow> string option" where
  "newExporter build cfg =
     build (if OC_Protocol cfg = ''http'' \<or> OC_Protocol cfg = ''http/protobuf'' then HttpExporter else GrpcExporter)
       \<lparr>XO_EndpointURL = OC_Endpoint cfg, XO_Insecure = OC_Insecure cfg,
        XO_Headers = (if OC_Headers cfg = [] then None else Some (OC_Headers cfg))\<rparr>"

definition otel_New ::
    "(exporter_kind \<Rightarrow> exporter_options \<Rightarrow> string option) \<Rightarrow> otel_config \<Rightarrow> string + tracer" where
  "otel_New build cfg =
     (if OC_Endpoint cfg = '''' then Inr Disabled
      else (case newExporter build cfg of
          Some e \<Rightarrow> Inl (''otel: build exporter: '' @ e)
        | None \<Rightarrow> Inr \<lparr>TR_enabled = True, TR_spans = []\<rparr>))"

definition tracer_Enabled :: "tracer option \<Rightarrow> bool" where
  "tracer_Enabled t \<longleftrightarrow> (case t of None \<Rightarrow> False | Some t \<Rightarrow> TR_enabled t)"

text \<open>\<open>flush\<close> is the provider's shutdown.\<close>

definition tracer_Shutdown :: "string option \<Rightarrow> tracer option \<Rightarrow> string option" where
  "tracer_Shutdown flush t = (if tracer_Enabled t then flush else None)"

section \<open>The dependency graph\<close>

record deps =
  DP_Config :: config
  DP_Providers :: registry
  DP_Pricing :: price_table
  DP_Runs :: manager
  DP_Gateway :: gateway
  DP_Tracer :: tracer
  DP_Approvals :: gate
  DP_Slack :: "slack option"
  DP_MCP :: "mcp_config option"
  DP_Memory :: string
  DP_Ingress :: "ingress option"

record boot_world =
  BW_anthropic :: anthropic_json
  BW_ollama :: ollama_json
  BW_openai :: openai_json
  BW_bedrock :: bedrock_world
  BW_client :: http_client
  BW_readFile :: "string \<Rightarrow> string + string"
  BW_rates :: "string \<Rightarrow> string + (string \<times> rate) list"
  BW_policies :: "string \<Rightarrow> string + policy_file"
  BW_mkdirAll :: "string \<Rightarrow> string option"
  BW_sqlite :: backend
  BW_postgres :: backend
  BW_exporter :: "exporter_kind \<Rightarrow> exporter_options \<Rightarrow> string option"
  BW_cwd :: "string option"
  BW_oor :: "float64 \<Rightarrow> int64"
  BW_now :: time

datatype store_open_error = DataDirFailed string string | OpenFailed open_error

datatype policy_load_error = PolicyRefused policy_error | PolicyNotStored store_error

datatype build_error =
    NoDefaultProvider string
  | PricingRefused load_error
  | StoreRefused store_open_error
  | TracerRefused string
  | PolicyFileRefused string policy_load_error

definition BuildRegistry :: "boot_world \<Rightarrow> config \<Rightarrow> string + registry" where
  "BuildRegistry w cfg =
     NewRegistry (C_DefaultProvider cfg)
       ([Some (anthropic_provider (BW_anthropic w) (BW_client w)
           (anthropic_WithBaseURL (C_AnthropicBaseURL cfg) (NewAnthropic (C_AnthropicAPIKey cfg)))),
         Some (ollama_provider (BW_ollama w) (BW_client w) (NewOllama (C_OllamaBaseURL cfg)))] @
        (if C_OpenAIAPIKey cfg \<noteq> ''''
         then [Some (openai_provider (BW_openai w) (BW_client w)
                 (openai_WithBaseURL (C_OpenAIBaseURL cfg) (NewOpenAI (C_OpenAIAPIKey cfg))))]
         else []) @
        (if C_AWSAccessKeyID cfg \<noteq> '''' \<and> C_AWSSecretAccessKey cfg \<noteq> ''''
         then [Some (bedrock_provider (BW_bedrock w) (BW_client w)
                 (bedrock_WithBaseURL (C_BedrockBaseURL cfg)
                   (NewBedrock (C_AWSAccessKeyID cfg) (C_AWSSecretAccessKey cfg)
                     (C_AWSSessionToken cfg) (C_AWSRegion cfg))))]
         else []))"

definition OpenStore :: "boot_world \<Rightarrow> config \<Rightarrow> store_open_error + db" where
  "OpenStore w cfg =
     (if C_DatabaseURL cfg \<noteq> ''''
      then (case OpenPostgres (BW_postgres w) (C_DatabaseURL cfg) of Inl e \<Rightarrow> Inl (OpenFailed e) | Inr d \<Rightarrow> Inr d)
      else (case BW_mkdirAll w (C_DataDir cfg) of
          Some e \<Rightarrow> Inl (DataDirFailed (C_DataDir cfg) e)
        | None \<Rightarrow>
            (case OpenSQLite (BW_sqlite w) (Join2 (C_DataDir cfg) ''riskkernel.db'') of
               Inl e \<Rightarrow> Inl (OpenFailed e) | Inr d \<Rightarrow> Inr d)))"

text \<open>The bundles in the order of the file; the first one the store refuses ends it.\<close>

fun upsert_bundles :: "time \<Rightarrow> policy_bundle list \<Rightarrow> db \<Rightarrow> db \<times> store_error option" where
  "upsert_bundles now [] d = (d, None)"
| "upsert_bundles now (b # bs) d =
     (case UpsertPolicy (bundle_Record b now) d of
        (d', Inl e) \<Rightarrow> (d', Some e)
      | (d', Inr _) \<Rightarrow> upsert_bundles now bs d')"

definition registerPolicyFile :: "boot_world \<Rightarrow> string \<Rightarrow> db \<Rightarrow> db \<times> (policy_load_error + nat)" where
  "registerPolicyFile w path d =
     (case policy_Load (BW_readFile w) (BW_policies w) path of
        Inl e \<Rightarrow> (d, Inl (PolicyRefused e))
      | Inr f \<Rightarrow>
          (case upsert_bundles (BW_now w) (PF_Policies f) d of
             (d', Some e) \<Rightarrow> (d', Inl (PolicyNotStored e))
           | (d', None) \<Rightarrow> (d', Inr (length (PF_Policies f)))))"

definition toGovernorBudget :: "budget_config \<Rightarrow> budget" where
  "toGovernorBudget b =
     \<lparr>B_Tokens = BC_Tokens b, B_Dollars = BC_Dollars b, B_Loops = BC_Loops b, B_Seconds = BC_Seconds b\<rparr>"

text \<open>\<open>time.Duration(n)*time.Second\<close>: the product wraps at 64 bits.\<close>

definition approval_timeout :: "int \<Rightarrow> int" where
  "approval_timeout secs = sint (word_of_int (secs * 1000000000) :: int64)"

text \<open>What is built once the store and the tracer are open. Manager and gate share the store \<open>d\<close>.\<close>

definition assemble :: "boot_world \<Rightarrow> config \<Rightarrow> registry \<Rightarrow> (string \<times> rate) list \<Rightarrow> tracer \<Rightarrow> db \<Rightarrow> deps" where
  "assemble w cfg reg overrides tr d =
     (let ap = C_Approval cfg; mc = C_MCP cfg; prices = NewTable overrides;
          mgr = WithStore d (NewManager (toGovernorBudget (C_DefaultBudget cfg)));
          webhook = NewWebhookNotifier (AC_WebhookURL ap);
          sl = NewSlackNotifier (AC_SlackBotToken ap) (AC_SlackChannel ap) (AC_SlackSigningSecret ap);
          notifier = CombineNotifiers [webhook, map_option SlackNotifier sl]
      in \<lparr>DP_Config = cfg, DP_Providers = reg, DP_Pricing = prices, DP_Runs = mgr,
          DP_Gateway = fst (gateway_New reg mgr prices (Some tr)), DP_Tracer = tr,
          DP_Approvals = NewGate (Some d) \<lparr>AP_RequireFor = [], AP_DefaultSafe = AC_DefaultSafe ap\<rparr> (notifier \<noteq> None),
          DP_Slack = sl,
          DP_MCP = (if MC_Upstream mc \<noteq> ''''
                    then Some (mcp_New (MC_Upstream mc) (MC_Allowlist mc) (MC_ReadOnly mc)
                           (approval_timeout (MC_ApprovalTimeoutSeconds mc)))
                    else None),
          DP_Memory = NewReader (BW_cwd w) (MM_Dir (C_Memory cfg)),
          DP_Ingress = (if OC_IngressEnabled (C_OTel cfg)
                        then Some \<lparr>IG_prices = prices, IG_oor = BW_oor w\<rparr> else None)\<rparr>)"

definition load_prices :: "boot_world \<Rightarrow> config \<Rightarrow> load_error + (string \<times> rate) list" where
  "load_prices w cfg =
     (if C_PricingFile cfg \<noteq> '''' then LoadOverrides (BW_readFile w) (BW_rates w) (C_PricingFile cfg) else Inr [])"

definition register_policies :: "boot_world \<Rightarrow> config \<Rightarrow> db \<Rightarrow> db \<times> (policy_load_error + nat)" where
  "register_policies w cfg d =
     (if C_PolicyFile cfg \<noteq> '''' then registerPolicyFile w (C_PolicyFile cfg) d else (d, Inr 0))"

definition Build :: "boot_world \<Rightarrow> config \<Rightarrow> (build_error \<times> db option) + deps" where
  "Build w cfg =
     (case BuildRegistry w cfg of
        Inl e \<Rightarrow> Inl (NoDefaultProvider e, None)
      | Inr reg \<Rightarrow>
          (case load_prices w cfg of
             Inl e \<Rightarrow> Inl (PricingRefused e, None)
           | Inr overrides \<Rightarrow>
               (case OpenStore w cfg of
                  Inl e \<Rightarrow> Inl (StoreRefused e, None)
                | Inr d \<Rightarrow>
                    (case otel_New (BW_exporter w) (C_OTel cfg) of
                       Inl e \<Rightarrow> Inl (TracerRefused e, Some d)
                     | Inr tr \<Rightarrow>
                         (case register_policies w cfg d of
                            (d', Inl e) \<Rightarrow> Inl (PolicyFileRefused (C_PolicyFile cfg) e, Some d')
                          | (d', Inr _) \<Rightarrow> Inr (assemble w cfg reg overrides tr d'))))))"

section \<open>Serving\<close>

definition httpapi_New :: "deps \<Rightarrow> server" where
  "httpapi_New dp =
     \<lparr>SV_token = C_APIToken (DP_Config dp), SV_gateway = Some (DP_Gateway dp), SV_mcp = DP_MCP dp,
      SV_approvals = True, SV_slack = DP_Slack dp, SV_memory = Some (DP_Memory dp), SV_ingress = DP_Ingress dp\<rparr>"

definition booted_state :: "deps \<Rightarrow> manager \<Rightarrow> server_state" where
  "booted_state dp m =
     \<lparr>ss_core = \<lparr>mc_runs = m, mc_gate = (DP_Approvals dp)\<lparr>gt_store := m_store m\<rparr>, mc_spans = [], mc_sent = []\<rparr>,
      ss_tracer = DP_Tracer dp, ss_asked = [], ss_slack = []\<rparr>"

datatype serve_error = ConfigRefused config_error | BuildRefused build_error | ReloadFailed store_error

definition runServe :: "boot_world \<Rightarrow> dotenv_file \<Rightarrow> env \<Rightarrow> serve_error + (int \<times> server \<times> server_state)" where
  "runServe w file e =
     (case Load file e of
        Inl err \<Rightarrow> Inl (ConfigRefused err)
      | Inr cfg \<Rightarrow>
          (case Build w cfg of
             Inl (err, _) \<Rightarrow> Inl (BuildRefused err)
           | Inr dp \<Rightarrow>
               (case Reload (BW_now w) (DP_Runs dp) of
                  (_, Inl err) \<Rightarrow> Inl (ReloadFailed err)
                | (m, Inr _) \<Rightarrow> Inr (C_Port cfg, httpapi_New dp, booted_state dp m))))"

end
