(* ===== verification/BootstrapLaws.thy ===== *)
theory BootstrapLaws
  imports Bootstrap RunsLaws GatewayLaws ConfigLaws StorageLaws
begin

text \<open>
  What a daemon that came up promises: the budget and the gate it has when nobody configured
  any, the policies it registered, the providers it has.
\<close>

section \<open>Building\<close>

lemma Build_cases:
  assumes "Build w cfg = Inr dp"
  obtains reg overrides d tr d' n where "BuildRegistry w cfg = Inr reg" "load_prices w cfg = Inr overrides"
    "OpenStore w cfg = Inr d" "otel_New (BW_exporter w) (C_OTel cfg) = Inr tr"
    "register_policies w cfg d = (d', Inr n)" "dp = assemble w cfg reg overrides tr d'"
  using assms by (auto simp: Build_def split: sum.splits prod.splits)

lemma runServe_cases:
  assumes "runServe w file e = Inr (port, sv, s)"
  obtains cfg dp m n where "Load file e = Inr cfg" "Build w cfg = Inr dp"
    "Reload (BW_now w) (DP_Runs dp) = (m, Inr n)" "port = C_Port cfg" "sv = httpapi_New dp" "s = booted_state dp m"
  using assms by (auto simp: runServe_def split: sum.splits prod.splits)

lemma assemble_sel:
  "m_store (DP_Runs (assemble w cfg reg ov tr d)) = Some d"
  "m_defaultBudget (DP_Runs (assemble w cfg reg ov tr d)) = toGovernorBudget (C_DefaultBudget cfg)"
  "gt_policy (DP_Approvals (assemble w cfg reg ov tr d)) =
     \<lparr>AP_RequireFor = [], AP_DefaultSafe = AC_DefaultSafe (C_Approval cfg)\<rparr>"
  by (simp_all add: assemble_def Let_def WithStore_def NewManager_def NewGate_def)

section \<open>Reloading keeps the default budget\<close>

lemma persistRun_default [simp]: "m_defaultBudget (persistRun a m) = m_defaultBudget m"
  by (simp add: persistRun_def)

lemma reloadRun_default [simp]: "m_defaultBudget (fst (reloadRun rec now d m)) = m_defaultBudget m"
  by (simp add: reloadRun_def case_prod_beta Let_def split: option.splits)

lemma reload_all_default: "m_defaultBudget (fst (reload_all now recs m)) = m_defaultBudget m"
  by (induction now recs m rule: reload_all.induct)
    (simp_all add: case_prod_beta Let_def split: option.splits)

lemma Reload_default: "m_defaultBudget (fst (Reload now m)) = m_defaultBudget m"
  by (simp add: Reload_def case_prod_beta Let_def reload_all_default split: option.splits sum.splits)

section \<open>What nobody configured\<close>

definition safe_budget :: budget where
  "safe_budget = \<lparr>B_Tokens = 0, B_Dollars = Fin 5, B_Loops = 100, B_Seconds = 3600\<rparr>"

lemma default_budget_safe:
  assumes "Load file e = Inr cfg" "loadDotEnv file e = Inr e'" "\<not> anyBudgetEnvSet e'"
  shows "toGovernorBudget (C_DefaultBudget cfg) = safe_budget"
proof -
  from assms obtain port b where b: "loadBudget e' = Inr b" and c: "cfg = read_config e' port b"
    by (auto elim: Load_cases)
  from b assms(3) have "b = \<lparr>BC_Tokens = 0, BC_Dollars = SafeDefaultDollars, BC_Loops = SafeDefaultLoops,
      BC_Seconds = SafeDefaultSeconds, BC_Defaulted = True\<rparr>"
    by (auto elim: loadBudget_cases)
  then show ?thesis
    by (simp add: c read_config_def toGovernorBudget_def safe_budget_def SafeDefaultDollars_def
        SafeDefaultLoops_def SafeDefaultSeconds_def)
qed

lemma default_gate_safe:
  assumes "Load file e = Inr cfg" "loadDotEnv file e = Inr e'"
    "Getenv e' ''RISKKERNEL_APPROVAL_DEFAULT_SAFE'' = ''''"
  shows "AC_DefaultSafe (C_Approval cfg)"
  using assms
  by (auto elim!: Load_cases simp: read_config_def envBoolDefault_def TrimSpace_def TrimLeftSpace_def ToLower_def)

lemma run_Create_budget:
  "run_Create opts rid now m = (m', a) \<Longrightarrow>
     g_budget (rn_gov (run_at m' a)) = (case CO_Budget opts of None \<Rightarrow> m_defaultBudget m | Some b \<Rightarrow> b)"
  by (auto simp: run_Create_def Let_def case_prod_beta newRun_def gov_New_fresh split: option.splits)

text \<open>
  C16. A daemon nobody configured is safe. When no budget variable and no approval switch is
  set, in the environment or in .env, a daemon that comes up gives every run created without
  a budget of its own a ceiling of five dollars, a hundred loops and an hour, and its gate
  asks for approval of every call that has a side effect. This holds whatever runs it
  reloaded from the store.
\<close>

theorem safe_by_default:
  assumes "runServe w file e = Inr (port, sv, s)" "loadDotEnv file e = Inr e'"
    "\<not> anyBudgetEnvSet e'" "Getenv e' ''RISKKERNEL_APPROVAL_DEFAULT_SAFE'' = ''''"
  shows "(\<forall>opts rid now m a. CO_Budget opts = None \<and> run_Create opts rid now (mc_runs (ss_core s)) = (m, a) \<longrightarrow>
           g_budget (rn_gov (run_at m a)) = safe_budget) \<and>
         (\<forall>tool se. se \<noteq> '''' \<longrightarrow> gate_Required (mc_gate (ss_core s)) tool se)"
  using assms(1)
proof (rule runServe_cases)
  fix cfg dp m n
  assume h: "Load file e = Inr cfg" "Build w cfg = Inr dp" "Reload (BW_now w) (DP_Runs dp) = (m, Inr n)"
    "s = booted_state dp m"
  from h(2) obtain reg ov tr d where dp: "dp = assemble w cfg reg ov tr d" by (rule Build_cases)
  have "m_defaultBudget m = safe_budget"
    using Reload_default [of "BW_now w" "DP_Runs dp"] default_budget_safe [OF h(1) assms(2,3)]
    by (simp add: h(3) [unfolded dp] dp assemble_sel)
  moreover have "gt_policy (mc_gate (ss_core s)) = \<lparr>AP_RequireFor = [], AP_DefaultSafe = True\<rparr>"
    using default_gate_safe [OF h(1) assms(2,4)] by (simp add: h(4) booted_state_def dp assemble_sel)
  ultimately show ?thesis
    by (auto dest: run_Create_budget simp: h(4) booted_state_def gate_Required_def Requires_def)
qed

text \<open>A small world: no file is there, the drivers open an empty database.\<close>

definition empty_backend :: backend where
  "empty_backend = \<lparr>BE_open = (\<lambda>_. None), BE_ping = (\<lambda>_. None), BE_version = (\<lambda>_. Some 0),
     BE_up = (\<lambda>_. Some empty_db), BE_migrations = []\<rparr>"

definition sample_files :: "string \<Rightarrow> string + string" where
  "sample_files path = (if path = ''rk.yaml'' then Inr ''bundles'' else Inl ''no such file'')"

definition sample_bundles :: policy_file where
  "sample_bundles = \<lparr>PF_SchemaVersion = 1, PF_Policies = [sample_bundle]\<rparr>"

definition offline :: http_client where
  "offline = \<lparr>HC_build = (\<lambda>_. None), HC_do = (\<lambda>_. DoError ''offline'' False), HC_ctx = None, HC_read = (\<lambda>_. None)\<rparr>"

definition sample_boot :: boot_world where
  "sample_boot =
     \<lparr>BW_anthropic = \<lparr>AJ_encode = (\<lambda>_. Inl ''''), AJ_resp = (\<lambda>_. Inl ''''), AJ_error = (\<lambda>_. None), AJ_event = (\<lambda>_. None)\<rparr>,
      BW_ollama = \<lparr>LJ_encode = (\<lambda>_. Inl ''''), LJ_resp = (\<lambda>_. Inl '''')\<rparr>,
      BW_openai = \<lparr>OJ_encode = (\<lambda>_. Inl ''''), OJ_resp = (\<lambda>_. Inl ''''), OJ_error = (\<lambda>_. None), OJ_chunk = (\<lambda>_. None)\<rparr>,
      BW_bedrock = \<lparr>BJ_encode = (\<lambda>_. Inl ''''), BJ_resp = (\<lambda>_. Inl ''''), BJ_error = (\<lambda>_. None),
        BJ_parse = (\<lambda>_. Inl ''''), BJ_crypto = \<lparr>CY_sha256 = (\<lambda>_. []), CY_hmac = (\<lambda>_ _. [])\<rparr>, BJ_now = 0\<rparr>,
      BW_client = offline, BW_readFile = sample_files, BW_rates = (\<lambda>_. Inl ''''),
      BW_policies = (\<lambda>_. Inr sample_bundles), BW_mkdirAll = (\<lambda>_. None),
      BW_sqlite = empty_backend, BW_postgres = empty_backend, BW_exporter = (\<lambda>_ _. None),
      BW_cwd = Some ''/srv'', BW_oor = (\<lambda>_. 0), BW_now = 5\<rparr>"

lemma open_empty:
  "open_database name migrate empty_backend dsn = Inr empty_db"
  by (simp add: open_database_def empty_backend_def migrate_def maxMigrationVersion_def)

lemma sample_registry:
  assumes "C_DefaultProvider cfg = ''anthropic''"
  shows "\<exists>reg. BuildRegistry w cfg = Inr reg"
  using assms
  by (simp add: BuildRegistry_def NewRegistry_def register_all_get map_filter_simps anthropic_provider_def
      ollama_provider_def openai_provider_def bedrock_provider_def Let_def)

definition unset_env :: env where "unset_env = (\<lambda>_. None)"

definition unset_config :: config where
  "unset_config = read_config unset_env DefaultPort
     \<lparr>BC_Tokens = 0, BC_Dollars = SafeDefaultDollars, BC_Loops = SafeDefaultLoops,
      BC_Seconds = SafeDefaultSeconds, BC_Defaulted = True\<rparr>"

lemma unset_getenv: "Getenv unset_env k = ''''" "getenvDefault unset_env k v = v" "\<not> anyBudgetEnvSet unset_env"
  by (simp_all add: Getenv_def getenvDefault_def unset_env_def anyBudgetEnvSet_def list_ex_iff)

lemma unset_load: "loadDotEnv NoFile unset_env = Inr unset_env" "Load NoFile unset_env = Inr unset_config"
  by (simp_all add: loadDotEnv_def Load_def loadPort_def loadBudget_def unset_getenv unset_config_def)

lemma unset_sel:
  "C_DefaultProvider unset_config = ''anthropic''" "C_PricingFile unset_config = ''''" "C_PolicyFile unset_config = ''''"
  "C_DatabaseURL unset_config = ''''" "OC_Endpoint (C_OTel unset_config) = ''''"
  by (simp_all add: unset_config_def read_config_def unset_getenv loadOTel_def)

lemma sample_Build:
  assumes "C_DefaultProvider cfg = ''anthropic''" "C_PricingFile cfg = ''''" "C_DatabaseURL cfg = ''''"
    "OC_Endpoint (C_OTel cfg) = ''''"
  obtains reg where "BuildRegistry sample_boot cfg = Inr reg" "load_prices sample_boot cfg = Inr []"
    "OpenStore sample_boot cfg = Inr empty_db" "otel_New (BW_exporter sample_boot) (C_OTel cfg) = Inr Disabled"
  using assms sample_registry [OF assms(1), of sample_boot]
  by (auto simp: load_prices_def OpenStore_def OpenSQLite_def otel_New_def sample_boot_def open_empty)

lemma empty_Reload: "m_store m = Some empty_db \<Longrightarrow> Reload now m = (m, Inr 0)"
  by (cases m) (simp add: Reload_def ListRunsByStatus_def query_def statement_def empty_db_def newest_first_def sort_by_def)

lemma sample_serves: "\<exists>port sv s. runServe sample_boot NoFile unset_env = Inr (port, sv, s)"
proof -
  obtain reg where b: "BuildRegistry sample_boot unset_config = Inr reg" "load_prices sample_boot unset_config = Inr []"
    "OpenStore sample_boot unset_config = Inr empty_db"
    "otel_New (BW_exporter sample_boot) (C_OTel unset_config) = Inr Disabled"
    using sample_Build [of unset_config] unset_sel by metis
  have "Build sample_boot unset_config = Inr (assemble sample_boot unset_config reg [] Disabled empty_db)"
    by (simp add: Build_def b register_policies_def unset_sel)
  then show ?thesis by (simp add: runServe_def unset_load empty_Reload [OF assemble_sel(1)])
qed

lemma safe_by_default_witness:
  "\<exists>port sv s. runServe sample_boot NoFile unset_env = Inr (port, sv, s) \<and>
     (\<forall>opts rid now m a. CO_Budget opts = None \<and> run_Create opts rid now (mc_runs (ss_core s)) = (m, a) \<longrightarrow>
        g_budget (rn_gov (run_at m a)) = safe_budget) \<and>
     (\<forall>tool se. se \<noteq> '''' \<longrightarrow> gate_Required (mc_gate (ss_core s)) tool se)"
proof -
  obtain port sv s where S: "runServe sample_boot NoFile unset_env = Inr (port, sv, s)" using sample_serves by blast
  show ?thesis
    by (rule exI [of _ port], rule exI [of _ sv], rule exI [of _ s], rule conjI [OF S],
        rule safe_by_default [OF S unset_load(1) unset_getenv(3) unset_getenv(1)])
qed

section \<open>Policy files\<close>

lemma upsert_bundles_table:
  "upsert_bundles now bs d = (d', None) \<Longrightarrow>
     db_policies d' = fold (upsert PR_Name merge_policy) (map (\<lambda>b. bundle_Record b now) bs) (db_policies d)"
proof (induction bs arbitrary: d)
  case (Cons b bs)
  obtain d1 r where u: "UpsertPolicy (bundle_Record b now) d = (d1, r)" by fastforce
  with Cons.prems have ok: "r = Inr ()" "upsert_bundles now bs d1 = (d', None)" by (auto split: sum.splits)
  from u have "db_policies d1 = upsert PR_Name merge_policy (bundle_Record b now) (db_policies d)"
    by (auto simp: ok(1) UpsertPolicy_def statement_def split: list.splits if_splits)
  with Cons.IH [OF ok(2)] show ?case by simp
qed simp

lemma loaded_distinct:
  "policy_Load rd dec path = Inr f \<Longrightarrow> distinct (map BN_Name (PF_Policies f))"
  by (auto simp: policy_Load_def Validate_def validate_from_None_iff split: sum.splits option.splits if_splits)

lemma bundles_named:
  assumes "distinct (map BN_Name bs)"
  shows "filter (\<lambda>r. PR_Name r = name) (map (\<lambda>b. bundle_Record b now) bs) =
     (case find (\<lambda>b. BN_Name b = name) bs of None \<Rightarrow> [] | Some b \<Rightarrow> [bundle_Record b now])"
  using assms
proof (induction bs)
  case (Cons b bs)
  have "BN_Name b \<notin> BN_Name ` set bs \<Longrightarrow> find (\<lambda>x. BN_Name x = BN_Name b) bs = None"
    by (auto simp: find_None_iff) (metis imageI)
  with Cons show ?case by (auto simp: bundle_Record_def)
qed simp

text \<open>
  C38. Policy files are registered whole, and only added to what is there. When the daemon
  comes up with a policy file, the file was readable and valid, and afterwards every bundle of
  it is in the store under its name with exactly its budget, allowlist and rules, whether the
  name is new or held another bundle before, whose creation time it keeps. A policy the file
  does not name stays as it was: deleting a bundle from the file does not withdraw it.
\<close>

theorem policy_file_registered:
  assumes "Build w cfg = Inr dp" "C_PolicyFile cfg \<noteq> ''''"
  shows "\<exists>f d d'. policy_Load (BW_readFile w) (BW_policies w) (C_PolicyFile cfg) = Inr f \<and>
    OpenStore w cfg = Inr d \<and> m_store (DP_Runs dp) = Some d' \<and>
    (\<forall>name. lookup PR_Name name (db_policies d') =
      (case file_Bundle f name of
         None \<Rightarrow> lookup PR_Name name (db_policies d)
       | Some b \<Rightarrow> Some (case lookup PR_Name name (db_policies d) of
             None \<Rightarrow> bundle_Record b (BW_now w)
           | Some old \<Rightarrow> (bundle_Record b (BW_now w))\<lparr>PR_CreatedAt := PR_CreatedAt old\<rparr>)))"
  using assms(1)
proof (rule Build_cases)
  fix reg ov d tr d' n
  assume h: "OpenStore w cfg = Inr d" "register_policies w cfg d = (d', Inr n)" "dp = assemble w cfg reg ov tr d'"
  from h(2) assms(2) obtain f where f: "policy_Load (BW_readFile w) (BW_policies w) (C_PolicyFile cfg) = Inr f"
    and u: "upsert_bundles (BW_now w) (PF_Policies f) d = (d', None)"
    by (auto simp: register_policies_def registerPolicyFile_def split: sum.splits prod.splits option.splits)
  have "lookup PR_Name name (db_policies d') =
      (case file_Bundle f name of
         None \<Rightarrow> lookup PR_Name name (db_policies d)
       | Some b \<Rightarrow> Some (case lookup PR_Name name (db_policies d) of
             None \<Rightarrow> bundle_Record b (BW_now w)
           | Some old \<Rightarrow> (bundle_Record b (BW_now w))\<lparr>PR_CreatedAt := PR_CreatedAt old\<rparr>))" for name
    by (simp add: upsert_bundles_table [OF u] policies_table.get_puts bundles_named [OF loaded_distinct [OF f]]
        file_Bundle_def merge_policy_def split: option.split)
  with f h show ?thesis by (auto simp: assemble_sel)
qed

definition policy_config :: config where
  "policy_config = unset_config\<lparr>C_PolicyFile := ''rk.yaml''\<rparr>"

lemma policy_config_sel:
  "C_DefaultProvider policy_config = ''anthropic''" "C_PricingFile policy_config = ''''"
  "C_DatabaseURL policy_config = ''''" "OC_Endpoint (C_OTel policy_config) = ''''"
  by (simp_all add: policy_config_def unset_sel)

lemma sample_policies: "policy_Load sample_files (\<lambda>_. Inr sample_bundles) ''rk.yaml'' = Inr sample_bundles"
  by (simp add: policy_Load_def sample_files_def Validate_def sample_bundles_def SchemaVersion_def
      sample_bundle_def TrimSpace_def TrimLeftSpace_def is_space_def negative_budget_def word_sless_alt)

lemma sample_registers:
  "\<exists>reg d. Build sample_boot policy_config = Inr (assemble sample_boot policy_config reg [] Disabled d)"
proof -
  obtain reg where b: "BuildRegistry sample_boot policy_config = Inr reg" "load_prices sample_boot policy_config = Inr []"
    "OpenStore sample_boot policy_config = Inr empty_db"
    "otel_New (BW_exporter sample_boot) (C_OTel policy_config) = Inr Disabled"
    using sample_Build [OF policy_config_sel] by metis
  obtain d n where "register_policies sample_boot policy_config empty_db = (d, Inr n)"
    using sample_policies
    by (simp add: register_policies_def registerPolicyFile_def policy_config_def sample_boot_def sample_bundles_def
        UpsertPolicy_def statement_def empty_db_def bundle_Record_def sample_bundle_def real_ok_def)
  then have "Build sample_boot policy_config = Inr (assemble sample_boot policy_config reg [] Disabled d)"
    by (simp add: Build_def b)
  then show ?thesis by blast
qed

lemma policy_file_registered_witness:
  "\<exists>dp f d d'. Build sample_boot policy_config = Inr dp \<and>
    policy_Load (BW_readFile sample_boot) (BW_policies sample_boot) (C_PolicyFile policy_config) = Inr f \<and>
    OpenStore sample_boot policy_config = Inr d \<and> m_store (DP_Runs dp) = Some d' \<and>
    (\<forall>name. lookup PR_Name name (db_policies d') =
      (case file_Bundle f name of
         None \<Rightarrow> lookup PR_Name name (db_policies d)
       | Some b \<Rightarrow> Some (case lookup PR_Name name (db_policies d) of
             None \<Rightarrow> bundle_Record b (BW_now sample_boot)
           | Some old \<Rightarrow> (bundle_Record b (BW_now sample_boot))\<lparr>PR_CreatedAt := PR_CreatedAt old\<rparr>)))"
proof -
  obtain dp where B: "Build sample_boot policy_config = Inr dp" using sample_registers by blast
  have "C_PolicyFile policy_config \<noteq> ''''" by (simp add: policy_config_def)
  from policy_file_registered [OF B this] B show ?thesis by blast
qed

text \<open>A policy file that does not load leaves the opened store as it was.\<close>

lemma refused_policy_file:
  assumes "Build w cfg = Inl (PolicyFileRefused path (PolicyRefused err), Some d)"
  shows "OpenStore w cfg = Inr d"
  using assms
  by (auto simp: Build_def register_policies_def registerPolicyFile_def split: sum.splits prod.splits option.splits if_splits)

text \<open>A long approval timeout wraps: this one of 584 years waits 290 milliseconds.\<close>

lemma approval_timeout_wraps: "approval_timeout 18446744074 = 290448384"
  by (simp add: approval_timeout_def)

section \<open>The default provider\<close>

definition provider_usable :: "config \<Rightarrow> bool" where
  "provider_usable cfg \<longleftrightarrow>
     (let p = C_DefaultProvider cfg in
      p = ''anthropic'' \<or> p = ''ollama'' \<or> p = ''openai'' \<and> C_OpenAIAPIKey cfg \<noteq> '''' \<or>
      p = ''bedrock'' \<and> C_AWSAccessKeyID cfg \<noteq> '''' \<and> C_AWSSecretAccessKey cfg \<noteq> '''')"

lemma BuildRegistry_iff: "(\<exists>reg. BuildRegistry w cfg = Inr reg) \<longleftrightarrow> provider_usable cfg"
  by (auto simp: BuildRegistry_def NewRegistry_def register_all_get map_filter_simps anthropic_provider_def
      ollama_provider_def openai_provider_def bedrock_provider_def provider_usable_def Let_def)

lemma Build_no_provider: "(\<exists>e. Build w cfg = Inl (NoDefaultProvider e, None)) \<longleftrightarrow> \<not> provider_usable cfg"
  unfolding BuildRegistry_iff [of w cfg, symmetric]
  by (auto simp: Build_def split: sum.split prod.split)

end
