(* ===== verification/Terminal.thy ===== *)
theory Terminal
  imports TimeText Provider
begin

text \<open>
  What the command line uses to print and to read its flags: fixed-point numbers, dates,
  package text/tabwriter as the tables are written with it (minimum width 0, padding 2,
  blanks), and \<open>time.Parse\<close> on the two layouts \<open>parseTimeFlag\<close> tries
  (\<open>cmd/riskkernel/admin.go\<close>). Text is a list of bytes; the width of a cell is its number of
  UTF-8 characters.
\<close>

section \<open>Numbers and dates\<close>

text \<open>\<open>%.nf\<close>: the exact value to \<open>n\<close> places, half to even.\<close>

definition FormatF :: "nat \<Rightarrow> float64 \<Rightarrow> string" where
  "FormatF p x =
     (case x of NaN \<Rightarrow> ''NaN'' | PosInf \<Rightarrow> ''+Inf'' | NegInf \<Rightarrow> ''-Inf''
      | Fin q \<Rightarrow> (let n = rne (\<bar>q\<bar> * 10 ^ p); s = decimal (n div 10 ^ p) @ ''.'' @ pad p (n mod 10 ^ p)
                 in if q < 0 then CHR ''-'' # s else s))"

text \<open>The layout \<open>2006-01-02 15:04:05\<close> of a time in UTC.\<close>

definition clock_text :: "time \<Rightarrow> string" where
  "clock_text t =
     (let s = (t mod 86400000000000) div 1000000000
      in date_text t @ '' '' @ pad 2 (s div 3600) @ '':'' @ pad 2 (s div 60 mod 60) @ '':'' @ pad 2 (s mod 60))"

definition line_feed :: string where "line_feed = [CHR 0x0A]"

definition dash :: "string \<Rightarrow> string" where
  "dash s = (if s = '''' then ''-'' else s)"

definition upper_char :: "char \<Rightarrow> char" where
  "upper_char c = (let n = of_char c :: int in if 97 \<le> n \<and> n \<le> 122 then char_of (n - 32) else c)"

text \<open>\<open>strings.ToUpper\<close> on ASCII.\<close>

definition ToUpper :: "string \<Rightarrow> string" where
  "ToUpper s = map upper_char s"

section \<open>Tables\<close>

definition continuation :: "char \<Rightarrow> bool" where
  "continuation c \<longleftrightarrow> (let n = of_char c :: int in 128 \<le> n \<and> n < 192)"

definition rune_width :: "string \<Rightarrow> nat" where
  "rune_width s = length (filter (\<lambda>c. \<not> continuation c) s)"

definition pad_cell :: "nat \<Rightarrow> string \<Rightarrow> string" where
  "pad_cell w c = c @ replicate (w - rune_width c) CHR '' ''"

text \<open>A line's cells; all but the last were ended by a tab and may have a column width.\<close>

fun write_cells :: "nat list \<Rightarrow> string list \<Rightarrow> string" where
  "write_cells (w # ws) (c # cs) = pad_cell w c @ write_cells ws cs"
| "write_cells [] (c # cs) = c @ write_cells [] cs"
| "write_cells ws [] = []"

definition has_column :: "nat \<Rightarrow> string list \<Rightarrow> bool" where
  "has_column k line \<longleftrightarrow> k + 1 < length line"

definition column_width :: "nat \<Rightarrow> string list list \<Rightarrow> nat" where
  "column_width k block = Max (set (map (\<lambda>line. rune_width (line ! k) + 2) block))"

text \<open>
  \<open>format\<close>: consecutive lines that have one more cell form a block, which gets a width for
  that cell and is laid out with it; the lines between are written as they are.
\<close>

lemma sum_takeWhile_le: "sum_list (map f (takeWhile P xs)) \<le> (sum_list (map f xs) :: nat)"
  by (induction xs) auto

lemma sum_dropWhile_le: "sum_list (map f (dropWhile P xs)) \<le> (sum_list (map f xs) :: nat)"
  by (induction xs) auto

definition cells_left :: "nat list \<times> string list list \<Rightarrow> nat" where
  "cells_left p = (case p of (ws, lines) \<Rightarrow> sum_list (map (\<lambda>l. length l - length ws + 1) lines))"

function tab_format :: "nat list \<Rightarrow> string list list \<Rightarrow> string list" where
  "tab_format ws [] = []"
| "tab_format ws (line # lines) =
     (let k = length ws in
      if \<not> has_column k line then write_cells ws line # tab_format ws lines
      else (let block = line # takeWhile (has_column k) lines
            in tab_format (ws @ [column_width k block]) block @
               tab_format ws (dropWhile (has_column k) lines)))"
  by pat_completeness auto
termination
proof (relation "measure cells_left")
  fix ws :: "nat list" and line :: "string list" and lines k block
  assume k: "k = length ws" and h: "\<not> \<not> has_column k line" and block: "block = line # takeWhile (has_column k) lines"
  have "sum_list (map (\<lambda>l. length l - Suc k + 1) (takeWhile (has_column k) lines))
      \<le> sum_list (map (\<lambda>l. length l - k + 1) (takeWhile (has_column k) lines))"
    by (rule sum_list_mono) simp
  also have "\<dots> \<le> sum_list (map (\<lambda>l. length l - k + 1) lines)" by (rule sum_takeWhile_le)
  finally show "((ws @ [column_width k block], block), (ws, line # lines)) \<in> measure cells_left"
    using h by (simp add: cells_left_def block k has_column_def)
next
  fix ws :: "nat list" and line :: "string list" and lines k and block :: "string list list"
  assume "k = length ws"
  then show "((ws, dropWhile (has_column k) lines), (ws, line # lines)) \<in> measure cells_left"
    using sum_dropWhile_le [of "\<lambda>l. length l - k + 1" "has_column k" lines] by (simp add: cells_left_def)
qed (simp_all add: cells_left_def)

text \<open>All that was written to the writer, once it is flushed.\<close>

definition tab_write :: "string \<Rightarrow> string" where
  "tab_write s = Join line_feed (tab_format [] (map (Split1 (CHR 0x09)) (Split1 (CHR 0x0A) s)))"

text \<open>Rows as the commands print them: cells with tabs between, a line end after each row.\<close>

definition print_rows :: "string list list \<Rightarrow> string" where
  "print_rows rows = concat (map (\<lambda>cells. Join [CHR 0x09] cells @ line_feed) rows)"

definition table_text :: "string list list \<Rightarrow> string" where
  "table_text rows = tab_write (print_rows rows)"

section \<open>Times on the command line\<close>

definition parse_day :: "string \<Rightarrow> time option" where
  "parse_day s =
     (case parse_date s of None \<Rightarrow> None | Some (day, s) \<Rightarrow> if s = '''' then Some (day * day_ns) else None)"

definition parseTimeFlag :: "string \<Rightarrow> string + time" where
  "parseTimeFlag s =
     (case parse_RFC3339 s of
        Some t \<Rightarrow> Inr t
      | None \<Rightarrow>
          (case parse_day s of
             Some t \<Rightarrow> Inr t
           | None \<Rightarrow> Inl (''invalid time '' @ quoted s @ '' (want RFC3339 or YYYY-MM-DD)'')))"

end
