(* ===== verification/CliStore.thy ===== *)
theory CliStore
  imports Terminal Bootstrap Compliance
begin

text \<open>
  The commands that read the local store and the files beside it (\<open>cmd/riskkernel/admin.go\<close>,
  \<open>policy.go\<close>, \<open>memory.go\<close>): a command is a function of the world and its arguments to what
  it prints and the error it returns. Package json's encoder is an argument, and so is the
  summation order of the database. A command's statements run on the store one after the
  other; the store is closed at the end.
\<close>

section \<open>Results\<close>

datatype cli_error =
    CliText string
  | CliConfig config_error
  | CliOpen store_open_error
  | CliStore store_error
  | CliRun string store_error
  | CliPolicy policy_error
  | CliMemory memory_error
  | CliServe serve_error
  | CliEncode string

type_synonym cli_result = "string \<times> cli_error option"

definition cli_fail :: "string \<Rightarrow> cli_result" where
  "cli_fail msg = ('''', Some (CliText msg))"

definition cli_print :: "string \<Rightarrow> cli_result" where
  "cli_print out = (out, None)"

definition usage_error :: "string \<Rightarrow> cli_result" where
  "usage_error what = cli_fail (''usage: riskkernel '' @ what)"

text \<open>\<open>fmt.Println\<close>.\<close>

definition line_of :: "string \<Rightarrow> string" where
  "line_of s = s @ line_feed"

record tool_call_json =
  TJ_ID :: string
  TJ_RunID :: string
  TJ_StepIndex :: int32
  TJ_Tool :: string
  TJ_SideEffect :: string
  TJ_Arguments :: json_map
  TJ_Status :: string
  TJ_CreatedAt :: time

text \<open>The JSON documents of \<open>riskkernel audit\<close>.\<close>

datatype cli_doc =
    ExportDoc string ledger_totals "ledger_entry list" "tool_call_json list"
  | ToolsDoc string "tool_call_json list"
  | SummaryDoc usage_summary
  | ComplianceDoc audit_report

record cli_world =
  CW_boot :: boot_world
  CW_dotenv :: dotenv_file
  CW_env :: env
  CW_sum :: "float64 list \<Rightarrow> float64"
  CW_json :: "cli_doc \<Rightarrow> string + string"
  CW_payload :: "json_map \<Rightarrow> string"
  CW_digest :: digest
  CW_marshal :: marshaller
  CW_files :: files
  CW_now :: time

definition load_config :: "cli_world \<Rightarrow> config_error + config" where
  "load_config w = Load (CW_dotenv w) (CW_env w)"

definition openStoreForCLI :: "cli_world \<Rightarrow> cli_error + db" where
  "openStoreForCLI w =
     (case load_config w of
        Inl e \<Rightarrow> Inl (CliConfig e)
      | Inr cfg \<Rightarrow> (case OpenStore (CW_boot w) cfg of Inl e \<Rightarrow> Inl (CliOpen e) | Inr d \<Rightarrow> Inr d))"

definition with_store :: "cli_world \<Rightarrow> (db \<Rightarrow> cli_result) \<Rightarrow> cli_result" where
  "with_store w k = (case openStoreForCLI w of Inl e \<Rightarrow> ('''', Some e) | Inr d \<Rightarrow> k d)"

text \<open>One statement and the early return on its error.\<close>

definition ask :: "(store_error \<Rightarrow> cli_error) \<Rightarrow> (db \<Rightarrow> 'a db_result) \<Rightarrow> ('a \<Rightarrow> db \<Rightarrow> cli_result) \<Rightarrow> db \<Rightarrow> cli_result" where
  "ask wrap stmt k d = (case stmt d of (d', Inl e) \<Rightarrow> ('''', Some (wrap e)) | (d', Inr x) \<Rightarrow> k x d')"

definition print_json :: "cli_world \<Rightarrow> cli_doc \<Rightarrow> cli_result" where
  "print_json w doc = (case CW_json w doc of Inl e \<Rightarrow> ('''', Some (CliEncode e)) | Inr s \<Rightarrow> cli_print (line_of s))"

section \<open>Runs\<close>

definition run_row :: "run_record \<Rightarrow> string list" where
  "run_row r =
     [RR_ID r, dash (RR_Name r), RR_Status r,
      FormatInt (sint (RR_UsagePromptTokens r + RR_UsageCompletionTokens r)),
      FormatF 4 (RR_UsageDollars r), FormatInt (sint (RR_UsageLoops r)),
      dash (RR_HaltReason r), clock_text (RR_CreatedAt r)]"

definition runs_header :: "string list" where
  "runs_header = [''ID'', ''NAME'', ''STATUS'', ''TOKENS'', ''DOLLARS'', ''LOOPS'', ''HALT'', ''CREATED'']"

definition runsList :: "cli_world \<Rightarrow> cli_result" where
  "runsList w = with_store w (ask CliStore ListRuns (\<lambda>rs _.
     if rs = [] then cli_print (line_of ''no runs yet'')
     else cli_print (table_text (runs_header # map run_row rs))))"

definition limitInt :: "int64 \<Rightarrow> string" where
  "limitInt v = (if v \<le>s 0 then ''unlimited'' else FormatInt (sint v))"

definition limitDollars :: "float64 \<Rightarrow> string" where
  "limitDollars v = (if fle v fzero then ''unlimited $'' else ''$'' @ FormatF 2 v)"

definition limitSeconds :: "int32 \<Rightarrow> string" where
  "limitSeconds v = (if v \<le>s 0 then ''unlimited time'' else FormatInt (sint v) @ ''s'')"

definition maxInt64 :: "int64 \<Rightarrow> int64 \<Rightarrow> int64" where
  "maxInt64 a b = (if b <s a then a else b)"

definition maxFloat :: "float64 \<Rightarrow> float64 \<Rightarrow> float64" where
  "maxFloat a b = (if flt b a then a else b)"

definition budgetSummary :: "run_record \<Rightarrow> string" where
  "budgetSummary r =
     limitInt (RR_BudgetTokens r) @ '' tokens, '' @ limitDollars (RR_BudgetDollars r) @ '', '' @
     limitInt (scast (RR_BudgetLoops r)) @ '' loops, '' @ limitSeconds (RR_BudgetSeconds r)"

definition remainingSummary :: "run_record \<Rightarrow> int64 \<Rightarrow> string" where
  "remainingSummary r usedTokens =
     (if 0 <s RR_BudgetTokens r
      then FormatInt (sint (maxInt64 0 (RR_BudgetTokens r - usedTokens))) @ '' tokens''
      else ''unlimited tokens'') @
     (if flt fzero (RR_BudgetDollars r)
      then '', $'' @ FormatF 4 (maxFloat fzero (fsub (RR_BudgetDollars r) (RR_UsageDollars r))) else '''') @
     (if 0 <s RR_BudgetLoops r
      then '', '' @ FormatInt (sint (maxInt64 0 (scast (RR_BudgetLoops r) - scast (RR_UsageLoops r)))) @ '' loops''
      else '''')"

definition resume_terminal :: "string \<Rightarrow> bool" where
  "resume_terminal status \<longleftrightarrow> status \<in> {''completed'', ''halted'', ''cancelled'', ''failed''}"

definition terminal_text :: "string \<Rightarrow> run_record \<Rightarrow> string" where
  "terminal_text runID run = line_of (''run '' @ runID @ '' is '' @ RR_Status run @
     '' and cannot be resumed (halt: '' @ dash (RR_HaltReason run) @ '')'')"

definition resumable_text :: "string \<Rightarrow> run_record \<Rightarrow> string" where
  "resumable_text runID run =
     (let usedTokens = RR_UsagePromptTokens run + RR_UsageCompletionTokens run
      in line_of (''run '' @ runID @ '' ('' @ dash (RR_Name run) @ '') is resumable'') @
         line_of (''  spent so far : '' @ FormatInt (sint usedTokens) @ '' tokens, $'' @
           FormatF 4 (RR_UsageDollars run) @ '', '' @ FormatInt (sint (RR_UsageLoops run)) @ '' loops'') @
         line_of (''  budget       : '' @ budgetSummary run) @
         line_of (''  remaining    : '' @ remainingSummary run usedTokens))"

definition checkpoint_text :: "cli_world \<Rightarrow> checkpoint_record \<Rightarrow> string" where
  "checkpoint_text w cp =
     line_of (''  last step    : '' @ FormatInt (sint (CP_StepIndex cp)) @ '' (checkpoint at '' @
       clock_text (CP_CreatedAt cp) @ '')'') @
     (if CP_Payload cp \<noteq> [] then line_of (''  payload      : '' @ CW_payload w (CP_Payload cp)) else '''')"

definition resume_hint :: string where
  "resume_hint = line_feed @ line_of (''Start the daemon (riskkernel serve) and reuse this run id; '' @
     ''enforcement continues from the state above.'')"

definition runsResume :: "cli_world \<Rightarrow> string \<Rightarrow> cli_result" where
  "runsResume w runID = with_store w (ask (CliRun runID) (GetRun runID) (\<lambda>run d.
     if resume_terminal (RR_Status run) then cli_print (terminal_text runID run)
     else cli_print (resumable_text runID run @
       (case snd (LatestCheckpoint runID d) of Inl _ \<Rightarrow> '''' | Inr cp \<Rightarrow> checkpoint_text w cp) @
       resume_hint)))"

definition runRuns :: "cli_world \<Rightarrow> string list \<Rightarrow> cli_result" where
  "runRuns w args =
     (case args of
        [] \<Rightarrow> usage_error ''runs <list|resume <id>>''
      | sub # rest \<Rightarrow>
          if sub = ''list'' then runsList w
          else if sub = ''resume'' then
            (case rest of [] \<Rightarrow> usage_error ''runs resume <id>'' | rid # _ \<Rightarrow> runsResume w rid)
          else cli_fail (''unknown runs subcommand '' @ quoted sub @ '' (want list|resume)''))"

section \<open>Audit\<close>

definition errAuditRunID :: "string \<Rightarrow> cli_result" where
  "errAuditRunID sub = usage_error (''audit '' @ sub @ '' <run-id>'')"

text \<open>The flags of \<open>audit summary\<close>, as the loop has them: the last value of a flag stays.\<close>

record summary_flags =
  SF_by :: string
  SF_since :: string
  SF_until :: string
  SF_json :: bool

definition no_flags :: summary_flags where
  "no_flags = \<lparr>SF_by = '''', SF_since = '''', SF_until = '''', SF_json = False\<rparr>"

definition needs_value :: "string \<Rightarrow> string" where
  "needs_value flag =
     flag @ '' requires a value ('' @
       (if flag = ''--by'' then ''provider|model|day|name|metadata.<key>'' else ''RFC3339 or YYYY-MM-DD'') @ '')''"

definition set_flag :: "string \<Rightarrow> string \<Rightarrow> summary_flags \<Rightarrow> summary_flags" where
  "set_flag flag v f =
     (if flag = ''--by'' then f\<lparr>SF_by := v\<rparr> else if flag = ''--since'' then f\<lparr>SF_since := v\<rparr>
      else f\<lparr>SF_until := v\<rparr>)"

fun summary_args :: "string list \<Rightarrow> summary_flags \<Rightarrow> string + summary_flags" where
  "summary_args [] f = Inr f"
| "summary_args (a # as) f =
     (if a \<in> {''--by'', ''--since'', ''--until''} then
        (case as of [] \<Rightarrow> Inl (needs_value a) | v # rest \<Rightarrow> summary_args rest (set_flag a v f))
      else if a = ''--json'' then summary_args as (f\<lparr>SF_json := True\<rparr>)
      else Inl (''unknown flag '' @ quoted a @ '' for audit summary''))"

definition time_flag :: "string \<Rightarrow> string \<Rightarrow> string + time option" where
  "time_flag flag v =
     (if v = '''' then Inr None
      else (case parseTimeFlag v of Inl e \<Rightarrow> Inl (flag @ '': '' @ e) | Inr t \<Rightarrow> Inr (Some t)))"

definition summaryHeader :: "string \<Rightarrow> string" where
  "summaryHeader grouping = ToUpper (if HasPrefix grouping ''metadata.'' then drop (length ''metadata.'') grouping else grouping)"

definition summary_row :: "string \<Rightarrow> usage_group \<Rightarrow> string list" where
  "summary_row key g =
     [key, FormatInt (sint (UG_Calls g)), FormatInt (sint (UG_PromptTokens g)),
      FormatInt (sint (UG_CompletionTokens g)), FormatF 6 (UG_Dollars g)]"

definition summary_table :: "string \<Rightarrow> usage_summary \<Rightarrow> string list list" where
  "summary_table grouping us =
     [summaryHeader grouping, ''CALLS'', ''PROMPT'', ''COMPLETION'', ''DOLLARS''] #
     map (\<lambda>g. summary_row (UG_Key g) g) (US_Groups us) @ [summary_row ''TOTAL'' (US_Total us)]"

definition auditSummary :: "cli_world \<Rightarrow> string list \<Rightarrow> cli_result" where
  "auditSummary w args =
     (case summary_args args no_flags of
        Inl e \<Rightarrow> cli_fail e
      | Inr f \<Rightarrow>
          if SF_by f = '''' then
            usage_error (''audit summary --by <provider|model|day|name|metadata.<key>> '' @
              ''[--since T] [--until T] [--json]'')
          else (case time_flag ''--since'' (SF_since f) of
              Inl e \<Rightarrow> cli_fail e
            | Inr since \<Rightarrow>
                (case time_flag ''--until'' (SF_until f) of
                   Inl e \<Rightarrow> cli_fail e
                 | Inr until \<Rightarrow>
                     with_store w (ask CliStore
                       (SummarizeLedger (CW_sum w) \<lparr>SO_By = SF_by f, SO_Since = since, SO_Until = until\<rparr>)
                       (\<lambda>us _. if SF_json f then print_json w (SummaryDoc us)
                                else cli_print (table_text (summary_table (SF_by f) us)))))))"

definition auditCompliance :: "cli_world \<Rightarrow> string \<Rightarrow> cli_result" where
  "auditCompliance w runID = with_store w
     (ask (CliRun runID) (GetRun runID) (\<lambda>run.
      ask CliStore (LedgerForRun runID) (\<lambda>ledger.
      ask CliStore (Totals (CW_sum w) runID) (\<lambda>totals.
      ask CliStore (ListToolCalls runID) (\<lambda>toolCalls.
      ask CliStore (ListApprovals '''') (\<lambda>all _.
        print_json w (ComplianceDoc (BuildReport (CW_digest w) (CW_marshal w)
          \<lparr>AD_Run = run, AD_Ledger = ledger, AD_Totals = totals, AD_ToolCalls = toolCalls,
           AD_Approvals = filter (\<lambda>a. AR_RunID a = runID) all\<rparr> (CW_now w)))))))))"

definition toolCallJSON :: "tool_call_record \<Rightarrow> tool_call_json" where
  "toolCallJSON c =
     \<lparr>TJ_ID = TC_ID c, TJ_RunID = TC_RunID c, TJ_StepIndex = TC_StepIndex c, TJ_Tool = TC_Tool c,
      TJ_SideEffect = TC_SideEffect c, TJ_Arguments = TC_Arguments c, TJ_Status = TC_Status c,
      TJ_CreatedAt = TC_CreatedAt c\<rparr>"

definition toolCallJSONSlice :: "tool_call_record list \<Rightarrow> tool_call_json list" where
  "toolCallJSONSlice calls = map toolCallJSON calls"

definition auditExport :: "cli_world \<Rightarrow> string \<Rightarrow> cli_result" where
  "auditExport w runID = with_store w
     (ask (CliRun runID) (GetRun runID) (\<lambda>_.
      ask CliStore (LedgerForRun runID) (\<lambda>ledger.
      ask CliStore (Totals (CW_sum w) runID) (\<lambda>totals.
      ask CliStore (ListToolCalls runID) (\<lambda>toolCalls _.
        print_json w (ExportDoc runID totals ledger (toolCallJSONSlice toolCalls)))))))"

definition auditTools :: "cli_world \<Rightarrow> string \<Rightarrow> cli_result" where
  "auditTools w runID = with_store w
     (ask (CliRun runID) (GetRun runID) (\<lambda>_.
      ask CliStore (ListToolCalls runID) (\<lambda>toolCalls _.
        print_json w (ToolsDoc runID (toolCallJSONSlice toolCalls)))))"

definition runAudit :: "cli_world \<Rightarrow> string list \<Rightarrow> cli_result" where
  "runAudit w args =
     (case args of
        [] \<Rightarrow> usage_error ''audit <export|tools|compliance|summary> ...''
      | sub # rest \<Rightarrow>
          let with_run = (\<lambda>cmd. case rest of [] \<Rightarrow> errAuditRunID sub | rid # _ \<Rightarrow> cmd rid)
          in if sub = ''export'' then with_run (auditExport w)
             else if sub = ''tools'' then with_run (auditTools w)
             else if sub = ''compliance'' then with_run (auditCompliance w)
             else if sub = ''summary'' then auditSummary w rest
             else cli_fail (''unknown audit subcommand '' @ quoted sub @
               '' (want export|tools|compliance|summary)''))"

section \<open>Policy files\<close>

definition check_mark :: string where "check_mark = [CHR 0xE2, CHR 0x9C, CHR 0x93]"
definition cross_mark :: string where "cross_mark = [CHR 0xE2, CHR 0x9C, CHR 0x97]"
definition warning_sign :: string where "warning_sign = [CHR 0xE2, CHR 0x9A, CHR 0xA0]"
definition pause_sign :: string where "pause_sign = [CHR 0xE2, CHR 0x8F, CHR 0xB8]"
definition bullet_dot :: string where "bullet_dot = [CHR 0xE2, CHR 0x80, CHR 0xA2]"
definition middle_dot :: string where "middle_dot = [CHR 0xC2, CHR 0xB7]"
definition em_dash :: string where "em_dash = [CHR 0xE2, CHR 0x80, CHR 0x94]"
definition at_least_sign :: string where "at_least_sign = [CHR 0xE2, CHR 0x89, CHR 0xA5]"

definition bundle_line :: "policy_bundle \<Rightarrow> string" where
  "bundle_line b =
     (let y = BN_Budget b
      in line_of (''  '' @ bullet_dot @ '' '' @ BN_Name b @ ''  (budget: $'' @ FormatF 2 (YB_Dollars y) @ '' / '' @
           FormatInt (sint (YB_Loops y)) @ '' loops / '' @ FormatInt (sint (YB_Tokens y)) @ '' tokens / '' @
           FormatInt (sint (YB_Seconds y)) @ ''s '' @ middle_dot @ '' allowlist: '' @
           FormatInt (int (length (BN_ToolAllowlist b))) @ '' '' @ middle_dot @ '' approval rules: '' @
           FormatInt (int (length (BN_RequireFor b))) @ '')''))"

definition cli_policy_Load :: "cli_world \<Rightarrow> string \<Rightarrow> policy_error + policy_file" where
  "cli_policy_Load w path = policy_Load (BW_readFile (CW_boot w)) (BW_policies (CW_boot w)) path"

definition policyValidate :: "cli_world \<Rightarrow> string list \<Rightarrow> cli_result" where
  "policyValidate w args =
     (case args of
        [] \<Rightarrow> usage_error ''policy validate <file>''
      | path # _ \<Rightarrow>
          (case cli_policy_Load w path of
             Inl e \<Rightarrow> ('''', Some (CliPolicy e))
           | Inr f \<Rightarrow>
               cli_print (line_of (check_mark @ '' '' @ path @ '' '' @ em_dash @ '' '' @
                   FormatInt (int (length (PF_Policies f))) @ '' policy bundle(s), schemaVersion '' @
                   FormatInt (PF_SchemaVersion f)) @
                 concat (map bundle_line (PF_Policies f)))))"

text \<open>The dimension that would have halted the run, in words (\<open>BudgetDetail\<close>).\<close>

definition budget_detail :: "yaml_budget \<Rightarrow> run_data \<Rightarrow> string" where
  "budget_detail b d =
     (let tokens = LT_PromptTokens (RD_Totals d) + LT_CompletionTokens (RD_Totals d) in
      if flt fzero (YB_Dollars b) \<and> fle (YB_Dollars b) (LT_Dollars (RD_Totals d))
        then ''$'' @ FormatF 4 (LT_Dollars (RD_Totals d)) @ '' spent '' @ at_least_sign @ '' $'' @
             FormatF 2 (YB_Dollars b) @ '' budget''
      else if 0 <s YB_Tokens b \<and> YB_Tokens b \<le>s tokens
        then FormatInt (sint tokens) @ '' tokens '' @ at_least_sign @ '' '' @ FormatInt (sint (YB_Tokens b)) @ '' budget''
      else if 0 <s YB_Loops b \<and> YB_Loops b <s RR_UsageLoops (RD_Run d)
        then FormatInt (sint (RR_UsageLoops (RD_Run d))) @ '' loops > '' @ FormatInt (sint (YB_Loops b)) @ '' budget''
      else '''')"

definition blocked_line :: "tool_call_record \<Rightarrow> string" where
  "blocked_line c = line_of (''      '' @ cross_mark @ '' step '' @ FormatInt (sint (TC_StepIndex c)) @ ''  '' @ TC_Tool c)"

definition gated_line :: "tool_call_record \<Rightarrow> string" where
  "gated_line c = line_of (''      '' @ pause_sign @ '' step '' @ FormatInt (sint (TC_StepIndex c)) @ ''  '' @ TC_Tool c @
     (if TC_SideEffect c \<noteq> '''' then '' ('' @ TC_SideEffect c @ '')'' else ''''))"

definition report_String :: "report \<Rightarrow> string \<Rightarrow> string" where
  "report_String r detail =
     (let of_total = (\<lambda>calls. FormatInt (int (length calls)) @ '' of '' @ FormatInt (int (RP_TotalCalls r)))
      in line_of (''Dry-run: policy '' @ quoted (RP_Policy r) @ '' vs run '' @ RP_RunID r) @
         (if RP_BudgetHalt r \<noteq> ''''
          then line_of (''  budget:    WOULD HALT '' @ em_dash @ '' '' @ RP_BudgetHalt r @ '' ('' @ detail @ '')'')
          else line_of ''  budget:    within budget'') @
         line_of (''  allowlist: '' @ of_total (RP_BlockedCalls r) @ '' tool calls blocked'') @
         concat (map blocked_line (RP_BlockedCalls r)) @
         line_of (''  approval:  '' @ of_total (RP_GatedCalls r) @ '' tool calls would require sign-off'') @
         concat (map gated_line (RP_GatedCalls r)))"

definition chosen_bundle :: "policy_file \<Rightarrow> string \<Rightarrow> string \<Rightarrow> string list \<Rightarrow> string + policy_bundle" where
  "chosen_bundle f path runID names =
     (case names of
        name # _ \<Rightarrow>
          (case file_Bundle f name of
             None \<Rightarrow> Inl (''no policy named '' @ quoted name @ '' in '' @ path) | Some b \<Rightarrow> Inr b)
      | [] \<Rightarrow>
          (case PF_Policies f of
             [b] \<Rightarrow> Inr b
           | ps \<Rightarrow> Inl (path @ '' has '' @ FormatInt (int (length ps)) @
               '' policies; name one: riskkernel policy dry-run '' @ path @ '' '' @ runID @ '' <policy-name>'')))"

definition policyDryRun :: "cli_world \<Rightarrow> string list \<Rightarrow> cli_result" where
  "policyDryRun w args =
     (case args of
        path # runID # names \<Rightarrow>
          (case cli_policy_Load w path of
             Inl e \<Rightarrow> ('''', Some (CliPolicy e))
           | Inr f \<Rightarrow>
               (case chosen_bundle f path runID names of
                  Inl e \<Rightarrow> cli_fail e
                | Inr b \<Rightarrow> with_store w
                    (ask (CliRun runID) (GetRun runID) (\<lambda>run.
                     ask CliStore (Totals (CW_sum w) runID) (\<lambda>totals.
                     ask CliStore (ListToolCalls runID) (\<lambda>toolCalls _.
                       let d = \<lparr>RD_Run = run, RD_Totals = totals, RD_ToolCalls = toolCalls\<rparr>
                       in cli_print (report_String (DryRun b d) (budget_detail (BN_Budget b) d))))))))
      | _ \<Rightarrow> usage_error ''policy dry-run <file> <run-id> [policy-name]'')"

definition runPolicyCmd :: "cli_world \<Rightarrow> string list \<Rightarrow> cli_result" where
  "runPolicyCmd w args =
     (case args of
        [] \<Rightarrow> usage_error ''policy <validate <file> | dry-run <file> <run-id> [policy-name]>''
      | sub # rest \<Rightarrow>
          if sub = ''validate'' then policyValidate w rest
          else if sub = ''dry-run'' \<or> sub = ''dryrun'' then policyDryRun w rest
          else cli_fail (''unknown policy subcommand '' @ quoted sub @ '' (want validate|dry-run)''))"

section \<open>Memory\<close>

definition runMemory :: "cli_world \<Rightarrow> string list \<Rightarrow> cli_result" where
  "runMemory w args =
     (case args of
        [] \<Rightarrow> usage_error ''memory <list [namespace] | show <name> [namespace]>''
      | sub # rest \<Rightarrow>
          (case load_config w of
             Inl e \<Rightarrow> ('''', Some (CliConfig e))
           | Inr cfg \<Rightarrow>
               let root = NewReader (BW_cwd (CW_boot w)) (MM_Dir (C_Memory cfg))
               in if sub = ''list'' then
                    (case memory_List (CW_files w) root (case rest of [] \<Rightarrow> '''' | ns # _ \<Rightarrow> ns) of
                       Inl e \<Rightarrow> ('''', Some (CliMemory e))
                     | Inr entries \<Rightarrow>
                         if entries = [] then cli_print (line_of (''no memory entries under '' @ root))
                         else cli_print (table_text ([''NAME'', ''FORMAT'', ''TITLE''] #
                                map (\<lambda>e. [ME_Name e, ME_Format e, ME_Title e]) entries)))
                  else if sub = ''show'' then
                    (case rest of
                       [] \<Rightarrow> usage_error ''memory show <name> [namespace]''
                     | name # names \<Rightarrow>
                         (case memory_Read (CW_files w) root (case names of [] \<Rightarrow> '''' | ns # _ \<Rightarrow> ns) name of
                            Inl e \<Rightarrow> ('''', Some (CliMemory e))
                          | Inr (content, _) \<Rightarrow>
                              cli_print (content @ (if content \<noteq> '''' \<and> last content \<noteq> CHR 0x0A then line_feed else ''''))))
                  else cli_fail (''unknown memory subcommand '' @ quoted sub @ '' (want list|show)'')))"

end
