(* ===== verification/CliDaemon.thy ===== *)
theory CliDaemon
  imports CliStore
begin

text \<open>
  The commands that talk to the running daemon (\<open>cmd/riskkernel/approvals.go\<close>,
  \<open>healthcheck.go\<close>) and the one that checks a setup (\<open>doctor.go\<close>). The daemon is whatever
  answers HTTP on its port: a function of the request and of its own state. The file system
  is a map from paths to contents; which operations on it fail is an argument.
\<close>

section \<open>The daemon on the other end\<close>

record client_request =
  CQ_Method :: string
  CQ_URL :: string
  CQ_Header :: header
  CQ_Body :: "string option"

record approval_item =
  IT_ID :: string
  IT_RunID :: string
  IT_StepIndex :: int
  IT_Tool :: string
  IT_SideEffect :: string
  IT_CreatedAt :: string

text \<open>
  \<open>CN_url\<close> is the error of \<open>http.NewRequest\<close> for a URL, \<open>CN_do\<close> the exchange (a body cut
  short is the bytes that came), \<open>CN_items\<close> and \<open>CN_marshal\<close> are package json.
\<close>

record 'd daemon =
  CN_url :: "string \<Rightarrow> string option"
  CN_do :: "client_request \<Rightarrow> 'd \<Rightarrow> 'd \<times> do_result"
  CN_items :: "string \<Rightarrow> string + approval_item list"
  CN_marshal :: "(string \<times> string) list \<Rightarrow> string"

record daemon_client =
  DC_base :: string
  DC_token :: string

definition newDaemonClient :: "cli_world \<Rightarrow> config_error + daemon_client" where
  "newDaemonClient w =
     (case load_config w of
        Inl e \<Rightarrow> Inl e
      | Inr cfg \<Rightarrow> Inr \<lparr>DC_base = ''http://localhost:'' @ FormatInt (C_Port cfg), DC_token = C_APIToken cfg\<rparr>)"

definition client_request_of :: "daemon_client \<Rightarrow> string \<Rightarrow> string \<Rightarrow> string option \<Rightarrow> client_request" where
  "client_request_of c meth path payload =
     \<lparr>CQ_Method = meth, CQ_URL = DC_base c @ path,
      CQ_Header = set_headers ((if payload \<noteq> None then [(''content-type'', ''application/json'')] else []) @
        (if DC_token c \<noteq> '''' then [(''Authorization'', ''Bearer '' @ DC_token c)] else [])),
      CQ_Body = payload\<rparr>"

definition cannot_reach :: "daemon_client \<Rightarrow> string \<Rightarrow> string" where
  "cannot_reach c e = ''cannot reach daemon at '' @ DC_base c @ '' (is '' @ backquoted ''riskkernel serve'' @ '' running?): '' @ e"

definition client_do ::
    "'d daemon \<Rightarrow> daemon_client \<Rightarrow> string \<Rightarrow> string \<Rightarrow> string option \<Rightarrow> 'd \<Rightarrow> 'd \<times> (string + string)" where
  "client_do n c meth path payload s =
     (case CN_url n (DC_base c @ path) of
        Some e \<Rightarrow> (s, Inl e)
      | None \<Rightarrow>
          (case CN_do n (client_request_of c meth path payload) s of
             (s', DoError e _) \<Rightarrow> (s', Inl (cannot_reach c e))
           | (s', Answered resp) \<Rightarrow>
               (s', if 300 \<le> UP_Status resp
                    then Inl (''daemon returned '' @ FormatInt (UP_Status resp) @ '': '' @ UP_Body resp)
                    else Inr (UP_Body resp))))"

definition getItems :: "'d daemon \<Rightarrow> daemon_client \<Rightarrow> 'd \<Rightarrow> 'd \<times> (string + approval_item list)" where
  "getItems n c s =
     (case client_do n c ''GET'' ''/v1/approvals?status=pending'' None s of
        (s', Inl e) \<Rightarrow> (s', Inl e)
      | (s', Inr raw) \<Rightarrow> (s', CN_items n raw))"

section \<open>Approvals\<close>

definition item_row :: "approval_item \<Rightarrow> string list" where
  "item_row a = [IT_ID a, IT_RunID a, FormatInt (IT_StepIndex a), IT_Tool a, dash (IT_SideEffect a), IT_CreatedAt a]"

definition approvalsList :: "cli_world \<Rightarrow> 'd daemon \<Rightarrow> 'd \<Rightarrow> 'd \<times> cli_result" where
  "approvalsList w n s =
     (case newDaemonClient w of
        Inl e \<Rightarrow> (s, ('''', Some (CliConfig e)))
      | Inr c \<Rightarrow>
          (case getItems n c s of
             (s', Inl e) \<Rightarrow> (s', cli_fail e)
           | (s', Inr items) \<Rightarrow>
               (s', if items = [] then cli_print (line_of ''no pending approvals'')
                    else cli_print (table_text ([''ID'', ''RUN'', ''STEP'', ''TOOL'', ''SIDE EFFECT'', ''CREATED''] #
                           map item_row items)))))"

text \<open>The run of the first item with the id, the empty string without one.\<close>

definition run_of_item :: "string \<Rightarrow> approval_item list \<Rightarrow> string" where
  "run_of_item aid items = (case find (\<lambda>a. IT_ID a = aid) items of None \<Rightarrow> '''' | Some a \<Rightarrow> IT_RunID a)"

definition decision_word :: "bool \<Rightarrow> string" where
  "decision_word approve = (if approve then ''approve'' else ''deny'')"

definition decision_fields :: "string \<Rightarrow> bool \<Rightarrow> string \<Rightarrow> (string \<times> string) list" where
  "decision_fields aid approve reason =
     [(''approvalId'', aid), (''decision'', decision_word approve), (''reason'', reason), (''decidedBy'', ''cli'')]"

definition approve_path :: "string \<Rightarrow> string" where
  "approve_path runID = ''/v1/runs/'' @ runID @ ''/approve''"

definition approvalsResolve :: "cli_world \<Rightarrow> 'd daemon \<Rightarrow> string \<Rightarrow> bool \<Rightarrow> string \<Rightarrow> 'd \<Rightarrow> 'd \<times> cli_result" where
  "approvalsResolve w n aid approve reason s =
     (case newDaemonClient w of
        Inl e \<Rightarrow> (s, ('''', Some (CliConfig e)))
      | Inr c \<Rightarrow>
          (case getItems n c s of
             (s1, Inl e) \<Rightarrow> (s1, cli_fail e)
           | (s1, Inr items) \<Rightarrow>
               (let runID = run_of_item aid items in
                if runID = '''' then (s1, cli_fail (''no pending approval with id '' @ aid))
                else (case client_do n c ''POST'' (approve_path runID)
                             (Some (CN_marshal n (decision_fields aid approve reason))) s1 of
                    (s2, Inl e) \<Rightarrow> (s2, cli_fail e)
                  | (s2, Inr _) \<Rightarrow> (s2, cli_print (line_of (decision_word approve @ ''d approval '' @ aid)))))))"

fun flagValue :: "string list \<Rightarrow> string \<Rightarrow> string" where
  "flagValue (a # b # rest) name = (if a = name then b else flagValue (b # rest) name)"
| "flagValue _ name = ''''"

definition runApprovals :: "cli_world \<Rightarrow> 'd daemon \<Rightarrow> string list \<Rightarrow> 'd \<Rightarrow> 'd \<times> cli_result" where
  "runApprovals w n args s =
     (case args of
        [] \<Rightarrow> (s, usage_error ''approvals <list | approve <id> | deny <id>>'')
      | sub # rest \<Rightarrow>
          if sub = ''list'' then approvalsList w n s
          else if sub = ''approve'' \<or> sub = ''deny'' then
            (case rest of
               [] \<Rightarrow> (s, usage_error (''approvals '' @ sub @ '' <id> [--reason <text>]''))
             | aid # flags \<Rightarrow> approvalsResolve w n aid (sub = ''approve'') (flagValue flags ''--reason'') s)
          else (s, cli_fail (''unknown approvals subcommand '' @ quoted sub @ '' (want list|approve|deny)'')))"

section \<open>Health\<close>

definition bare_get :: "'d daemon \<Rightarrow> string \<Rightarrow> 'd \<Rightarrow> 'd \<times> (string + int)" where
  "bare_get n url s =
     (case CN_do n \<lparr>CQ_Method = ''GET'', CQ_URL = url, CQ_Header = [], CQ_Body = None\<rparr> s of
        (s', DoError e _) \<Rightarrow> (s', Inl e)
      | (s', Answered resp) \<Rightarrow> (s', Inr (UP_Status resp)))"

definition runHealthcheck :: "cli_world \<Rightarrow> 'd daemon \<Rightarrow> 'd \<Rightarrow> 'd \<times> cli_result" where
  "runHealthcheck w n s =
     (case load_config w of
        Inl e \<Rightarrow> (s, ('''', Some (CliConfig e)))
      | Inr cfg \<Rightarrow>
          (case bare_get n (''http://127.0.0.1:'' @ FormatInt (C_Port cfg) @ ''/healthz'') s of
             (s', Inl e) \<Rightarrow> (s', cli_fail (''healthcheck: '' @ e))
           | (s', Inr status) \<Rightarrow>
               (s', if status \<noteq> 200
                    then cli_fail (''healthcheck: unhealthy (status '' @ FormatInt status @ '')'')
                    else cli_print '''')))"

section \<open>Files\<close>

text \<open>
  \<open>DW_stat\<close> is an error of \<open>Stat\<close> other than not-exists; \<open>DW_write\<close> an error of \<open>WriteFile\<close>
  and what the file holds then, if anything was written.
\<close>

type_synonym disk = "string \<Rightarrow> string option"

record disk_world =
  DW_mkdir :: "string \<Rightarrow> string option"
  DW_stat :: "string \<Rightarrow> string option"
  DW_write :: "string \<Rightarrow> (string \<times> string option) option"
  DW_remove :: "string \<Rightarrow> bool"

datatype stat_result = Present | Missing | StatFails string

definition os_Stat :: "disk_world \<Rightarrow> string \<Rightarrow> disk \<Rightarrow> stat_result" where
  "os_Stat w p fs =
     (case DW_stat w p of Some e \<Rightarrow> StatFails e | None \<Rightarrow> if fs p = None then Missing else Present)"

definition os_WriteFile :: "disk_world \<Rightarrow> string \<Rightarrow> string \<Rightarrow> disk \<Rightarrow> disk \<times> string option" where
  "os_WriteFile w p content fs =
     (case DW_write w p of
        None \<Rightarrow> (fs(p \<mapsto> content), None)
      | Some (e, None) \<Rightarrow> (fs, Some e)
      | Some (e, Some part) \<Rightarrow> (fs(p \<mapsto> part), Some e))"

definition os_Remove :: "disk_world \<Rightarrow> string \<Rightarrow> disk \<Rightarrow> disk" where
  "os_Remove w p fs = (if DW_remove w p then fs(p := None) else fs)"

section \<open>Doctor\<close>

datatype diag_status = DiagOK | DiagWarn | DiagFail

record diagnosis =
  DG_Name :: string
  DG_Status :: diag_status
  DG_Detail :: string

definition diagnosed :: "string \<Rightarrow> diag_status \<Rightarrow> string \<Rightarrow> diagnosis" where
  "diagnosed name status detail = \<lparr>DG_Name = name, DG_Status = status, DG_Detail = detail\<rparr>"

definition checkDataDir :: "disk_world \<Rightarrow> config \<Rightarrow> disk \<Rightarrow> disk \<times> diagnosis" where
  "checkDataDir dw cfg fs =
     (let name = ''data dir ('' @ C_DataDir cfg @ '')'' in
      case DW_mkdir dw (C_DataDir cfg) of
        Some e \<Rightarrow> (fs, diagnosed name DiagFail (''not creatable: '' @ e))
      | None \<Rightarrow>
          (let probe = Join2 (C_DataDir cfg) ''.doctor-write-probe'' in
           case os_WriteFile dw probe ''ok'' fs of
             (fs', Some e) \<Rightarrow> (fs', diagnosed name DiagFail (''not writable: '' @ e))
           | (fs', None) \<Rightarrow> (os_Remove dw probe fs', diagnosed name DiagOK ''writable'')))"

definition fails_detail :: "string \<Rightarrow> string" where
  "fails_detail var = var @ '' not set '' @ em_dash @ '' model calls will fail''"

definition checkProvider :: "config \<Rightarrow> diagnosis" where
  "checkProvider cfg =
     (let p = C_DefaultProvider cfg; name = ''default provider ('' @ p @ '')'' in
      if p = ''anthropic'' then
        (if C_AnthropicAPIKey cfg = '''' then diagnosed name DiagWarn (fails_detail ''ANTHROPIC_API_KEY'')
         else diagnosed name DiagOK ''ANTHROPIC_API_KEY set'')
      else if p = ''openai'' then
        (if C_OpenAIAPIKey cfg = '''' then diagnosed name DiagWarn (fails_detail ''OPENAI_API_KEY'')
         else diagnosed name DiagOK ''OPENAI_API_KEY set'')
      else if p = ''ollama'' then diagnosed name DiagOK ''key-free (local); ensure Ollama is running''
      else if p = ''bedrock'' then
        diagnosed name DiagWarn (''bedrock is a stub '' @ em_dash @ '' model calls return not-implemented'')
      else diagnosed name DiagFail ''unknown provider'')"

definition checkBudget :: "config \<Rightarrow> diagnosis" where
  "checkBudget cfg =
     (let b = C_DefaultBudget cfg in
      if BC_Defaulted b then diagnosed ''default budget'' DiagOK ''safe defaults applied (no RISKKERNEL_DEFAULT_* set)''
      else if BC_Tokens b = 0 \<and> BC_Dollars b = fzero \<and> BC_Loops b = 0 \<and> BC_Seconds b = 0
      then diagnosed ''default budget'' DiagWarn (''explicitly unlimited '' @ em_dash @ '' runs have no default ceiling'')
      else diagnosed ''default budget'' DiagOK
        (''$'' @ FormatF 2 (BC_Dollars b) @ '' / '' @ FormatInt (sint (BC_Loops b)) @ '' loops / '' @
         FormatInt (sint (BC_Tokens b)) @ '' tokens / '' @ FormatInt (sint (BC_Seconds b)) @ ''s''))"

definition checkAPIToken :: "config \<Rightarrow> diagnosis" where
  "checkAPIToken cfg =
     (if C_APIToken cfg = ''''
      then diagnosed ''api token'' DiagWarn (''RISKKERNEL_API_TOKEN not set '' @ em_dash @
        '' the API is unauthenticated; don'' @ [CHR 0x27] @ ''t expose this port'')
      else diagnosed ''api token'' DiagOK ''set'')"

text \<open>\<open>text\<close> renders the error of \<open>policy.Load\<close>.\<close>

definition checkPolicyFile :: "cli_world \<Rightarrow> (policy_error \<Rightarrow> string) \<Rightarrow> config \<Rightarrow> diagnosis" where
  "checkPolicyFile w message cfg =
     (if C_PolicyFile cfg = '''' then diagnosed ''policy file'' DiagOK ''none configured (RISKKERNEL_POLICY_FILE unset)''
      else (let name = ''policy file ('' @ C_PolicyFile cfg @ '')'' in
        case cli_policy_Load w (C_PolicyFile cfg) of
          Inl e \<Rightarrow> diagnosed name DiagFail (message e)
        | Inr f \<Rightarrow> diagnosed name DiagOK (''valid '' @ em_dash @ '' '' @ FormatInt (int (length (PF_Policies f))) @ '' bundle(s)'')))"

definition checkDaemon :: "'d daemon \<Rightarrow> config \<Rightarrow> 'd \<Rightarrow> 'd \<times> diagnosis" where
  "checkDaemon n cfg s =
     (let name = ''daemon (:'' @ FormatInt (C_Port cfg) @ '')'' in
      case bare_get n (''http://localhost:'' @ FormatInt (C_Port cfg) @ ''/healthz'') s of
        (s', Inl e) \<Rightarrow> (s', diagnosed name DiagWarn
           (''not reachable (start it with '' @ backquoted ''riskkernel serve'' @ '')''))
      | (s', Inr status) \<Rightarrow>
          (s', if status = 200 then diagnosed name DiagOK ''responding on /healthz''
               else diagnosed name DiagWarn (''unexpected /healthz status '' @ FormatInt status)))"

definition diagnose :: "cli_world \<Rightarrow> disk_world \<Rightarrow> (policy_error \<Rightarrow> string) \<Rightarrow> config \<Rightarrow> disk \<Rightarrow> disk \<times> diagnosis list" where
  "diagnose w dw message cfg fs =
     (let (fs', d) = checkDataDir dw cfg fs
      in (fs', [d, checkProvider cfg, checkBudget cfg, checkAPIToken cfg, checkPolicyFile w message cfg]))"

definition diagSymbol :: "diag_status \<Rightarrow> string" where
  "diagSymbol st = (case st of DiagOK \<Rightarrow> check_mark | DiagWarn \<Rightarrow> warning_sign | DiagFail \<Rightarrow> cross_mark)"

definition detailSuffix :: "string \<Rightarrow> string" where
  "detailSuffix detail = (if detail = '''' then '''' else ''  '' @ em_dash @ '' '' @ detail)"

definition diagnosis_line :: "diagnosis \<Rightarrow> string" where
  "diagnosis_line d = line_of (diagSymbol (DG_Status d) @ '' '' @ DG_Name d @ detailSuffix (DG_Detail d))"

definition failed_checks :: "diagnosis list \<Rightarrow> nat" where
  "failed_checks ds = length (filter (\<lambda>d. DG_Status d = DiagFail) ds)"

definition runDoctor ::
    "cli_world \<Rightarrow> disk_world \<Rightarrow> (config_error \<Rightarrow> string) \<Rightarrow> (policy_error \<Rightarrow> string) \<Rightarrow> 'd daemon \<Rightarrow>
     disk \<Rightarrow> 'd \<Rightarrow> disk \<times> 'd \<times> cli_result" where
  "runDoctor w dw cmsg pmsg n fs s =
     (case load_config w of
        Inl e \<Rightarrow> (fs, s, (line_of (cross_mark @ '' config '' @ em_dash @ '' could not load configuration: '' @ cmsg e),
                        Some (CliText ''configuration failed to load'')))
      | Inr cfg \<Rightarrow>
          (let (fs', ds) = diagnose w dw pmsg cfg fs;
               (s', d) = checkDaemon n cfg s;
               results = ds @ [d];
               out = concat (map diagnosis_line results) @ line_feed;
               failed = failed_checks results
           in if 0 < failed
              then (fs', s', (out, Some (CliText (FormatInt (int failed) @ '' check(s) failed''))))
              else (fs', s', cli_print (out @ line_of ''setup looks good.''))))"

end
