(* ===== verification/CliMain.thy ===== *)
theory CliMain
  imports CliDaemon
begin

text \<open>
  The program \<open>riskkernel\<close> (\<open>cmd/riskkernel/main.go\<close>, \<open>init.go\<close>, \<open>completion.go\<close> and
  \<open>internal/version\<close>): the dispatch on the first argument with its exit codes, the one-shot
  chat, the scaffolding of a directory, the completion scripts. A command ends the process
  with what it printed, or serves. The embedded templates and the usage text are arguments.
\<close>

section \<open>Version\<close>

record build_info =
  BI_Version :: string
  BI_Commit :: string
  BI_Date :: string

definition version_String :: "build_info \<Rightarrow> string" where
  "version_String b = BI_Version b @ '' (commit '' @ BI_Commit b @ '', built '' @ BI_Date b @ '')''"

definition default_build :: build_info where
  "default_build = \<lparr>BI_Version = ''0.9.1-dev'', BI_Commit = ''unknown'', BI_Date = ''unknown''\<rparr>"

section \<open>Init\<close>

fun scaffold ::
    "disk_world \<Rightarrow> string \<Rightarrow> (string \<times> string) list \<Rightarrow> disk \<Rightarrow> disk \<times> (string + string list \<times> string list)" where
  "scaffold dw dir [] fs = (fs, Inr ([], []))"
| "scaffold dw dir ((name, content) # files) fs =
     (let path = Join2 dir name in
      case os_Stat dw path fs of
        Present \<Rightarrow>
          (case scaffold dw dir files fs of
             (fs', Inl e) \<Rightarrow> (fs', Inl e)
           | (fs', Inr (created, skipped)) \<Rightarrow> (fs', Inr (created, name # skipped)))
      | StatFails e \<Rightarrow> (fs, Inl (''checking '' @ path @ '': '' @ e))
      | Missing \<Rightarrow>
          (case os_WriteFile dw path content fs of
             (fs', Some e) \<Rightarrow> (fs', Inl (''writing '' @ path @ '': '' @ e))
           | (fs', None) \<Rightarrow>
               (case scaffold dw dir files fs' of
                  (fs'', Inl e) \<Rightarrow> (fs'', Inl e)
                | (fs'', Inr (created, skipped)) \<Rightarrow> (fs'', Inr (name # created, skipped)))))"

record templates =
  TM_env :: string
  TM_quickstart :: string
  TM_next :: string

definition init_files :: "templates \<Rightarrow> (string \<times> string) list" where
  "init_files t = [(''.env'', TM_env t), (''quickstart.py'', TM_quickstart t)]"

definition init_dir :: "string list \<Rightarrow> string" where
  "init_dir args = (case args of a # _ \<Rightarrow> if a \<noteq> '''' then a else ''.'' | [] \<Rightarrow> ''.'')"

definition init_report :: "string \<Rightarrow> string list \<Rightarrow> string list \<Rightarrow> string" where
  "init_report dir created skipped =
     concat (map (\<lambda>n. line_of (''  created  '' @ Join2 dir n)) created) @
     concat (map (\<lambda>n. line_of (''  kept     '' @ Join2 dir n @ '' (already present)'')) skipped)"

definition runInit :: "templates \<Rightarrow> disk_world \<Rightarrow> string list \<Rightarrow> disk \<Rightarrow> disk \<times> cli_result" where
  "runInit t dw args fs =
     (let dir = init_dir args in
      case DW_mkdir dw dir of
        Some e \<Rightarrow> (fs, cli_fail (''creating '' @ dir @ '': '' @ e))
      | None \<Rightarrow>
          (case scaffold dw dir (init_files t) fs of
             (fs', Inl e) \<Rightarrow> (fs', cli_fail e)
           | (fs', Inr (created, skipped)) \<Rightarrow> (fs', cli_print (init_report dir created skipped @ TM_next t))))"

section \<open>Chat\<close>

record chat_flags =
  CF_model :: string
  CF_provider :: string
  CF_parts :: "string list"

fun chat_args :: "string list \<Rightarrow> chat_flags \<Rightarrow> string + chat_flags" where
  "chat_args [] f = Inr f"
| "chat_args (a # as) f =
     (if a = ''--model'' then
        (case as of [] \<Rightarrow> Inl ''--model requires a value'' | v # rest \<Rightarrow> chat_args rest (f\<lparr>CF_model := v\<rparr>))
      else if a = ''--provider'' then
        (case as of [] \<Rightarrow> Inl ''--provider requires a value'' | v # rest \<Rightarrow> chat_args rest (f\<lparr>CF_provider := v\<rparr>))
      else chat_args as (f\<lparr>CF_parts := CF_parts f @ [a]\<rparr>))"

definition chat_defaults :: chat_flags where
  "chat_defaults = \<lparr>CF_model = ''claude-sonnet-4-5'', CF_provider = '''', CF_parts = []\<rparr>"

definition chat_request_of :: "string \<Rightarrow> string \<Rightarrow> chat_request" where
  "chat_request_of model prompt =
     \<lparr>CR_Model = model, CR_System = '''', CR_Messages = [\<lparr>CM_Role = RoleUser, CM_Content = prompt\<rparr>],
      CR_MaxTokens = 1024, CR_Temperature = None\<rparr>"

text \<open>What goes to standard error comes second.\<close>

definition chat_summary :: "provider \<Rightarrow> chat_response \<Rightarrow> string" where
  "chat_summary p resp =
     (let u = RS_Usage resp
      in line_feed @ line_of (''['' @ PV_Name p @ ''/'' @ RS_Model resp @ ''] tokens: '' @
           FormatInt (sint (TU_PromptTokens u)) @ '' in + '' @ FormatInt (sint (TU_CompletionTokens u)) @ '' out = '' @
           FormatInt (sint (usage_Total u)) @ ''  finish: '' @ RS_FinishReason resp))"

definition runChat :: "cli_world \<Rightarrow> string list \<Rightarrow> string \<times> string \<times> cli_error option" where
  "runChat w args =
     (let fail = (\<lambda>e. ('''', '''', Some e)) in
      if args = [] then fail (CliText (''usage: riskkernel chat '' @ quoted ''<prompt>'' @
        '' [--model <id>] [--provider <name>]''))
      else (case chat_args args chat_defaults of
          Inl e \<Rightarrow> fail (CliText e)
        | Inr f \<Rightarrow>
            (let prompt = TrimSpace (Join '' '' (CF_parts f)) in
             if prompt = '''' then fail (CliText ''empty prompt'')
             else (case load_config w of
                 Inl e \<Rightarrow> fail (CliConfig e)
               | Inr cfg \<Rightarrow>
                   (case BuildRegistry (CW_boot w) cfg of
                      Inl e \<Rightarrow> fail (CliText e)
                    | Inr reg \<Rightarrow>
                        (case registry_Get reg (CF_provider f) of
                           Inl e \<Rightarrow> fail (CliText e)
                         | Inr p \<Rightarrow>
                             (case PV_Chat p (chat_request_of (CF_model f) prompt) of
                                Inl e \<Rightarrow> fail (CliText e)
                              | Inr resp \<Rightarrow> (line_of (RS_Content resp), chat_summary p resp, None))))))))"

section \<open>Completion\<close>

definition topLevelCommands :: "string list" where
  "topLevelCommands =
     [''init'', ''serve'', ''chat'', ''runs'', ''audit'', ''policy'', ''approvals'', ''memory'', ''doctor'',
      ''healthcheck'', ''version'', ''help'']"

definition subCommands :: "(string \<times> string list) list" where
  "subCommands =
     [(''runs'', [''list'', ''resume'']),
      (''audit'', [''export'', ''tools'', ''compliance'', ''summary'']),
      (''policy'', [''validate'', ''dry-run'']),
      (''approvals'', [''list'', ''approve'', ''deny'']),
      (''memory'', [''list'', ''show''])]"

definition sort_Strings :: "string list \<Rightarrow> string list" where
  "sort_Strings = sort_by text_le"

definition sortedTopLevel :: "string list" where
  "sortedTopLevel = sort_Strings topLevelCommands"

definition sortedSubKeys :: "string list" where
  "sortedSubKeys = sort_Strings (map fst subCommands)"

definition sorted_subs :: "string \<Rightarrow> string list" where
  "sorted_subs cmd = sort_Strings (case map_of subCommands cmd of None \<Rightarrow> [] | Some subs \<Rightarrow> subs)"

definition shells :: "string list" where "shells = [''bash'', ''zsh'', ''fish'']"

definition lines_of :: "string list \<Rightarrow> string" where
  "lines_of ls = concat (map line_of ls)"

definition spaces :: "nat \<Rightarrow> string" where "spaces n = replicate n CHR '' ''"

definition sq :: "string \<Rightarrow> string" where "sq s = CHR 0x27 # s @ [CHR 0x27]"

definition compgen_line :: "string \<Rightarrow> string" where
  "compgen_line offered = ''COMPREPLY=( $(compgen -W '' @ quoted offered @ '' -- '' @ quoted ''${cur}'' @ '') )''"

definition bash_case :: "string \<Rightarrow> string list \<Rightarrow> string list" where
  "bash_case cmd subs =
     [spaces 12 @ cmd @ '')'',
      spaces 16 @ compgen_line (Join '' '' subs),
      spaces 16 @ ''return 0'',
      spaces 16 @ '';;'']"

definition bashCompletion :: string where
  "bashCompletion = lines_of
     ([''# bash completion for riskkernel'',
       ''# install: riskkernel completion bash > /etc/bash_completion.d/riskkernel'',
       ''_riskkernel() {'',
       ''    local cur'',
       ''    COMPREPLY=()'',
       ''    cur='' @ quoted ''${COMP_WORDS[COMP_CWORD]}'',
       ''    local cmds='' @ quoted (Join '' '' sortedTopLevel),
       '''',
       ''    if [[ ${COMP_CWORD} -eq 1 ]]; then'',
       spaces 8 @ compgen_line ''${cmds}'',
       spaces 8 @ ''return 0'',
       ''    fi'',
       '''',
       ''    if [[ ${COMP_CWORD} -eq 2 ]]; then'',
       spaces 8 @ ''case '' @ quoted ''${COMP_WORDS[1]}'' @ '' in''] @
      concat (map (\<lambda>cmd. bash_case cmd (sorted_subs cmd)) sortedSubKeys) @
      bash_case ''completion'' shells @
      [spaces 8 @ ''esac'', ''    fi'', ''    return 0'', ''}'',
       ''complete -F _riskkernel riskkernel'', ''complete -F _riskkernel rk''])"

definition zsh_case :: "string \<Rightarrow> string list \<Rightarrow> string list" where
  "zsh_case cmd subs =
     [spaces 12 @ cmd @ '')'', spaces 16 @ ''compadd '' @ Join '' '' subs, spaces 16 @ ''return'', spaces 16 @ '';;'']"

definition zshCompletion :: string where
  "zshCompletion = lines_of
     ([''#compdef riskkernel rk'',
       ''# zsh completion for riskkernel'',
       ''# install: riskkernel completion zsh > '' @ quoted ''${fpath[1]}/_riskkernel'',
       ''_riskkernel() {'',
       ''    local -a commands'',
       ''    commands=(''] @
      map (\<lambda>cmd. spaces 8 @ sq (cmd @ '':riskkernel '' @ cmd)) sortedTopLevel @
      [''    )'', '''',
       ''    if (( CURRENT == 2 )); then'',
       spaces 8 @ ''_describe '' @ sq ''command'' @ '' commands'',
       spaces 8 @ ''return'',
       ''    fi'', '''',
       ''    if (( CURRENT == 3 )); then'',
       spaces 8 @ ''case '' @ quoted ''${words[2]}'' @ '' in''] @
      concat (map (\<lambda>cmd. zsh_case cmd (sorted_subs cmd)) sortedSubKeys) @
      zsh_case ''completion'' shells @
      [spaces 8 @ ''esac'', ''    fi'', ''}'', '''', ''_riskkernel '' @ quoted ''$@''])"

definition fish_line :: "string \<Rightarrow> string \<Rightarrow> string \<Rightarrow> string" where
  "fish_line cond offered descr = ''complete -c riskkernel -f -n '' @ cond @ '' -a '' @ offered @ '' -d '' @ sq descr"

definition fish_sub :: "string \<Rightarrow> string" where
  "fish_sub cmd = sq (''__fish_seen_subcommand_from '' @ cmd)"

definition fishCompletion :: string where
  "fishCompletion = lines_of
     ([''# fish completion for riskkernel'',
       ''# install: riskkernel completion fish > ~/.config/fish/completions/riskkernel.fish'', '''',
       ''function __riskkernel_no_subcommand'',
       ''    set -l cmd (commandline -opc)'',
       ''    test (count $cmd) -eq 1'',
       ''end'', ''''] @
      map (\<lambda>cmd. fish_line ''__riskkernel_no_subcommand'' cmd (''riskkernel '' @ cmd)) sortedTopLevel @
      [''''] @
      concat (map (\<lambda>cmd. map (\<lambda>s. fish_line (fish_sub cmd) s (cmd @ '' '' @ s)) (sorted_subs cmd)) sortedSubKeys) @
      [fish_line (fish_sub ''completion'') (sq ''bash zsh fish'') ''shell''])"

text \<open>Standard output, standard error, the error; \<open>helptext\<close> is \<open>completionHelp\<close>.\<close>

definition runCompletion :: "string \<Rightarrow> string list \<Rightarrow> string \<times> string \<times> cli_error option" where
  "runCompletion helptext args =
     (case args of
        [sh] \<Rightarrow>
          if sh = ''bash'' then (bashCompletion, '''', None)
          else if sh = ''zsh'' then (zshCompletion, '''', None)
          else if sh = ''fish'' then (fishCompletion, '''', None)
          else if sh \<in> {''-h'', ''--help'', ''help''} then ('''', helptext, None)
          else ('''', '''', Some (CliText (''unknown shell '' @ quoted sh @ '' (want bash|zsh|fish)'')))
      | _ \<Rightarrow> ('''', '''', Some (CliText ''usage: riskkernel completion <bash|zsh|fish>'')))"

section \<open>Dispatch\<close>

datatype command =
    CmdInit | CmdServe | CmdChat | CmdRuns | CmdAudit | CmdPolicy | CmdApprovals | CmdMemory
  | CmdDoctor | CmdHealthcheck | CmdCompletion | CmdVersion | CmdHelp

definition commands :: "(string \<times> command) list" where
  "commands =
     [(''init'', CmdInit), (''serve'', CmdServe), (''chat'', CmdChat), (''runs'', CmdRuns), (''audit'', CmdAudit),
      (''policy'', CmdPolicy), (''approvals'', CmdApprovals), (''memory'', CmdMemory), (''doctor'', CmdDoctor),
      (''healthcheck'', CmdHealthcheck), (''completion'', CmdCompletion),
      (''version'', CmdVersion), (''--version'', CmdVersion), (''-v'', CmdVersion),
      (''help'', CmdHelp), (''--help'', CmdHelp), (''-h'', CmdHelp)]"

text \<open>The process around the command line: its texts, its files, the daemon it may call.\<close>

record 'd process =
  PC_world :: cli_world
  PC_disk :: disk_world
  PC_daemon :: "'d daemon"
  PC_templates :: templates
  PC_build :: build_info
  PC_usage :: string
  PC_completionHelp :: string
  PC_configText :: "config_error \<Rightarrow> string"
  PC_policyText :: "policy_error \<Rightarrow> string"
  PC_errorText :: "cli_error \<Rightarrow> string"

datatype outcome = Exit int string string | Serving int server server_state

definition error_text :: "(cli_error \<Rightarrow> string) \<Rightarrow> cli_error \<Rightarrow> string" where
  "error_text f e = (case e of CliText s \<Rightarrow> s | _ \<Rightarrow> f e)"

definition finish :: "'d process \<Rightarrow> string \<times> string \<times> cli_error option \<Rightarrow> outcome" where
  "finish pc r =
     (case r of
        (out, err, None) \<Rightarrow> Exit 0 out err
      | (out, err, Some e) \<Rightarrow> Exit 1 out (err @ line_of (''error: '' @ error_text (PC_errorText pc) e)))"

definition quiet :: "cli_result \<Rightarrow> string \<times> string \<times> cli_error option" where
  "quiet r = (fst r, '''', snd r)"

definition run_command :: "'d process \<Rightarrow> command \<Rightarrow> string list \<Rightarrow> disk \<Rightarrow> 'd \<Rightarrow> disk \<times> 'd \<times> outcome" where
  "run_command pc cmd args fs s =
     (let w = PC_world pc; plain = (\<lambda>r. (fs, s, finish pc (quiet r))) in
      case cmd of
        CmdInit \<Rightarrow> (let (fs', r) = runInit (PC_templates pc) (PC_disk pc) args fs in (fs', s, finish pc (quiet r)))
      | CmdServe \<Rightarrow>
          (fs, s, case runServe (CW_boot w) (CW_dotenv w) (CW_env w) of
             Inl e \<Rightarrow> finish pc ('''', '''', Some (CliServe e))
           | Inr (port, sv, st) \<Rightarrow> Serving port sv st)
      | CmdChat \<Rightarrow> (fs, s, finish pc (runChat w args))
      | CmdRuns \<Rightarrow> plain (runRuns w args)
      | CmdAudit \<Rightarrow> plain (runAudit w args)
      | CmdPolicy \<Rightarrow> plain (runPolicyCmd w args)
      | CmdApprovals \<Rightarrow> (let (s', r) = runApprovals w (PC_daemon pc) args s in (fs, s', finish pc (quiet r)))
      | CmdMemory \<Rightarrow> plain (runMemory w args)
      | CmdDoctor \<Rightarrow>
          (let (fs', s', r) = runDoctor w (PC_disk pc) (PC_configText pc) (PC_policyText pc) (PC_daemon pc) fs s
           in (fs', s', finish pc (quiet r)))
      | CmdHealthcheck \<Rightarrow> (let (s', r) = runHealthcheck w (PC_daemon pc) s in (fs, s', finish pc (quiet r)))
      | CmdCompletion \<Rightarrow> (fs, s, finish pc (runCompletion (PC_completionHelp pc) args))
      | CmdVersion \<Rightarrow> (fs, s, Exit 0 (line_of (''riskkernel '' @ version_String (PC_build pc))) '''')
      | CmdHelp \<Rightarrow> (fs, s, Exit 0 '''' (PC_usage pc)))"

text \<open>\<open>main\<close> on the arguments after the program's name.\<close>

definition main_program :: "'d process \<Rightarrow> string list \<Rightarrow> disk \<Rightarrow> 'd \<Rightarrow> disk \<times> 'd \<times> outcome" where
  "main_program pc args fs s =
     (case args of
        [] \<Rightarrow> (fs, s, Exit 2 '''' (PC_usage pc))
      | cmd # rest \<Rightarrow>
          (case map_of commands cmd of
             None \<Rightarrow> (fs, s, Exit 2 '''' (line_of (''unknown command '' @ quoted cmd) @ line_feed @ PC_usage pc))
           | Some c \<Rightarrow> run_command pc c rest fs s))"

end
