(* ===== verification/CliLaws.thy ===== *)
theory CliLaws
  imports CliMain BootstrapLaws Paths
begin

text \<open>
  What the command line promises: it never overwrites a file it scaffolds, what \<open>doctor\<close>
  and \<open>runs resume\<close> say compared with what the daemon does, which approval a decision
  reaches, and which commands completion offers.
\<close>

section \<open>Scaffolding\<close>

lemma elems_Join2:
  assumes "dir \<noteq> ''''" "plain name"
  shows "\<exists>es. elems (Join2 dir name) = es @ [name]"
proof -
  let ?p = "dir @ slash # name"
  have "elems (Join2 dir name) = elems ?p"
    using assms(1) elems_render [OF elems_clean, of ?p] by (simp add: Join2_def Clean_def)
  also have "\<dots> = clean_elems (IsAbs ?p) [] (Split1 slash dir) @ [name]"
    using assms(2) plain_elem [OF assms(2)] by (simp add: elems_def Split1_append Split1_single clean_elems_append)
  finally show ?thesis by blast
qed

lemma Join2_names:
  assumes "dir \<noteq> ''''" "plain m" "plain n" "Join2 dir m = Join2 dir n"
  shows "m = n"
proof -
  obtain es fs where "elems (Join2 dir m) = es @ [m]" "elems (Join2 dir n) = fs @ [n]"
    using elems_Join2 [OF assms(1,2)] elems_Join2 [OF assms(1,3)] by blast
  with assms(4) have "es @ [m] = fs @ [n]" by metis
  then show ?thesis by simp
qed

lemma os_Stat_sel:
  "os_Stat dw p fs = Present \<Longrightarrow> \<exists>c. fs p = Some c" "os_Stat dw p fs = Missing \<Longrightarrow> fs p = None"
  by (auto simp: os_Stat_def split: option.splits if_splits)

lemma os_WriteFile_other: "os_WriteFile dw p c fs = (fs', res) \<Longrightarrow> q \<noteq> p \<Longrightarrow> fs' q = fs q"
  by (auto simp: os_WriteFile_def split: option.splits)

lemma os_WriteFile_ok: "os_WriteFile dw p c fs = (fs', None) \<Longrightarrow> fs' p = Some c"
  by (auto simp: os_WriteFile_def split: option.splits)

text \<open>Old files stay, and only the scaffold's own paths can change.\<close>

lemma scaffold_step:
  assumes "scaffold dw dir ((name, content) # files) fs = (fs', res)"
  obtains (kept) r c where "fs (Join2 dir name) = Some c" "scaffold dw dir files fs = (fs', r)"
      "\<And>l. res = Inr l \<Longrightarrow> \<exists>l'. r = Inr l'"
    | (refused) e where "res = Inl e" "fs' = fs"
    | (failed) e w where "fs (Join2 dir name) = None" "os_WriteFile dw (Join2 dir name) content fs = (fs', Some w)" "res = Inl e"
    | (created) fs1 r where "fs (Join2 dir name) = None" "os_WriteFile dw (Join2 dir name) content fs = (fs1, None)"
      "scaffold dw dir files fs1 = (fs', r)" "\<And>l. res = Inr l \<Longrightarrow> \<exists>l'. r = Inr l'"
  using assms os_Stat_sel [of dw "Join2 dir name" fs]
  by (auto simp: Let_def split: stat_result.splits prod.splits sum.splits option.splits)

lemma scaffold_keeps: "scaffold dw dir files fs = (fs', res) \<Longrightarrow> fs p = Some c \<Longrightarrow> fs' p = Some c"
proof (induction files arbitrary: fs res)
  case (Cons f files)
  obtain name content where f: "f = (name, content)" by fastforce
  have kept_by_write: "fs1 p = Some c" if "os_WriteFile dw (Join2 dir name) content fs = (fs1, w)" "fs (Join2 dir name) = None" for fs1 w
    using os_WriteFile_other [OF that(1), of p] that(2) Cons.prems(2) by (cases "p = Join2 dir name") auto
  from Cons.prems(1) [unfolded f] show ?case
  proof (cases rule: scaffold_step)
    case (kept r d)
    from Cons.IH [OF kept(2) Cons.prems(2)] show ?thesis .
  next
    case (created fs1 r)
    from Cons.IH [OF created(3) kept_by_write [OF created(2,1)]] show ?thesis .
  qed (use Cons.prems(2) kept_by_write in auto)
qed simp

lemma scaffold_others: "scaffold dw dir files fs = (fs', res) \<Longrightarrow> p \<notin> Join2 dir ` fst ` set files \<Longrightarrow> fs' p = fs p"
proof (induction files arbitrary: fs res)
  case (Cons f files)
  obtain name content where f: "f = (name, content)" by fastforce
  have p: "p \<noteq> Join2 dir name" "p \<notin> Join2 dir ` fst ` set files" using Cons.prems(2) f by auto
  from Cons.prems(1) [unfolded f] show ?case
    by (cases rule: scaffold_step) (use Cons.IH p os_WriteFile_other in \<open>metis\<close>)+
qed simp

lemma scaffold_creates:
  assumes "scaffold dw dir files fs = (fs', Inr l)" "distinct (map (\<lambda>f. Join2 dir (fst f)) files)" "(name, content) \<in> set files"
  shows "fs' (Join2 dir name) = Some (case fs (Join2 dir name) of None \<Rightarrow> content | Some c \<Rightarrow> c)"
  using assms
proof (induction files arbitrary: fs l)
  case (Cons f files)
  obtain nm cont where f: "f = (nm, cont)" by fastforce
  have new: "Join2 dir nm \<notin> Join2 dir ` fst ` set files" and d: "distinct (map (\<lambda>f. Join2 dir (fst f)) files)"
    using Cons.prems(2) f by (auto simp: image_iff)
  have elsewhere: "Join2 dir name \<noteq> Join2 dir nm" if "(name, content) \<in> set files" using new that by (metis fst_conv image_eqI)
  from Cons.prems(1) [unfolded f] show ?case
  proof (cases rule: scaffold_step)
    case (kept r c)
    then show ?thesis
      using Cons.IH [of fs] d Cons.prems(3) f scaffold_keeps [OF kept(2,1)] by auto
  next
    case (created fs1 r)
    obtain l' where r: "r = Inr l'" using created(4) by blast
    have at: "fs' (Join2 dir nm) = Some cont" by (rule scaffold_keeps [OF created(3) os_WriteFile_ok [OF created(2)]])
    show ?thesis
    proof (cases "(name, content) \<in> set files")
      case True
      then show ?thesis
        using Cons.IH [OF created(3) [unfolded r] d True] os_WriteFile_other [OF created(2) elsewhere [OF True]] by simp
    next
      case False
      with Cons.prems(3) f at created(1) show ?thesis by simp
    qed
  qed simp_all
qed simp

text \<open>
  C39. \<open>riskkernel init\<close> never overwrites a file. Whatever is in the directory and whichever
  file operations fail, every file that was there keeps its content, and nothing but .env and
  quickstart.py of the directory can change. When it succeeds, both files are there: as they
  were, or with the template's text.
\<close>

theorem init_never_overwrites:
  assumes "runInit t dw args fs = (fs', (out, err))"
  shows "(\<forall>p c. fs p = Some c \<longrightarrow> fs' p = Some c) \<and>
    (\<forall>p. fs' p \<noteq> fs p \<longrightarrow> p \<in> {Join2 (init_dir args) ''.env'', Join2 (init_dir args) ''quickstart.py''}) \<and>
    (err = None \<longrightarrow>
      fs' (Join2 (init_dir args) ''.env'') =
        Some (case fs (Join2 (init_dir args) ''.env'') of None \<Rightarrow> TM_env t | Some c \<Rightarrow> c) \<and>
      fs' (Join2 (init_dir args) ''quickstart.py'') =
        Some (case fs (Join2 (init_dir args) ''quickstart.py'') of None \<Rightarrow> TM_quickstart t | Some c \<Rightarrow> c))"
proof -
  let ?d = "init_dir args"
  have d: "?d \<noteq> ''''" by (simp add: init_dir_def split: list.split)
  have names: "plain ''.env''" "plain ''quickstart.py''" by (simp_all add: plain_def slash_def)
  have "Join2 ?d ''.env'' \<noteq> Join2 ?d ''quickstart.py''" using Join2_names [OF d names] by auto
  then have dist: "distinct (map (\<lambda>f. Join2 ?d (fst f)) (init_files t))" by (simp add: init_files_def)
  show ?thesis
  proof (cases "DW_mkdir dw ?d")
    case (Some e)
    with assms show ?thesis by (auto simp: runInit_def Let_def cli_fail_def)
  next
    case None
    then obtain r where r: "scaffold dw ?d (init_files t) fs = (fs', r)" "err = None \<Longrightarrow> \<exists>l. r = Inr l"
      using assms by (auto simp: runInit_def Let_def cli_fail_def cli_print_def split: prod.splits sum.splits)
    show ?thesis
    proof (intro conjI allI impI)
      show "fs' p = Some c" if "fs p = Some c" for p c using scaffold_keeps [OF r(1) that] .
      show "p \<in> {Join2 ?d ''.env'', Join2 ?d ''quickstart.py''}" if "fs' p \<noteq> fs p" for p
        using scaffold_others [OF r(1), of p] that by (auto simp: init_files_def)
    next
      assume "err = None"
      then obtain l where "r = Inr l" using r(2) by blast
      note created = scaffold_creates [OF r(1) [unfolded this] dist]
      show "fs' (Join2 ?d ''.env'') = Some (case fs (Join2 ?d ''.env'') of None \<Rightarrow> TM_env t | Some c \<Rightarrow> c)"
        by (rule created) (simp add: init_files_def)
      show "fs' (Join2 ?d ''quickstart.py'') =
          Some (case fs (Join2 ?d ''quickstart.py'') of None \<Rightarrow> TM_quickstart t | Some c \<Rightarrow> c)"
        by (rule created) (simp add: init_files_def)
    qed
  qed
qed

definition sample_templates :: templates where
  "sample_templates = \<lparr>TM_env = ''KEY='', TM_quickstart = ''import riskkernel'', TM_next = ''''\<rparr>"

definition good_disk :: disk_world where
  "good_disk = \<lparr>DW_mkdir = (\<lambda>_. None), DW_stat = (\<lambda>_. None), DW_write = (\<lambda>_. None), DW_remove = (\<lambda>_. True)\<rparr>"

lemma init_never_overwrites_witness:
  "let fs = [''.env'' \<mapsto> ''KEY=mine'']; fs' = fst (runInit sample_templates good_disk [] fs)
   in fs' ''.env'' = Some ''KEY=mine'' \<and> fs' ''quickstart.py'' = Some ''import riskkernel''"
proof -
  let ?fs = "[''.env'' \<mapsto> ''KEY=mine'']"
  have paths: "Join2 ''.'' ''.env'' = ''.env''" "Join2 ''.'' ''quickstart.py'' = ''quickstart.py''"
    by code_simp+
  obtain fs' out where r: "runInit sample_templates good_disk [] ?fs = (fs', (out, None))"
    by (simp add: runInit_def init_dir_def init_files_def good_disk_def os_Stat_def os_WriteFile_def paths
        cli_print_def Let_def)
  have "fs' ''.env'' = Some ''KEY=mine''" "fs' ''quickstart.py'' = Some ''import riskkernel''"
    using init_never_overwrites [OF r] by (simp_all add: init_dir_def paths sample_templates_def)
  then show ?thesis by (simp add: r)
qed

section \<open>Doctor\<close>

text \<open>The command fails exactly when a check does, whatever the daemon says.\<close>

lemma doctor_verdict:
  assumes "load_config w = Inr cfg" "runDoctor w dw cmsg pmsg n fs s = (fs', s', (out, err))"
  shows "err = None \<longleftrightarrow> DG_Status (snd (checkDataDir dw cfg fs)) \<noteq> DiagFail \<and>
    DG_Status (checkProvider cfg) \<noteq> DiagFail \<and> DG_Status (checkPolicyFile w pmsg cfg) \<noteq> DiagFail"
proof -
  have never: "DG_Status (checkBudget cfg) \<noteq> DiagFail" "DG_Status (checkAPIToken cfg) \<noteq> DiagFail"
    "DG_Status (snd (checkDaemon n cfg s)) \<noteq> DiagFail"
    by (simp_all add: checkBudget_def checkAPIToken_def checkDaemon_def diagnosed_def Let_def
        split: prod.split sum.split)
  show ?thesis
    using assms never
    by (auto simp: runDoctor_def diagnose_def failed_checks_def cli_print_def Let_def split: prod.splits if_splits)
qed

text \<open>
  \<open>doctor\<close> passes setups that cannot start. The check of the default provider fails
  exactly for an unknown name, but building the daemon also fails, before anything is opened,
  for OpenAI without its key and for Bedrock without either of its two keys: the provider is
  then not registered at all. \<open>doctor\<close> answers those with a warning about model calls.
\<close>

theorem doctor_misses_missing_default:
  "(DG_Status (checkProvider cfg) = DiagFail \<longleftrightarrow>
      C_DefaultProvider cfg \<notin> {''anthropic'', ''openai'', ''ollama'', ''bedrock''}) \<and>
   ((\<exists>e. Build w cfg = Inl (NoDefaultProvider e, None)) \<longleftrightarrow>
      C_DefaultProvider cfg \<notin> {''anthropic'', ''openai'', ''ollama'', ''bedrock''} \<or>
      C_DefaultProvider cfg = ''openai'' \<and> C_OpenAIAPIKey cfg = '''' \<or>
      C_DefaultProvider cfg = ''bedrock'' \<and> (C_AWSAccessKeyID cfg = '''' \<or> C_AWSSecretAccessKey cfg = ''''))"
  unfolding Build_no_provider
  by (auto simp: checkProvider_def diagnosed_def provider_usable_def Let_def)

lemma doctor_misses_missing_default_witness:
  "let cfg = unset_config\<lparr>C_DefaultProvider := ''openai''\<rparr>
   in DG_Status (checkProvider cfg) \<noteq> DiagFail \<and> (\<exists>e. Build sample_boot cfg = Inl (NoDefaultProvider e, None))"
proof -
  let ?c = "unset_config\<lparr>C_DefaultProvider := ''openai''\<rparr>"
  have "C_DefaultProvider ?c = ''openai''" "C_OpenAIAPIKey ?c = ''''"
    by (simp_all add: unset_config_def read_config_def unset_getenv)
  then show ?thesis
    using doctor_misses_missing_default [of ?c sample_boot] by simp
qed

section \<open>Resuming\<close>

text \<open>
  What \<open>runs resume\<close> announces is the stored row, what the daemon enforces may be less.
  For a run that is not over the command prints the usage of its row as spent. A daemon that
  restores the run enforces the row's budget, from the row's usage, unless the latest
  checkpoint has counted fewer loops than the row: then a step was under way, and the daemon
  goes on from the checkpoint's usage, which the command does not take into account.
\<close>

theorem resume_announces_row:
  assumes "openStoreForCLI w = Inr d" "db_faults d = []" "lookup RR_ID rid (db_runs d) = Some row"
    "\<not> resume_terminal (RR_Status row)"
  shows "(\<exists>rest. runsResume w rid = (resumable_text rid row @ rest, None)) \<and>
    (let (m, a) = GetOrCreate rid now (restart b d); g = rn_gov (run_at m a)
     in g_budget g = record_budget row \<and>
        gov_Status g = (case rev (checkpoints_of rid d) of
            [] \<Rightarrow> record_usage row
          | cp # _ \<Rightarrow> if CP_UsageLoops cp <s RR_UsageLoops row then checkpoint_usage cp else record_usage row,
          HaltNone))"
proof -
  have live: "RR_Status row \<noteq> ''halted''" "RR_Status row \<noteq> ''cancelled''"
    using assms(4) by (auto simp: resume_terminal_def)
  have "runsResume w rid = (resumable_text rid row @
      (case snd (LatestCheckpoint rid d) of Inl _ \<Rightarrow> '''' | Inr cp \<Rightarrow> checkpoint_text w cp) @ resume_hint, None)"
    using assms by (simp add: runsResume_def with_store_def ask_def GetRun_def query_def statement_def cli_print_def)
  moreover note GetOrCreate_restart [OF assms(2,3), of now b]
  ultimately show ?thesis using live by (simp add: case_prod_beta Let_def)
qed

text \<open>A command line over a store that holds a run whose second step was interrupted.\<close>

definition sample_cli :: "db \<Rightarrow> cli_world" where
  "sample_cli d =
     \<lparr>CW_boot = sample_boot\<lparr>BW_sqlite := empty_backend\<lparr>BE_up := (\<lambda>_. Some d)\<rparr>\<rparr>, CW_dotenv = NoFile, CW_env = unset_env,
      CW_sum = (\<lambda>_. fzero), CW_json = (\<lambda>_. Inl ''''), CW_payload = (\<lambda>_. ''{}''), CW_digest = (\<lambda>s. s),
      CW_marshal = (\<lambda>_. None), CW_files = \<lparr>FS_stat = (\<lambda>_. None), FS_read = (\<lambda>_. ReadMissing), FS_walk = (\<lambda>_. [])\<rparr>,
      CW_now = 0\<rparr>"

lemma sample_cli_config: "load_config (sample_cli d) = Inr unset_config"
  by (simp add: load_config_def sample_cli_def unset_load)

lemma sample_cli_store: "openStoreForCLI (sample_cli d) = Inr d"
  by (simp add: openStoreForCLI_def sample_cli_config)
    (simp add: OpenStore_def unset_sel sample_cli_def sample_boot_def empty_backend_def OpenSQLite_def
      open_database_def migrate_def maxMigrationVersion_def)

definition interrupted_row :: run_record where
  "interrupted_row = (sample_run ''r1'')\<lparr>RR_UsageLoops := 2, RR_BudgetLoops := 3\<rparr>"

definition interrupted_checkpoint :: checkpoint_record where
  "interrupted_checkpoint = \<lparr>CP_RunID = ''r1'', CP_StepIndex = 1, CP_Name = '''', CP_UsagePromptTokens = 0,
     CP_UsageCompletionTokens = 0, CP_UsageDollars = fzero, CP_UsageLoops = 1, CP_Payload = [], CP_CreatedAt = 0\<rparr>"

definition interrupted_db :: db where
  "interrupted_db = empty_db\<lparr>db_runs := [interrupted_row], db_checkpoints := [interrupted_checkpoint]\<rparr>"

lemma resume_announces_row_witness:
  "(\<exists>rest. runsResume (sample_cli interrupted_db) ''r1'' = (resumable_text ''r1'' interrupted_row @ rest, None)) \<and>
    (let (m, a) = GetOrCreate ''r1'' 9 (restart safe_budget interrupted_db)
     in U_Loops (g_usage (rn_gov (run_at m a))) = 1) \<and> RR_UsageLoops interrupted_row = 2"
proof -
  have row: "lookup RR_ID ''r1'' (db_runs interrupted_db) = Some interrupted_row" "db_faults interrupted_db = []"
    "\<not> resume_terminal (RR_Status interrupted_row)" "RR_UsageLoops interrupted_row = 2"
    by (simp_all add: interrupted_db_def interrupted_row_def sample_run_def resume_terminal_def empty_db_def lookup_def)
  have behind: "(1 :: int32) <s 2" by (simp add: word_sless_alt)
  have latest: "rev (checkpoints_of ''r1'' interrupted_db) = [interrupted_checkpoint]"
    "CP_UsageLoops interrupted_checkpoint = 1" "U_Loops (checkpoint_usage interrupted_checkpoint) = 1"
    by (simp_all add: interrupted_db_def interrupted_checkpoint_def checkpoints_of_def checkpoint_usage_def)
  show ?thesis
    using resume_announces_row [OF sample_cli_store row(2,1,3), of 9 safe_budget]
    by (simp add: case_prod_beta Let_def gov_Status_def row(4) latest behind)
qed

section \<open>Completion\<close>

text \<open>Every command completion offers is dispatched; of the dispatched words only \<open>completion\<close> and the flags are not offered.\<close>

lemma completion_in_sync:
  "set topLevelCommands \<union> {''completion'', ''--version'', ''-v'', ''--help'', ''-h''} = fst ` set commands"
  by (auto simp: topLevelCommands_def commands_def)

text \<open>
  C40. A time survives being written. For every instant of the years 0 to 9999 the text a column
  holds is read back by \<open>parseTime\<close> as the same instant, to the nanosecond, and the same text
  given to \<open>--since\<close> or \<open>--until\<close> is that instant; its date alone is the start of its day.
\<close>

theorem written_time_is_read:
  assumes "text_range t"
  shows "parseTime (fmtTime t) = t \<and> parseTimeFlag (fmtTime t) = Inr t \<and>
    parseTimeFlag (date_text t) = Inr (t - t mod day_ns)"
proof -
  have d: "parse_date (date_text t) = Some (t div day_ns, [])" using parse_date_text [OF assms, of "[]"] by simp
  then have "parse_RFC3339 (date_text t) = None" by (simp add: parse_RFC3339_def expect_def)
  moreover have "parse_day (date_text t) = Some (t - t mod day_ns)"
    using d by (simp add: parse_day_def minus_mod_eq_div_mult)
  ultimately show ?thesis
    using parse_fmtTime [OF assms] by (simp add: parseTimeFlag_def parseTime_def)
qed

lemma written_time_is_read_witness:
  "parseTime (fmtTime 1700000000123456789) = 1700000000123456789 \<and>
   parseTimeFlag (date_text 1700000000123456789) = Inr 1699920000000000000"
  using written_time_is_read [of 1700000000123456789] by (simp add: text_range_def day_ns_def)

end
