(* ===== verification/Wire.thy ===== *)
theory Wire
  imports VendorsLaws CliLaws ApiLaws
begin

text \<open>
  The way of a request from the command line to the daemon's handlers: \<open>http.NewRequest\<close>,
  \<open>http.Client\<close>, the server's request line and \<open>http.ServeMux\<close>, as the standard library
  does them between \<open>cmd/riskkernel/approvals.go\<close> and \<open>internal/httpapi/server.go\<close>. The
  bytes of the replies are an argument. The client's timeout and the server's limit on the
  size of a header are not modelled.
\<close>

section \<open>What the client sends\<close>

definition is_control :: "char \<Rightarrow> bool" where
  "is_control c = (let n = of_char c :: nat in n < 32 \<or> n = 127)"

text \<open>
  \<open>url.Parse\<close> of the part of the URL behind the host: the path, the query, the fragment. It
  refuses a control character in front of the fragment and a bad escape in path or fragment.
\<close>

definition split_target :: "string \<Rightarrow> string \<times> string \<times> string" where
  "split_target t =
     (let (u, frag) = (case Cut t ''#'' of None \<Rightarrow> (t, '''') | Some p \<Rightarrow> p);
          (path, qs) = (case Cut u ''?'' of None \<Rightarrow> (u, '''') | Some p \<Rightarrow> p)
      in (path, qs, frag))"

definition target_ok :: "string \<Rightarrow> bool" where
  "target_ok t =
     (case split_target t of (path, qs, frag) \<Rightarrow>
        list_all (\<lambda>c. \<not> is_control c) (path @ qs) \<and> PathUnescape path \<noteq> None \<and> PathUnescape frag \<noteq> None)"

text \<open>\<open>EscapedPath\<close>: a path in a valid encoding is sent as it stands, any other is escaped afresh.\<close>

definition path_char :: "char \<Rightarrow> bool" where
  "path_char c \<longleftrightarrow> unreserved c \<or> c \<in> set ''$&+,/:;=@''"

definition path_escape :: "string \<Rightarrow> string" where
  "path_escape p = concat (map (\<lambda>c. if path_char c then [c] else percent c) p)"

definition valid_encoded :: "string \<Rightarrow> bool" where
  "valid_encoded p = list_all (\<lambda>c. path_char c \<or> c \<in> set ''!()*[]%'' \<or> c = CHR 0x27) p"

definition wire_path :: "string \<Rightarrow> string" where
  "wire_path p =
     (if valid_encoded p then p else case PathUnescape p of None \<Rightarrow> p | Some u \<Rightarrow> path_escape u)"

text \<open>A header value with a control character other than a tab is refused; the blanks around it are not sent.\<close>

definition header_sendable :: "header \<Rightarrow> bool" where
  "header_sendable h = list_all (\<lambda>(k, v). list_all (\<lambda>c. \<not> is_control c \<or> c = CHR 0x09) v) h"

definition sent_header :: "header \<Rightarrow> header" where
  "sent_header h = map (\<lambda>(k, v). (k, TrimSpace v)) h"

section \<open>What the server does with it\<close>

text \<open>The path \<open>ServeMux\<close> wants: cleaned, a slash at the end kept.\<close>

definition clean_path :: "string \<Rightarrow> string" where
  "clean_path p =
     (let p = (if IsAbs p then p else slash # p); q = Clean p
      in if last p = slash \<and> q \<noteq> [slash] then q @ [slash] else q)"

definition mux_segments :: "string \<Rightarrow> string list" where
  "mux_segments p = map (\<lambda>w. case PathUnescape w of None \<Rightarrow> w | Some u \<Rightarrow> u) (Split1 slash (drop 1 p))"

text \<open>A Location header carries no byte above ASCII.\<close>

definition lower_hex :: "nat \<Rightarrow> char" where
  "lower_hex n = (if n < 10 then char_of (48 + n) else char_of (87 + n))"

definition hexEscapeNonASCII :: "string \<Rightarrow> string" where
  "hexEscapeNonASCII s =
     concat (map (\<lambda>c. let n = of_char c :: nat in
       if n < 128 then [c] else [CHR ''%'', lower_hex (n div 16), lower_hex (n mod 16)]) s)"

text \<open>
  The exchange. A blank in the query breaks the request line: 400, before any handler. A path
  that is not clean is answered with a redirect (301) to the clean one, which the client
  follows with a GET and no body, the query and the headers carried over; the clean path is
  taken literally, its escapes included. No registered pattern ends in a slash, so nothing
  else redirects. The Referer the client adds on a redirect is read by no handler.
\<close>

definition bad_request :: up_response where
  "bad_request = \<lparr>UP_Status = 400, UP_Header = [(''Content-Type'', ''text/plain; charset=utf-8''), (''Connection'', ''close'')],
     UP_Body = ''400 Bad Request''\<rparr>"

definition exchange ::
    "server_world \<Rightarrow> server \<Rightarrow> (server_reply \<Rightarrow> up_response) \<Rightarrow> string \<Rightarrow> string \<Rightarrow> header \<Rightarrow> string \<Rightarrow>
     server_state \<Rightarrow> server_state \<times> up_response" where
  "exchange w sv enc meth target h payload s =
     (case split_target target of (path, qs, _) \<Rightarrow>
        let p = wire_path path; c = clean_path p
        in if CHR '' '' \<in> set qs then (s, bad_request)
           else let (s', reply) = dispatch w sv
                  (if c = p
                   then \<lparr>AQ_Method = meth, AQ_Path = mux_segments p, AQ_Query = qs,
                     AQ_Http = \<lparr>RQ_Header = sent_header h, RQ_Body = Some payload\<rparr>\<rparr>
                   else \<lparr>AQ_Method = (if meth = ''HEAD'' then meth else ''GET''), AQ_Path = Split1 slash (drop 1 c),
                     AQ_Query = hexEscapeNonASCII qs,
                     AQ_Http = \<lparr>RQ_Header = sent_header h, RQ_Body = Some ''''\<rparr>\<rparr>) s
                in (s', enc reply))"

text \<open>
  The daemon \<open>sv\<close> behind the address \<open>base\<close>. \<open>enc\<close> writes a reply to the wire, \<open>refusal\<close> is
  the text of the client library's error for a URL it does not send, \<open>items\<close> and \<open>marshal\<close> are
  the client's package json.
\<close>

definition live_daemon ::
    "server_world \<Rightarrow> server \<Rightarrow> string \<Rightarrow> (server_reply \<Rightarrow> up_response) \<Rightarrow> (string \<Rightarrow> string) \<Rightarrow>
     (string \<Rightarrow> string + approval_item list) \<Rightarrow> ((string \<times> string) list \<Rightarrow> string) \<Rightarrow> server_state daemon" where
  "live_daemon w sv base enc refusal items marshal =
     \<lparr>CN_url = (\<lambda>url. if target_ok (drop (length base) url) then None else Some (refusal url)),
      CN_do = (\<lambda>c s.
        if header_sendable (CQ_Header c)
        then (case exchange w sv enc (CQ_Method c) (drop (length base) (CQ_URL c)) (CQ_Header c)
                (case CQ_Body c of None \<Rightarrow> '''' | Some b \<Rightarrow> b) s of (s', resp) \<Rightarrow> (s', Answered resp))
        else (s, DoError (refusal (CQ_URL c)) False)),
      CN_items = items, CN_marshal = marshal\<rparr>"

section \<open>Paths that arrive as they were put together\<close>

lemma takeWhile_none: "x \<notin> set s \<Longrightarrow> takeWhile (\<lambda>c. c \<noteq> x) s = s"
  by (induction s) auto

lemma Cut1_none: "x \<notin> set s \<Longrightarrow> Cut s [x] = None"
  by (induction s) (auto simp: HasPrefix_def)

lemma Cut1_first: "x \<notin> set p \<Longrightarrow> Cut (p @ x # t) [x] = Some (p, t)"
  by (induction p) (auto simp: HasPrefix_def)

lemma url_unescape_plain: "CHR ''%'' \<notin> set s \<Longrightarrow> PathUnescape s = Some s"
  unfolding PathUnescape_def by (induction s) auto

lemma split_path: "CHR ''#'' \<notin> set p \<Longrightarrow> CHR ''?'' \<notin> set p \<Longrightarrow> split_target p = (p, '''', '''')"
  by (simp add: split_target_def Cut1_none)

lemma split_query:
  "CHR ''#'' \<notin> set p \<Longrightarrow> CHR ''?'' \<notin> set p \<Longrightarrow> CHR ''#'' \<notin> set qs \<Longrightarrow> split_target (p @ CHR ''?'' # qs) = (p, qs, '''')"
  by (simp add: split_target_def Cut1_none Cut1_first)

text \<open>Each character of a path without escapes is sent as itself or as its escape.\<close>

definition spelling :: "bool \<Rightarrow> string \<Rightarrow> string" where
  "spelling kept p = (if kept then p else path_escape p)"

lemma wire_path_spelling: "CHR ''%'' \<notin> set p \<Longrightarrow> wire_path p = spelling (valid_encoded p) p"
  by (simp add: wire_path_def spelling_def url_unescape_plain)

lemma path_escape_append [simp]: "path_escape (a @ b) = path_escape a @ path_escape b"
  by (simp add: path_escape_def)

lemma path_escape_Cons: "path_escape (c # s) = (if path_char c then [c] else percent c) @ path_escape s"
  by (simp add: path_escape_def)

lemma path_escape_Nil [simp]: "path_escape '''' = ''''" by (simp add: path_escape_def)

lemma path_char_facts: "\<not> path_char (CHR ''%'')" "path_char slash"
  by (simp_all add: path_char_def unreserved_def slash_def)

lemma unescape_escape: "PathUnescape (path_escape s) = Some s"
proof (induction s)
  case (Cons c s)
  have "c = CHR ''%'' \<Longrightarrow> \<not> path_char c" using path_char_facts by simp
  with Cons show ?case
    by (auto simp: PathUnescape_def path_escape_Cons percent_def Let_def
        upper_hex_unhex [OF of_char_nibbles(1)] upper_hex_unhex [OF of_char_nibbles(2)] percent_value)
qed (simp add: PathUnescape_def)

lemma escape_no_slash: "slash \<notin> set s \<Longrightarrow> slash \<notin> set (path_escape s)"
proof -
  have "slash \<notin> set (percent c)" for c
    using percent_chars [of c] by (auto simp: list_all_iff slash_def unreserved_def)
  then show "slash \<notin> set s \<Longrightarrow> slash \<notin> set (path_escape s)"
    by (induction s) (auto simp: path_escape_Cons)
qed

lemma escape_Join: "path_escape (Join [slash] ws) = Join [slash] (map path_escape ws)"
  by (induction ws rule: induct_list012) (simp_all add: path_escape_Cons path_char_facts)

lemma plain_spelling:
  assumes "plain w" "CHR ''%'' \<notin> set w"
  shows "plain (spelling b w)" "PathUnescape (spelling b w) = Some w"
proof -
  show u: "PathUnescape (spelling b w) = Some w"
    using assms(2) by (simp add: spelling_def unescape_escape url_unescape_plain)
  have "PathUnescape '''' = Some ''''" "PathUnescape ''.'' = Some ''.''" "PathUnescape ''..'' = Some ''..''"
    by (simp_all add: PathUnescape_def)
  with u assms(1) have "spelling b w \<noteq> ''''" "spelling b w \<noteq> ''.''" "spelling b w \<noteq> ''..''"
    by (auto simp: plain_def)
  moreover have "slash \<notin> set (spelling b w)" using assms(1) by (simp add: spelling_def plain_def escape_no_slash)
  ultimately show "plain (spelling b w)" by (simp add: plain_def)
qed

lemma last_plain_Join: "ws \<noteq> [] \<Longrightarrow> \<forall>w \<in> set ws. plain w \<Longrightarrow> last (slash # Join [slash] ws) \<noteq> slash"
proof (induction ws rule: induct_list012)
  case (2 w)
  then show ?case by (cases w rule: rev_cases) (auto simp: plain_def)
next
  case (3 v w ws)
  then show ?case by simp
qed simp

text \<open>A path of plain elements is clean, so it reaches the handlers with the elements it was made of.\<close>

lemma plain_path_arrives:
  assumes "ws \<noteq> []" "\<forall>w \<in> set ws. plain w \<and> CHR ''%'' \<notin> set w"
  shows "clean_path (wire_path (slash # Join [slash] ws)) = wire_path (slash # Join [slash] ws)"
    "mux_segments (wire_path (slash # Join [slash] ws)) = ws"
proof -
  let ?p = "slash # Join [slash] ws"
  have free: "CHR ''%'' \<notin> set ?p"
    using assms by (induction ws rule: induct_list012) (auto simp: slash_def)
  obtain b where b: "wire_path ?p = spelling b ?p" using wire_path_spelling [OF free] by blast
  define vs where "vs = map (spelling b) ws"
  have wire: "wire_path ?p = slash # Join [slash] vs"
    unfolding b vs_def
    by (cases b) (simp_all add: spelling_def [abs_def] path_escape_Cons path_char_facts escape_Join)
  have plain: "\<forall>v \<in> set vs. plain v" and ne: "vs \<noteq> []" using assms plain_spelling(1) by (auto simp: vs_def)
  have "clean_stack True vs" using plain unfolding clean_stack_def by (intro exI [of _ 0] exI [of _ vs]) simp
  then have "Clean (wire_path ?p) = wire_path ?p" using Clean_render [of True vs] by (simp add: wire render_def)
  moreover have "last (wire_path ?p) \<noteq> slash" unfolding wire using last_plain_Join [OF ne plain] .
  ultimately show "clean_path (wire_path ?p) = wire_path ?p" by (simp add: clean_path_def wire)
  have "Split1 slash (Join [slash] vs) = vs" using plain ne by (intro Split1_Join) (auto simp: plain_def)
  then show "mux_segments (wire_path ?p) = ws"
    using assms(2) plain_spelling(2) by (simp add: mux_segments_def wire vs_def o_def map_idI)
qed

lemma target_ok_plain:
  assumes "CHR ''#'' \<notin> set p" "CHR ''?'' \<notin> set p" "CHR ''%'' \<notin> set p" "CHR ''#'' \<notin> set qs"
    "list_all (\<lambda>c. \<not> is_control c) (p @ qs)"
  shows "target_ok p" "target_ok (p @ CHR ''?'' # qs)"
  using assms
  by (simp_all add: target_ok_def split_path split_query url_unescape_plain list_all_append PathUnescape_def [of "''''"])

text \<open>The exchange on such a path.\<close>

lemma exchange_plain:
  assumes "split_target target = (slash # Join [slash] ws, qs, '''')" "ws \<noteq> []"
    "\<forall>w \<in> set ws. plain w \<and> CHR ''%'' \<notin> set w" "CHR '' '' \<notin> set qs"
  shows "exchange w sv enc meth target h payload s =
    (let (s', reply) = dispatch w sv \<lparr>AQ_Method = meth, AQ_Path = ws, AQ_Query = qs,
       AQ_Http = \<lparr>RQ_Header = sent_header h, RQ_Body = Some payload\<rparr>\<rparr> s in (s', enc reply))"
  using assms(4) plain_path_arrives [OF assms(2,3)] by (simp add: exchange_def assms(1) Let_def)

text \<open>A blank in the query: nothing happens, and the reply is a 400.\<close>

lemma exchange_blank:
  assumes "split_target target = (path, qs, frag)" "CHR '' '' \<in> set qs"
  shows "exchange w sv enc meth target h payload s = (s, bad_request)"
  using assms by (simp add: exchange_def Let_def)

section \<open>The header of the command's requests\<close>

text \<open>A token that is sent as it is configured.\<close>

definition sendable_token :: "string \<Rightarrow> bool" where
  "sendable_token tok \<longleftrightarrow> list_all (\<lambda>c. \<not> is_control c) tok \<and> (tok = '''' \<or> last tok \<noteq> CHR '' '')"

lemma is_space_iff: "\<not> is_control c \<Longrightarrow> is_space c \<longleftrightarrow> c = CHR '' ''"
proof -
  have "of_char c = (32 :: nat) \<longleftrightarrow> c = CHR '' ''"
    using of_char_eq_iff [of c "CHR '' ''", where 'a = nat] by simp
  then show "\<not> is_control c \<Longrightarrow> is_space c \<longleftrightarrow> c = CHR '' ''"
    by (auto simp: is_control_def is_space_def Let_def)
qed

lemma bearer_kept:
  assumes "sendable_token tok" "tok \<noteq> ''''"
  shows "TrimSpace (''Bearer '' @ tok) = ''Bearer '' @ tok"
proof -
  obtain t c where t: "tok = t @ [c]" using assms(2) by (cases tok rule: rev_cases) auto
  then have "\<not> is_space c" using assms(1) is_space_iff [of c] by (simp add: sendable_token_def)
  moreover have "\<not> is_space (CHR ''B'')" by (simp add: is_space_def)
  ultimately show ?thesis by (simp add: TrimSpace_def t)
qed

lemma client_header:
  assumes "sendable_token (DC_token c)"
  shows "header_sendable (CQ_Header (client_request_of c meth path payload))"
    "sent_header (CQ_Header (client_request_of c meth path payload)) = CQ_Header (client_request_of c meth path payload)"
proof -
  have ctl: "list_all (\<lambda>c. \<not> is_control c \<or> c = CHR 0x09) (DC_token c)"
    using assms by (auto simp: sendable_token_def list_all_iff)
  have json: "TrimSpace ''application/json'' = ''application/json''" by (simp add: TrimSpace_def is_space_def)
  have bearer: "DC_token c \<noteq> '''' \<Longrightarrow> TrimSpace (''Bearer '' @ DC_token c) = ''Bearer '' @ DC_token c"
    using bearer_kept [OF assms] .
  show "header_sendable (CQ_Header (client_request_of c meth path payload))"
    using ctl by (simp add: header_sendable_def client_request_of_def set_headers_def header_set_def same_key_def ToLower_def is_control_def)
  show "sent_header (CQ_Header (client_request_of c meth path payload)) = CQ_Header (client_request_of c meth path payload)"
    using json bearer by (simp add: sent_header_def client_request_of_def set_headers_def header_set_def same_key_def ToLower_def)
qed

end
