(* ===== verification/CliApprovals.thy ===== *)
theory CliApprovals
  imports Wire McpLaws
begin

text \<open>
  The command line against the daemon's own server: a client request travels over the wire
  (\<open>Wire\<close>) to \<open>dispatch\<close> (\<open>cmd/riskkernel/approvals.go\<close> with \<open>internal/httpapi\<close>), so that a
  decision given at the terminal is followed to the row it changes.
\<close>

section \<open>Where a decision goes\<close>

text \<open>
  Run ids that are one segment of a path, as they stand: not empty, not a dot or two (the
  server would redirect to the clean path), without a delimiter, an escape or a control
  character (the client would not send it).
\<close>

definition plain_id :: "string \<Rightarrow> bool" where
  "plain_id rid \<longleftrightarrow> plain rid \<and> set rid \<inter> {CHR ''?'', CHR ''#'', CHR ''%''} = {} \<and> list_all (\<lambda>c. \<not> is_control c) rid"

text \<open>A path of the API with one id in it.\<close>

definition run_path :: "string \<Rightarrow> string \<Rightarrow> string" where
  "run_path rid verb = slash # Join [slash] [''v1'', ''runs'', rid, verb]"

lemma run_path_arrives:
  assumes "plain_id rid" "verb \<in> {''approve'', ''cancel''}"
  shows "split_target (run_path rid verb) = (run_path rid verb, '''', '''')" "target_ok (run_path rid verb)"
    "\<forall>w \<in> set [''v1'', ''runs'', rid, verb]. plain w \<and> CHR ''%'' \<notin> set w"
proof -
  have chars: "CHR ''#'' \<notin> set (run_path rid verb)" "CHR ''?'' \<notin> set (run_path rid verb)"
    "CHR ''%'' \<notin> set (run_path rid verb)"
    using assms by (auto simp: run_path_def plain_id_def slash_def)
  have ctl: "list_all (\<lambda>c. \<not> is_control c) (run_path rid verb @ '''')"
    using assms by (auto simp: run_path_def plain_id_def slash_def is_control_def)
  show "split_target (run_path rid verb) = (run_path rid verb, '''', '''')" using chars by (simp add: split_path)
  show "target_ok (run_path rid verb)" using target_ok_plain(1) [OF chars _ ctl] by simp
  show "\<forall>w \<in> set [''v1'', ''runs'', rid, verb]. plain w \<and> CHR ''%'' \<notin> set w"
    using assms by (auto simp: plain_id_def plain_def slash_def)
qed

lemma approve_path_run: "approve_path rid = run_path rid ''approve''"
  by (simp add: approve_path_def run_path_def slash_def)

text \<open>An id that carries a question mark ends the path before the route's last segment.\<close>

definition raw_query :: "string \<Rightarrow> bool" where
  "raw_query x \<longleftrightarrow> CHR ''#'' \<notin> set x \<and> CHR '' '' \<notin> set x \<and> list_all (\<lambda>c. \<not> is_control c) x"

lemma injected_target:
  assumes "plain_id victim" "raw_query x"
  shows "split_target (approve_path (victim @ ''/cancel?'' @ x)) = (run_path victim ''cancel'', x @ ''/approve'', '''')"
    "target_ok (approve_path (victim @ ''/cancel?'' @ x))" "CHR '' '' \<notin> set (x @ ''/approve'')"
proof -
  let ?p = "run_path victim ''cancel''"
  have path: "approve_path (victim @ ''/cancel?'' @ x) = ?p @ CHR ''?'' # (x @ ''/approve'')"
    by (simp add: approve_path_def run_path_def slash_def)
  have chars: "CHR ''#'' \<notin> set ?p" "CHR ''?'' \<notin> set ?p" "CHR ''%'' \<notin> set ?p" "CHR ''#'' \<notin> set (x @ ''/approve'')"
    using assms by (auto simp: run_path_def plain_id_def raw_query_def slash_def)
  have ctl: "list_all (\<lambda>c. \<not> is_control c) (?p @ x @ ''/approve'')"
    using assms by (auto simp: run_path_def plain_id_def raw_query_def slash_def is_control_def)
  show "split_target (approve_path (victim @ ''/cancel?'' @ x)) = (?p, x @ ''/approve'', '''')"
    unfolding path using chars by (simp only: split_query not_False_eq_True)
  show "target_ok (approve_path (victim @ ''/cancel?'' @ x))" unfolding path by (rule target_ok_plain(2) [OF chars ctl])
  show "CHR '' '' \<notin> set (x @ ''/approve'')" using assms(2) by (simp add: raw_query_def)
qed

abbreviation list_path :: string where "list_path \<equiv> ''/v1/approvals?status=pending''"

lemma list_target:
  "split_target list_path = (slash # Join [slash] [''v1'', ''approvals''], ''status=pending'', '''')" "target_ok list_path"
  "\<forall>w \<in> set [''v1'', ''approvals'']. plain w \<and> CHR ''%'' \<notin> set w" "CHR '' '' \<notin> set ''status=pending''"
  by (simp_all add: split_target_def HasPrefix_def target_ok_def PathUnescape_def slash_def plain_def is_control_def)

lemma pending_query: "values_Get (URL_Query ''status=pending'') ''status'' = ApprovalPending"
  by (simp add: values_Get_def URL_Query_def query_pairs_def query_pair_def HasPrefix_def QueryUnescape_def
      map_filter_simps ApprovalPending_def)

text \<open>
  The ids of one or two dots, which a caller may choose: the path is cleaned, the decision
  becomes a GET of another path, and no approval is decided.
\<close>

lemma dotted_ids_leave_the_route:
  "mux_segments (clean_path (wire_path (approve_path ''.''))) = [''v1'', ''runs'', ''approve'']"
  "mux_segments (clean_path (wire_path (approve_path ''..''))) = [''v1'', ''approve'']"
  "clean_path (wire_path (approve_path ''.'')) \<noteq> wire_path (approve_path ''.'')"
  "clean_path (wire_path (approve_path ''..'')) \<noteq> wire_path (approve_path ''..'')"
  by code_simp+

section \<open>The daemon's side\<close>

text \<open>The client has the daemon's token, and the token can be sent in a header as it is.\<close>

definition speaks_to :: "daemon_client \<Rightarrow> server \<Rightarrow> bool" where
  "speaks_to c sv \<longleftrightarrow> SV_approvals sv \<and> SV_token sv = DC_token c \<and> sendable_token (DC_token c)"

text \<open>A request on a plain path, from the client to the handler and back.\<close>

abbreviation arrived :: "daemon_client \<Rightarrow> string \<Rightarrow> string \<Rightarrow> string option \<Rightarrow> http_request" where
  "arrived c meth path payload \<equiv> \<lparr>RQ_Header = CQ_Header (client_request_of c meth path payload),
      RQ_Body = Some (case payload of None \<Rightarrow> '''' | Some b \<Rightarrow> b)\<rparr>"

definition client_reads :: "(server_reply \<Rightarrow> up_response) \<Rightarrow> server_state \<times> server_reply \<Rightarrow> server_state \<times> (string + string)" where
  "client_reads enc p = (case p of (s', reply) \<Rightarrow> (s',
     if 300 \<le> UP_Status (enc reply)
     then Inl (''daemon returned '' @ FormatInt (UP_Status (enc reply)) @ '': '' @ UP_Body (enc reply))
     else Inr (UP_Body (enc reply))))"

lemma client_do_live:
  assumes "sendable_token (DC_token c)" "target_ok path" "split_target path = (slash # Join [slash] ws, qs, '''')"
    "ws \<noteq> []" "\<forall>w \<in> set ws. plain w \<and> CHR ''%'' \<notin> set w" "CHR '' '' \<notin> set qs"
  shows "client_do (live_daemon w sv (DC_base c) enc refusal items marshal) c meth path payload s =
    client_reads enc (dispatch w sv \<lparr>AQ_Method = meth, AQ_Path = ws, AQ_Query = qs, AQ_Http = arrived c meth path payload\<rparr> s)"
proof -
  have url: "drop (length (DC_base c)) (CQ_URL (client_request_of c meth path payload)) = path"
    "CQ_Method (client_request_of c meth path payload) = meth" "CQ_Body (client_request_of c meth path payload) = payload"
    by (simp_all add: client_request_of_def)
  show ?thesis
    using exchange_plain [OF assms(3-6)] client_header [OF assms(1), of meth path payload] assms(2)
    by (simp add: client_do_def live_daemon_def url client_reads_def Let_def case_prod_beta)
qed

lemma approve_client:
  assumes "sendable_token (DC_token c)" "plain_id rid"
  shows "client_do (live_daemon w sv (DC_base c) enc refusal items marshal) c meth (approve_path rid) payload s =
    client_reads enc (dispatch w sv \<lparr>AQ_Method = meth, AQ_Path = [''v1'', ''runs'', rid, ''approve''], AQ_Query = '''',
      AQ_Http = arrived c meth (approve_path rid) payload\<rparr> s)"
proof -
  have v: "''approve'' \<in> {''approve'', ''cancel''}" by simp
  note arrives = run_path_arrives [OF assms(2) v]
  have split: "split_target (run_path rid ''approve'') = (slash # Join [slash] [''v1'', ''runs'', rid, ''approve''], '''', '''')"
    unfolding arrives(1) by (simp only: run_path_def)
  show ?thesis
    unfolding approve_path_run by (rule client_do_live [OF assms(1) arrives(2) split _ arrives(3)]) simp_all
qed

lemma cancel_client:
  assumes "sendable_token (DC_token c)" "plain_id victim" "raw_query x"
  shows "client_do (live_daemon w sv (DC_base c) enc refusal items marshal) c meth (approve_path (victim @ ''/cancel?'' @ x)) payload s =
    client_reads enc (dispatch w sv \<lparr>AQ_Method = meth, AQ_Path = [''v1'', ''runs'', victim, ''cancel''], AQ_Query = x @ ''/approve'',
      AQ_Http = arrived c meth (approve_path (victim @ ''/cancel?'' @ x)) payload\<rparr> s)"
proof -
  have v: "''cancel'' \<in> {''approve'', ''cancel''}" by simp
  note t = injected_target [OF assms(2,3)] and arrives = run_path_arrives(3) [OF assms(2) v]
  show ?thesis by (rule client_do_live [OF assms(1) t(2) t(1) [unfolded run_path_def] _ arrives t(3)]) simp
qed

lemma client_authorized:
  assumes "SV_token sv = DC_token c"
  shows "authorized sv \<lparr>RQ_Header = CQ_Header (client_request_of c meth path payload), RQ_Body = b\<rparr>"
proof (cases "DC_token c = ''''")
  case False
  have "header_get (CQ_Header (client_request_of c meth path payload)) ''Authorization'' = ''Bearer '' @ DC_token c"
    using False by (simp add: client_request_of_def set_headers_def header_get_set fold_append del: append.simps)
  with assms False show ?thesis by (simp add: authorized_def bearer_prefix_def)
qed (simp add: authorized_def assms)

lemma dispatch_route:
  assumes "rt \<in> set (routes sv (m_store (mc_runs (ss_core s)) \<noteq> None))" "takes rt q" "authorized sv (AQ_Http q)"
    "RT_Auth rt"
  shows "dispatch w sv q s =
    recoverer (ApiServer.serve w sv (RT_Endpoint rt) (case match_path (RT_Path rt) (AQ_Path q) of Some (x # _) \<Rightarrow> x | _ \<Rightarrow> '''') q s)"
  using find_route_mounted [OF assms(1,2)] assms(3,4) by (simp add: dispatch_def requireAuth_def)

lemma mounted_routes:
  "route ''POST'' [Lit ''v1'', Lit ''runs'', Var, Lit ''cancel''] True CancelRun \<in> set (routes sv b)"
  "SV_approvals sv \<Longrightarrow> route ''POST'' [Lit ''v1'', Lit ''runs'', Var, Lit ''approve''] True Approve \<in> set (routes sv b)"
  "SV_approvals sv \<Longrightarrow> route ''GET'' [Lit ''v1'', Lit ''approvals''] True ListApprovalsAll \<in> set (routes sv b)"
  by (simp_all add: routes_def run_routes_def approval_routes_def mounted_def)

lemma route_sel [simp]:
  "RT_Method (route m p auth e) = m" "RT_Path (route m p auth e) = p" "RT_Auth (route m p auth e) = auth"
  "RT_Endpoint (route m p auth e) = e"
  by (simp_all add: route_def)

lemma dispatch_cancel:
  assumes "plain_id rid" "authorized sv r"
  shows "dispatch w sv \<lparr>AQ_Method = ''POST'', AQ_Path = [''v1'', ''runs'', rid, ''cancel''], AQ_Query = qs, AQ_Http = r\<rparr> s =
    recoverer (on_core (handleCancelRun (SW_api w) rid) s)"
  using assms
  by (subst dispatch_route [OF mounted_routes(1)])
    (simp_all add: takes_def match_method_def plain_id_def plain_def ApiServer.serve_def Let_def)

lemma dispatch_approve:
  assumes "plain_id rid" "authorized sv r" "SV_approvals sv"
  shows "dispatch w sv \<lparr>AQ_Method = ''POST'', AQ_Path = [''v1'', ''runs'', rid, ''approve''], AQ_Query = qs, AQ_Http = r\<rparr> s =
    recoverer (on_core (handleApprove (SW_api w) rid r) s)"
  using assms(1,2)
  by (subst dispatch_route [OF mounted_routes(2) [OF assms(3)]])
    (simp_all add: takes_def match_method_def plain_id_def plain_def ApiServer.serve_def Let_def)

lemma dispatch_list:
  assumes "authorized sv r" "SV_approvals sv"
  shows "dispatch w sv \<lparr>AQ_Method = ''GET'', AQ_Path = [''v1'', ''approvals''], AQ_Query = qs, AQ_Http = r\<rparr> s =
    recoverer (on_core (handleListApprovals (SW_api w) qs) s)"
  using assms(1)
  by (subst dispatch_route [OF mounted_routes(3) [OF assms(2)]])
    (simp_all add: takes_def match_method_def ApiServer.serve_def Let_def)

section \<open>A decision given at the terminal\<close>

text \<open>What the client reads of one approval in the daemon's JSON, and the list it asks for.\<close>

definition item_of :: "approval_record \<Rightarrow> approval_item" where
  "item_of a = \<lparr>IT_ID = AR_ID a, IT_RunID = AR_RunID a, IT_StepIndex = sint (AR_StepIndex a), IT_Tool = AR_Tool a,
     IT_SideEffect = AR_SideEffect a, IT_CreatedAt = fmtTime (AR_CreatedAt a)\<rparr>"

definition pending_list :: "db \<Rightarrow> approval_record list" where
  "pending_list d = newest_first AR_CreatedAt (filter (\<lambda>a. AR_Status a = ApprovalPending) (db_approvals d))"

definition pending_reply :: "db \<Rightarrow> server_reply" where
  "pending_reply d = ApiReply (JSONReply 200 (Some (XList (map approvalView (pending_list d)))))"

lemma core_same:
  fixes s :: mcp_state
  shows "m_store (mc_runs s) = Some d \<Longrightarrow> s\<lparr>mc_runs := (mc_runs s)\<lparr>m_store := Some d\<rparr>\<rparr> = s"
  by (cases s; cases "mc_runs s") simp

lemma list_reply:
  assumes "m_store (mc_runs s) = Some d" "db_faults d = []"
  shows "handleListApprovals x ''status=pending'' s = (s, JSONReply 200 (Some (XList (map approvalView (pending_list d)))))"
proof -
  have "encodable (XList (map approvalView (pending_list d)))"
    by (auto simp: list_all_iff approvalView_def split: option.split)
  moreover have "on_store (ListApprovals ApprovalPending) s = (s, Some (Inr (pending_list d)))"
    using assms core_same [OF assms(1)]
    by (simp add: on_store_def ListApprovals_def query_def statement_def pending_list_def ApprovalPending_def)
  ultimately show ?thesis
    by (simp add: handleListApprovals_def pending_query WriteJSON_def del: encodable.simps)
qed

lemma item_found:
  assumes "distinct (map AR_ID (db_approvals d))" "a \<in> set (db_approvals d)" "AR_Status a = ApprovalPending"
  shows "run_of_item (AR_ID a) (map item_of (pending_list d)) = AR_RunID a"
proof -
  have mem: "a \<in> set (pending_list d)" using assms by (simp add: pending_list_def newest_first_def)
  have one: "b = a" if "b \<in> set (pending_list d)" "AR_ID b = AR_ID a" for b
    using that assms by (auto simp: pending_list_def newest_first_def distinct_map dest: inj_onD)
  obtain b where b: "find (\<lambda>x. AR_ID x = AR_ID a) (pending_list d) = Some b"
    using mem by (cases "find (\<lambda>x. AR_ID x = AR_ID a) (pending_list d)") (auto simp: find_None_iff)
  then have "b \<in> set (pending_list d)" "AR_ID b = AR_ID a" by (auto simp: find_Some_iff)
  then have "b = a" by (rule one)
  moreover have "find (\<lambda>i. IT_ID i = AR_ID a) (map item_of xs) = map_option item_of (find (\<lambda>x. AR_ID x = AR_ID a) xs)" for xs
    by (induction xs) (simp_all add: item_of_def)
  ultimately show ?thesis using b by (simp add: run_of_item_def item_of_def)
qed

text \<open>The handler, on a pending approval of the run.\<close>

lemma resolved_reply_json:
  assumes "m_store (mc_runs s) \<noteq> None"
  shows "\<exists>v. snd (resolved_reply rid aid s) = JSONReply 200 v" "gt_waiters (mc_gate (fst (resolved_reply rid aid s))) = gt_waiters (mc_gate s)"
  using assms
  by (auto simp: resolved_reply_def runViewBody_def pendingForRun_def approvals_Get_def with_gate_def gate_Get_def
      on_store_def WriteJSON_def case_prod_beta Let_def split: option.splits sum.splits list.splits)

definition given_decision :: "bool \<Rightarrow> string \<Rightarrow> decision" where
  "given_decision approve reason = \<lparr>D_Approved = approve, D_Reason = reason, D_By = ''cli''\<rparr>"

definition terminal_decision :: "string \<Rightarrow> bool \<Rightarrow> string \<Rightarrow> approval_decision" where
  "terminal_decision aid approve reason =
     \<lparr>AD_ApprovalID = aid, AD_Decision = decision_word approve, AD_Reason = reason, AD_DecidedBy = ''cli''\<rparr>"

lemma approve_handled:
  assumes "decodeJSON (XW_decision x) r = Inr (terminal_decision (AR_ID a) approve reason)"
    "m_store (mc_runs s) = Some d" "db_faults d = []" "distinct (map AR_ID (db_approvals d))"
    "a \<in> set (db_approvals d)" "AR_Status a = ApprovalPending" "AR_ID a \<noteq> ''''"
    "gt_waiters (mc_gate s) (AR_ID a) \<in> {None, Some None}"
  shows "\<exists>v. snd (handleApprove x (AR_RunID a) r s) = JSONReply 200 v"
    "approvals_of (fst (handleApprove x (AR_RunID a) r s)) =
       map (\<lambda>b. if b = a then decided approve reason ''cli'' (XW_now x) b else b) (db_approvals d)"
    "gt_waiters (mc_gate (fst (handleApprove x (AR_RunID a) r s))) =
       (if gt_waiters (mc_gate s) (AR_ID a) = None then gt_waiters (mc_gate s)
        else (gt_waiters (mc_gate s))(AR_ID a \<mapsto> Some (given_decision approve reason)))"
proof -
  let ?aid = "AR_ID a"
  have "lookup AR_ID ?aid (db_approvals d) = Some a"
    using assms(4,5) by (simp add: lookup_Some_iff)
  then have got: "approvals_Get ?aid s = (s\<lparr>mc_gate := (mc_gate s)\<lparr>gt_store := Some d\<rparr>\<rparr>, Some (Inr a))"
    using assms(2,3) by (cases s; cases "mc_runs s")
      (simp add: approvals_Get_def with_gate_def gate_Get_def GetApproval_def query_def statement_def)
  define s1 where "s1 = s\<lparr>mc_gate := (mc_gate s)\<lparr>gt_store := Some d\<rparr>\<rparr>"
  have s1: "m_store (mc_runs s1) = Some d" "gt_waiters (mc_gate s1) = gt_waiters (mc_gate s)" by (simp_all add: s1_def assms(2))
  define d2 where "d2 = d\<lparr>db_approvals := map (\<lambda>b. if resolvable ?aid b
      then decided approve reason ''cli'' (XW_now x) b else b) (db_approvals d)\<rparr>"
  have "list_ex (resolvable ?aid) (db_approvals d)"
    using assms(5,6) by (auto simp: list_ex_iff resolvable_def)
  then have resolve: "ResolveApproval ?aid (decision_status approve) reason ''cli'' (XW_now x) d = (d2, Inr ())"
    using assms(3) by (simp add: ResolveApproval_def statement_def d2_def decided_def cong: map_cong)
  define s2 res where "s2 = fst (with_gate (gate_Resolve ?aid (given_decision approve reason) (XW_now x)) s1)"
    and "res = snd (with_gate (gate_Resolve ?aid (given_decision approve reason) (XW_now x)) s1)"
  have s2: "m_store (mc_runs s2) = Some d2" "res \<in> {Inr Sent, Inr NoWaiter}"
    "gt_waiters (mc_gate s2) = (if gt_waiters (mc_gate s) ?aid = None then gt_waiters (mc_gate s)
        else (gt_waiters (mc_gate s))(?aid \<mapsto> Some (given_decision approve reason)))"
    using assms(8) resolve
    by (auto simp: s2_def res_def with_gate_def gate_Resolve_def resolve_in_store_def send_decision_def given_decision_def s1
        split: option.split)
  have word: "decisionToBool (decision_word approve) = Some approve"
    by (simp add: decisionToBool_def decision_word_def)
  have handled: "handleApprove x (AR_RunID a) r s = resolved_reply (AR_RunID a) ?aid s2"
    using assms(1,7) s2(2)
    by (auto simp: handleApprove_def terminal_decision_def word chosen_approval_def got case_prod_beta Let_def
        s2_def [symmetric] res_def [symmetric] s1_def [symmetric] given_decision_def [symmetric])
  show "\<exists>v. snd (handleApprove x (AR_RunID a) r s) = JSONReply 200 v"
    using resolved_reply_json [of s2] s2(1) by (simp add: handled)
  show "approvals_of (fst (handleApprove x (AR_RunID a) r s)) =
       map (\<lambda>b. if b = a then decided approve reason ''cli'' (XW_now x) b else b) (db_approvals d)"
    using resolve_one [OF assms(4,5) refl] assms(6)
    by (simp add: handled resolved_reply_keeps) (simp add: approvals_of_def s2(1) d2_def)
  show "gt_waiters (mc_gate (fst (handleApprove x (AR_RunID a) r s))) =
       (if gt_waiters (mc_gate s) ?aid = None then gt_waiters (mc_gate s)
        else (gt_waiters (mc_gate s))(?aid \<mapsto> Some (given_decision approve reason)))"
    using resolved_reply_json(2) [of s2] s2 by (simp add: handled)
qed

lemma getItems_live:
  assumes "speaks_to c sv" "m_store (mc_runs (ss_core s)) = Some d" "db_faults d = []"
    "\<forall>st v. UP_Status (enc (ApiReply (JSONReply st v))) = st" "items (UP_Body (enc (pending_reply d))) = Inr xs"
  shows "getItems (live_daemon w sv (DC_base c) enc refusal items marshal) c s = (s, Inr xs)"
proof -
  have same: "s\<lparr>ss_core := ss_core s\<rparr> = s" by (cases s) simp
  have sv: "SV_token sv = DC_token c" "SV_approvals sv" "sendable_token (DC_token c)"
    using assms(1) by (simp_all add: speaks_to_def)
  show ?thesis
    using assms(4,5) client_authorized [OF sv(1)]
    by (simp add: getItems_def client_do_live [OF sv(3) list_target(2,1) _ list_target(3,4)] client_reads_def dispatch_list sv(2)
        on_core_def list_reply [OF assms(2,3)] recoverer_def same pending_reply_def) (simp add: live_daemon_def Let_def)
qed

text \<open>
  C14. A decision given at the terminal reaches the row it names, and the caller waiting on it.
  The command and the daemon share a token that can be sent in a header, the store answers
  and its approval ids are distinct, and the two sides read each other's JSON as it was meant.
  Then \<open>riskkernel approvals approve <id>\<close> and \<open>deny <id>\<close> on a pending approval, of a run
  whose id is a plain path segment (not a dot or two, no delimiter, escape or control
  character), change exactly that approval's row: to approved or denied, with the given
  reason and decided by the command line. A blocked call without a decision gets that one,
  and the command says so.
\<close>

theorem terminal_decision_reaches_row:
  assumes "newDaemonClient cw = Inr c" "speaks_to c sv"
    "m_store (mc_runs (ss_core s)) = Some d" "db_faults d = []" "distinct (map AR_ID (db_approvals d))"
    "a \<in> set (db_approvals d)" "AR_Status a = ApprovalPending" "AR_ID a \<noteq> ''''" "plain_id (AR_RunID a)"
    "gt_waiters (mc_gate (ss_core s)) (AR_ID a) \<in> {None, Some None}"
    "\<forall>st v. UP_Status (enc (ApiReply (JSONReply st v))) = st"
    "items (UP_Body (enc (pending_reply d))) = Inr (map item_of (pending_list d))"
    "\<forall>h. decodeJSON (XW_decision (SW_api w))
        \<lparr>RQ_Header = h, RQ_Body = Some (marshal (decision_fields (AR_ID a) approve reason))\<rparr> =
      Inr (terminal_decision (AR_ID a) approve reason)"
  shows "let (s', res) = approvalsResolve cw (live_daemon w sv (DC_base c) enc refusal items marshal) (AR_ID a) approve reason s
    in res = cli_print (line_of (decision_word approve @ ''d approval '' @ AR_ID a)) \<and>
       approvals_of (ss_core s') =
         map (\<lambda>b. if b = a then decided approve reason ''cli'' (XW_now (SW_api w)) b else b) (db_approvals d) \<and>
       gt_waiters (mc_gate (ss_core s')) =
         (if gt_waiters (mc_gate (ss_core s)) (AR_ID a) = None then gt_waiters (mc_gate (ss_core s))
          else (gt_waiters (mc_gate (ss_core s)))(AR_ID a \<mapsto> Some (given_decision approve reason)))"
proof -
  let ?n = "live_daemon w sv (DC_base c) enc refusal items marshal"
  let ?body = "marshal (decision_fields (AR_ID a) approve reason)"
  let ?r = "\<lparr>RQ_Header = CQ_Header (client_request_of c ''POST'' (approve_path (AR_RunID a)) (Some ?body)), RQ_Body = Some ?body\<rparr>"
  have sv: "SV_token sv = DC_token c" "SV_approvals sv" "sendable_token (DC_token c)"
    using assms(2) by (simp_all add: speaks_to_def)
  note handled = approve_handled [OF assms(13) [rule_format, of "CQ_Header (client_request_of c ''POST'' (approve_path (AR_RunID a)) (Some ?body))"] assms(3-8,10)]
  from handled(1) obtain v where v: "snd (handleApprove (SW_api w) (AR_RunID a) ?r (ss_core s)) = JSONReply 200 v" by blast
  have "client_do ?n c ''POST'' (approve_path (AR_RunID a)) (Some ?body) s =
      (s\<lparr>ss_core := fst (handleApprove (SW_api w) (AR_RunID a) ?r (ss_core s))\<rparr>,
       Inr (UP_Body (enc (ApiReply (JSONReply 200 v)))))"
    using v assms(11)
    by (simp add: approve_client [OF sv(3) assms(9)] client_reads_def dispatch_approve [OF assms(9) client_authorized [OF sv(1)] sv(2)]
        on_core_def case_prod_beta recoverer_def Let_def)
  moreover have "getItems ?n c s = (s, Inr (map item_of (pending_list d)))"
    by (rule getItems_live [where enc = enc and items = items, OF assms(2-4,11,12)])
  moreover have "CN_marshal ?n = marshal" by (simp add: live_daemon_def Let_def)
  moreover have "AR_RunID a \<noteq> ''''" using assms(9) by (simp add: plain_id_def plain_def)
  ultimately show ?thesis
    using handled(2,3)
    by (simp add: approvalsResolve_def assms(1) item_found [OF assms(5-7)] case_prod_beta Let_def)
qed

text \<open>
  C15. A run's id can turn a decision into another operation. The client's id of a run goes
  into the path unescaped, and a caller chooses the id of its run. Take an approval of a run
  named \<open>victim/cancel?x\<close>, where \<open>victim\<close> is a plain path segment and \<open>x\<close> has no \<open>#\<close>, no
  blank and no control character, so that the request is well formed; command and daemon
  share a token that can be sent, and the store answers the listing. Then the command's
  decision, approval or denial, is not given: the request cancels the run \<open>victim\<close> instead,
  with the operator's token, and the command still reports the decision as made whenever the
  cancellation is answered with a status below 300.
\<close>

theorem run_id_redirects_decision:
  assumes "newDaemonClient cw = Inr c" "speaks_to c sv"
    "m_store (mc_runs (ss_core s)) = Some d" "db_faults d = []" "distinct (map AR_ID (db_approvals d))"
    "a \<in> set (db_approvals d)" "AR_Status a = ApprovalPending"
    "AR_RunID a = victim @ ''/cancel?'' @ x" "plain_id victim" "raw_query x"
    "\<forall>st v. UP_Status (enc (ApiReply (JSONReply st v))) = st"
    "items (UP_Body (enc (pending_reply d))) = Inr (map item_of (pending_list d))"
  shows "let (core, reply) = handleCancelRun (SW_api w) victim (ss_core s);
             out = recoverer (s\<lparr>ss_core := core\<rparr>, ApiReply reply)
    in approvalsResolve cw (live_daemon w sv (DC_base c) enc refusal items marshal) (AR_ID a) approve reason s =
      (fst out, if 300 \<le> UP_Status (enc (snd out))
         then cli_fail (''daemon returned '' @ FormatInt (UP_Status (enc (snd out))) @ '': '' @ UP_Body (enc (snd out)))
         else cli_print (line_of (decision_word approve @ ''d approval '' @ AR_ID a)))"
proof -
  let ?n = "live_daemon w sv (DC_base c) enc refusal items marshal"
  let ?body = "marshal (decision_fields (AR_ID a) approve reason)"
  have sv: "SV_token sv = DC_token c" "sendable_token (DC_token c)" using assms(2) by (simp_all add: speaks_to_def)
  have "getItems ?n c s = (s, Inr (map item_of (pending_list d)))"
    by (rule getItems_live [where enc = enc and items = items, OF assms(2-4,11,12)])
  moreover have "CN_marshal ?n = marshal" by (simp add: live_daemon_def Let_def)
  moreover have "AR_RunID a \<noteq> ''''" by (simp add: assms(8))
  moreover have "client_do ?n c ''POST'' (approve_path (AR_RunID a)) (Some ?body) s =
      client_reads enc (recoverer (on_core (handleCancelRun (SW_api w) victim) s))"
    unfolding assms(8) cancel_client [OF sv(2) assms(9,10)] dispatch_cancel [OF assms(9) client_authorized [OF sv(1)]] ..
  ultimately show ?thesis
    by (simp add: approvalsResolve_def assms(1) item_found [OF assms(5-7)] case_prod_beta Let_def on_core_def client_reads_def)
qed

section \<open>Two decisions\<close>

definition open_server :: server where "open_server = local_server\<lparr>SV_token := ''''\<rparr>"

definition terminal_world :: "string \<Rightarrow> server_world" where
  "terminal_world aid =
     \<lparr>SW_api = sample_api_world\<lparr>XW_decision := (\<lambda>_ _. Inr (terminal_decision aid True ''ok''))\<rparr>,
      SW_gw = sample_gw_world, SW_mcp = sample_world, SW_otlp = (\<lambda>_ _. Inl ''''), SW_now = 7, SW_sum = (\<lambda>_. fzero),
      SW_version = '''', SW_commit = '''', SW_date = ''''\<rparr>"

definition status_line :: "server_reply \<Rightarrow> up_response" where
  "status_line reply = \<lparr>UP_Status = (case reply of ApiReply (JSONReply st _) \<Rightarrow> st | _ \<Rightarrow> 500), UP_Header = [], UP_Body = ''''\<rparr>"

definition waiting_on :: "approval_record \<Rightarrow> server_state" where
  "waiting_on a =
     \<lparr>ss_core = sample_core ((restart safe_budget (empty_db\<lparr>db_approvals := [a]\<rparr>))
        \<lparr>m_heap := [newRun ''r1'' ''agent'' safe_budget [] 0], m_runs := [(''r1'', 0)]\<rparr>),
      ss_tracer = Disabled, ss_asked = [], ss_slack = []\<rparr>"

definition local_client :: daemon_client where
  "local_client = \<lparr>DC_base = ''http://localhost:'' @ FormatInt DefaultPort, DC_token = ''''\<rparr>"

definition answering :: "approval_record \<Rightarrow> server_state daemon" where
  "answering a = live_daemon (terminal_world (AR_ID a)) open_server (DC_base local_client) status_line id
     (\<lambda>_. Inr [item_of a]) (\<lambda>_. ''x'')"

lemma local_client: "newDaemonClient (sample_cli d) = Inr local_client" "speaks_to local_client open_server"
  by (simp_all add: newDaemonClient_def sample_cli_config local_client_def unset_config_def read_config_def unset_getenv
      speaks_to_def sendable_token_def open_server_def local_server_def)

lemma waiting_on_sel:
  "m_store (mc_runs (ss_core (waiting_on a))) = Some (empty_db\<lparr>db_approvals := [a]\<rparr>)"
  "gt_waiters (mc_gate (ss_core (waiting_on a))) = Map.empty" "get_run ''r1'' (mc_runs (ss_core (waiting_on a))) = Some 0"
  by (simp_all add: waiting_on_def sample_core_def restart_def WithStore_def NewManager_def NewGate_def get_run_def)

lemma one_pending:
  assumes "AR_Status a = ApprovalPending"
  shows "pending_list (empty_db\<lparr>db_approvals := [a]\<rparr>) = [a]" "db_faults (empty_db\<lparr>db_approvals := [a]\<rparr>) = []"
  using assms by (simp_all add: pending_list_def newest_first_def sort_by_def empty_db_def)

lemma status_line_json: "\<forall>st v. UP_Status (status_line (ApiReply (JSONReply st v))) = st"
  by (simp add: status_line_def)

lemma pending_sel: "AR_Status sample_pending = ApprovalPending" "AR_ID sample_pending = ''ap1''" "AR_RunID sample_pending = ''r1''"
  by (simp_all add: sample_pending_def ApprovalPending_def)

lemma terminal_decision_reaches_row_witness:
  "let (s', res) = approvalsResolve (sample_cli empty_db) (answering sample_pending) ''ap1'' True ''ok'' (waiting_on sample_pending)
   in res = cli_print (line_of ''approved approval ap1'') \<and>
      approvals_of (ss_core s') = [decided True ''ok'' ''cli'' 7 sample_pending]"
proof -
  have id: "AR_ID sample_pending \<noteq> ''''" "plain_id (AR_RunID sample_pending)"
    "sample_pending \<in> set (db_approvals (empty_db\<lparr>db_approvals := [sample_pending]\<rparr>))"
    "distinct (map AR_ID (db_approvals (empty_db\<lparr>db_approvals := [sample_pending]\<rparr>)))"
    "gt_waiters (mc_gate (ss_core (waiting_on sample_pending))) (AR_ID sample_pending) \<in> {None, Some None}"
    by (simp_all add: pending_sel plain_id_def plain_def slash_def is_control_def waiting_on_sel)
  have dec: "\<forall>h. decodeJSON (XW_decision (SW_api (terminal_world (AR_ID sample_pending))))
        \<lparr>RQ_Header = h, RQ_Body = Some ((\<lambda>_. ''x'') (decision_fields (AR_ID sample_pending) True ''ok''))\<rparr> =
      Inr (terminal_decision (AR_ID sample_pending) True ''ok'')"
    by (simp add: decodeJSON_def terminal_world_def)
  have items: "(\<lambda>_. Inr [item_of sample_pending]) (UP_Body (status_line (pending_reply (empty_db\<lparr>db_approvals := [sample_pending]\<rparr>)))) =
      Inr (map item_of (pending_list (empty_db\<lparr>db_approvals := [sample_pending]\<rparr>)))"
    by (simp add: one_pending pending_sel)
  show ?thesis
    using terminal_decision_reaches_row [where items = "\<lambda>_. Inr [item_of sample_pending]" and marshal = "\<lambda>_. ''x''" and enc = status_line,
        OF local_client waiting_on_sel(1) one_pending(2) [OF pending_sel(1)] id(4,3) pending_sel(1) id(1,2,5) status_line_json items dec,
        of empty_db]
    by (simp add: answering_def pending_sel case_prod_beta Let_def decision_word_def terminal_world_def sample_api_world_def)
qed

text \<open>The operator denies an approval and cancels another caller's run.\<close>

definition hostile_pending :: approval_record where
  "hostile_pending = sample_pending\<lparr>AR_RunID := ''r1/cancel?x''\<rparr>"

lemma hostile_sel:
  "AR_Status hostile_pending = ApprovalPending" "AR_ID hostile_pending = ''ap1''"
  "AR_RunID hostile_pending = ''r1'' @ ''/cancel?'' @ ''x''"
  by (simp_all add: hostile_pending_def pending_sel)

lemma run_id_redirects_decision_witness:
  "let (s', res) = approvalsResolve (sample_cli empty_db) (answering hostile_pending) ''ap1'' False ''no'' (waiting_on hostile_pending)
   in res = cli_print (line_of ''denyd approval ap1'') \<and>
      mc_runs (ss_core s') = run_Cancel 0 7 (mc_runs (ss_core (waiting_on hostile_pending)))"
proof -
  let ?d = "empty_db\<lparr>db_approvals := [hostile_pending]\<rparr>"
  have id: "plain_id ''r1''" "raw_query ''x''" "hostile_pending \<in> set (db_approvals ?d)" "distinct (map AR_ID (db_approvals ?d))"
    by (simp_all add: plain_id_def plain_def slash_def is_control_def raw_query_def)
  have items: "(\<lambda>_. Inr [item_of hostile_pending]) (UP_Body (status_line (pending_reply ?d))) =
      Inr (map item_of (pending_list ?d))"
    by (simp add: one_pending hostile_sel)
  obtain v where cancel: "handleCancelRun (SW_api (terminal_world ''ap1'')) ''r1'' (ss_core (waiting_on hostile_pending)) =
      ((ss_core (waiting_on hostile_pending))\<lparr>mc_runs := run_Cancel 0 7 (mc_runs (ss_core (waiting_on hostile_pending)))\<rparr>,
       JSONReply 200 v)"
    by (simp add: handleCancelRun_def waiting_on_sel Let_def WriteJSON_def terminal_world_def sample_api_world_def)
  show ?thesis
    using run_id_redirects_decision [where items = "\<lambda>_. Inr [item_of hostile_pending]" and marshal = "\<lambda>_. ''x''" and enc = status_line
          and w = "terminal_world ''ap1''" and approve = False and reason = "''no''",
        OF local_client(1) [of empty_db] local_client(2) waiting_on_sel(1) one_pending(2) [OF hostile_sel(1)] id(4,3) hostile_sel(1,3) id(1,2) status_line_json items]
    by (simp add: answering_def hostile_sel cancel recoverer_def status_line_json Let_def decision_word_def)
qed

end
