(* ===== verification/Lifecycle.thy ===== *)
theory Lifecycle
  imports CliMain
begin

text \<open>
  The daemon's life once it is built: \<open>Server.Serve\<close> (\<open>internal/httpapi/server.go\<close>), the
  closing of the dependencies (\<open>internal/app/bootstrap.go\<close>) and what the process exits with
  (\<open>cmd/riskkernel/main.go\<close>), with the timeouts that bound a request on its way through.
  \<open>Serve\<close> is two goroutines and a signal, so it is a step relation. What the kernel says to
  \<open>ListenAndServe\<close>, and whether the handlers end within the grace period, is the choice of a
  step. Shown: \<open>Serve\<close> cannot hang or leak its goroutine, it ends without an error only after a
  signal, and an error of the listener can be lost to a signal that comes with it.
\<close>

section \<open>Serving and shutting down\<close>

text \<open>
  \<open>ListenAndServe\<close> returns an error always: \<open>http.ErrServerClosed\<close> once \<open>Shutdown\<close> was called,
  or the reason it cannot listen or accept. The goroutine then sends what \<open>listen_report\<close> makes
  of it into a channel of capacity one.
\<close>

datatype listen_error = ErrServerClosed | ListenFails string

datatype listener = Accepting | Ended listen_error | Sent

datatype serve_failure = ListenError string | GracefulShutdown string

datatype serve_phase = Selecting | Draining | Returned "serve_failure option"

record serve_state =
  sv_listener :: listener
  sv_errCh :: "serve_failure option option"
  sv_signalled :: bool
  sv_phase :: serve_phase

fun listen_report :: "listen_error \<Rightarrow> serve_failure option" where
  "listen_report ErrServerClosed = None"
| "listen_report (ListenFails e) = Some (ListenError e)"

definition shutdownText :: "serve_failure \<Rightarrow> string" where
  "shutdownText f = (case f of ListenError e \<Rightarrow> e | GracefulShutdown e \<Rightarrow> ''graceful shutdown: '' @ e)"

definition serve_start :: serve_state where
  "serve_start = \<lparr>sv_listener = Accepting, sv_errCh = None, sv_signalled = False, sv_phase = Selecting\<rparr>"

text \<open>\<open>Shutdown\<close> has been called exactly when \<open>Serve\<close> has left its select by the second case.\<close>

fun shutdown_called :: "serve_phase \<Rightarrow> bool" where
  "shutdown_called Selecting = False"
| "shutdown_called Draining = True"
| "shutdown_called (Returned (Some (ListenError e))) = False"
| "shutdown_called (Returned r) = True"

inductive serve_step :: "serve_state \<Rightarrow> serve_state \<Rightarrow> bool" where
  Fail: "sv_listener s = Accepting \<Longrightarrow> \<not> shutdown_called (sv_phase s) \<Longrightarrow>
    serve_step s (s\<lparr>sv_listener := Ended (ListenFails e)\<rparr>)"
| Closed: "sv_listener s = Accepting \<Longrightarrow> shutdown_called (sv_phase s) \<Longrightarrow>
    serve_step s (s\<lparr>sv_listener := Ended ErrServerClosed\<rparr>)"
| Report: "sv_listener s = Ended e \<Longrightarrow> sv_errCh s = None \<Longrightarrow>
    serve_step s (s\<lparr>sv_listener := Sent, sv_errCh := Some (listen_report e)\<rparr>)"
| Signal: "\<not> sv_signalled s \<Longrightarrow> serve_step s (s\<lparr>sv_signalled := True\<rparr>)"
| SelectErr: "sv_phase s = Selecting \<Longrightarrow> sv_errCh s = Some r \<Longrightarrow>
    serve_step s (s\<lparr>sv_errCh := None, sv_phase := Returned r\<rparr>)"
| SelectDone: "sv_phase s = Selecting \<Longrightarrow> sv_signalled s \<Longrightarrow>
    serve_step s (s\<lparr>sv_phase := Draining\<rparr>)"
| Drained: "sv_phase s = Draining \<Longrightarrow> serve_step s (s\<lparr>sv_phase := Returned None\<rparr>)"
| GraceExpired: "sv_phase s = Draining \<Longrightarrow>
    serve_step s (s\<lparr>sv_phase := Returned (Some (GracefulShutdown e))\<rparr>)"

abbreviation serving :: "serve_state \<Rightarrow> bool" where
  "serving s \<equiv> serve_step\<^sup>*\<^sup>* serve_start s"

text \<open>
  The channel is written once, after the listener ended; it says nil only when \<open>Shutdown\<close> was
  called; \<open>Shutdown\<close> is called only after a signal.
\<close>

definition serve_inv :: "serve_state \<Rightarrow> bool" where
  "serve_inv s \<longleftrightarrow>
     (sv_errCh s \<noteq> None \<longrightarrow> sv_listener s = Sent) \<and>
     (sv_listener s = Ended ErrServerClosed \<or> sv_errCh s = Some None \<longrightarrow> shutdown_called (sv_phase s)) \<and>
     (shutdown_called (sv_phase s) \<longrightarrow> sv_signalled s) \<and>
     (\<forall>f. sv_errCh s = Some (Some f) \<longrightarrow> (\<exists>e. f = ListenError e))"

lemma listen_report_cases:
  "listen_report e = None \<longleftrightarrow> e = ErrServerClosed"
  "listen_report e = Some f \<longleftrightarrow> (\<exists>t. e = ListenFails t \<and> f = ListenError t)"
  by (cases e; auto)+

lemma serve_start_inv: "serve_inv serve_start"
  by (simp add: serve_inv_def serve_start_def)

lemma serve_step_inv:
  assumes "serve_step s s'" "serve_inv s"
  shows "serve_inv s'"
  using assms by induction (auto simp: serve_inv_def listen_report_cases)

lemma serving_inv: "serving s \<Longrightarrow> serve_inv s"
  by (induction rule: rtranclp_induct) (auto intro: serve_start_inv serve_step_inv)

text \<open>Once the goroutine has a report the channel is free, so the send never blocks: no leak.\<close>

lemma report_never_blocks: "serving s \<Longrightarrow> sv_listener s = Ended e \<Longrightarrow> sv_errCh s = None"
  using serving_inv [of s] by (auto simp: serve_inv_def)

text \<open>A daemon nobody stopped does not end without an error.\<close>

lemma clean_end_needs_signal: "serving s \<Longrightarrow> sv_phase s = Returned None \<Longrightarrow> sv_signalled s"
  using serving_inv [of s] by (simp add: serve_inv_def)

text \<open>
  Every run of \<open>Serve\<close> ends: each step takes a component forward, and a state without a step is
  one in which \<open>Serve\<close> has returned.
\<close>

definition serve_left :: "serve_state \<Rightarrow> nat" where
  "serve_left s =
     (case sv_listener s of Accepting \<Rightarrow> 2 | Ended _ \<Rightarrow> 1 | Sent \<Rightarrow> 0) +
     (case sv_phase s of Selecting \<Rightarrow> 2 | Draining \<Rightarrow> 1 | Returned _ \<Rightarrow> 0) +
     (if sv_signalled s then 0 else 1)"

lemma serve_step_left: "serve_step s s' \<Longrightarrow> serve_left s' < serve_left s"
  by (induction rule: serve_step.induct) (simp_all add: serve_left_def)

lemma serve_run_bounded:
  "(serve_step ^^ n) s s' \<Longrightarrow> n + serve_left s' \<le> serve_left s"
proof (induction n arbitrary: s')
  case (Suc n)
  then obtain t where "(serve_step ^^ n) s t" "serve_step t s'" by (auto elim: relpowp_Suc_E)
  with Suc.IH [of t] serve_step_left [of t s'] show ?case by simp
qed simp

lemma serve_never_stuck:
  assumes "\<And>s'. \<not> serve_step s s'"
  shows "(\<exists>r. sv_phase s = Returned r) \<and> sv_signalled s"
proof -
  have sig: "sv_signalled s" using assms Signal by blast
  have "sv_phase s \<noteq> Selecting" using assms sig SelectDone by blast
  moreover have "sv_phase s \<noteq> Draining" using assms Drained by blast
  ultimately show ?thesis using sig by (cases "sv_phase s") auto
qed

text \<open>After a signal two steps of \<open>Serve\<close>'s own are enough, whatever the listener does.\<close>

lemma signal_stops:
  assumes "sv_phase s = Selecting" "sv_signalled s"
  shows "\<exists>t. serve_step s t \<and> serve_step t (s\<lparr>sv_phase := Returned None\<rparr>)"
proof (intro exI conjI)
  show "serve_step s (s\<lparr>sv_phase := Draining\<rparr>)" using assms by (rule SelectDone)
  show "serve_step (s\<lparr>sv_phase := Draining\<rparr>) (s\<lparr>sv_phase := Returned None\<rparr>)"
    using Drained [of "s\<lparr>sv_phase := Draining\<rparr>"] by simp
qed

text \<open>
  When the listener failed and a signal comes before the error is read, Go's select may take
  either case: the daemon that never listened can end as if all was well, its error unread in
  the channel.
\<close>

lemma listen_error_can_be_lost:
  "serving \<lparr>sv_listener = Sent, sv_errCh = Some (Some (ListenError e)), sv_signalled = True,
            sv_phase = Returned None\<rparr>"
proof -
  let ?s = "\<lambda>l c g p. \<lparr>sv_listener = l, sv_errCh = c, sv_signalled = g, sv_phase = p\<rparr>"
  let ?r = "Some (Some (ListenError e))"
  have "serve_step serve_start (?s (Ended (ListenFails e)) None False Selecting)"
    using Fail [of serve_start e] by (simp add: serve_start_def)
  moreover have "serve_step (?s (Ended (ListenFails e)) None False Selecting) (?s Sent ?r False Selecting)"
    using Report [of "?s (Ended (ListenFails e)) None False Selecting"] by simp
  moreover have "serve_step (?s Sent ?r False Selecting) (?s Sent ?r True Selecting)"
    using Signal [of "?s Sent ?r False Selecting"] by simp
  moreover have "serve_step (?s Sent ?r True Selecting) (?s Sent ?r True Draining)"
    using SelectDone [of "?s Sent ?r True Selecting"] by simp
  moreover have "serve_step (?s Sent ?r True Draining) (?s Sent ?r True (Returned None))"
    using Drained [of "?s Sent ?r True Draining"] by simp
  ultimately show ?thesis by (meson converse_rtranclp_into_rtranclp rtranclp.rtrancl_refl)
qed

section \<open>Closing and the exit code\<close>

text \<open>
  \<open>Deps.Close\<close>: the tracer's shutdown first, its error dropped, then the store. The list says
  what was done; \<open>flush\<close> and \<open>close\<close> are what the exporter and the driver answer.
\<close>

datatype closing = TracerClosed "string option" | StoreClosed

definition deps_Close :: "string option \<Rightarrow> string option \<Rightarrow> tracer option \<Rightarrow> 'd option \<Rightarrow> closing list \<times> string option" where
  "deps_Close flush close tr store =
     ((if tr \<noteq> None then [TracerClosed (tracer_Shutdown flush tr)] else []) @
      (if store \<noteq> None then [StoreClosed] else []),
      if store \<noteq> None then close else None)"

lemma store_closes_last:
  "store \<noteq> None \<Longrightarrow> last (fst (deps_Close flush close tr store)) = StoreClosed"
  by (simp add: deps_Close_def)

lemma flush_error_is_dropped:
  "snd (deps_Close flush close tr store) = snd (deps_Close None close tr store)"
  by (simp add: deps_Close_def)

text \<open>How \<open>main\<close> ends once \<open>Serve\<close> has returned; the deferred \<open>Close\<close> has no say in it.\<close>

definition serve_exit :: "'d process \<Rightarrow> serve_failure option \<Rightarrow> outcome" where
  "serve_exit pc r = finish pc ('''', '''', map_option (CliText \<circ> shutdownText) r)"

lemma serve_exit_simps [simp]:
  "serve_exit pc None = Exit 0 '''' ''''"
  "serve_exit pc (Some f) = Exit 1 '''' (line_of (''error: '' @ shutdownText f))"
  by (simp_all add: serve_exit_def finish_def error_text_def)

text \<open>A supervisor that restarts on failure restarts every daemon that ended unasked.\<close>

lemma unasked_end_is_a_failure:
  assumes "serving s" "sv_phase s = Returned r" "\<not> sv_signalled s"
  shows "\<exists>e. serve_exit pc r = Exit 1 '''' (line_of (''error: '' @ e))"
proof (cases r)
  case None
  with assms clean_end_needs_signal show ?thesis by blast
next
  case (Some f)
  then show ?thesis by auto
qed

lemma bind_failure_exits_1:
  "serve_exit pc (listen_report (ListenFails e)) = Exit 1 '''' (line_of (''error: '' @ e))"
  by (simp add: shutdownText_def)

section \<open>Timeouts on the way of a request\<close>

text \<open>
  Durations in nanoseconds. \<open>http.Server\<close> drops the connection of a reply that is not written
  within \<open>WriteTimeout\<close> of the request's header; the handler runs on. \<open>http.Client\<close> gives up on
  an answer after its \<open>Timeout\<close>.
\<close>

definition second :: int where "second = 10 ^ 9"

definition defaultReadTimeout :: int where "defaultReadTimeout = 15 * second"

definition defaultWriteTimeout :: int where "defaultWriteTimeout = 130 * second"

definition anthropic_timeout :: int where "anthropic_timeout = 120 * second"

definition openai_timeout :: int where "openai_timeout = 120 * second"

definition bedrock_timeout :: int where "bedrock_timeout = 120 * second"

definition ollama_timeout :: int where "ollama_timeout = 300 * second"

definition mcp_client_timeout :: int where "mcp_client_timeout = 130 * second"

definition reply_written :: "int \<Rightarrow> bool" where
  "reply_written d \<longleftrightarrow> d < defaultWriteTimeout"

definition answer_accepted :: "int \<Rightarrow> int \<Rightarrow> bool" where
  "answer_accepted timeout d \<longleftrightarrow> d < timeout"

lemmas timeout_defs = second_def defaultReadTimeout_def defaultWriteTimeout_def anthropic_timeout_def
  openai_timeout_def bedrock_timeout_def ollama_timeout_def mcp_client_timeout_def
  reply_written_def answer_accepted_def

text \<open>
  The comment on \<open>defaultWriteTimeout\<close> says it exceeds the provider's timeout. With ten seconds
  for everything else that holds for three vendors.
\<close>

lemma accepted_answers_are_written:
  assumes "answer_accepted timeout d" "rest \<le> 10 * second"
    and "timeout \<in> {anthropic_timeout, openai_timeout, bedrock_timeout}"
  shows "reply_written (d + rest)"
  using assms by (auto simp: timeout_defs)

text \<open>It does not hold for Ollama: the daemon takes, and charges, an answer it can no longer relay.\<close>

lemma slow_ollama_answer_is_lost:
  "\<exists>d. answer_accepted ollama_timeout d \<and> \<not> reply_written d"
  by (rule exI [of _ "200 * second"]) (simp add: timeout_defs)

text \<open>
  Nor for a tool call that a human approved near the end of the gateway's wait, by default 110
  seconds: the upstream has what is left of the 130.
\<close>

lemma late_approval_leaves_little:
  assumes "wait \<le> approval_timeout 110"
  shows "answer_accepted (20 * second) d \<Longrightarrow> reply_written (wait + d)"
    and "\<exists>d. answer_accepted mcp_client_timeout d \<and> \<not> reply_written (approval_timeout 110 + d)"
  using assms by (auto simp: timeout_defs approval_timeout_def intro!: exI [of _ "60000000000"])

end
