(* ===== verification/Spec2Isabelle.thy ===== *)
theory Spec2Isabelle
  imports GoPrelude Float64 Machine Governor Pricing Glob Timestamp Tables Storage StorageLaws
    Approval PolicyFile Runs RunsLaws RunsLife
    Http Telemetry Mcp McpLaws
    Postgres PostgresLaws Compliance ComplianceLaws Provider Gateway GatewayLaws
    Identifiers Strconv Config ConfigLaws Paths Memory MemoryLaws Ingress IngressLaws Notify NotifyLaws Url Api Metrics ApiServer ApiLaws
    Utf8 TimeText JsonText JsonNumber Rows RowsLaws SqlStore Vendors Bedrock VendorsLaws Bootstrap BootstrapLaws Terminal CliStore CliDaemon CliMain CliLaws Wire CliApprovals Lifecycle
begin

text \<open>
  RiskKernel is a daemon that stands between agents and the models and tools they call. It
  meters every call, holds each run to a budget, asks a human before a side effect, and
  keeps the record in a database the user owns. This library models the daemon's Go code
  (\<open>internal/\<close>) and its command line (\<open>cmd/riskkernel\<close>), and proves what they promise: a
  budget cannot be exceeded unnoticed, a call that needs a human does not happen without one,
  and the record is complete and durable.

  How the parts interact. A model call enters at the model gateway, which finds or creates
  the run with the run manager, begins a step (the governor's guard), asks the provider,
  prices the answer and records it (the governor's ledger, then the store). A tool call
  enters at the MCP gateway, which applies the allowlist and the approval policy, waits at
  the gate for a decision, records the call in the store and forwards it. Spans that others
  measured enter at the telemetry ingress and are charged to their runs. The HTTP server
  mounts these and the handlers of the public API behind one token; a decision comes in
  through it, through Slack, or from the command line. The export reads the store. After a
  crash the run manager rebuilds its runs from the store. The bootstrap builds all of it from
  the configuration, which comes from the environment and .env.

  The theories, in order, and the code they model:

  \<^item> \<open>GoPrelude\<close>: machine integers, instants, package strings. \<open>Float64\<close>: binary64 arithmetic.
    \<open>Machine\<close>: the contracts of a component whose methods run under one mutex (an invariant,
    a latch, a ledger that never falls), as locales each component interprets.
  \<^item> \<open>Governor\<close> (\<open>governor/governor.go\<close>): the record \<open>gov\<close> is the struct \<open>Run\<close>; \<open>PreStep\<close>,
    \<open>CanProceed\<close>, \<open>gov_RecordCall\<close>, \<open>Cancel\<close> and the restore options carry the Go names.
    The laws: a halt is final, the loop cap, spending stays under each ceiling that is set
    until one call passes it, the time budget is the deadline, a restored run behaves as the
    one it was saved from.
  \<^item> \<open>Pricing\<close> (\<open>pricing/pricing.go\<close>): the rate tables and \<open>Cost\<close>; the longest prefix wins,
    prices stay non-negative.
  \<^item> \<open>Glob\<close>: \<open>path.Match\<close>. \<open>Timestamp\<close>: RFC3339Nano text and its byte order. \<open>Tables\<close>: tables
    with a primary key and their upsert.
  \<^item> \<open>Storage\<close>, \<open>StorageLaws\<close> (\<open>storage/\<close>, the SQLite backend): one function per statement
    on a record of tables; integrity under any sequence of statements with any failures (no
    stored amount is a NaN, and no statement takes a recorded fact back), an approval is
    decided once, what the reports add up to.
  \<^item> \<open>Approval\<close> (\<open>approval/policy.go\<close>, \<open>approval/gate.go\<close>): the rules, the blocking and the
    polling request, and the step relation of one waiting request against concurrent
    deciders. A call is released only with the decision the store records.
  \<^item> \<open>PolicyFile\<close> (\<open>policy/policy.go\<close>, \<open>policy/dryrun.go\<close>): bundles, validation, and the dry
    run, which agrees with the governor on the same calls.
  \<^item> \<open>Runs\<close>, \<open>RunsLaws\<close> (\<open>runs/manager.go\<close>): live runs on a heap of run objects, written
    through to the store; a halted run stays halted across a restart, and what a crash at
    each point of a step restores. \<open>RunsLife\<close>: the life of a manager, an inductive relation
    over starts, creations, uses of any run, writes of others and restarts; the row of every
    live run mirrors it throughout.
  \<^item> \<open>Http\<close>, \<open>Telemetry\<close> (\<open>otel/otel.go\<close>), \<open>Mcp\<close>, \<open>McpLaws\<close> (\<open>mcp/gateway.go\<close>): header maps and
    exchanges, the attributes of the spans, and the MCP gateway: a side effect needs an
    approval, a governed call is recorded once.
  \<^item> \<open>Compliance\<close>, \<open>ComplianceLaws\<close> (\<open>audit/compliance.go\<close>): the export and its hash chain: it
    verifies, it is complete, and two logs with one head have one content.
  \<^item> \<open>Provider\<close> (\<open>provider/provider.go\<close>, \<open>stream.go\<close>, \<open>registry.go\<close>), \<open>Gateway\<close>,
    \<open>GatewayLaws\<close> (\<open>gateway/\<close>): the governed call and the streamed one; a halted run gets a
    402 and reaches no provider, the loop budget bounds the provider calls, every answered
    call is charged.

  \<^item> \<open>Postgres\<close>, \<open>PostgresLaws\<close> (\<open>storage/postgres.go\<close>): the second backend and where it
    agrees with the first: on all writes of text it accepts, and on the reads up to the scan
    order it is free to choose.
  \<^item> \<open>TimeText\<close>, \<open>Utf8\<close>, \<open>JsonText\<close>, \<open>JsonNumber\<close>: how times, text and JSON are written into
    columns and read back: \<open>parseTime\<close> inverts \<open>fmtTime\<close>, and package json's decoder inverts its
    encoder on well-formed values, floating-point numbers included. \<open>Rows\<close>, \<open>RowsLaws\<close>,
    \<open>SqlStore\<close> (\<open>storage/sqlite.go\<close>, \<open>approvals.go\<close>, \<open>checkpoints.go\<close>, \<open>policies.go\<close>, \<open>facts.go\<close>):
    the rows of the tables, their scan helpers and every statement as SQL on rows. A locale is
    the contract of a table's codec, and the record-level store of \<open>Storage\<close> is proved to be
    the abstraction: same answers, same reads, after any history of writes.
  \<^item> \<open>Strconv\<close>, \<open>Url\<close>, \<open>Paths\<close>: what is used of strconv, net/url and path/filepath.
    \<open>Identifiers\<close> (\<open>id/id.go\<close>): the UUIDs. \<open>Config\<close>, \<open>ConfigLaws\<close> (\<open>config/config.go\<close>): .env, the
    environment and every field; what loads is in range, and the environment wins.
  \<^item> \<open>Memory\<close>, \<open>MemoryLaws\<close> (\<open>memory/reader.go\<close>): the memory directory; no request reads above
    its root. \<open>Ingress\<close>, \<open>IngressLaws\<close> (\<open>otel/ingress.go\<close>): every span is accounted for, by
    a reading of the attributes stated apart from the code's.
  \<^item> \<open>Notify\<close>, \<open>NotifyLaws\<close> (\<open>approval/notifier.go\<close>, \<open>webhook.go\<close>, \<open>slack.go\<close>): the messages and
    the check of Slack's signature.
  \<^item> \<open>Api\<close>, \<open>Metrics\<close>, \<open>ApiServer\<close>, \<open>ApiLaws\<close> (\<open>httpapi/\<close>, \<open>httpx/\<close>): the handlers, the metrics
    text, the table of routes, the token and the dispatch. Nothing happens without the token,
    a request has one handler, the kill switch stops a run's loop, a decision posted on a run
    is about that run.
  \<^item> \<open>Vendors\<close>, \<open>Bedrock\<close>, \<open>VendorsLaws\<close> (\<open>provider/openai.go\<close>, \<open>anthropic.go\<close>, \<open>ollama.go\<close>,
    \<open>bedrock.go\<close>, \<open>sigv4.go\<close>): the request each vendor is sent, the reading of its answer, the
    metering of its stream, the signature. Every vendor gets the same conversation; a stream
    of OpenAI's or of Anthropic's is forwarded byte for byte, each metered by its own events.
  \<^item> \<open>Bootstrap\<close>, \<open>BootstrapLaws\<close> (\<open>app/bootstrap.go\<close>, the opening of the stores, \<open>otel.New\<close>):
    a daemon nobody configured has the safe budget and the safe gate, a policy file is
    registered whole.
  \<^item> \<open>Terminal\<close>, \<open>CliStore\<close>, \<open>CliDaemon\<close>, \<open>CliMain\<close> (\<open>cmd/riskkernel\<close>, \<open>version/\<close>): printing and
    tables, the commands on the local store, those on the running daemon and \<open>doctor\<close>, and the
    dispatch with \<open>init\<close>, \<open>chat\<close> and \<open>completion\<close>. \<open>CliLaws\<close>: \<open>init\<close> never overwrites, what
    \<open>doctor\<close> and \<open>runs resume\<close> say compared with what the daemon does. \<open>Wire\<close>: the way of a
    request through net/url, the client, the request line and \<open>ServeMux\<close>, refusals and
    redirects included. \<open>CliApprovals\<close>: the command line against the modelled server: a
    decision reaches the row it names, and how a run's id can redirect it.
  \<^item> \<open>Lifecycle\<close> (\<open>Server.Serve\<close>, \<open>Deps.Close\<close>, the timeouts): serving and shutting down as a
    step relation: it ends, leaks no goroutine, and ends without an error only after a signal.

  Conventions. A method of an object under a mutex is a function from its state to its
  state and answer, so a sequence of calls is an interleaving of concurrent callers; where
  the code releases its lock between a read and a write, the pieces are separate
  definitions. A pointer is an address in an explicit heap. An error is the left of a sum or
  None. Integers are words at the width the code gives them. There is no fuel: every
  function is total, and a loop of the code is a recursion with a termination proof; the JSON
  decoder recurses as long as its rest is shorter, which \<open>read_shorter\<close> shows it always is.

  What is not under \<open>src/\<close> is an argument: the clock, the source of identifiers, the decoding
  of request bodies and configuration files into their Go types, SHA-256, the providers' answers, the network, the failures of
  the database, and what other requests do while one waits. A property that needs a law of
  such an argument names it as a hypothesis (that digests do not collide, that distinct
  events have distinct encodings) and has a witness with a concrete function.

  Not modelled: sockets and the drivers' own closing; the pool's settings; logging and the
  static usage texts; the redirects \<open>ServeMux\<close> makes to a clean path, except for the command
  line's requests (\<open>Wire\<close>), where \<open>dispatch\<close> is given the clean one; the web console, the embedded pages and the SDKs in other languages. Handlers of the
  public API run one after the other. The graph of \<open>Bootstrap\<close> runs on the SQLite model
  whichever backend is opened; \<open>PostgresLaws\<close> says where that is exact. The clock of a command
  or handler is read once.
\<close>

end
